(* ===== verification/Js_Prelude.thy ===== *)
theory Js_Prelude
  imports Complex_Main "HOL-Library.Multiset" "HOL-Library.Sublist"
begin

text \<open>
  The shared vocabulary of the development: the JavaScript/TypeScript operations the sources
  use on arrays, optional values and strings, with the lemmas every component needs about
  them, and the interfaces (locales) that several components implement.

  Conventions.  An optional property (\<open>x?: T\<close>, \<open>T | undefined\<close>) is an \<open>option\<close>; an
  optional nullable one (\<open>x?: T | null\<close>) is an \<open>option option\<close>, with \<open>None\<close> for
  \<open>undefined\<close> and \<open>Some None\<close> for \<open>null\<close>.  A string is a \<open>string\<close> of HOL: a sequence
  of code units, each in the range 0-255, so case conversion and white space are those of
  that range.
\<close>

named_theorems js_simps \<open>equations of the JavaScript array and string operations\<close>
named_theorems leaf_simps \<open>what the pane layout operations do to the sequence of leaves\<close>
named_theorems inv_intros \<open>preservation of a component's invariant by its operations\<close>

section \<open>Optional values\<close>

text \<open>\<open>a ?? b\<close>, and the truthiness of an optional string.\<close>

definition nullish :: "'a option \<Rightarrow> 'a \<Rightarrow> 'a" where
  "nullish a b = (case a of None \<Rightarrow> b | Some x \<Rightarrow> x)"

lemma nullish_simps [simp]: "nullish None b = b" "nullish (Some x) b = x"
  by (simp_all add: nullish_def)

definition nullish_opt :: "'a option \<Rightarrow> 'a option \<Rightarrow> 'a option" where
  "nullish_opt a b = (case a of None \<Rightarrow> b | Some x \<Rightarrow> Some x)"

lemma nullish_opt_simps [simp]: "nullish_opt None b = b" "nullish_opt (Some x) b = Some x"
  by (simp_all add: nullish_opt_def)

definition truthy_str :: "string option \<Rightarrow> bool" where
  "truthy_str s = (case s of None \<Rightarrow> False | Some t \<Rightarrow> t \<noteq> [])"

lemma truthy_str_simps [simp]:
  "\<not> truthy_str None" "truthy_str (Some t) \<longleftrightarrow> t \<noteq> []"
  by (simp_all add: truthy_str_def)

section \<open>Arrays\<close>

text \<open>\<open>xs[i]\<close> for an index that may be out of range: \<open>None\<close> is \<open>undefined\<close>.\<close>

definition js_nth :: "'a list \<Rightarrow> int \<Rightarrow> 'a option" where
  "js_nth xs i = (if 0 \<le> i \<and> i < int (length xs) then Some (xs ! nat i) else None)"

lemma js_nth_nat: "i < length xs \<Longrightarrow> js_nth xs (int i) = Some (xs ! i)"
  by (simp add: js_nth_def)

lemma js_nth_SomeD: "js_nth xs i = Some x \<Longrightarrow> x \<in> set xs"
  by (auto simp: js_nth_def split: if_splits)

text \<open>\<open>xs.filter(Boolean)\<close> on an array of optional values.\<close>

fun js_compact :: "'a option list \<Rightarrow> 'a list" where
  "js_compact [] = []"
| "js_compact (None # xs) = js_compact xs"
| "js_compact (Some x # xs) = x # js_compact xs"

lemma js_compact_append [simp]: "js_compact (xs @ ys) = js_compact xs @ js_compact ys"
  by (induction xs rule: js_compact.induct) auto

lemma set_js_compact: "set (js_compact xs) = {x. Some x \<in> set xs}"
  by (induction xs rule: js_compact.induct) auto

lemma set_js_compact_map: "set (js_compact (map f xs)) = {y. \<exists>x \<in> set xs. f x = Some y}"
  by (induction xs) (auto simp: set_js_compact)

lemma js_compact_map_Some [simp]: "js_compact (map Some xs) = xs"
  by (induction xs) auto

lemma js_compact_Nil_iff: "js_compact xs = [] \<longleftrightarrow> (\<forall>x \<in> set xs. x = None)"
  by (induction xs rule: js_compact.induct) auto

text \<open>\<open>xs.findIndex(p)\<close>, with \<open>None\<close> for \<open>-1\<close>.\<close>

fun find_index :: "('a \<Rightarrow> bool) \<Rightarrow> 'a list \<Rightarrow> nat option" where
  "find_index p [] = None"
| "find_index p (x # xs) = (if p x then Some 0 else map_option Suc (find_index p xs))"

lemma find_index_None: "find_index p xs = None \<longleftrightarrow> (\<forall>x \<in> set xs. \<not> p x)"
  by (induction xs) auto

lemma find_index_SomeD:
  "find_index p xs = Some i \<Longrightarrow> i < length xs \<and> p (xs ! i) \<and> (\<forall>j < i. \<not> p (xs ! j))"
proof (induction xs arbitrary: i)
  case Nil
  then show ?case by simp
next
  case (Cons x xs)
  show ?case
  proof (cases "p x")
    case True
    with Cons.prems show ?thesis by auto
  next
    case False
    with Cons.prems obtain k where k: "find_index p xs = Some k" "i = Suc k" by auto
    from Cons.IH [OF k(1)] False k(2) show ?thesis
      by (auto simp: nth_Cons split: nat.splits)
  qed
qed

text \<open>\<open>xs.splice(i, 0, x)\<close> and \<open>xs.splice(i, 1)\<close> on a copy, for \<open>0 \<le> i\<close>.\<close>

definition insert_at :: "nat \<Rightarrow> 'a \<Rightarrow> 'a list \<Rightarrow> 'a list" where
  "insert_at i x xs = take i xs @ x # drop i xs"

definition remove_at :: "nat \<Rightarrow> 'a list \<Rightarrow> 'a list" where
  "remove_at i xs = take i xs @ drop (Suc i) xs"

lemma mset_insert_at [js_simps]: "mset (insert_at i x xs) = add_mset x (mset xs)"
proof -
  have "mset (take i xs) + mset (drop i xs) = mset xs"
    by (metis append_take_drop_id mset_append)
  then show ?thesis by (simp add: insert_at_def)
qed

lemma set_insert_at [js_simps]: "set (insert_at i x xs) = insert x (set xs)"
  using arg_cong [OF mset_insert_at, of set_mset i x xs] by simp

lemma mset_remove_at [js_simps]:
  "i < length xs \<Longrightarrow> add_mset (xs ! i) (mset (remove_at i xs)) = mset xs"
proof -
  assume i: "i < length xs"
  have "mset xs = mset (take i xs @ xs ! i # drop (Suc i) xs)"
    using i by (simp add: id_take_nth_drop [symmetric])
  then show ?thesis by (simp add: remove_at_def)
qed

lemma length_insert_at [simp]: "length (insert_at i x xs) = Suc (length xs)"
  by (simp add: insert_at_def)

lemma insert_at_Cons [simp]:
  "insert_at 0 x xs = x # xs" "insert_at (Suc i) x (y # ys) = y # insert_at i x ys"
  by (simp_all add: insert_at_def)

lemma map_insert_at: "map f (insert_at i x xs) = insert_at i (f x) (map f xs)"
  by (simp add: insert_at_def take_map drop_map)

lemma map_remove_at: "map f (remove_at i xs) = remove_at i (map f xs)"
  by (simp add: remove_at_def take_map drop_map)

text \<open>\<open>xs.map(x => x.id === k ? f(x) : x)\<close>, the in-place edit the stores are written with.\<close>

definition map_where :: "('a \<Rightarrow> bool) \<Rightarrow> ('a \<Rightarrow> 'a) \<Rightarrow> 'a list \<Rightarrow> 'a list" where
  "map_where p f xs = map (\<lambda>x. if p x then f x else x) xs"

lemma length_map_where [simp]: "length (map_where p f xs) = length xs"
  by (simp add: map_where_def)

lemma map_map_where:
  "(\<And>x. p x \<Longrightarrow> g (f x) = g x) \<Longrightarrow> map g (map_where p f xs) = map g xs"
  by (simp add: map_where_def)

lemma find_Some_iff_unique:
  "distinct (map k xs) \<Longrightarrow> x \<in> set xs \<Longrightarrow> find (\<lambda>y. k y = k x) xs = Some x"
  by (induction xs) (auto simp: image_iff)

lemma find_SomeD: "find p xs = Some x \<Longrightarrow> p x \<and> x \<in> set xs"
  by (induction xs) (auto split: if_splits)

text \<open>\<open>[...new Set(xs)]\<close>: the first occurrence of each value, in order.\<close>

fun dedup_from :: "'a list \<Rightarrow> 'a list \<Rightarrow> 'a list" where
  "dedup_from seen [] = []"
| "dedup_from seen (x # xs) =
     (if x \<in> set seen then dedup_from seen xs else x # dedup_from (x # seen) xs)"

definition dedup :: "'a list \<Rightarrow> 'a list" where
  "dedup xs = dedup_from [] xs"

lemma set_dedup_from: "set (dedup_from seen xs) = set xs - set seen"
  by (induction seen xs rule: dedup_from.induct) auto

lemma distinct_dedup_from: "distinct (dedup_from seen xs)"
  by (induction seen xs rule: dedup_from.induct) (auto simp: set_dedup_from)

lemma set_dedup [simp]: "set (dedup xs) = set xs"
  by (simp add: dedup_def set_dedup_from)

lemma distinct_dedup [simp]: "distinct (dedup xs)"
  by (simp add: dedup_def distinct_dedup_from)

lemma dedup_from_distinct:
  "distinct xs \<Longrightarrow> set xs \<inter> set seen = {} \<Longrightarrow> dedup_from seen xs = xs"
  by (induction seen xs rule: dedup_from.induct) auto

lemma dedup_distinct: "distinct xs \<Longrightarrow> dedup xs = xs"
  by (simp add: dedup_def dedup_from_distinct)

text \<open>The last \<open>n\<close> entries: what a capped log or ring keeps.\<close>

definition take_last :: "nat \<Rightarrow> 'a list \<Rightarrow> 'a list" where
  "take_last n xs = drop (length xs - n) xs"

lemma length_take_last [simp]: "length (take_last n xs) = min n (length xs)"
  by (simp add: take_last_def)

lemma take_last_all: "length xs \<le> n \<Longrightarrow> take_last n xs = xs"
  by (simp add: take_last_def)

lemma take_last_append: "take_last n (take_last n xs @ ys) = take_last n (xs @ ys)"
proof (cases "length xs \<le> n")
  case True
  then show ?thesis by (simp add: take_last_all)
next
  case False
  let ?k = "length xs - n"
  have "n + length ys - n + ?k = length xs + length ys - n" using False by simp
  then have "drop (length ys) (drop ?k xs @ ys) = drop (length xs + length ys - n) (xs @ ys)"
    using False by (simp add: add.commute)
  then show ?thesis using False by (simp add: take_last_def)
qed

section \<open>Strings\<close>

definition to_lower_char :: "char \<Rightarrow> char" where
  "to_lower_char c =
     (let n = of_char c :: nat
      in if 65 \<le> n \<and> n \<le> 90 \<or> 192 \<le> n \<and> n \<le> 222 \<and> n \<noteq> 215 then char_of (n + 32) else c)"

definition to_lower :: "string \<Rightarrow> string" where
  "to_lower s = map to_lower_char s"

text \<open>The characters \<open>String.prototype.trim\<close> removes and \<open>\s\<close> matches.\<close>

definition is_space :: "char \<Rightarrow> bool" where
  "is_space c = (of_char c \<in> {9, 10, 11, 12, 13, 32, 160 :: nat})"

definition trim_start :: "string \<Rightarrow> string" where
  "trim_start s = dropWhile is_space s"

definition trim :: "string \<Rightarrow> string" where
  "trim s = rev (dropWhile is_space (rev (dropWhile is_space s)))"

lemma dropWhile_idem: "dropWhile p (dropWhile p xs) = dropWhile p xs"
  by (induction xs) auto

lemma hd_dropWhile_suffix:
  "xs = dropWhile p xs \<Longrightarrow> xs \<noteq> [] \<Longrightarrow> \<not> p (hd xs)"
  by (metis hd_dropWhile)

lemma dropWhile_rev_dropWhile:
  assumes "dropWhile p xs = xs"
  shows "dropWhile p (rev (dropWhile p (rev xs))) = rev (dropWhile p (rev xs))"
proof (cases "dropWhile p (rev xs)")
  case Nil
  show ?thesis unfolding Nil by simp
next
  case (Cons y ys)
  let ?s = "dropWhile p (rev xs)"
  have ne: "xs \<noteq> []" using Cons by auto
  have "rev xs = takeWhile p (rev xs) @ ?s" by simp
  then have "xs = rev ?s @ rev (takeWhile p (rev xs))"
    by (metis rev_append rev_rev_ident)
  moreover have "rev ?s \<noteq> []" using Cons by simp
  ultimately have "hd xs = hd (rev ?s)" by (metis hd_append2)
  moreover have "\<not> p (hd xs)" using assms ne by (metis hd_dropWhile)
  ultimately have "\<not> p (hd (rev ?s))" by simp
  moreover have "dropWhile p ys' = ys'" if "\<not> p (hd ys')" "ys' \<noteq> []" for ys'
    using that by (cases ys') auto
  ultimately show ?thesis using \<open>rev ?s \<noteq> []\<close> by blast
qed

lemma trim_idem [simp]: "trim (trim s) = trim s"
proof -
  have "dropWhile is_space (trim s) = trim s"
    unfolding trim_def by (rule dropWhile_rev_dropWhile) (rule dropWhile_idem)
  then show ?thesis by (simp add: trim_def dropWhile_idem)
qed

text \<open>\<open>s.includes(q)\<close>, \<open>s.startsWith(q)\<close> and \<open>xs.join(sep)\<close>.\<close>

definition str_includes :: "string \<Rightarrow> string \<Rightarrow> bool" where
  "str_includes s q = sublist q s"

definition starts_with :: "string \<Rightarrow> string \<Rightarrow> bool" where
  "starts_with s q = prefix q s"

fun join_with :: "string \<Rightarrow> string list \<Rightarrow> string" where
  "join_with sep [] = []"
| "join_with sep [x] = x"
| "join_with sep (x # y # ys) = x @ sep @ join_with sep (y # ys)"

lemma str_includes_Nil [simp]: "str_includes s []"
  by (simp add: str_includes_def)

text \<open>\<open>s.split(sep)\<close> for a one-character separator.\<close>

fun split_on :: "char \<Rightarrow> string \<Rightarrow> string list" where
  "split_on c [] = [[]]"
| "split_on c (x # xs) =
     (if x = c then [] # split_on c xs
      else (case split_on c xs of [] \<Rightarrow> [[x]] | y # ys \<Rightarrow> (x # y) # ys))"

lemma split_on_not_Nil [simp]: "split_on c s \<noteq> []"
  by (induction s) (auto split: list.splits)

lemma split_on_no_sep: "c \<notin> set s \<Longrightarrow> split_on c s = [s]"
  by (induction s) auto

lemma split_on_append_sep:
  "c \<notin> set s \<Longrightarrow> split_on c (s @ c # t) = s # split_on c t"
  by (induction s) auto

lemma split_on_join:
  "xs \<noteq> [] \<Longrightarrow> (\<And>x. x \<in> set xs \<Longrightarrow> c \<notin> set x) \<Longrightarrow> split_on c (join_with [c] xs) = xs"
proof (induction "[c]" xs rule: join_with.induct)
  case (3 x y ys)
  then have "split_on c (join_with [c] (y # ys)) = y # ys" by simp
  moreover have "c \<notin> set x" using 3 by simp
  ultimately show ?case by (simp add: split_on_append_sep)
qed (auto simp: split_on_no_sep)

text \<open>\<open>String(n)\<close> for a natural number and an integer, and \<open>s.padStart(w, "0")\<close>.\<close>

definition digit_char :: "nat \<Rightarrow> char" where
  "digit_char d = char_of (48 + d)"

fun nat_string :: "nat \<Rightarrow> string" where
  "nat_string n =
     (if n < 10 then [digit_char n] else nat_string (n div 10) @ [digit_char (n mod 10)])"

declare nat_string.simps [simp del]

definition int_string :: "int \<Rightarrow> string" where
  "int_string i = (if i < 0 then ''-'' @ nat_string (nat (- i)) else nat_string (nat i))"

definition pad_start :: "nat \<Rightarrow> char \<Rightarrow> string \<Rightarrow> string" where
  "pad_start w c s = replicate (w - length s) c @ s"

definition is_digit :: "char \<Rightarrow> bool" where
  "is_digit c = (48 \<le> (of_char c :: nat) \<and> (of_char c :: nat) \<le> 57)"

definition digit_val :: "char \<Rightarrow> nat" where
  "digit_val c = of_char c - 48"

text \<open>The value of a string of decimal digits.\<close>

definition digits_value :: "string \<Rightarrow> nat" where
  "digits_value s = foldl (\<lambda>v c. 10 * v + digit_val c) 0 s"

lemma is_digit_digit_char [simp]: "d < 10 \<Longrightarrow> is_digit (digit_char d)"
  by (simp add: is_digit_def digit_char_def)

lemma digit_val_digit_char [simp]: "d < 10 \<Longrightarrow> digit_val (digit_char d) = d"
  by (simp add: digit_val_def digit_char_def)

lemma nat_string_digits: "c \<in> set (nat_string n) \<Longrightarrow> is_digit c"
  by (induction n rule: nat_string.induct) (subst (asm) (2) nat_string.simps, auto split: if_splits)

lemma nat_string_not_Nil [simp]: "nat_string n \<noteq> []"
  by (subst nat_string.simps) simp

lemma digits_value_append_digit:
  "digits_value (s @ [c]) = 10 * digits_value s + digit_val c"
  by (simp add: digits_value_def)

lemma digits_value_nat_string [simp]: "digits_value (nat_string n) = n"
proof (induction n rule: nat_string.induct)
  case (1 n)
  show ?case
  proof (cases "n < 10")
    case True
    then show ?thesis by (subst nat_string.simps) (simp add: digits_value_def)
  next
    case False
    then show ?thesis using 1
      by (subst nat_string.simps) (simp add: digits_value_append_digit)
  qed
qed

lemma nat_string_inj: "nat_string m = nat_string n \<longleftrightarrow> m = n"
  by (metis digits_value_nat_string)

section \<open>Values of unknown shape\<close>

text \<open>What \<open>JSON.parse\<close> returns, and what an option object the model only carries around holds.\<close>

datatype json =
    JNull
  | JBool bool
  | JNum rat
  | JStr string
  | JArr "json list"
  | JObj "(string \<times> json) list"

text \<open>A property of a parsed object; \<open>None\<close> is \<open>undefined\<close>.  A duplicate key keeps its last value.\<close>

fun json_get :: "json \<Rightarrow> string \<Rightarrow> json option" where
  "json_get (JObj ps) k = map_of (rev ps) k"
| "json_get _ k = None"

definition is_jstr :: "json option \<Rightarrow> bool" where
  "is_jstr v = (case v of Some (JStr _) \<Rightarrow> True | _ \<Rightarrow> False)"

definition is_jbool :: "json option \<Rightarrow> bool" where
  "is_jbool v = (case v of Some (JBool _) \<Rightarrow> True | _ \<Rightarrow> False)"

definition the_jstr :: "json option \<Rightarrow> string" where
  "the_jstr v = (case v of Some (JStr s) \<Rightarrow> s | _ \<Rightarrow> [])"

definition the_jbool :: "json option \<Rightarrow> bool" where
  "the_jbool v = (case v of Some (JBool b) \<Rightarrow> b | _ \<Rightarrow> False)"

section \<open>Integer square root\<close>

text \<open>\<open>Math.floor(Math.sqrt(n))\<close>, exact for every array length.\<close>

fun isqrt :: "nat \<Rightarrow> nat" where
  "isqrt 0 = 0"
| "isqrt (Suc n) = (let r = isqrt n in if (r + 1) * (r + 1) \<le> Suc n then r + 1 else r)"

lemma isqrt_bounds: "isqrt n * isqrt n \<le> n \<and> n < (isqrt n + 1) * (isqrt n + 1)"
  by (induction n) (auto simp: Let_def)

lemma isqrt_le: "isqrt n \<le> n"
  using isqrt_bounds [of n] by (metis le_square le_trans)

end
