(* ===== verification/Interfaces.thy ===== *)
theory Interfaces
  imports Js_Prelude
begin

text \<open>
  The interfaces the components implement, as locales: a representation with a partial
  decoder (\<open>codec\<close>), a rearrangement of a list (\<open>rearrangement\<close>), a state machine with
  an invariant (\<open>machine\<close>), the refinement of an abstract machine (\<open>simulation\<close>) and keyed
  storage (\<open>keyed_store\<close>).  Each states the laws its client relies on and proves the client's
  consequences once; the theory of every component that provides the operations
  interprets the locale on them.
\<close>

section \<open>Encoders and decoders\<close>

locale codec =
  fixes enc :: "'a \<Rightarrow> 'b"
    and dec :: "'b \<Rightarrow> 'a option"
    and valid :: "'a \<Rightarrow> bool"
  assumes dec_enc: "valid x \<Longrightarrow> dec (enc x) = Some x"
begin

lemma enc_inj: "valid x \<Longrightarrow> valid y \<Longrightarrow> enc x = enc y \<Longrightarrow> x = y"
  by (metis dec_enc option.inject)

lemma enc_inj_on: "inj_on enc {x. valid x}"
  by (auto intro!: inj_onI enc_inj)

lemma dec_map_enc: "(\<And>x. x \<in> set xs \<Longrightarrow> valid x) \<Longrightarrow> map dec (map enc xs) = map Some xs"
  by (simp add: dec_enc)

end

section \<open>Rearrangements of a list\<close>

text \<open>
  A user-visible reordering (tabs, commands, rail entries) never loses, duplicates or
  invents an entry.
\<close>

locale rearrangement =
  fixes rearrange :: "'i \<Rightarrow> 'a list \<Rightarrow> 'a list"
  assumes rearrange_mset: "mset (rearrange i xs) = mset xs"
begin

lemma rearrange_set: "set (rearrange i xs) = set xs"
  by (metis rearrange_mset set_mset_mset)

lemma rearrange_length: "length (rearrange i xs) = length xs"
  by (metis rearrange_mset size_mset)

lemma rearrange_distinct: "distinct (rearrange i xs) \<longleftrightarrow> distinct xs"
  by (metis rearrange_mset mset_eq_imp_distinct_iff)

lemma rearrange_distinct_keys: "distinct (map k (rearrange i xs)) \<longleftrightarrow> distinct (map k xs)"
  by (metis rearrange_mset mset_map mset_eq_imp_distinct_iff)

lemma rearrange_filter: "mset (filter p (rearrange i xs)) = mset (filter p xs)"
  by (simp add: mset_filter rearrange_mset)

end

section \<open>State machines with an invariant\<close>

text \<open>
  A machine with an environment condition: which events may occur in which state.  The
  invariant is claimed along the runs whose every event is allowed where it occurs.
\<close>

primrec run_allowed :: "('e \<Rightarrow> 's \<Rightarrow> bool) \<Rightarrow> ('e \<Rightarrow> 's \<Rightarrow> 's) \<Rightarrow> 'e list \<Rightarrow> 's \<Rightarrow> bool" where
  "run_allowed allowed step [] s = True"
| "run_allowed allowed step (e # es) s = (allowed e s \<and> run_allowed allowed step es (step e s))"

locale machine =
  fixes step :: "'e \<Rightarrow> 's \<Rightarrow> 's"
    and inv :: "'s \<Rightarrow> bool"
    and allowed :: "'e \<Rightarrow> 's \<Rightarrow> bool"
  assumes step_inv: "inv s \<Longrightarrow> allowed e s \<Longrightarrow> inv (step e s)"
begin

lemma run_inv: "inv s \<Longrightarrow> run_allowed allowed step es s \<Longrightarrow> inv (fold step es s)"
  by (induction es arbitrary: s) (auto intro: step_inv)

lemma run_always: "inv s \<Longrightarrow> (\<And>e s. inv s \<Longrightarrow> allowed e s) \<Longrightarrow> inv (fold step es s)"
  by (induction es arbitrary: s) (auto intro: step_inv)

end

text \<open>A machine whose steps also never decrease a ranking (a counter, a set of finished items).\<close>

locale progress_machine = machine step inv allowed
  for step :: "'e \<Rightarrow> 's \<Rightarrow> 's" and inv :: "'s \<Rightarrow> bool" and allowed :: "'e \<Rightarrow> 's \<Rightarrow> bool" +
  fixes rank :: "'s \<Rightarrow> nat"
  assumes step_rank: "inv s \<Longrightarrow> allowed e s \<Longrightarrow> rank s \<le> rank (step e s)"
begin

lemma run_rank: "inv s \<Longrightarrow> run_allowed allowed step es s \<Longrightarrow> rank s \<le> rank (fold step es s)"
proof (induction es arbitrary: s)
  case Nil
  then show ?case by simp
next
  case (Cons e es)
  have "rank s \<le> rank (step e s)" using Cons.prems by (auto intro: step_rank)
  also have "\<dots> \<le> rank (fold step es (step e s))"
    using Cons.prems by (intro Cons.IH) (auto intro: step_inv)
  finally show ?case by simp
qed

end

section \<open>Refinement of an abstract machine\<close>

text \<open>
  A machine that implements an abstract one: from related states every allowed event leads to
  related states, so a whole run does.
\<close>

locale simulation =
  fixes cstep :: "'e \<Rightarrow> 'c \<Rightarrow> 'c"
    and astep :: "'e \<Rightarrow> 'a \<Rightarrow> 'a"
    and related :: "'c \<Rightarrow> 'a \<Rightarrow> bool"
    and allowed :: "'e \<Rightarrow> 'c \<Rightarrow> bool"
  assumes step_related: "related c a \<Longrightarrow> allowed e c \<Longrightarrow> related (cstep e c) (astep e a)"
begin

lemma run_related:
  "related c a \<Longrightarrow> run_allowed allowed cstep es c \<Longrightarrow> related (fold cstep es c) (fold astep es a)"
  by (induction es arbitrary: c a) (auto intro: step_related)

end

section \<open>Keyed storage\<close>

text \<open>
  Persistent state read and written one key at a time: what was written last under a key is
  read back when the store took the write, a refused write changes nothing, and no other
  key is disturbed.
\<close>

locale keyed_store =
  fixes get :: "'k \<Rightarrow> 's \<Rightarrow> 'v"
    and put :: "'k \<Rightarrow> 'v \<Rightarrow> 's \<Rightarrow> 's"
    and storable :: "'v \<Rightarrow> bool"
    and takes :: "'s \<Rightarrow> bool"
  assumes get_put_same: "storable v \<Longrightarrow> takes s \<Longrightarrow> get k (put k v s) = v"
    and get_put_other: "k' \<noteq> k \<Longrightarrow> get k' (put k v s) = get k' s"
    and get_put_refused: "\<not> takes s \<Longrightarrow> get k' (put k v s) = get k' s"
begin

lemma get_put:
  "storable v \<Longrightarrow> get k' (put k v s) = (if k' = k \<and> takes s then v else get k' s)"
  by (cases "takes s") (simp_all add: get_put_same get_put_other get_put_refused)

lemma get_put_put:
  "storable w \<Longrightarrow> takes (put k v s)
    \<Longrightarrow> get k' (put k w (put k v s)) = (if k' = k then w else get k' s)"
  by (simp add: get_put get_put_other)

lemma get_fold_put_notin:
  "k \<notin> fst ` set kvs \<Longrightarrow> get k (fold (\<lambda>(j, v). put j v) kvs s) = get k s"
  by (induction kvs arbitrary: s) (auto simp: get_put_other)

end

end
