(* ===== verification/Workspace_Types.thy ===== *)
theory Workspace_Types
  imports Interfaces
begin

text \<open>
  The data model of the Workspace, from \<open>src/types.ts\<close>: Connections and their folders,
  Panes, the layout tree of a Tab, Tabs, saved child Connections and Quick Commands.  Every
  interface is a record with the source's properties; a discriminated union is a datatype.
  Option objects that no modelled operation looks into (RDP, VNC and cloud storage options,
  backgrounds, file browser view options) are carried as \<open>json\<close>.
\<close>

section \<open>Connections\<close>

datatype connection_type =
    CLocal | CSsh | CTelnet | CSerial | CUrl | CRdp | CVnc | CFtp | CLocalFiles | CFileView
  | CCloudStorage

datatype connection_status = Connected | Idle | Offline

datatype ssh_auth_method = KeyFile | Password | Agent
datatype ssh_compression_mode = CompressionOff | CompressionFast
datatype ssh_old_protocols_mode = OldOff | OldLegacy
datatype ssh_port_forward_mode = ForwardL | ForwardR | ForwardD

record ssh_port_forwarding =
  fwd_id :: string
  fwd_mode :: ssh_port_forward_mode
  fwd_enabled :: bool
  fwd_bind :: string
  fwd_listenPort :: int
  fwd_destHost :: "string option"
  fwd_destPort :: "int option"

datatype ftp_protocol = ProtoSftp | ProtoFtp | ProtoFtps
datatype ftp_tls_mode = TlsExplicit | TlsImplicit
datatype ftp_connection_mode = FtpPassive | FtpActive
datatype ftp_transfer_type = FtpBinary | FtpAscii

record ftp_connection_options =
  ftp_protocol_of :: ftp_protocol
  ftp_mode :: ftp_connection_mode
  ftp_tlsMode :: "ftp_tls_mode option"
  ftp_transferType :: ftp_transfer_type
  ftp_utf8 :: bool
  ftp_showHidden :: bool
  ftp_connectTimeoutSecs :: "int option"
  ftp_ignoreCertErrors :: bool
  ftp_keepaliveSecs :: "int option"
  ftp_localPath :: "string option"
  ftp_remotePath :: "string option"

record connection =
  conn_id :: string
  conn_name :: string
  tabTitle :: "string option option"
  host :: string
  user :: string
  port :: "int option"
  keyPath :: "string option"
  proxyJump :: "string option"
  sshSocksProxy :: "string option"
  sshSocksProxyUsername :: "string option"
  sshSocksProxyInheritDefaults :: "bool option"
  sshCompression :: "ssh_compression_mode option"
  sshOldProtocols :: "ssh_old_protocols_mode option"
  authMethod :: "ssh_auth_method option"
  hasPassword :: "bool option"
  localShell :: "string option"
  localStartupDirectory :: "string option"
  localStartupScript :: "string option"
  serialLine :: "string option"
  serialSpeed :: "int option"
  conn_url :: "string option"
  conn_dataPartition :: "string option"
  urlUserAgent :: "string option"
  urlProxy :: "string option"
  urlProxyInheritDefaults :: "bool option"
  useTmuxSessions :: "bool option"
  usePsmuxSessions :: "bool option"
  tmuxConnectionId :: "string option"
  passwordCredentialId :: "string option option"
  urlCredentialUsername :: "string option"
  hasUrlCredential :: "bool option"
  iconColor :: "string option option"
  iconDataUrl :: "string option option"
  iconBackgroundColor :: "string option option"
  terminalOpacity :: "rat option option"
  conn_terminalBackground :: "json option option"
  terminalColorScheme :: "string option option"
  terminalSyntaxHighlightProfileId :: "string option option"
  fileBrowserViewOptions :: "json option option"
  sshPortForwardings :: "ssh_port_forwarding list option option"
  fileViewOpenExternal :: "bool option"
  rdpOptions :: "json option"
  vncOptions :: "json option"
  ftpOptions :: "ftp_connection_options option"
  cloudStorageOptions :: "json option"
  conn_type :: connection_type
  status :: connection_status

text \<open>A Connection with only the required properties; the optional ones are \<open>undefined\<close>.\<close>

definition mk_connection :: "string \<Rightarrow> string \<Rightarrow> string \<Rightarrow> string \<Rightarrow> connection_type \<Rightarrow> connection" where
  "mk_connection i n h u ty =
    \<lparr> conn_id = i, conn_name = n, tabTitle = None, host = h, user = u, port = None,
      keyPath = None, proxyJump = None, sshSocksProxy = None, sshSocksProxyUsername = None,
      sshSocksProxyInheritDefaults = None, sshCompression = None, sshOldProtocols = None,
      authMethod = None, hasPassword = None, localShell = None, localStartupDirectory = None,
      localStartupScript = None, serialLine = None, serialSpeed = None, conn_url = None,
      conn_dataPartition = None, urlUserAgent = None, urlProxy = None,
      urlProxyInheritDefaults = None, useTmuxSessions = None, usePsmuxSessions = None,
      tmuxConnectionId = None, passwordCredentialId = None, urlCredentialUsername = None,
      hasUrlCredential = None, iconColor = None, iconDataUrl = None,
      iconBackgroundColor = None, terminalOpacity = None, conn_terminalBackground = None,
      terminalColorScheme = None, terminalSyntaxHighlightProfileId = None,
      fileBrowserViewOptions = None, sshPortForwardings = None, fileViewOpenExternal = None,
      rdpOptions = None, vncOptions = None, ftpOptions = None, cloudStorageOptions = None,
      conn_type = ty, status = Idle \<rparr>"

lemma mk_connection_simps [simp]:
  "conn_id (mk_connection i n h u ty) = i" "conn_name (mk_connection i n h u ty) = n"
  "host (mk_connection i n h u ty) = h" "user (mk_connection i n h u ty) = u"
  "conn_type (mk_connection i n h u ty) = ty" "status (mk_connection i n h u ty) = Idle"
  by (simp_all add: mk_connection_def)

datatype connection_folder =
  ConnectionFolder (folder_id: string) (folder_name: string)
    (folder_iconDataUrl: "string option option")
    (folder_connections: "connection list") (folder_folders: "connection_folder list")

record connection_tree =
  tree_connections :: "connection list"
  tree_folders :: "connection_folder list"

section \<open>Panes\<close>

datatype x11_status = X11Disabled | X11Enabled | X11Rejected

record terminal_pane =
  tp_kind :: bool \<comment> \<open>whether the optional property \<open>kind: "terminal"\<close> is present\<close>
  tp_id :: string
  tp_childConnectionId :: "string option"
  tp_title :: string
  tp_toolbarTitle :: "string option"
  cwd :: string
  buffer :: string
  tp_connection :: "connection option"
  fontSize :: "rat option"
  textEncoding :: "string option"
  tp_terminalBackground :: "json option option"
  tmuxSessionId :: "string option"
  tmuxUnavailable :: "bool option"
  x11ForwardingStatus :: "x11_status option"
  sshPortForwardFailures :: "string list option"

record url_pane =
  up_id :: string
  up_childConnectionId :: "string option"
  up_title :: string
  up_toolbarTitle :: "string option"
  up_connection :: connection
  up_url :: string
  up_dataPartition :: "string option"
  up_sshPortForwardSessionId :: "string option"
  up_sshPortForwardRemotePort :: "int option"

record remote_desktop_pane =
  rdpStartupFullscreen :: "bool option"
  rp_id :: string
  rp_childConnectionId :: "string option"
  rp_title :: string
  rp_toolbarTitle :: "string option"
  rp_connection :: connection

datatype file_browser_kind = FbSftp | FbFtp | FbLocalFiles | FbCloudStorage

record file_browser_pane =
  fp_kind :: file_browser_kind
  fp_id :: string
  fp_childConnectionId :: "string option"
  fp_title :: string
  fp_toolbarTitle :: "string option"
  fp_connection :: connection

record file_viewer_pane =
  vp_id :: string
  vp_childConnectionId :: "string option"
  vp_title :: string
  vp_toolbarTitle :: "string option"
  vp_connection :: connection

datatype workspace_pane =
    TerminalPane terminal_pane
  | UrlPane url_pane
  | RemoteDesktopPane remote_desktop_pane
  | FileBrowserPane file_browser_pane
  | FileViewerPane file_viewer_pane

datatype surface_kind =
    KTerminal | KSftp | KWebview | KRemoteDesktop | KFtp | KLocalFiles | KFileViewer
  | KCloudStorage

fun pane_id :: "workspace_pane \<Rightarrow> string" where
  "pane_id (TerminalPane p) = tp_id p"
| "pane_id (UrlPane p) = up_id p"
| "pane_id (RemoteDesktopPane p) = rp_id p"
| "pane_id (FileBrowserPane p) = fp_id p"
| "pane_id (FileViewerPane p) = vp_id p"

fun pane_childConnectionId :: "workspace_pane \<Rightarrow> string option" where
  "pane_childConnectionId (TerminalPane p) = tp_childConnectionId p"
| "pane_childConnectionId (UrlPane p) = up_childConnectionId p"
| "pane_childConnectionId (RemoteDesktopPane p) = rp_childConnectionId p"
| "pane_childConnectionId (FileBrowserPane p) = fp_childConnectionId p"
| "pane_childConnectionId (FileViewerPane p) = vp_childConnectionId p"

fun pane_title :: "workspace_pane \<Rightarrow> string" where
  "pane_title (TerminalPane p) = tp_title p"
| "pane_title (UrlPane p) = up_title p"
| "pane_title (RemoteDesktopPane p) = rp_title p"
| "pane_title (FileBrowserPane p) = fp_title p"
| "pane_title (FileViewerPane p) = vp_title p"

fun pane_toolbarTitle :: "workspace_pane \<Rightarrow> string option" where
  "pane_toolbarTitle (TerminalPane p) = tp_toolbarTitle p"
| "pane_toolbarTitle (UrlPane p) = up_toolbarTitle p"
| "pane_toolbarTitle (RemoteDesktopPane p) = rp_toolbarTitle p"
| "pane_toolbarTitle (FileBrowserPane p) = fp_toolbarTitle p"
| "pane_toolbarTitle (FileViewerPane p) = vp_toolbarTitle p"

fun pane_connection :: "workspace_pane \<Rightarrow> connection option" where
  "pane_connection (TerminalPane p) = tp_connection p"
| "pane_connection (UrlPane p) = Some (up_connection p)"
| "pane_connection (RemoteDesktopPane p) = Some (rp_connection p)"
| "pane_connection (FileBrowserPane p) = Some (fp_connection p)"
| "pane_connection (FileViewerPane p) = Some (vp_connection p)"

text \<open>\<open>pane.kind\<close>: \<open>None\<close> is the omitted kind of a terminal Pane.\<close>

fun fb_surface :: "file_browser_kind \<Rightarrow> surface_kind" where
  "fb_surface FbSftp = KSftp"
| "fb_surface FbFtp = KFtp"
| "fb_surface FbLocalFiles = KLocalFiles"
| "fb_surface FbCloudStorage = KCloudStorage"

fun pane_kind :: "workspace_pane \<Rightarrow> surface_kind option" where
  "pane_kind (TerminalPane p) = (if tp_kind p then Some KTerminal else None)"
| "pane_kind (UrlPane p) = Some KWebview"
| "pane_kind (RemoteDesktopPane p) = Some KRemoteDesktop"
| "pane_kind (FileBrowserPane p) = Some (fb_surface (fp_kind p))"
| "pane_kind (FileViewerPane p) = Some KFileViewer"

section \<open>Quick Commands\<close>

record quick_command =
  qc_id :: string
  qc_label :: string
  qc_command :: string
  qc_iconName :: string
  qc_accentName :: string
  qc_sendEnter :: bool
  qc_confirm :: bool

record quick_command_bundle =
  bundle_id :: string
  bundle_name :: string
  bundle_commands :: "quick_command list"

datatype quick_command_target = TargetConnection string | TargetBundle string

section \<open>Layout trees\<close>

datatype split_direction = DirRight | DirLeft | DirDown | DirUp
datatype split_orientation = Horizontal | Vertical

datatype layout_node =
    Leaf string
  | Split split_orientation "layout_node list"

datatype stored_layout_node =
    SLeaf int
  | SSplit split_orientation "stored_layout_node list"

record stored_layout_pane =
  sp_kind :: "surface_kind option"
  sp_connection :: "connection option"
  sp_title :: "string option"
  sp_cwd :: "string option"
  sp_fontSize :: "rat option"
  sp_textEncoding :: "string option"
  sp_terminalBackground :: "json option option"
  sp_tmuxSessionId :: "string option"
  sp_url :: "string option"
  sp_dataPartition :: "string option"

record stored_connection_layout =
  paneCount :: int
  stored_layout :: stored_layout_node
  stored_panes :: "stored_layout_pane list option"

section \<open>Tabs, child Connections and Workspaces\<close>

record workspace_tab =
  tab_id :: string
  tab_workspaceId :: "string option"
  tab_childConnectionId :: "string option"
  childConnectionGroupParentId :: "string option"
  tab_title :: string
  displayTitle :: "string option option"
  tab_toolbarTitle :: "string option"
  subtitle :: string
  tab_kind :: surface_kind
  panes :: "workspace_pane list"
  layout :: "layout_node option"
  focusedPaneId :: "string option"
  maximizedPaneId :: "string option"
  quickCommandBarVisible :: "bool option"
  tab_connection :: "connection option"
  tab_url :: "string option"
  tab_dataPartition :: "string option"
  ephemeral :: "bool option"
  tab_sshPortForwardSessionId :: "string option"
  tab_sshPortForwardRemotePort :: "int option"

record workspace_child_connection =
  child_id :: string
  child_workspaceId :: "string option"
  parentConnectionId :: string
  child_name :: string
  fileViewPath :: "string option"
  child_tmuxSessionId :: "string option"
  child_cwd :: "string option"
  child_fontSize :: "rat option"
  child_textEncoding :: "string option"
  child_terminalOpacity :: "rat option option"
  child_terminalBackground :: "json option option"
  child_iconColor :: "string option option"
  child_iconDataUrl :: "string option option"
  child_iconBackgroundColor :: "string option option"

record workspace =
  ws_id :: string
  ws_name :: string
  ws_icon :: "string option option"
  ws_iconColor :: "string option option"
  ws_iconBackgroundColor :: "string option option"
  isDefault :: bool
  sortOrder :: int

section \<open>Sample data\<close>

text \<open>A Document Pane with a given id, for the concrete inputs of the witnesses.\<close>

definition viewer_pane :: "string \<Rightarrow> workspace_pane" where
  "viewer_pane i = FileViewerPane \<lparr> vp_id = i, vp_childConnectionId = None, vp_title = i,
     vp_toolbarTitle = None, vp_connection = mk_connection ''c'' ''n'' ''h'' ''u'' CFileView \<rparr>"

lemma pane_id_viewer_pane [simp]: "pane_id (viewer_pane i) = i"
  by (simp add: viewer_pane_def)

end
