(* ===== verification/Layout.thy ===== *)
theory Layout
  imports Workspace_Types
begin

text \<open>
  The split tree of a Tab (\<open>src/modules/workspace/layout.ts\<close>): default and panorama
  layouts, reconciliation of a layout with the Tab's Panes, splitting a Pane, and the stored
  form in which leaves are Pane indices.  The lemmas say what every operation does to the
  sequence of leaves; \<open>stored_layout\<close> interprets the interface \<open>codec\<close>.
\<close>

section \<open>Definitions\<close>

subsection \<open>Leaves\<close>

fun leaf_ids :: "layout_node \<Rightarrow> string list" where
  "leaf_ids (Leaf p) = [p]"
| "leaf_ids (Split ori cs) = concat (map leaf_ids cs)"

definition leafOrder :: "layout_node option \<Rightarrow> string list" where
  "leafOrder node = (case node of None \<Rightarrow> [] | Some n \<Rightarrow> leaf_ids n)"

definition collectLeafIds :: "layout_node \<Rightarrow> string set" where
  "collectLeafIds node = set (leaf_ids node)"

subsection \<open>Default and panorama layouts\<close>

definition defaultLayoutFor :: "workspace_pane list \<Rightarrow> layout_node option" where
  "defaultLayoutFor ps =
     (case ps of
        [] \<Rightarrow> None
      | [p] \<Rightarrow> Some (Leaf (pane_id p))
      | _ \<Rightarrow> Some (Split Horizontal (map (\<lambda>p. Leaf (pane_id p)) ps)))"

text \<open>
  The rows of a panorama: the loop over \<open>rowIndex\<close> with its running \<open>offset\<close>, here the
  Panes that are left; a row of one Pane is a bare leaf.
\<close>

definition panorama_row :: "workspace_pane list \<Rightarrow> layout_node" where
  "panorama_row rowPanes =
     (if length rowPanes = 1 then Leaf (pane_id (hd rowPanes))
      else Split Horizontal (map (\<lambda>p. Leaf (pane_id p)) rowPanes))"

fun panorama_rows :: "nat \<Rightarrow> nat \<Rightarrow> nat \<Rightarrow> nat \<Rightarrow> workspace_pane list \<Rightarrow> layout_node list" where
  "panorama_rows 0 rowIndex baseRowSize largerRowCount rest = []"
| "panorama_rows (Suc n) rowIndex baseRowSize largerRowCount rest =
     (let rowSize = baseRowSize + (if rowIndex < largerRowCount then 1 else 0)
      in panorama_row (take rowSize rest)
         # panorama_rows n (Suc rowIndex) baseRowSize largerRowCount (drop rowSize rest))"

definition panorama_row_count :: "nat \<Rightarrow> nat" where
  "panorama_row_count n = max 2 (isqrt n)"

definition panoramaLayoutFor :: "workspace_pane list \<Rightarrow> layout_node option" where
  "panoramaLayoutFor ps =
     (if length ps \<le> 2 then defaultLayoutFor ps
      else let rowCount = panorama_row_count (length ps);
               baseRowSize = length ps div rowCount;
               largerRowCount = length ps mod rowCount
           in Some (Split Vertical (panorama_rows rowCount 0 baseRowSize largerRowCount ps)))"

subsection \<open>Reconciling a layout with the Panes\<close>

fun pruneMissingLeaves :: "layout_node \<Rightarrow> string set \<Rightarrow> layout_node option" where
  "pruneMissingLeaves (Leaf p) paneIds = (if p \<in> paneIds then Some (Leaf p) else None)"
| "pruneMissingLeaves (Split ori cs) paneIds =
     (let children = js_compact (map (\<lambda>c. pruneMissingLeaves c paneIds) cs)
      in if children = [] then None else Some (Split ori children))"

definition appendLeaf :: "layout_node option \<Rightarrow> string \<Rightarrow> layout_node" where
  "appendLeaf node paneId =
     (case node of
        None \<Rightarrow> Leaf paneId
      | Some (Split ori cs) \<Rightarrow> Split ori (cs @ [Leaf paneId])
      | Some (Leaf p) \<Rightarrow> Split Horizontal [Leaf p, Leaf paneId])"

definition ensureLayout :: "layout_node option \<Rightarrow> workspace_pane list \<Rightarrow> layout_node option" where
  "ensureLayout lay ps =
     (case lay of
        None \<Rightarrow> defaultLayoutFor ps
      | Some l \<Rightarrow>
          (let known = collectLeafIds l;
               paneIds = set (map pane_id ps);
               missing = filter (\<lambda>p. pane_id p \<notin> known) ps;
               start = (case pruneMissingLeaves l paneIds of
                          Some n \<Rightarrow> Some n
                        | None \<Rightarrow> defaultLayoutFor ps)
           in fold (\<lambda>p nxt. Some (appendLeaf nxt (pane_id p))) missing start))"

subsection \<open>Splitting a Pane\<close>

definition orientationFor :: "split_direction \<Rightarrow> split_orientation" where
  "orientationFor d = (if d = DirRight \<or> d = DirLeft then Horizontal else Vertical)"

definition placeBefore :: "split_direction \<Rightarrow> bool" where
  "placeBefore d = (d = DirLeft \<or> d = DirUp)"

definition split_pair :: "bool \<Rightarrow> string \<Rightarrow> layout_node \<Rightarrow> layout_node list" where
  "split_pair before newPaneId n = (if before then [Leaf newPaneId, n] else [n, Leaf newPaneId])"

definition is_focused_leaf :: "string option \<Rightarrow> layout_node \<Rightarrow> bool" where
  "is_focused_leaf focused c = (case c of Leaf p \<Rightarrow> Some p = focused | Split _ _ \<Rightarrow> False)"

text \<open>
  The two loops of \<open>trySplit\<close> over the children: the first looks for the focused leaf among
  them; only when there is none does the second descend into the splits, stopping at the
  first that contains it.
\<close>

fun trySplit :: "layout_node \<Rightarrow> string option \<Rightarrow> split_orientation \<Rightarrow> bool \<Rightarrow> string
    \<Rightarrow> layout_node option"
  and trySplit_children :: "layout_node list \<Rightarrow> string option \<Rightarrow> split_orientation \<Rightarrow> bool
    \<Rightarrow> string \<Rightarrow> layout_node list option"
where
  "trySplit (Leaf p) focused ori before newPaneId =
     (if Some p \<noteq> focused then None
      else Some (Split ori (split_pair before newPaneId (Leaf p))))"
| "trySplit (Split o1 cs) focused ori before newPaneId =
     (case find_index (is_focused_leaf focused) cs of
        Some i \<Rightarrow>
          (if o1 = ori
           then Some (Split o1 (insert_at (if before then i else i + 1) (Leaf newPaneId) cs))
           else Some (Split o1 (cs[i := Split ori (split_pair before newPaneId (cs ! i))])))
      | None \<Rightarrow> map_option (Split o1) (trySplit_children cs focused ori before newPaneId))"
| "trySplit_children [] focused ori before newPaneId = None"
| "trySplit_children (Leaf p # cs) focused ori before newPaneId =
     map_option ((#) (Leaf p)) (trySplit_children cs focused ori before newPaneId)"
| "trySplit_children (Split o1 ds # cs) focused ori before newPaneId =
     (case trySplit (Split o1 ds) focused ori before newPaneId of
        Some c' \<Rightarrow> Some (c' # cs)
      | None \<Rightarrow> map_option ((#) (Split o1 ds))
                  (trySplit_children cs focused ori before newPaneId))"

definition fallbackTarget :: "string option \<Rightarrow> string list \<Rightarrow> string option" where
  "fallbackTarget focused paneIds =
     (if truthy_str focused \<and> the focused \<in> set paneIds then focused
      else js_nth paneIds (int (length paneIds) - 1))"

definition splitLayout :: "layout_node option \<Rightarrow> string option \<Rightarrow> split_direction \<Rightarrow> string
    \<Rightarrow> string list \<Rightarrow> layout_node" where
  "splitLayout lay focused direction newPaneId paneIds =
     (let orientation = orientationFor direction; before = placeBefore direction
      in case lay of
           None \<Rightarrow> Leaf newPaneId
         | Some l \<Rightarrow>
             (case trySplit l (fallbackTarget focused paneIds) orientation before newPaneId of
                Some u \<Rightarrow> u
              | None \<Rightarrow> Split orientation (split_pair before newPaneId l)))"

subsection \<open>The stored form\<close>

text \<open>\<open>new Map(panes.map((pane, index) => [pane.id, index]))\<close>: a repeated id keeps its last index.\<close>

definition index_by_id :: "string list \<Rightarrow> string \<Rightarrow> int option" where
  "index_by_id ids = map_of (rev (zip ids (map int [0..<length ids])))"

fun serializeNode :: "layout_node \<Rightarrow> (string \<Rightarrow> int option) \<Rightarrow> stored_layout_node option" where
  "serializeNode (Leaf p) indexById = map_option SLeaf (indexById p)"
| "serializeNode (Split ori cs) indexById =
     (case js_compact (map (\<lambda>c. serializeNode c indexById) cs) of
        [] \<Rightarrow> None
      | [c] \<Rightarrow> Some c
      | children \<Rightarrow> Some (SSplit ori children))"

fun stored_pane_of :: "connection \<Rightarrow> workspace_pane \<Rightarrow> stored_layout_pane" where
  "stored_pane_of conn (TerminalPane p) =
     \<lparr> sp_kind = pane_kind (TerminalPane p), sp_connection = Some conn, sp_title = Some (tp_title p),
       sp_cwd = Some (cwd p), sp_fontSize = fontSize p, sp_textEncoding = textEncoding p,
       sp_terminalBackground = tp_terminalBackground p, sp_tmuxSessionId = tmuxSessionId p,
       sp_url = None, sp_dataPartition = None \<rparr>"
| "stored_pane_of conn (UrlPane p) =
     \<lparr> sp_kind = Some KWebview, sp_connection = Some conn, sp_title = Some (up_title p),
       sp_cwd = None, sp_fontSize = None, sp_textEncoding = None, sp_terminalBackground = None,
       sp_tmuxSessionId = None, sp_url = Some (up_url p), sp_dataPartition = up_dataPartition p \<rparr>"
| "stored_pane_of conn p =
     \<lparr> sp_kind = pane_kind p, sp_connection = Some conn, sp_title = Some (pane_title p),
       sp_cwd = None, sp_fontSize = None, sp_textEncoding = None, sp_terminalBackground = None,
       sp_tmuxSessionId = None, sp_url = None, sp_dataPartition = None \<rparr>"

definition stored_panes_of :: "workspace_pane list \<Rightarrow> stored_layout_pane list" where
  "stored_panes_of ps =
     js_compact (map (\<lambda>p. map_option (\<lambda>c. stored_pane_of c p)
       (nullish_opt (pane_connection p) (case ps of [] \<Rightarrow> None | q # _ \<Rightarrow> pane_connection q))) ps)"

definition serializeLayout :: "layout_node \<Rightarrow> workspace_pane list \<Rightarrow> stored_connection_layout option"
where
  "serializeLayout lay ps =
     (case serializeNode lay (index_by_id (map pane_id ps)) of
        None \<Rightarrow> None
      | Some stored \<Rightarrow>
          Some \<lparr> paneCount = int (length ps), stored_layout = stored,
                 stored_panes = Some (stored_panes_of ps) \<rparr>)"

fun hydrateLayout :: "stored_layout_node \<Rightarrow> string list \<Rightarrow> layout_node option" where
  "hydrateLayout (SLeaf i) paneIds =
     (let ident = js_nth paneIds i in if truthy_str ident then Some (Leaf (the ident)) else None)"
| "hydrateLayout (SSplit ori cs) paneIds =
     (case js_compact (map (\<lambda>c. hydrateLayout c paneIds) cs) of
        [] \<Rightarrow> None
      | [c] \<Rightarrow> Some c
      | children \<Rightarrow> Some (Split ori children))"

section \<open>Leaves of every operation\<close>

lemma leafOrder_simps [simp, leaf_simps]:
  "leafOrder None = []" "leafOrder (Some n) = leaf_ids n"
  by (simp_all add: leafOrder_def)

lemma leaf_ids_compact [leaf_simps]:
  "concat (map leaf_ids (js_compact xs)) = concat (map leafOrder xs)"
  by (induction xs rule: js_compact.induct) auto

lemma concat_map_leaf [simp]: "concat (map (\<lambda>p. leaf_ids (Leaf (f p))) ps) = map f ps"
  by (induction ps) auto

lemma leafOrder_default [leaf_simps]: "leafOrder (defaultLayoutFor ps) = map pane_id ps"
  by (auto simp: defaultLayoutFor_def o_def split: list.splits)

lemma concat_map_filter: "concat (map (\<lambda>c. filter q (f c)) xs) = filter q (concat (map f xs))"
  by (induction xs) auto

lemma leafOrder_prune [leaf_simps]:
  "leafOrder (pruneMissingLeaves l S) = filter (\<lambda>p. p \<in> S) (leaf_ids l)"
proof (induction l)
  case (Leaf p)
  then show ?case by simp
next
  case (Split ori cs)
  then have *: "map (\<lambda>c. leafOrder (pruneMissingLeaves c S)) cs
      = map (\<lambda>c. filter (\<lambda>p. p \<in> S) (leaf_ids c)) cs"
    by simp
  let ?ch = "js_compact (map (\<lambda>c. pruneMissingLeaves c S) cs)"
  have "concat (map leaf_ids ?ch) = filter (\<lambda>p. p \<in> S) (concat (map leaf_ids cs))"
    by (simp add: leaf_ids_compact o_def * concat_map_filter)
  then show ?case by (cases "?ch = []") (auto simp: Let_def)
qed

lemma prune_None_iff:
  "pruneMissingLeaves l S = None \<longleftrightarrow> filter (\<lambda>p. p \<in> S) (leaf_ids l) = []"
proof (induction l)
  case (Leaf p)
  then show ?case by simp
next
  case (Split ori cs)
  then show ?case
    by (auto simp: Let_def js_compact_Nil_iff filter_empty_conv)
qed

lemma leaf_ids_append [leaf_simps]: "leaf_ids (appendLeaf n p) = leafOrder n @ [p]"
  by (auto simp: appendLeaf_def split: option.splits layout_node.splits)

lemma leafOrder_fold_append [leaf_simps]:
  "leafOrder (fold (\<lambda>p nxt. Some (appendLeaf nxt (f p))) ps start) = leafOrder start @ map f ps"
  by (induction ps arbitrary: start) (auto simp: leaf_ids_append)

subsection \<open>Reconciliation\<close>

text \<open>The layout the code reconciles to when at least one of its leaves is still a Pane.\<close>

lemma leafOrder_ensure_known:
  assumes "set (leaf_ids l) \<inter> set (map pane_id ps) \<noteq> {}"
  shows "leafOrder (ensureLayout (Some l) ps)
    = filter (\<lambda>p. p \<in> set (map pane_id ps)) (leaf_ids l)
      @ filter (\<lambda>p. p \<notin> set (leaf_ids l)) (map pane_id ps)"
proof -
  let ?S = "set (map pane_id ps)"
  have "pruneMissingLeaves l ?S \<noteq> None"
    using assms by (auto simp: prune_None_iff filter_empty_conv)
  then obtain n where n: "pruneMissingLeaves l ?S = Some n" by auto
  have "leaf_ids n = filter (\<lambda>p. p \<in> ?S) (leaf_ids l)"
    using leafOrder_prune [of l ?S] n by simp
  then show ?thesis
    using n by (simp add: ensureLayout_def Let_def leafOrder_fold_append collectLeafIds_def
        filter_map o_def)
qed

text \<open>
  When no leaf survives, the start is the default layout, which already holds every Pane;
  the loop then appends every Pane once more.
\<close>

lemma leafOrder_ensure_unknown:
  assumes "set (leaf_ids l) \<inter> set (map pane_id ps) = {}"
  shows "leafOrder (ensureLayout (Some l) ps) = map pane_id ps @ map pane_id ps"
proof -
  let ?S = "set (map pane_id ps)"
  have "pruneMissingLeaves l ?S = None"
    using assms by (auto simp: prune_None_iff filter_empty_conv)
  moreover have "filter (\<lambda>p. pane_id p \<notin> collectLeafIds l) ps = ps"
    using assms by (auto simp: collectLeafIds_def filter_id_conv)
  ultimately show ?thesis
    by (simp add: ensureLayout_def Let_def leafOrder_fold_append leafOrder_default)
qed

lemma set_leafOrder_ensure:
  "set (leafOrder (ensureLayout lay ps)) = set (map pane_id ps)"
proof (cases lay)
  case None
  then show ?thesis by (simp add: ensureLayout_def leafOrder_default)
next
  case (Some l)
  show ?thesis
  proof (cases "set (leaf_ids l) \<inter> set (map pane_id ps) = {}")
    case True
    then show ?thesis using Some leafOrder_ensure_unknown [of l ps] by simp
  next
    case False
    show ?thesis unfolding Some leafOrder_ensure_known [OF False] by auto
  qed
qed

lemma distinct_leafOrder_ensure:
  assumes "distinct (leaf_ids l)" "distinct (map pane_id ps)"
    and "set (leaf_ids l) \<inter> set (map pane_id ps) \<noteq> {}"
  shows "distinct (leafOrder (ensureLayout (Some l) ps))"
  unfolding leafOrder_ensure_known [OF assms(3)] using assms(1,2) by auto

subsection \<open>Ancestry of a leaf\<close>

text \<open>
  The orientations on the way from the root to each leaf.  Terminal Panes own live renderers
  keyed by their position in this tree, so the source promises not to reparent them.
\<close>

fun leaf_paths :: "layout_node \<Rightarrow> (string \<times> split_orientation list) list" where
  "leaf_paths (Leaf p) = [(p, [])]"
| "leaf_paths (Split ori cs) = map (\<lambda>(p, os). (p, ori # os)) (concat (map leaf_paths cs))"

lemma map_fst_leaf_paths: "map fst (leaf_paths l) = leaf_ids l"
proof (induction l)
  case (Split ori cs)
  then show ?case by (simp add: map_concat o_def case_prod_beta cong: map_cong)
qed simp

definition paths_of :: "layout_node option \<Rightarrow> (string \<times> split_orientation list) list" where
  "paths_of n = (case n of None \<Rightarrow> [] | Some m \<Rightarrow> leaf_paths m)"

lemma paths_of_simps [simp]: "paths_of None = []" "paths_of (Some m) = leaf_paths m"
  by (simp_all add: paths_of_def)

lemma leaf_paths_compact: "concat (map leaf_paths (js_compact xs)) = concat (map paths_of xs)"
  by (induction xs rule: js_compact.induct) auto

lemma paths_prune:
  "paths_of (pruneMissingLeaves l S) = filter (\<lambda>(p, _). p \<in> S) (leaf_paths l)"
proof (induction l)
  case (Leaf p)
  then show ?case by simp
next
  case (Split ori cs)
  then have *: "map (\<lambda>c. paths_of (pruneMissingLeaves c S)) cs
      = map (\<lambda>c. filter (\<lambda>(p, _). p \<in> S) (leaf_paths c)) cs"
    by simp
  let ?ch = "js_compact (map (\<lambda>c. pruneMissingLeaves c S) cs)"
  have **: "concat (map leaf_paths ?ch) = filter (\<lambda>(p, _). p \<in> S) (concat (map leaf_paths cs))"
    by (simp add: leaf_paths_compact o_def * concat_map_filter)
  have ft: "filter (\<lambda>(p, _). p \<in> S) (map (\<lambda>(p, os). (p, ori # os)) xs)
      = map (\<lambda>(p, os). (p, ori # os)) (filter (\<lambda>(p, _). p \<in> S) xs)" for xs
    by (induction xs) auto
  show ?case
  proof (cases "?ch = []")
    case True
    then show ?thesis using ** by (simp add: ft)
  next
    case False
    then show ?thesis using ** by (simp add: ft)
  qed
qed

lemma paths_append_split:
  "leaf_paths (appendLeaf (Some (Split ori cs)) p) = leaf_paths (Split ori cs) @ [(p, [ori])]"
  by (simp add: appendLeaf_def)

lemma paths_fold_append_split:
  "\<exists>cs'. fold (\<lambda>p nxt. Some (appendLeaf nxt (f p))) ps (Some (Split ori cs)) = Some (Split ori cs')
     \<and> leaf_paths (Split ori cs') = leaf_paths (Split ori cs) @ map (\<lambda>p. (f p, [ori])) ps"
proof (induction ps arbitrary: cs)
  case Nil
  then show ?case by simp
next
  case (Cons p ps)
  from Cons [of "cs @ [Leaf (f p)]"] show ?case by (auto simp: appendLeaf_def)
qed

subsection \<open>Splitting\<close>

definition split_leaves :: "bool \<Rightarrow> string \<Rightarrow> string \<Rightarrow> string list" where
  "split_leaves before newPaneId f = (if before then [newPaneId, f] else [f, newPaneId])"

lemma leaf_ids_split_pair:
  "concat (map leaf_ids (split_pair before new n))
    = (if before then new # leaf_ids n else leaf_ids n @ [new])"
  by (simp add: split_pair_def)

lemma is_focused_leafD: "is_focused_leaf focused c \<Longrightarrow> \<exists>f. c = Leaf f \<and> focused = Some f"
  by (auto simp: is_focused_leaf_def split: layout_node.splits)

text \<open>Where the new leaf lands: next to the focused one, everything else in its old order.\<close>

definition splits_beside :: "string \<Rightarrow> bool \<Rightarrow> string \<Rightarrow> string list \<Rightarrow> string list \<Rightarrow> bool" where
  "splits_beside f before new old upd =
     (\<exists>xs ys. old = xs @ f # ys \<and> upd = xs @ split_leaves before new f @ ys)"

lemma splits_beside_context:
  "splits_beside f before new old upd \<Longrightarrow> splits_beside f before new (us @ old @ vs) (us @ upd @ vs)"
  unfolding splits_beside_def by (metis append.assoc append_Cons)

lemma splits_besideI: "old = xs @ f # ys \<Longrightarrow> upd = xs @ split_leaves before new f @ ys
    \<Longrightarrow> splits_beside f before new old upd"
  by (auto simp: splits_beside_def)

text \<open>
  The tree a split promises, whatever loop finds the focused leaf: a leaf becomes a split of
  the requested orientation with the new leaf on the requested side; as a child of a split
  of that orientation it gets the new leaf as a neighbour instead; nothing else changes.
\<close>

inductive grown :: "split_orientation \<Rightarrow> bool \<Rightarrow> string \<Rightarrow> string \<Rightarrow> layout_node \<Rightarrow> layout_node \<Rightarrow> bool"
  for ori before new f
where
  grown_leaf: "grown ori before new f (Leaf f)
    (Split ori (if before then [Leaf new, Leaf f] else [Leaf f, Leaf new]))"
| grown_along: "grown ori before new f (Split ori (xs @ Leaf f # ys))
    (Split ori (xs @ (if before then [Leaf new, Leaf f] else [Leaf f, Leaf new]) @ ys))"
| grown_inside: "grown ori before new f c c' \<Longrightarrow> c = Leaf f \<longrightarrow> o1 \<noteq> ori
    \<Longrightarrow> grown ori before new f (Split o1 (xs @ c # ys)) (Split o1 (xs @ c' # ys))"

inductive_simps grown_leaf_iff: "grown ori before new f (Leaf p) l'"

lemma split_pair_leaf:
  "split_pair before new (Leaf f) = (if before then [Leaf new, Leaf f] else [Leaf f, Leaf new])"
  by (simp add: split_pair_def)

lemma grown_child:
  assumes "i < length cs" "cs ! i = Leaf f"
  shows "grown ori before new f (Split o1 cs)
    (if o1 = ori then Split o1 (insert_at (if before then i else i + 1) (Leaf new) cs)
     else Split o1 (cs[i := Split ori (split_pair before new (cs ! i))]))"
proof -
  have c: "cs = take i cs @ Leaf f # drop (Suc i) cs"
    using assms by (metis id_take_nth_drop)
  have d: "drop i cs = Leaf f # drop (Suc i) cs" "take (Suc i) cs = take i cs @ [Leaf f]"
    using assms by (auto simp: Cons_nth_drop_Suc [symmetric] take_Suc_conv_app_nth)
  show ?thesis
  proof (cases "o1 = ori")
    case True
    have "insert_at (if before then i else i + 1) (Leaf new) cs
        = take i cs @ (if before then [Leaf new, Leaf f] else [Leaf f, Leaf new]) @ drop (Suc i) cs"
      using d by (simp add: insert_at_def)
    then show ?thesis
      using grown_along [of ori before new f "take i cs" "drop (Suc i) cs"] c True by simp
  next
    case False
    have "cs[i := Split ori (split_pair before new (cs ! i))]
        = take i cs @ Split ori (split_pair before new (Leaf f)) # drop (Suc i) cs"
      using assms by (simp add: upd_conv_take_nth_drop)
    then show ?thesis
      using grown_inside [OF grown_leaf [of ori before new f], of o1 "take i cs" "drop (Suc i) cs"]
        c False by (simp add: split_pair_leaf)
  qed
qed

lemma trySplit_grown:
  "trySplit l focused ori before new = Some l' \<Longrightarrow> \<exists>f. focused = Some f \<and> grown ori before new f l l'"
  "trySplit_children cs focused ori before new = Some cs'
    \<Longrightarrow> \<exists>f xs c c' ys. focused = Some f \<and> cs = xs @ c # ys \<and> cs' = xs @ c' # ys
          \<and> (\<forall>p. c \<noteq> Leaf p) \<and> grown ori before new f c c'"
proof (induction l focused ori before new and cs focused ori before new arbitrary: l' and cs'
    rule: trySplit_trySplit_children.induct)
  case (1 p focused ori before new)
  then show ?case by (auto simp: grown_leaf_iff split_pair_leaf split: if_splits)
next
  case (2 o1 cs focused ori before new)
  show ?case
  proof (cases "find_index (is_focused_leaf focused) cs")
    case None
    with 2(2) obtain ds where "trySplit_children cs focused ori before new = Some ds" "l' = Split o1 ds"
      by auto
    with 2(1) [OF None this(1)] show ?thesis by (auto intro: grown_inside)
  next
    case (Some i)
    from find_index_SomeD [OF Some] obtain f
      where f: "i < length cs" "cs ! i = Leaf f" "focused = Some f"
      using is_focused_leafD by blast
    from 2(2) Some have "l' = (if o1 = ori
        then Split o1 (insert_at (if before then i else i + 1) (Leaf new) cs)
        else Split o1 (cs[i := Split ori (split_pair before new (cs ! i))]))"
      by (auto split: if_splits)
    with grown_child [OF f(1,2), of ori before new o1] f(3) show ?thesis by simp
  qed
next
  case (3 focused ori before new)
  then show ?case by simp
next
  case (4 p cs focused ori before new)
  then obtain ds where "cs' = Leaf p # ds" "trySplit_children cs focused ori before new = Some ds"
    by auto
  with 4(1) [of ds] show ?case by (metis append_Cons)
next
  case (5 o1 ds cs focused ori before new)
  show ?case
  proof (cases "trySplit (Split o1 ds) focused ori before new")
    case None
    with 5 obtain es where es: "cs' = Split o1 ds # es"
        "trySplit_children cs focused ori before new = Some es"
      by auto
    from 5(2) [OF None es(2)] es(1) show ?thesis by (metis append_Cons)
  next
    case (Some c')
    with 5 have "cs' = c' # cs" by simp
    with 5(1) [OF Some] show ?thesis by (metis append_Nil layout_node.distinct(1))
  qed
qed

lemma leaves_insert_at_leaf:
  assumes "i < length cs" "cs ! i = Leaf f"
  shows "splits_beside f before new (concat (map leaf_ids cs))
    (concat (map leaf_ids (insert_at (if before then i else i + 1) (Leaf new) cs)))"
proof -
  have c: "cs = take i cs @ Leaf f # drop (Suc i) cs"
    using assms by (metis id_take_nth_drop)
  have old: "concat (map leaf_ids cs)
      = concat (map leaf_ids (take i cs)) @ f # concat (map leaf_ids (drop (Suc i) cs))"
    by (subst c) simp
  have "drop i cs = Leaf f # drop (Suc i) cs" "take (Suc i) cs = take i cs @ [Leaf f]"
    using assms by (auto simp: Cons_nth_drop_Suc [symmetric] take_Suc_conv_app_nth)
  then show ?thesis
    by (intro splits_besideI [OF old]) (simp add: insert_at_def split_leaves_def)
qed

lemma leaves_update_leaf:
  assumes "i < length cs" "cs ! i = Leaf f"
  shows "splits_beside f before new (concat (map leaf_ids cs))
    (concat (map leaf_ids (cs[i := Split ori (split_pair before new (cs ! i))])))"
proof -
  have c: "cs = take i cs @ Leaf f # drop (Suc i) cs"
    using assms by (metis id_take_nth_drop)
  have old: "concat (map leaf_ids cs)
      = concat (map leaf_ids (take i cs)) @ f # concat (map leaf_ids (drop (Suc i) cs))"
    by (subst c) simp
  show ?thesis
    using assms
    by (intro splits_besideI [OF old])
      (simp add: upd_conv_take_nth_drop leaf_ids_split_pair split_leaves_def)
qed

lemma trySplit_beside:
  "trySplit l focused ori before new = Some l'
    \<Longrightarrow> \<exists>f. focused = Some f \<and> splits_beside f before new (leaf_ids l) (leaf_ids l')"
  "trySplit_children cs focused ori before new = Some cs'
    \<Longrightarrow> \<exists>f. focused = Some f
         \<and> splits_beside f before new (concat (map leaf_ids cs)) (concat (map leaf_ids cs'))"
proof (induction l focused ori before new and cs focused ori before new arbitrary: l' and cs'
    rule: trySplit_trySplit_children.induct)
  case (1 p focused ori before new)
  then have "focused = Some p" "l' = Split ori (split_pair before new (Leaf p))"
    by (auto split: if_splits)
  moreover from this have "splits_beside p before new (leaf_ids (Leaf p)) (leaf_ids l')"
    by (intro splits_besideI [of _ "[]" _ "[]"]) (auto simp: split_pair_def split_leaves_def)
  ultimately show ?case by blast
next
  case (2 o1 cs focused ori before new)
  show ?case
  proof (cases "find_index (is_focused_leaf focused) cs")
    case None
    with 2 show ?thesis by auto
  next
    case (Some i)
    from find_index_SomeD [OF Some] obtain f
      where f: "i < length cs" "cs ! i = Leaf f" "focused = Some f"
      using is_focused_leafD by blast
    show ?thesis
    proof (cases "o1 = ori")
      case True
      with 2(2) Some have l': "l' = Split o1 (insert_at (if before then i else i + 1) (Leaf new) cs)"
        by simp
      show ?thesis unfolding l' using leaves_insert_at_leaf [OF f(1,2), of before new] f(3) by simp
    next
      case False
      with 2(2) Some have l': "l' = Split o1 (cs[i := Split ori (split_pair before new (cs ! i))])"
        by simp
      show ?thesis unfolding l' using leaves_update_leaf [OF f(1,2), of before new ori] f(3) by simp
    qed
  qed
next
  case (3 focused ori before new)
  then show ?case by simp
next
  case (4 p cs focused ori before new)
  then obtain ds where "cs' = Leaf p # ds" "trySplit_children cs focused ori before new = Some ds"
    by auto
  with 4(1) [of ds] show ?case
    by (auto dest: splits_beside_context [of _ _ _ _ _ "[p]" "[]"])
next
  case (5 o1 ds cs focused ori before new)
  show ?case
  proof (cases "trySplit (Split o1 ds) focused ori before new")
    case None
    with 5 obtain es where es: "cs' = Split o1 ds # es"
        "trySplit_children cs focused ori before new = Some es"
      by auto
    from 5(2) [OF None es(2)] es(1) show ?thesis
      by (auto dest: splits_beside_context [of _ _ _ _ _ "leaf_ids (Split o1 ds)" "[]"])
  next
    case (Some c')
    with 5 have "cs' = c' # cs" by simp
    with 5(1) [OF Some] show ?thesis
      by (auto dest: splits_beside_context [of _ _ _ _ _ "[]" "concat (map leaf_ids cs)"])
  qed
qed

lemma trySplit_complete:
  "focused = Some f \<Longrightarrow> f \<in> set (leaf_ids l) \<Longrightarrow> trySplit l focused ori before new \<noteq> None"
  "focused = Some f \<Longrightarrow> f \<in> set (concat (map leaf_ids cs)) \<Longrightarrow> \<forall>c \<in> set cs. c \<noteq> Leaf f
    \<Longrightarrow> trySplit_children cs focused ori before new \<noteq> None"
proof (induction l focused ori before new and cs focused ori before new
    rule: trySplit_trySplit_children.induct)
  case (2 o1 cs focused ori before new)
  show ?case
  proof (cases "find_index (is_focused_leaf focused) cs")
    case None
    then have "\<forall>c \<in> set cs. \<not> is_focused_leaf focused c" by (simp add: find_index_None)
    then have "\<forall>c \<in> set cs. c \<noteq> Leaf f" using 2(2) by (auto simp: is_focused_leaf_def)
    with 2(1) [OF None 2(2)] 2(3) None show ?thesis by auto
  next
    case (Some i)
    then show ?thesis by auto
  qed
next
  case (5 o1 ds cs focused ori before new)
  then show ?case by (cases "trySplit (Split o1 ds) focused ori before new") auto
qed auto

lemma trySplit_None_iff:
  "trySplit l (Some f) ori before new = None \<longleftrightarrow> f \<notin> set (leaf_ids l)"
proof
  assume n: "trySplit l (Some f) ori before new = None"
  show "f \<notin> set (leaf_ids l)"
  proof
    assume "f \<in> set (leaf_ids l)"
    from trySplit_complete(1) [OF refl this] n show False by blast
  qed
next
  assume f: "f \<notin> set (leaf_ids l)"
  show "trySplit l (Some f) ori before new = None"
  proof (cases "trySplit l (Some f) ori before new")
    case (Some l')
    from trySplit_beside(1) [OF Some] f show ?thesis by (auto simp: splits_beside_def)
  qed simp
qed

lemma fallbackTarget_focused:
  "f \<in> set paneIds \<Longrightarrow> f \<noteq> [] \<Longrightarrow> fallbackTarget (Some f) paneIds = Some f"
  by (simp add: fallbackTarget_def)

lemma leaves_splitLayout_target:
  assumes "fallbackTarget focused paneIds = Some f" "f \<in> set (leaf_ids l)"
  shows "splits_beside f (placeBefore d) new (leaf_ids l)
    (leaf_ids (splitLayout (Some l) focused d new paneIds))"
proof -
  have "trySplit l (Some f) (orientationFor d) (placeBefore d) new \<noteq> None"
    using assms(2) by (simp add: trySplit_None_iff)
  then obtain l' where "trySplit l (Some f) (orientationFor d) (placeBefore d) new = Some l'" by auto
  with trySplit_beside(1) [OF this] assms(1) show ?thesis
    by (auto simp: splitLayout_def Let_def)
qed

lemma mset_splits_beside:
  "splits_beside f before new old upd \<Longrightarrow> mset upd = add_mset new (mset old)"
  by (auto simp: splits_beside_def split_leaves_def)

lemma mset_leaves_splitLayout [leaf_simps]:
  "mset (leaf_ids (splitLayout lay focused d new paneIds))
    = add_mset new (mset (leafOrder lay))"
proof (cases lay)
  case None
  then show ?thesis by (simp add: splitLayout_def)
next
  case (Some l)
  show ?thesis
  proof (cases "trySplit l (fallbackTarget focused paneIds) (orientationFor d) (placeBefore d) new")
    case None
    then show ?thesis using Some
      by (simp add: splitLayout_def Let_def leaf_ids_split_pair)
  next
    case u: (Some u)
    from mset_splits_beside [of _ "placeBefore d" new "leaf_ids l" "leaf_ids u"]
      trySplit_beside(1) [OF u] u Some
    show ?thesis by (auto simp: splitLayout_def Let_def)
  qed
qed

subsection \<open>The panorama grid\<close>

lemma leaves_panorama_row:
  "leaf_ids (panorama_row ps) = map pane_id ps"
  by (cases ps) (auto simp: panorama_row_def o_def)

lemma panorama_rows_leaves:
  "concat (map leaf_ids (panorama_rows n r b k ps))
    = map pane_id (take (\<Sum>i = r..<r + n. b + (if i < k then 1 else 0)) ps)"
proof (induction n r b k ps rule: panorama_rows.induct)
  case (1 r b k ps)
  then show ?case by simp
next
  case (2 n r b k ps)
  let ?sz = "b + (if r < k then 1 else 0)"
  have "(\<Sum>i = r..<r + Suc n. b + (if i < k then 1 else 0))
      = ?sz + (\<Sum>i = Suc r..<Suc r + n. b + (if i < k then 1 else (0::nat)))"
    by (simp add: sum.atLeast_Suc_lessThan)
  then show ?case unfolding take_add panorama_rows.simps Let_def
    using 2 [OF refl] by (simp only: leaves_panorama_row take_add list.map concat.simps map_append)
qed

lemma panorama_sizes_sum:
  assumes "k \<le> n"
  shows "(\<Sum>i = 0..<n. b + (if i < k then 1 else (0::nat))) = n * b + k"
proof -
  have "(\<Sum>i = 0..<n. if i < k then 1 else (0::nat)) = card {i \<in> {0..<n}. i < k}"
    by (simp add: sum.If_cases Int_def)
  also have "{i \<in> {0..<n}. i < k} = {0..<k}" using assms by auto
  finally show ?thesis by (simp add: sum.distrib)
qed

lemma leafOrder_panorama [leaf_simps]: "leafOrder (panoramaLayoutFor ps) = map pane_id ps"
proof (cases "length ps \<le> 2")
  case True
  then show ?thesis by (simp add: panoramaLayoutFor_def leafOrder_default)
next
  case False
  let ?n = "panorama_row_count (length ps)"
  have "0 < ?n" by (simp add: panorama_row_count_def)
  then have "length ps mod ?n \<le> ?n" by (simp add: less_imp_le)
  from panorama_sizes_sum [OF this, of "length ps div ?n"]
  have "(\<Sum>i = 0..<0 + ?n. length ps div ?n + (if i < length ps mod ?n then 1 else 0)) = length ps"
    by simp
  then show ?thesis
    using False panorama_rows_leaves [of ?n 0 "length ps div ?n" "length ps mod ?n" ps]
    by (simp add: panoramaLayoutFor_def Let_def)
qed

lemma length_panorama_rows [simp]: "length (panorama_rows n r b k ps) = n"
  by (induction n r b k ps rule: panorama_rows.induct) (auto simp: Let_def)

text \<open>How many Panes each row of a panorama shows.\<close>

fun row_sizes :: "layout_node \<Rightarrow> nat list" where
  "row_sizes (Leaf p) = [1]"
| "row_sizes (Split Vertical rows) = map (\<lambda>r. length (leaf_ids r)) rows"
| "row_sizes (Split Horizontal cols) = [length (leaf_ids (Split Horizontal cols))]"

lemma panorama_rows_sizes:
  "length ps = (\<Sum>i = r..<r + n. b + (if i < k then 1 else 0))
    \<Longrightarrow> map (\<lambda>row. length (leaf_ids row)) (panorama_rows n r b k ps)
      = map (\<lambda>i. b + (if i < k then 1 else 0)) [r..<r + n]"
proof (induction n r b k ps rule: panorama_rows.induct)
  case (1 r b k ps)
  then show ?case by simp
next
  case (2 n r b k ps)
  let ?sz = "b + (if r < k then 1 else 0)"
  have s: "(\<Sum>i = r..<r + Suc n. b + (if i < k then 1 else 0))
      = ?sz + (\<Sum>i = Suc r..<Suc r + n. b + (if i < k then 1 else (0::nat)))"
    by (simp add: sum.atLeast_Suc_lessThan)
  have "length (drop ?sz ps) = (\<Sum>i = Suc r..<Suc r + n. b + (if i < k then 1 else 0))"
    using 2(2) s by simp
  from 2(1) [OF refl this]
  show ?case using 2(2) s
    by (simp add: Let_def leaves_panorama_row upt_conv_Cons del: upt_Suc)
qed

lemma panorama_balanced:
  assumes "2 < length ps" "panoramaLayoutFor ps = Some l"
  shows "length (row_sizes l) = panorama_row_count (length ps)"
    and "sum_list (row_sizes l) = length ps"
    and "\<And>a b. a \<in> set (row_sizes l) \<Longrightarrow> b \<in> set (row_sizes l) \<Longrightarrow> a \<le> b + 1"
proof -
  let ?n = "panorama_row_count (length ps)"
  let ?b = "length ps div ?n" and ?k = "length ps mod ?n"
  have "0 < ?n" by (simp add: panorama_row_count_def)
  then have "?k \<le> ?n" by (simp add: less_imp_le)
  from panorama_sizes_sum [OF this, of ?b]
  have tot: "length ps = (\<Sum>i = 0..<0 + ?n. ?b + (if i < ?k then 1 else 0))" by simp
  have l: "l = Split Vertical (panorama_rows ?n 0 ?b ?k ps)"
    using assms by (auto simp: panoramaLayoutFor_def Let_def)
  have sz: "row_sizes l = map (\<lambda>i. ?b + (if i < ?k then 1 else 0)) [0..<0 + ?n]"
    unfolding l row_sizes.simps by (rule panorama_rows_sizes [OF tot])
  show "length (row_sizes l) = ?n" by (simp add: sz)
  show "sum_list (row_sizes l) = length ps"
    unfolding sz using tot by (simp add: sum_list_distinct_conv_sum_set)
  show "a \<le> b + 1" if "a \<in> set (row_sizes l)" "b \<in> set (row_sizes l)" for a b
    using that by (auto simp: sz split: if_splits)
qed

section \<open>The stored form is a codec\<close>

lemma index_by_id_Some:
  assumes "distinct ids" "i < length ids"
  shows "index_by_id ids (ids ! i) = Some (int i)"
proof -
  let ?xs = "zip ids (map int [0..<length ids])"
  have d: "distinct (map fst (rev ?xs))" using assms(1) by (simp add: rev_map [symmetric])
  have "(ids ! i, int i) \<in> set (rev ?xs)" using assms(2)
    by (auto simp: set_zip intro!: exI [of _ i])
  with d show ?thesis unfolding index_by_id_def by (metis map_of_eq_Some_iff)
qed

lemma index_by_id_dom: "p \<notin> set ids \<Longrightarrow> index_by_id ids p = None"
  by (auto simp: index_by_id_def map_of_eq_None_iff dest: set_zip_leftD)

lemma index_by_id_cases:
  assumes "distinct ids" "p \<in> set ids"
  obtains i where "i < length ids" "ids ! i = p" "index_by_id ids p = Some (int i)"
  using assms index_by_id_Some [OF assms(1)] by (metis in_set_conv_nth)

text \<open>
  What a reload restores: leaves that are no Pane dropped and splits with fewer than two
  children replaced by what is left of them.
\<close>

definition split_of :: "split_orientation \<Rightarrow> layout_node list \<Rightarrow> layout_node option" where
  "split_of ori cs = (case cs of [] \<Rightarrow> None | [c] \<Rightarrow> Some c | _ \<Rightarrow> Some (Split ori cs))"

fun collapse :: "string set \<Rightarrow> layout_node \<Rightarrow> layout_node option" where
  "collapse S (Leaf p) = (if p \<in> S then Some (Leaf p) else None)"
| "collapse S (Split ori cs) = split_of ori (js_compact (map (collapse S) cs))"

lemma hydrate_compact:
  "\<forall>c \<in> set cs. Option.bind (ser c) (\<lambda>s. hydrateLayout s ids) = col c
    \<Longrightarrow> \<forall>c \<in> set cs. ser c = None \<longleftrightarrow> col c = None
    \<Longrightarrow> js_compact (map (\<lambda>s. hydrateLayout s ids) (js_compact (map ser cs)))
      = js_compact (map col cs)
    \<and> length (js_compact (map ser cs)) = length (js_compact (map col cs))"
proof (induction cs)
  case Nil
  then show ?case by simp
next
  case (Cons c cs)
  then show ?case by (cases "ser c"; cases "col c") auto
qed

lemma hydrate_serialize_strong:
  assumes "distinct ids" "[] \<notin> set ids"
  shows "Option.bind (serializeNode l (index_by_id ids)) (\<lambda>s. hydrateLayout s ids)
      = collapse (set ids) l
    \<and> (serializeNode l (index_by_id ids) = None \<longleftrightarrow> collapse (set ids) l = None)"
proof (induction l)
  case (Leaf p)
  show ?case
  proof (cases "p \<in> set ids")
    case True
    then obtain i where "i < length ids" "ids ! i = p" "index_by_id ids p = Some (int i)"
      by (rule index_by_id_cases [OF assms(1)])
    moreover have "p \<noteq> []" using True assms(2) by auto
    ultimately show ?thesis using True by (auto simp: js_nth_nat Let_def)
  next
    case False
    then show ?thesis by (simp add: index_by_id_dom)
  qed
next
  case (Split ori cs)
  let ?ser = "\<lambda>c. serializeNode c (index_by_id ids)" and ?col = "collapse (set ids)"
  from Split have *: "js_compact (map (\<lambda>s. hydrateLayout s ids) (js_compact (map ?ser cs)))
        = js_compact (map ?col cs)"
      "length (js_compact (map ?ser cs)) = length (js_compact (map ?col cs))"
    using hydrate_compact [of cs ?ser ids ?col] by auto
  consider "js_compact (map ?ser cs) = []" | c where "js_compact (map ?ser cs) = [c]"
    | c d es where "js_compact (map ?ser cs) = c # d # es"
    by (metis list.exhaust)
  then show ?case
  proof cases
    case 1
    with *(2) show ?thesis by (simp add: split_of_def)
  next
    case (2 c)
    with *(2) have "length (js_compact (map ?col cs)) = Suc 0" by simp
    then obtain e where e: "js_compact (map ?col cs) = [e]"
      by (auto simp: length_Suc_conv)
    with * (1) 2 have "hydrateLayout c ids = Some e"
      by (cases "hydrateLayout c ids") auto
    with 2 e show ?thesis by (simp add: split_of_def)
  next
    case (3 c d es)
    then obtain e f gs where e: "js_compact (map ?col cs) = e # f # gs"
      using *(2) by (metis length_Suc_conv list.size(4) length_Cons)
    with 3 *(1) show ?thesis by (simp add: split_of_def)
  qed
qed

text \<open>A layout in the shape the code builds: no split with fewer than two children.\<close>

fun proper :: "layout_node \<Rightarrow> bool" where
  "proper (Leaf p) = True"
| "proper (Split ori cs) = (2 \<le> length cs \<and> (\<forall>c \<in> set cs. proper c))"

lemma collapse_proper: "proper l \<Longrightarrow> set (leaf_ids l) \<subseteq> S \<Longrightarrow> collapse S l = Some l"
proof (induction l)
  case (Leaf p)
  then show ?case by simp
next
  case (Split ori cs)
  then have "map (collapse S) cs = map Some cs" by (auto simp: UN_subset_iff)
  then have "js_compact (map (collapse S) cs) = cs" by (metis js_compact_map_Some)
  moreover obtain c d es where "cs = c # d # es"
    using Split.prems(1) by (cases cs; cases "tl cs") auto
  ultimately show ?case by (simp add: split_of_def del: list.map)
qed

lemma leafOrder_split_of: "leafOrder (split_of ori cs) = concat (map leaf_ids cs)"
  by (auto simp: split_of_def split: list.splits)

lemma leafOrder_collapse: "leafOrder (collapse S l) = filter (\<lambda>p. p \<in> S) (leaf_ids l)"
proof (induction l)
  case (Leaf p)
  then show ?case by simp
next
  case (Split ori cs)
  then show ?case
    by (simp add: leafOrder_split_of leaf_ids_compact o_def concat_map_filter [symmetric]
        cong: map_cong)
qed

lemma proper_split_of: "\<forall>c \<in> set cs. proper c \<Longrightarrow> split_of ori cs = Some l \<Longrightarrow> proper l"
  by (auto simp: split_of_def split: list.splits)

lemma collapse_is_proper: "collapse S l = Some l' \<Longrightarrow> proper l'"
proof (induction l arbitrary: l')
  case (Leaf p)
  then show ?case by (auto split: if_splits)
next
  case (Split ori cs)
  then show ?case
    by (auto intro!: proper_split_of [of _ ori l'] simp: set_js_compact_map)
qed

lemma collapse_leaves: "collapse S l = Some l' \<Longrightarrow> set (leaf_ids l') \<subseteq> S"
  using leafOrder_collapse [of S l] by auto

interpretation layout_codec: codec
  "\<lambda>l. serializeNode l (index_by_id ids)"
  "\<lambda>s. Option.bind s (\<lambda>t. hydrateLayout t ids)"
  "\<lambda>l. proper l \<and> set (leaf_ids l) \<subseteq> set ids \<and> distinct ids \<and> [] \<notin> set ids"
  for ids
  by unfold_locales (auto simp: hydrate_serialize_strong collapse_proper)

section \<open>Properties\<close>

text \<open>
  C1.  Splitting a Pane \<open>right\<close> or \<open>left\<close> puts the new Pane beside it in a horizontal split,
  \<open>down\<close> or \<open>up\<close> in a vertical one, before it for \<open>left\<close> and \<open>up\<close> and after it otherwise:
  the focused leaf is replaced by such a split, or gets the new leaf as a neighbour when it
  already stands in a split of that orientation, and no other node of the tree changes.  So
  the Panes keep their left-to-right order around the new one.  The focused Pane is a Pane
  of the Tab and a leaf of its layout.
\<close>
theorem splitLayout_places_beside:
  assumes "f \<in> set paneIds" "f \<noteq> []" "f \<in> set (leaf_ids l)"
  shows "grown (if d = DirRight \<or> d = DirLeft then Horizontal else Vertical)
      (d = DirLeft \<or> d = DirUp) new f l (splitLayout (Some l) (Some f) d new paneIds)
    \<and> (\<exists>xs ys. leaf_ids l = xs @ f # ys
        \<and> leaf_ids (splitLayout (Some l) (Some f) d new paneIds)
          = xs @ (if d = DirLeft \<or> d = DirUp then [new, f] else [f, new]) @ ys)"
proof
  obtain l' where u: "trySplit l (Some f) (orientationFor d) (placeBefore d) new = Some l'"
    using assms(3) trySplit_None_iff by blast
  then have "splitLayout (Some l) (Some f) d new paneIds = l'"
    using fallbackTarget_focused [OF assms(1,2)] by (simp add: splitLayout_def Let_def)
  moreover have "grown (orientationFor d) (placeBefore d) new f l l'"
    using trySplit_grown(1) [OF u] by simp
  moreover have "orientationFor d = (if d = DirRight \<or> d = DirLeft then Horizontal else Vertical)"
      "placeBefore d = (d = DirLeft \<or> d = DirUp)"
    by (auto simp: orientationFor_def placeBefore_def)
  ultimately show "grown (if d = DirRight \<or> d = DirLeft then Horizontal else Vertical)
      (d = DirLeft \<or> d = DirUp) new f l (splitLayout (Some l) (Some f) d new paneIds)"
    by (simp only:)
  show "\<exists>xs ys. leaf_ids l = xs @ f # ys
        \<and> leaf_ids (splitLayout (Some l) (Some f) d new paneIds)
          = xs @ (if d = DirLeft \<or> d = DirUp then [new, f] else [f, new]) @ ys"
    using leaves_splitLayout_target [OF fallbackTarget_focused [OF assms(1,2)] assms(3), of d new]
    by (simp add: splits_beside_def split_leaves_def placeBefore_def)
qed

theorem splitLayout_places_beside_witness:
  "grown Vertical True ''n'' ''a'' (Split Horizontal [Leaf ''a'', Leaf ''b''])
      (splitLayout (Some (Split Horizontal [Leaf ''a'', Leaf ''b''])) (Some ''a'') DirUp ''n'' [''a'', ''b''])
    \<and> splitLayout (Some (Split Horizontal [Leaf ''a'', Leaf ''b''])) (Some ''a'') DirUp ''n'' [''a'', ''b'']
      = Split Horizontal [Split Vertical [Leaf ''n'', Leaf ''a''], Leaf ''b'']"
proof -
  have "splitLayout (Some (Split Horizontal [Leaf ''a'', Leaf ''b''])) (Some ''a'') DirUp ''n'' [''a'', ''b'']
      = Split Horizontal [Split Vertical [Leaf ''n'', Leaf ''a''], Leaf ''b'']"
    by code_simp
  then show ?thesis
    using splitLayout_places_beside [of "''a''" "[''a'', ''b'']"
        "Split Horizontal [Leaf ''a'', Leaf ''b'']" DirUp "''n''"] by simp
qed



text \<open>
  When no leaf of the layout is a Pane any more, reconciliation shows every Pane twice:
  the default layout it falls back to already holds them all, and the loop over the missing
  Panes appends each of them again.
\<close>
theorem ensureLayout_duplicates_panes:
  assumes "set (leaf_ids l) \<inter> set (map pane_id ps) = {}"
  shows "leafOrder (ensureLayout (Some l) ps) = map pane_id ps @ map pane_id ps"
  by (rule leafOrder_ensure_unknown [OF assms])

theorem ensureLayout_duplicates_panes_witness:
  "ensureLayout (Some (Leaf ''old'')) [viewer_pane ''p''] = Some (Split Horizontal [Leaf ''p'', Leaf ''p''])
    \<and> leafOrder (ensureLayout (Some (Leaf ''old'')) [viewer_pane ''p''])
       = map pane_id [viewer_pane ''p''] @ map pane_id [viewer_pane ''p'']"
  using ensureLayout_duplicates_panes [of "Leaf ''old''" "[viewer_pane ''p'']"]
  by (simp add: ensureLayout_def collectLeafIds_def defaultLayoutFor_def appendLeaf_def)

text \<open>
   Reconciliation never reparents a Pane that stays: in a split layout each surviving
  leaf keeps the whole sequence of splits above it, whatever Panes are closed or added.
\<close>
theorem ensureLayout_keeps_ancestry:
  assumes "(p, os) \<in> set (leaf_paths (Split ori cs))"
    and "p \<in> set (map pane_id ps)"
  shows "(p, os) \<in> set (paths_of (ensureLayout (Some (Split ori cs)) ps))"
proof -
  let ?S = "set (map pane_id ps)"
  have "p \<in> set (leaf_ids (Split ori cs))"
    using assms(1) by (metis fst_conv image_eqI list.set_map map_fst_leaf_paths)
  then have "pruneMissingLeaves (Split ori cs) ?S \<noteq> None"
    using assms(2) unfolding prune_None_iff filter_empty_conv by blast
  then obtain cs' where cs': "pruneMissingLeaves (Split ori cs) ?S = Some (Split ori cs')"
    by (auto simp: Let_def split: if_splits)
  have "(p, os) \<in> set (leaf_paths (Split ori cs'))"
    using paths_prune [of "Split ori cs" ?S] cs' assms by auto
  moreover obtain cs'' where
    "fold (\<lambda>p nxt. Some (appendLeaf nxt (pane_id p)))
        (filter (\<lambda>p. pane_id p \<notin> collectLeafIds (Split ori cs)) ps) (Some (Split ori cs'))
      = Some (Split ori cs'')"
    "set (leaf_paths (Split ori cs')) \<subseteq> set (leaf_paths (Split ori cs''))"
    using paths_fold_append_split [of pane_id
        "filter (\<lambda>p. pane_id p \<notin> collectLeafIds (Split ori cs)) ps" ori cs'] by (metis set_append Un_upper1)
  ultimately show ?thesis using cs' by (auto simp: ensureLayout_def Let_def simp del: leaf_paths.simps)
qed

theorem ensureLayout_keeps_ancestry_witness:
  "(''a'', [Horizontal, Vertical])
     \<in> set (paths_of (ensureLayout (Some (Split Horizontal [Split Vertical [Leaf ''a'', Leaf ''b''], Leaf ''c'']))
          [viewer_pane ''a'', viewer_pane ''d'']))"
  by (rule ensureLayout_keeps_ancestry) simp_all



text \<open>
   The panorama of more than two Panes is a grid with the floor of the square root of
  their number as rows (at least two), filled in Tab order, whose row sizes differ by at
  most one.
\<close>
theorem panorama_is_balanced_grid:
  assumes "2 < length ps"
  shows "\<exists>l. panoramaLayoutFor ps = Some l \<and> leaf_ids l = map pane_id ps
    \<and> length (row_sizes l) = max 2 (isqrt (length ps))
    \<and> (\<forall>a \<in> set (row_sizes l). \<forall>b \<in> set (row_sizes l). a \<le> b + 1)"
proof -
  obtain l where l: "panoramaLayoutFor ps = Some l"
    using assms by (auto simp: panoramaLayoutFor_def Let_def)
  have "leaf_ids l = map pane_id ps" using leafOrder_panorama [of ps] l by simp
  moreover note panorama_balanced [OF assms l]
  ultimately show ?thesis using l by (auto simp: panorama_row_count_def)
qed

theorem panorama_is_balanced_grid_witness:
  "\<exists>l. panoramaLayoutFor (map viewer_pane [''a'', ''b'', ''c'', ''d'', ''e'']) = Some l
    \<and> leaf_ids l = map pane_id (map viewer_pane [''a'', ''b'', ''c'', ''d'', ''e''])
    \<and> length (row_sizes l) = max 2 (isqrt (length (map viewer_pane [''a'', ''b'', ''c'', ''d'', ''e''])))
    \<and> (\<forall>a \<in> set (row_sizes l). \<forall>b \<in> set (row_sizes l). a \<le> b + 1)"
  by (rule panorama_is_balanced_grid) simp

end
