(* ===== verification/Connection_Tree.thy ===== *)
theory Connection_Tree
  imports Workspace_Types
begin

text \<open>
  The Connection Tree of the sidebar (\<open>src/modules/workspace/connections/treeUtils.ts\<close>):
  live statuses, the search filter, the connected filter, the Store build's removal of local
  terminals, and the flattening, lookup and counting functions.
\<close>

section \<open>Definitions\<close>

text \<open>\<open>activeSessionCounts\<close> is a map; a missing or zero count reads as idle.\<close>

definition liveConnectionStatus :: "string \<Rightarrow> (string \<rightharpoonup> nat) \<Rightarrow> connection_status" where
  "liveConnectionStatus cid counts =
     (case counts cid of Some n \<Rightarrow> if n \<noteq> 0 then Connected else Idle | None \<Rightarrow> Idle)"

definition with_live_status :: "(string \<rightharpoonup> nat) \<Rightarrow> connection \<Rightarrow> connection" where
  "with_live_status counts c = c\<lparr>status := liveConnectionStatus (conn_id c) counts\<rparr>"

fun withLiveFolderStatuses :: "connection_folder \<Rightarrow> (string \<rightharpoonup> nat) \<Rightarrow> connection_folder" where
  "withLiveFolderStatuses (ConnectionFolder i n ic cs fs) counts =
     ConnectionFolder i n ic (map (with_live_status counts) cs)
       (map (\<lambda>f. withLiveFolderStatuses f counts) fs)"

definition withLiveConnectionStatuses :: "connection_tree \<Rightarrow> (string \<rightharpoonup> nat) \<Rightarrow> connection_tree" where
  "withLiveConnectionStatuses tree counts =
     \<lparr> tree_connections = map (with_live_status counts) (tree_connections tree),
       tree_folders = map (\<lambda>f. withLiveFolderStatuses f counts) (tree_folders tree) \<rparr>"

fun type_name :: "connection_type \<Rightarrow> string" where
  "type_name CLocal = ''local''"
| "type_name CSsh = ''ssh''"
| "type_name CTelnet = ''telnet''"
| "type_name CSerial = ''serial''"
| "type_name CUrl = ''url''"
| "type_name CRdp = ''rdp''"
| "type_name CVnc = ''vnc''"
| "type_name CFtp = ''ftp''"
| "type_name CLocalFiles = ''localFiles''"
| "type_name CFileView = ''fileView''"
| "type_name CCloudStorage = ''cloudStorage''"

definition connectionMatchesQuery :: "connection \<Rightarrow> string \<Rightarrow> bool" where
  "connectionMatchesQuery c normalizedQuery =
     str_includes
       (to_lower (join_with '' '' [conn_name c, host c, user c, type_name (conn_type c)]))
       normalizedQuery"

fun filterConnectionFolder :: "connection_folder \<Rightarrow> string \<Rightarrow> connection_folder option" where
  "filterConnectionFolder (ConnectionFolder i n ic cs fs) q =
     (let folderMatches = str_includes (to_lower n) q;
          connections = (if folderMatches then cs
                         else filter (\<lambda>c. connectionMatchesQuery c q) cs);
          folders = js_compact (map (\<lambda>f. filterConnectionFolder f q) fs)
      in if \<not> folderMatches \<and> connections = [] \<and> folders = [] then None
         else Some (ConnectionFolder i n ic connections (if folderMatches then fs else folders)))"

definition filterConnectionTree :: "connection_tree \<Rightarrow> string \<Rightarrow> connection_tree" where
  "filterConnectionTree tree q =
     \<lparr> tree_connections = filter (\<lambda>c. connectionMatchesQuery c q) (tree_connections tree),
       tree_folders = js_compact (map (\<lambda>f. filterConnectionFolder f q) (tree_folders tree)) \<rparr>"

fun withoutLocalTerminalFolderConnections :: "connection_folder \<Rightarrow> connection_folder" where
  "withoutLocalTerminalFolderConnections (ConnectionFolder i n ic cs fs) =
     ConnectionFolder i n ic (filter (\<lambda>c. conn_type c \<noteq> CLocal) cs)
       (map withoutLocalTerminalFolderConnections fs)"

definition withoutLocalTerminalConnections :: "connection_tree \<Rightarrow> connection_tree" where
  "withoutLocalTerminalConnections tree =
     \<lparr> tree_connections = filter (\<lambda>c. conn_type c \<noteq> CLocal) (tree_connections tree),
       tree_folders = map withoutLocalTerminalFolderConnections (tree_folders tree) \<rparr>"

fun filterConnectedFolder :: "connection_folder \<Rightarrow> connection_folder option" where
  "filterConnectedFolder (ConnectionFolder i n ic cs fs) =
     (let connections = filter (\<lambda>c. status c = Connected) cs;
          folders = js_compact (map filterConnectedFolder fs)
      in if connections = [] \<and> folders = [] then None
         else Some (ConnectionFolder i n ic connections folders))"

definition filterConnectedConnections :: "connection_tree \<Rightarrow> connection_tree" where
  "filterConnectedConnections tree =
     \<lparr> tree_connections = filter (\<lambda>c. status c = Connected) (tree_connections tree),
       tree_folders = js_compact (map filterConnectedFolder (tree_folders tree)) \<rparr>"

fun flattenFolderConnections :: "connection_folder \<Rightarrow> connection list" where
  "flattenFolderConnections (ConnectionFolder i n ic cs fs) =
     cs @ concat (map flattenFolderConnections fs)"

definition flattenConnections :: "connection_tree \<Rightarrow> connection list" where
  "flattenConnections tree =
     tree_connections tree @ concat (map flattenFolderConnections (tree_folders tree))"

definition visibleFlatConnections :: "connection_tree \<Rightarrow> connection list" where
  "visibleFlatConnections tree = flattenConnections tree"

text \<open>
  The depth-first search over folders: in each folder its own Connections first, then its
  subfolders, then the next folder.
\<close>

fun findConnectionInFolder :: "connection_folder \<Rightarrow> string \<Rightarrow> (connection \<times> string) option"
  and findConnectionInFolders :: "connection_folder list \<Rightarrow> string \<Rightarrow> (connection \<times> string) option"
where
  "findConnectionInFolder (ConnectionFolder i n ic cs fs) cid =
     (case find (\<lambda>c. conn_id c = cid) cs of
        Some c \<Rightarrow> Some (c, i)
      | None \<Rightarrow> findConnectionInFolders fs cid)"
| "findConnectionInFolders [] cid = None"
| "findConnectionInFolders (f # fs) cid =
     (case findConnectionInFolder f cid of
        Some r \<Rightarrow> Some r
      | None \<Rightarrow> findConnectionInFolders fs cid)"

definition findConnectionInTree :: "connection_tree \<Rightarrow> string \<Rightarrow> (connection \<times> string option) option"
where
  "findConnectionInTree tree cid =
     (case find (\<lambda>c. conn_id c = cid) (tree_connections tree) of
        Some c \<Rightarrow> Some (c, None)
      | None \<Rightarrow> map_option (\<lambda>(c, i). (c, Some i)) (findConnectionInFolders (tree_folders tree) cid))"

fun flattenFolder :: "nat \<Rightarrow> connection_folder \<Rightarrow> (connection_folder \<times> nat) list" where
  "flattenFolder level (ConnectionFolder i n ic cs fs) =
     (ConnectionFolder i n ic cs fs, level) # concat (map (flattenFolder (level + 1)) fs)"

definition flattenFolders :: "connection_folder list \<Rightarrow> nat \<Rightarrow> (connection_folder \<times> nat) list" where
  "flattenFolders fs level = concat (map (flattenFolder level) fs)"

fun folder_ids :: "connection_folder \<Rightarrow> string list" where
  "folder_ids (ConnectionFolder i n ic cs fs) = i # concat (map folder_ids fs)"

definition collectConnectionFolderIds :: "connection_folder list \<Rightarrow> string list" where
  "collectConnectionFolderIds fs = concat (map folder_ids fs)"

fun countConnections :: "connection_folder \<Rightarrow> nat" where
  "countConnections (ConnectionFolder i n ic cs fs) =
     length cs + sum_list (map countConnections fs)"

fun countFolder :: "connection_folder \<Rightarrow> nat" where
  "countFolder (ConnectionFolder i n ic cs fs) = 1 + sum_list (map countFolder fs)"

definition countFolders :: "connection_folder list \<Rightarrow> nat" where
  "countFolders fs = sum_list (map countFolder fs)"

section \<open>Counting and flattening\<close>

lemma countConnections_flatten: "countConnections f = length (flattenFolderConnections f)"
  by (induction f) (simp add: length_concat o_def cong: map_cong)

lemma map_fst_flattenFolder: "map (folder_id \<circ> fst) (flattenFolder lv f) = folder_ids f"
proof (induction f arbitrary: lv)
  case (ConnectionFolder i n ic cs fs)
  then show ?case by (simp add: map_concat o_def cong: map_cong)
qed

lemma collect_is_flatten:
  "collectConnectionFolderIds fs = map (folder_id \<circ> fst) (flattenFolders fs lv)"
  by (simp add: collectConnectionFolderIds_def flattenFolders_def map_concat o_def
      map_fst_flattenFolder [unfolded o_def])

lemma countFolder_ids: "countFolder f = length (folder_ids f)"
proof (induction f)
  case (ConnectionFolder i n ic cs fs)
  then have eq: "map countFolder fs = map (\<lambda>x. length (folder_ids x)) fs" by simp
  from arg_cong [OF eq, of sum_list] show ?case by (simp add: length_concat o_def)
qed

lemma countFolders_collect: "countFolders fs = length (collectConnectionFolderIds fs)"
proof -
  have "countFolder = (\<lambda>f. length (folder_ids f))" by (simp add: fun_eq_iff countFolder_ids)
  then show ?thesis
    by (simp add: countFolders_def collectConnectionFolderIds_def length_concat o_def)
qed

section \<open>Filters\<close>

text \<open>
  What the filters share: each works folder by folder with a test on Connections, keeps a
  folder only when something in it passes, and drops nothing that passes.
\<close>

definition flat_opt :: "connection_folder option \<Rightarrow> connection list" where
  "flat_opt f = (case f of None \<Rightarrow> [] | Some g \<Rightarrow> flattenFolderConnections g)"

lemma flat_opt_simps [simp]: "flat_opt None = []" "flat_opt (Some g) = flattenFolderConnections g"
  by (simp_all add: flat_opt_def)

lemma flatten_compact:
  "concat (map flattenFolderConnections (js_compact xs)) = concat (map flat_opt xs)"
  by (induction xs rule: js_compact.induct) auto

lemma concat_map_filter_pred: "concat (map (\<lambda>x. filter P (f x)) xs) = filter P (concat (map f xs))"
  by (induction xs) auto

lemma flatten_connected_folder:
  "flat_opt (filterConnectedFolder f) = filter (\<lambda>c. status c = Connected) (flattenFolderConnections f)"
proof (induction f)
  case (ConnectionFolder i n ic cs fs)
  then have *: "concat (map flattenFolderConnections (js_compact (map filterConnectedFolder fs)))
      = filter (\<lambda>c. status c = Connected) (concat (map flattenFolderConnections fs))"
    by (simp add: flatten_compact o_def concat_map_filter_pred [symmetric] cong: map_cong)
  show ?case
  proof (cases "js_compact (map filterConnectedFolder fs) = []")
    case True
    with * show ?thesis by (auto simp: Let_def)
  next
    case False
    with * show ?thesis by (auto simp: Let_def)
  qed
qed

lemma flatten_connected_tree:
  "flattenConnections (filterConnectedConnections t) = filter (\<lambda>c. status c = Connected) (flattenConnections t)"
  by (simp add: flattenConnections_def filterConnectedConnections_def flatten_compact o_def
      flatten_connected_folder concat_map_filter_pred)

text \<open>No folder the connected filter keeps is without a connected Connection.\<close>

lemma connected_folder_nonempty:
  "filterConnectedFolder f = Some g \<Longrightarrow> flattenFolderConnections g \<noteq> []"
proof (induction f arbitrary: g)
  case (ConnectionFolder i n ic cs fs)
  let ?fs = "js_compact (map filterConnectedFolder fs)"
  have sub: "h \<in> set ?fs \<Longrightarrow> flattenFolderConnections h \<noteq> []" for h
    using ConnectionFolder.IH by (auto simp: set_js_compact)
  show ?case
  proof (cases "?fs")
    case Nil
    then show ?thesis using ConnectionFolder.prems by (auto simp: Let_def split: if_splits)
  next
    case (Cons h hs)
    then show ?thesis using ConnectionFolder.prems sub [of h] by (auto simp: Let_def)
  qed
qed

text \<open>
  Each Connection below a folder with the names of the folders on the way to it, in display
  order: what the search is specified over.
\<close>

fun named_connections :: "connection_folder \<Rightarrow> (connection \<times> string list) list" where
  "named_connections (ConnectionFolder i n ic cs fs) =
     map (\<lambda>(c, ns). (c, n # ns))
       (map (\<lambda>c. (c, [])) cs @ concat (map named_connections fs))"

definition query_shows :: "string \<Rightarrow> connection \<times> string list \<Rightarrow> bool" where
  "query_shows q cn =
     (connectionMatchesQuery (fst cn) q \<or> (\<exists>n \<in> set (snd cn). str_includes (to_lower n) q))"

lemma query_shows_pair [simp]:
  "query_shows q (c, ns)
    = (connectionMatchesQuery c q \<or> (\<exists>n \<in> set ns. str_includes (to_lower n) q))"
  by (simp add: query_shows_def)

lemma map_fst_named: "map fst (named_connections f) = flattenFolderConnections f"
  by (induction f) (simp add: map_concat o_def case_prod_beta cong: map_cong)

lemma filter_shows_step:
  "filter (query_shows q) (map (\<lambda>(c, ns). (c, n # ns)) xs)
    = (if str_includes (to_lower n) q then map (\<lambda>(c, ns). (c, n # ns)) xs
       else map (\<lambda>(c, ns). (c, n # ns)) (filter (query_shows q) xs))"
  by (induction xs) auto

lemma map_fst_add_name: "map fst (map (\<lambda>(c, ns). (c, n # ns)) xs) = map fst xs"
  by (induction xs) auto

lemma filter_shows_own:
  "map fst (filter (query_shows q) (map (\<lambda>c. (c, [])) cs)) = filter (\<lambda>c. connectionMatchesQuery c q) cs"
  by (induction cs) auto

lemma flatten_query_folder:
  "flat_opt (filterConnectionFolder f q) = map fst (filter (query_shows q) (named_connections f))"
proof (induction f)
  case (ConnectionFolder i n ic cs fs)
  let ?sub = "js_compact (map (\<lambda>f. filterConnectionFolder f q) fs)"
  have sub: "concat (map flattenFolderConnections ?sub)
      = map fst (filter (query_shows q) (concat (map named_connections fs)))"
    using ConnectionFolder
    by (simp add: flatten_compact o_def concat_map_filter_pred [symmetric] map_concat cong: map_cong)
  show ?case
  proof (cases "str_includes (to_lower n) q")
    case True
    then have "filter (query_shows q) (named_connections (ConnectionFolder i n ic cs fs))
        = named_connections (ConnectionFolder i n ic cs fs)"
      by (simp only: named_connections.simps filter_shows_step if_True)
    then show ?thesis using True
      by (simp only: map_fst_named) (simp add: Let_def)
  next
    case False
    have "map fst (filter (query_shows q) (named_connections (ConnectionFolder i n ic cs fs)))
        = filter (\<lambda>c. connectionMatchesQuery c q) cs @ concat (map flattenFolderConnections ?sub)"
      using False by (simp add: filter_shows_step map_fst_add_name filter_shows_own sub
          del: map_map)
    then show ?thesis using False by (auto simp: Let_def)
  qed
qed

section \<open>Lookup\<close>

lemma find_append:
  "find P (xs @ ys) = (case find P xs of Some x \<Rightarrow> Some x | None \<Rightarrow> find P ys)"
  by (induction xs) auto

lemma find_in_folders_first:
  "map_option fst (findConnectionInFolder f cid) = find (\<lambda>c. conn_id c = cid) (flattenFolderConnections f)"
  "map_option fst (findConnectionInFolders fs cid)
    = find (\<lambda>c. conn_id c = cid) (concat (map flattenFolderConnections fs))"
proof (induction f cid and fs cid rule: findConnectionInFolder_findConnectionInFolders.induct)
  case (1 i n ic cs fs cid)
  then show ?case by (auto simp: find_append split: option.split)
next
  case (3 f fs cid)
  then show ?case
    by (cases "findConnectionInFolder f cid") (auto simp: find_append split: option.split)
qed simp

lemma find_in_folders_id:
  "findConnectionInFolder f cid = Some (c, i) \<Longrightarrow> i \<in> set (folder_ids f)"
  "findConnectionInFolders fs cid = Some (c, i) \<Longrightarrow> i \<in> set (concat (map folder_ids fs))"
  by (induction f cid and fs cid rule: findConnectionInFolder_findConnectionInFolders.induct)
    (auto split: option.splits)

section \<open>Live statuses\<close>

lemma live_status_simps [simp]:
  "conn_id (with_live_status counts c) = conn_id c"
  "status (with_live_status counts c) = liveConnectionStatus (conn_id c) counts"
  by (simp_all add: with_live_status_def)

lemma flatten_live_folder:
  "flattenFolderConnections (withLiveFolderStatuses f counts)
    = map (with_live_status counts) (flattenFolderConnections f)"
  by (induction f) (simp add: map_concat o_def cong: map_cong)

lemma flatten_live_tree:
  "flattenConnections (withLiveConnectionStatuses t counts)
    = map (with_live_status counts) (flattenConnections t)"
  by (simp add: flattenConnections_def withLiveConnectionStatuses_def map_concat o_def
      flatten_live_folder)

fun folders_within :: "connection_folder \<Rightarrow> connection_folder list" where
  "folders_within (ConnectionFolder i n ic cs fs) =
     ConnectionFolder i n ic cs fs # concat (map folders_within fs)"

lemma connected_folders_nonempty:
  "filterConnectedFolder f = Some g \<Longrightarrow> h \<in> set (folders_within g) \<Longrightarrow> flattenFolderConnections h \<noteq> []"
proof (induction f arbitrary: g h)
  case (ConnectionFolder i n ic cs fs)
  show ?case
  proof (cases "h = g")
    case True
    then show ?thesis using connected_folder_nonempty [OF ConnectionFolder.prems(1)] by simp
  next
    case False
    then show ?thesis using ConnectionFolder
      by (auto simp: Let_def set_js_compact_map split: if_splits)
  qed
qed

lemma without_local_folder:
  "flattenFolderConnections (withoutLocalTerminalFolderConnections f)
    = filter (\<lambda>c. conn_type c \<noteq> CLocal) (flattenFolderConnections f)"
  by (induction f) (simp add: o_def concat_map_filter_pred [symmetric] cong: map_cong)

section \<open>Properties\<close>

text \<open>
  C4.  The search shows exactly the Connections that match the query themselves or lie below
  a folder whose name contains it, in the tree's display order.
\<close>
theorem search_shows_exactly:
  "flattenConnections (filterConnectionTree t q)
    = filter (\<lambda>c. connectionMatchesQuery c q) (tree_connections t)
      @ map fst (filter (query_shows q) (concat (map named_connections (tree_folders t))))"
  by (simp add: flattenConnections_def filterConnectionTree_def flatten_compact o_def
      flatten_query_folder concat_map_filter_pred [symmetric] map_concat)

text \<open>
  C5.  The sidebar's "Show Connected" view, computed from the live session counts: it lists
  exactly the Connections with at least one session, in display order and marked connected,
  and no folder it keeps, at any depth, is without one.
\<close>
theorem connected_view_is_active_connections:
  "map conn_id (flattenConnections (filterConnectedConnections (withLiveConnectionStatuses t counts)))
    = filter (\<lambda>i. \<exists>n. counts i = Some n \<and> n \<noteq> 0) (map conn_id (flattenConnections t))
   \<and> (\<forall>f h. f \<in> set (tree_folders (filterConnectedConnections (withLiveConnectionStatuses t counts)))
      \<and> h \<in> set (folders_within f) \<longrightarrow> flattenFolderConnections h \<noteq> [])"
proof
  have "(liveConnectionStatus i counts = Connected) = (\<exists>n. counts i = Some n \<and> n \<noteq> 0)" for i
    by (auto simp: liveConnectionStatus_def split: option.splits)
  then show "map conn_id (flattenConnections (filterConnectedConnections (withLiveConnectionStatuses t counts)))
    = filter (\<lambda>i. \<exists>n. counts i = Some n \<and> n \<noteq> 0) (map conn_id (flattenConnections t))"
    by (simp add: flatten_connected_tree flatten_live_tree filter_map o_def)
  show "\<forall>f h. f \<in> set (tree_folders (filterConnectedConnections (withLiveConnectionStatuses t counts)))
      \<and> h \<in> set (folders_within f) \<longrightarrow> flattenFolderConnections h \<noteq> []"
    using connected_folders_nonempty
    by (auto simp: filterConnectedConnections_def set_js_compact_map)
qed

text \<open>A tree with one folder around one Connection, with one live session.\<close>

definition sample_tree :: connection_tree where
  "sample_tree = \<lparr> tree_connections = [],
     tree_folders = [ConnectionFolder ''f'' ''Lab'' None [mk_connection ''a'' ''db'' ''h'' ''u'' CSsh] [],
                     ConnectionFolder ''g'' ''Empty'' None [] []] \<rparr>"

theorem connected_view_is_active_connections_witness:
  "map conn_id (flattenConnections (filterConnectedConnections
      (withLiveConnectionStatuses sample_tree [''a'' \<mapsto> 1]))) = [''a'']"
  unfolding conjunct1 [OF connected_view_is_active_connections [of sample_tree "[''a'' \<mapsto> 1]"]]
  by (simp add: sample_tree_def flattenConnections_def)

text \<open>
  Looking a Connection up by id finds the first one with that id in display order, and
  the folder it reports is a folder of the tree.
\<close>
theorem find_is_first_in_display_order:
  "map_option fst (findConnectionInTree t cid) = find (\<lambda>c. conn_id c = cid) (flattenConnections t)
   \<and> (\<forall>c i. findConnectionInTree t cid = Some (c, Some i)
        \<longrightarrow> i \<in> set (collectConnectionFolderIds (tree_folders t)))"
proof
  have *: "map_option fst (map_option (\<lambda>(c, i). (c, Some i)) r) = map_option fst r" for r :: "('x \<times> 'y) option"
    by (cases r) auto
  show "map_option fst (findConnectionInTree t cid) = find (\<lambda>c. conn_id c = cid) (flattenConnections t)"
    using find_in_folders_first(2) [of "tree_folders t" cid]
    by (auto simp: findConnectionInTree_def flattenConnections_def find_append * split: option.split)
  show "\<forall>c i. findConnectionInTree t cid = Some (c, Some i)
        \<longrightarrow> i \<in> set (collectConnectionFolderIds (tree_folders t))"
    using find_in_folders_id(2) [of "tree_folders t" cid]
    by (auto simp: findConnectionInTree_def collectConnectionFolderIds_def split: option.splits)
qed

theorem find_is_first_in_display_order_witness:
  "map_option fst (findConnectionInTree sample_tree ''a'') = Some (mk_connection ''a'' ''db'' ''h'' ''u'' CSsh)"
  using find_is_first_in_display_order [of sample_tree "''a''"]
  by (simp add: sample_tree_def flattenConnections_def)

end
