(* ===== verification/Tmux_Ids.thy ===== *)
theory Tmux_Ids
  imports Workspace_Types
begin

text \<open>
  The names of the tmux and psmux sessions a Connection's Panes resume
  (\<open>src/store.ts\<close>): which Connections use a multiplexer, which names are acceptable, the
  random choice of a fresh name and the per-Connection list kept in local storage.

  The environment holds what the code reads besides its arguments: the entries of local
  storage under the tmux prefix (keyed by Connection id, in storage order; the parsed value,
  or \<open>None\<close> where \<open>JSON.parse\<close> throws), which writes to it throw (storage may be
  unavailable or full) with the number of writes so far, the localized label pool, the
  stream of 32-bit random draws with the position reached, and the clock.
\<close>

section \<open>Definitions\<close>

subsection \<open>Which Connections use a multiplexer\<close>

definition connectionUsesTmux :: "connection \<Rightarrow> bool \<Rightarrow> bool" where
  "connectionUsesTmux c defaultUseTmuxSessions =
     (if conn_type c \<noteq> CSsh then False
      else if sshSocksProxyInheritDefaults c \<noteq> Some False then defaultUseTmuxSessions
      else useTmuxSessions c \<noteq> Some False)"

definition connectionUsesPsmux :: "connection \<Rightarrow> bool" where
  "connectionUsesPsmux c = (conn_type c = CLocal \<and> usePsmuxSessions c = Some True)"

definition connectionUsesMultiplexer :: "connection \<Rightarrow> bool \<Rightarrow> bool" where
  "connectionUsesMultiplexer c defaultUseTmuxSessions =
     (connectionUsesTmux c defaultUseTmuxSessions \<or> connectionUsesPsmux c)"

subsection \<open>Acceptable names\<close>

text \<open>\<open>/^[^\s:;]+$/u\<close> and no control character.\<close>

definition tmux_char :: "char \<Rightarrow> bool" where
  "tmux_char c = (\<not> is_space c \<and> c \<noteq> CHR '':'' \<and> c \<noteq> CHR '';''
     \<and> \<not> (of_char c < (32 :: nat)) \<and> of_char c \<noteq> (127 :: nat))"

definition isCurrentTmuxSessionId :: "string \<Rightarrow> bool" where
  "isCurrentTmuxSessionId v = (v \<noteq> [] \<and> list_all tmux_char v)"

definition json_session_ids :: "json option \<Rightarrow> string list" where
  "json_session_ids v =
     (case v of
        Some (JArr xs) \<Rightarrow>
          filter isCurrentTmuxSessionId
            (js_compact (map (\<lambda>x. case x of JStr s \<Rightarrow> Some s | _ \<Rightarrow> None) xs))
      | _ \<Rightarrow> [])"

definition TMUX_SESSION_NAMES :: "string list" where
  "TMUX_SESSION_NAMES =
    [''airlock'', ''andromeda'', ''antimatter'', ''asteroid'', ''astronaut'', ''atmosphere'',
     ''aurora'', ''binary'', ''biosphere'', ''blackhole'', ''blazar'', ''capsule'',
     ''celestial'', ''chromosphere'', ''chronos'', ''cluster'', ''comet'', ''constellation'',
     ''corona'', ''cosmos'', ''crater'', ''cryo'', ''cyber'', ''datasphere'',
     ''deepspace'', ''docking'', ''domeshield'', ''drift'', ''dwarfstar'', ''eclipse'',
     ''electromag'', ''equinox'', ''event'', ''exoplanet'', ''exosphere'', ''filament'',
     ''flyby'', ''fusion'', ''galaxy'', ''gateway'', ''geodesic'', ''gluon'',
     ''gravity'', ''hangar'', ''helix'', ''holodeck'', ''horizon'', ''hydrogen'',
     ''hypernova'', ''hyperspace'', ''ignition'', ''impulse'', ''inertia'', ''infrared'',
     ''iondrive'', ''ionosphere'', ''jetstream'', ''jumpgate'', ''jupiter'', ''kepler'',
     ''launchpad'', ''lightyear'', ''lithium'', ''lodestar'', ''mainframe'', ''mars'',
     ''mercury'', ''meteor'', ''mission'', ''moonbase'', ''moonshot'', ''nebula'',
     ''neptune'', ''netrunner'', ''neutron'', ''nextgen'', ''nova'', ''observatory'',
     ''orbit'', ''orion'', ''parsec'', ''payload'', ''photon'', ''planetoid'',
     ''plasma'', ''polaris'', ''probe'', ''pulsar'', ''quantum'', ''quasar'',
     ''redshift'', ''rover'', ''satellite'', ''singularity'', ''solarwind'', ''spacelab'',
     ''stardust'', ''starship'', ''sunspot'', ''supernova'']"

subsection \<open>The environment\<close>

record tmux_env =
  tmux_entries :: "(string \<times> json option) list"
  setItem_fails :: "nat \<Rightarrow> bool"
  writes :: nat
  tmux_labels :: "json option"
  draw :: "nat \<Rightarrow> nat"
  draw_pos :: nat
  date_now :: nat

definition tmuxSessionNamePool :: "tmux_env \<Rightarrow> string list" where
  "tmuxSessionNamePool e =
     (let names = json_session_ids (tmux_labels e)
      in if names \<noteq> [] then names else TMUX_SESSION_NAMES)"

definition loadStoredTmuxSessionIds :: "string \<Rightarrow> tmux_env \<Rightarrow> string list" where
  "loadStoredTmuxSessionIds cid e =
     (case map_of (tmux_entries e) cid of None \<Rightarrow> [] | Some v \<Rightarrow> json_session_ids v)"

text \<open>The names every other Connection keeps; one entry that does not parse loses them all.\<close>

definition loadReservedPsmuxSessionIds :: "string \<Rightarrow> tmux_env \<Rightarrow> string list" where
  "loadReservedPsmuxSessionIds cid e =
     (let others = filter (\<lambda>(k, v). k \<noteq> cid) (tmux_entries e)
      in if \<exists>(k, v) \<in> set others. v = None then []
         else dedup (concat (map (\<lambda>(k, v). json_session_ids v) others)))"

fun put_entry :: "string \<Rightarrow> json option \<Rightarrow> (string \<times> json option) list
    \<Rightarrow> (string \<times> json option) list" where
  "put_entry k v [] = [(k, v)]"
| "put_entry k v ((k', v') # xs) = (if k' = k then (k, v) # xs else (k', v') # put_entry k v xs)"

text \<open>A write that throws leaves the old entry; the \<open>catch\<close> drops the error.\<close>

definition persistTmuxSessionIds :: "string \<Rightarrow> string list \<Rightarrow> tmux_env \<Rightarrow> tmux_env" where
  "persistTmuxSessionIds cid ids e =
     (let e' = e\<lparr>writes := Suc (writes e)\<rparr>
      in if setItem_fails e (writes e) then e'
         else e'\<lparr>tmux_entries := put_entry cid (Some (JArr (map JStr ids))) (tmux_entries e)\<rparr>)"

definition forgetTmuxSessionId :: "string \<Rightarrow> string \<Rightarrow> tmux_env \<Rightarrow> tmux_env" where
  "forgetTmuxSessionId cid sid e =
     persistTmuxSessionIds cid (filter (\<lambda>x. x \<noteq> sid) (loadStoredTmuxSessionIds cid e)) e"

definition replaceTmuxSessionId :: "string \<Rightarrow> string \<Rightarrow> string \<Rightarrow> tmux_env \<Rightarrow> tmux_env" where
  "replaceTmuxSessionId cid previous nextId e =
     (let nextIds = map (\<lambda>x. if x = previous then nextId else x) (loadStoredTmuxSessionIds cid e);
          withNext = (if nextId \<in> set nextIds then nextIds else nextIds @ [nextId])
      in persistTmuxSessionIds cid (dedup withNext) e)"

subsection \<open>Choosing a fresh name\<close>

definition randomTmuxName :: "string list \<Rightarrow> tmux_env \<Rightarrow> string \<times> tmux_env" where
  "randomTmuxName pool e =
     (nullish (js_nth pool (int (draw e (draw_pos e) mod length pool))) ''airlock'',
      e\<lparr>draw_pos := Suc (draw_pos e)\<rparr>)"

definition formatTmuxSessionNumber :: "nat \<Rightarrow> string" where
  "formatTmuxSessionNumber v = pad_start 2 (CHR ''0'') (nat_string (max 2 v))"

text \<open>One of the \<open>for\<close> loops over attempts: a suffix is appended to each candidate.\<close>

fun try_names :: "nat \<Rightarrow> string \<Rightarrow> string list \<Rightarrow> string list \<Rightarrow> tmux_env \<Rightarrow> string option \<times> tmux_env"
where
  "try_names 0 sfx pool existing e = (None, e)"
| "try_names (Suc n) sfx pool existing e =
     (let (name, e') = randomTmuxName pool e; candidate = name @ sfx
      in if candidate \<notin> set existing then (Some candidate, e')
         else try_names n sfx pool existing e')"

fun try_suffixes :: "nat list \<Rightarrow> string list \<Rightarrow> string list \<Rightarrow> tmux_env \<Rightarrow> string option \<times> tmux_env"
where
  "try_suffixes [] pool existing e = (None, e)"
| "try_suffixes (k # ks) pool existing e =
     (case try_names (length pool) (formatTmuxSessionNumber k) pool existing e of
        (Some c, e') \<Rightarrow> (Some c, e')
      | (None, e') \<Rightarrow> try_suffixes ks pool existing e')"

definition generateTmuxSessionId :: "string list \<Rightarrow> tmux_env \<Rightarrow> string \<times> tmux_env" where
  "generateTmuxSessionId existing e =
     (let pool = tmuxSessionNamePool e
      in case try_names (length pool * 2) [] pool existing e of
           (Some c, e') \<Rightarrow> (c, e')
         | (None, e') \<Rightarrow>
             (case try_suffixes [2..<100] pool existing e' of
                (Some c, e'') \<Rightarrow> (c, e'')
              | (None, e'') \<Rightarrow>
                  (let (name, e3) = randomTmuxName pool e''
                   in (name @ formatTmuxSessionNumber (date_now e3 mod 98 + 2), e3))))"

subsection \<open>Names for a Connection's Panes\<close>

definition reserved_ids :: "connection \<Rightarrow> tmux_env \<Rightarrow> string list" where
  "reserved_ids c e =
     (if connectionUsesPsmux c then loadReservedPsmuxSessionIds (conn_id c) e else [])"

fun fill_ids :: "nat \<Rightarrow> string list \<Rightarrow> string list \<Rightarrow> tmux_env \<Rightarrow> string list \<times> tmux_env" where
  "fill_ids 0 ids reserved e = (ids, e)"
| "fill_ids (Suc n) ids reserved e =
     (let (s, e') = generateTmuxSessionId (ids @ reserved) e
      in fill_ids n (ids @ [s]) reserved e')"

definition tmuxSessionIdsForConnection :: "connection \<Rightarrow> nat \<Rightarrow> bool \<Rightarrow> tmux_env
    \<Rightarrow> string list \<times> tmux_env" where
  "tmuxSessionIdsForConnection c cnt defaultUse e =
     (if \<not> connectionUsesMultiplexer c defaultUse then ([], e)
      else let ids = take cnt (loadStoredTmuxSessionIds (conn_id c) e);
               (ids', e') = fill_ids (cnt - length ids) ids (reserved_ids c e) e
           in (ids', persistTmuxSessionIds (conn_id c) ids' e'))"

definition appendTmuxSessionId :: "connection \<Rightarrow> bool \<Rightarrow> tmux_env \<Rightarrow> string option \<times> tmux_env" where
  "appendTmuxSessionId c defaultUse e =
     (if \<not> connectionUsesMultiplexer c defaultUse then (None, e)
      else let ids = loadStoredTmuxSessionIds (conn_id c) e;
               (s, e') = generateTmuxSessionId (ids @ reserved_ids c e) e
           in (Some s, persistTmuxSessionIds (conn_id c) (ids @ [s]) e'))"

section \<open>Storage\<close>

lemma json_session_ids_valid: "x \<in> set (json_session_ids v) \<Longrightarrow> isCurrentTmuxSessionId x"
  by (auto simp: json_session_ids_def split: option.splits json.splits)

lemma json_session_ids_JArr:
  "json_session_ids (Some (JArr (map JStr ids))) = filter isCurrentTmuxSessionId ids"
  by (simp add: json_session_ids_def o_def)

lemma map_of_put_entry: "map_of (put_entry k v xs) = (map_of xs)(k \<mapsto> v)"
  by (induction xs) auto

lemma persist_simps [simp]:
  "tmux_labels (persistTmuxSessionIds c ids e) = tmux_labels e"
  "draw (persistTmuxSessionIds c ids e) = draw e"
  "draw_pos (persistTmuxSessionIds c ids e) = draw_pos e"
  "setItem_fails (persistTmuxSessionIds c ids e) = setItem_fails e"
  by (simp_all add: persistTmuxSessionIds_def Let_def)

abbreviation storage_takes :: "tmux_env \<Rightarrow> bool" where
  "storage_takes e \<equiv> \<not> setItem_fails e (writes e)"

interpretation tmux_storage: keyed_store loadStoredTmuxSessionIds persistTmuxSessionIds
  "list_all isCurrentTmuxSessionId" "storage_takes"
  by unfold_locales
    (auto simp: loadStoredTmuxSessionIds_def persistTmuxSessionIds_def Let_def map_of_put_entry
      json_session_ids_JArr list_all_iff)

lemma loadStored_valid: "list_all isCurrentTmuxSessionId (loadStoredTmuxSessionIds c e)"
  by (auto simp: loadStoredTmuxSessionIds_def list_all_iff json_session_ids_valid split: option.splits)

lemma load_after_forget:
  "loadStoredTmuxSessionIds k (forgetTmuxSessionId c sid e)
    = (if k = c \<and> storage_takes e then filter (\<lambda>x. x \<noteq> sid) (loadStoredTmuxSessionIds c e)
       else loadStoredTmuxSessionIds k e)"
proof -
  have "list_all isCurrentTmuxSessionId (filter (\<lambda>x. x \<noteq> sid) (loadStoredTmuxSessionIds c e))"
    using loadStored_valid [of c e] by (auto simp: list_all_iff)
  then show ?thesis by (simp add: forgetTmuxSessionId_def tmux_storage.get_put)
qed

lemma load_after_replace:
  assumes "isCurrentTmuxSessionId nextId" "storage_takes e"
  shows "distinct (loadStoredTmuxSessionIds c (replaceTmuxSessionId c previous nextId e))"
    and "set (loadStoredTmuxSessionIds c (replaceTmuxSessionId c previous nextId e))
      = insert nextId (set (loadStoredTmuxSessionIds c e) - {previous} )"
proof -
  let ?ids = "loadStoredTmuxSessionIds c e"
  let ?m = "map (\<lambda>x. if x = previous then nextId else x) ?ids"
  let ?w = "if nextId \<in> set ?m then ?m else ?m @ [nextId]"
  have "list_all isCurrentTmuxSessionId (dedup ?w)"
    using loadStored_valid [of c e] assms by (auto simp: list_all_iff)
  then have *: "loadStoredTmuxSessionIds c (replaceTmuxSessionId c previous nextId e) = dedup ?w"
    by (simp only: replaceTmuxSessionId_def Let_def tmux_storage.get_put_same [OF _ assms(2)])
  show "distinct (loadStoredTmuxSessionIds c (replaceTmuxSessionId c previous nextId e))"
    unfolding * by simp
  show "set (loadStoredTmuxSessionIds c (replaceTmuxSessionId c previous nextId e))
      = insert nextId (set ?ids - {previous})"
    unfolding * by auto
qed

section \<open>The generator\<close>

text \<open>The candidate the \<open>i\<close>-th draw from here selects.\<close>

definition drawn :: "string list \<Rightarrow> tmux_env \<Rightarrow> nat \<Rightarrow> string" where
  "drawn pool e i = pool ! (draw e (draw_pos e + i) mod length pool)"

definition advance :: "nat \<Rightarrow> tmux_env \<Rightarrow> tmux_env" where
  "advance n e = e\<lparr>draw_pos := draw_pos e + n\<rparr>"

lemma advance_simps [simp]:
  "draw (advance n e) = draw e" "draw_pos (advance n e) = draw_pos e + n"
  "tmux_entries (advance n e) = tmux_entries e" "setItem_fails (advance n e) = setItem_fails e"
  "writes (advance n e) = writes e" "tmux_labels (advance n e) = tmux_labels e"
  "date_now (advance n e) = date_now e" "advance 0 e = e"
  "advance m (advance n e) = advance (n + m) e"
  by (simp_all add: advance_def)

lemma drawn_advance [simp]: "drawn pool (advance n e) i = drawn pool e (n + i)"
  by (simp add: drawn_def add.assoc)

lemma randomTmuxName_drawn:
  "pool \<noteq> [] \<Longrightarrow> randomTmuxName pool e = (drawn pool e 0, advance 1 e)"
  by (simp add: randomTmuxName_def drawn_def js_nth_nat advance_def)

lemma drawn_in_pool: "pool \<noteq> [] \<Longrightarrow> drawn pool e i \<in> set pool"
  by (simp add: drawn_def)

lemma try_names_cases:
  assumes "pool \<noteq> []"
  shows "case try_names n sfx pool existing e of
      (Some c, e') \<Rightarrow> c \<notin> set existing \<and> (\<exists>i < n. c = drawn pool e i @ sfx \<and> e' = advance (Suc i) e)
    | (None, e') \<Rightarrow> e' = advance n e \<and> (\<forall>i < n. drawn pool e i @ sfx \<in> set existing)"
proof (induction n arbitrary: e)
  case 0
  then show ?case by simp
next
  case (Suc n)
  show ?case
  proof (cases "drawn pool e 0 @ sfx \<in> set existing")
    case False
    then show ?thesis using assms by (auto simp: randomTmuxName_drawn intro!: exI [of _ 0])
  next
    case True
    have all: "(\<forall>i < Suc n. drawn pool e i @ sfx \<in> set existing)"
      if "\<forall>i < n. drawn pool (advance 1 e) i @ sfx \<in> set existing"
      using that True by (auto simp: less_Suc_eq_0_disj)
    have ex: "\<exists>i < Suc n. c = drawn pool e i @ sfx \<and> e' = advance (Suc i) e"
      if h: "\<exists>i < n. c = drawn pool (advance 1 e) i @ sfx \<and> e' = advance (Suc i) (advance 1 e)" for c e'
    proof -
      obtain i where "i < n" "c = drawn pool (advance 1 e) i @ sfx" "e' = advance (Suc i) (advance 1 e)"
        using h by blast
      then show ?thesis by (intro exI [of _ "Suc i"]) simp
    qed
    show ?thesis using Suc [of "advance 1 e"] True assms all ex
      by (auto simp: randomTmuxName_drawn split: prod.splits option.splits)
  qed
qed

lemma try_suffixes_cases:
  assumes "pool \<noteq> []"
  shows "case try_suffixes ks pool existing e of
      (Some c, e') \<Rightarrow> c \<notin> set existing
        \<and> (\<exists>k \<in> set ks. \<exists>w \<in> set pool. c = w @ formatTmuxSessionNumber k)
        \<and> (\<exists>m. e' = advance m e)
    | (None, e') \<Rightarrow> e' = advance (length ks * length pool) e
        \<and> (\<forall>j < length ks. \<forall>i < length pool.
             drawn pool e (j * length pool + i) @ formatTmuxSessionNumber (ks ! j) \<in> set existing)"
proof (induction ks arbitrary: e)
  case Nil
  then show ?case by simp
next
  case (Cons k ks)
  let ?n = "length pool"
  show ?case
  proof (cases "try_names ?n (formatTmuxSessionNumber k) pool existing e")
    case (Pair r e')
    show ?thesis
    proof (cases r)
      case (Some c)
      then show ?thesis using try_names_cases [where pool = pool and n = ?n
            and sfx = "formatTmuxSessionNumber k" and existing = existing and e = e, OF assms]
          Pair assms by (auto dest: drawn_in_pool)
    next
      case None
      then have e': "e' = advance ?n e"
        and h: "\<forall>i < ?n. drawn pool e i @ formatTmuxSessionNumber k \<in> set existing"
        using try_names_cases [where pool = pool and n = ?n
            and sfx = "formatTmuxSessionNumber k" and existing = existing and e = e, OF assms] Pair by auto
      have all: "\<forall>j < Suc (length ks). \<forall>i < ?n.
          drawn pool e (j * ?n + i) @ formatTmuxSessionNumber ((k # ks) ! j) \<in> set existing"
        if "\<forall>j < length ks. \<forall>i < ?n.
          drawn pool (advance ?n e) (j * ?n + i) @ formatTmuxSessionNumber (ks ! j) \<in> set existing"
        using that h by (auto simp: less_Suc_eq_0_disj add.assoc)
      show ?thesis using Cons [of "advance ?n e"] Pair None e' all
        by (auto split: prod.splits option.splits simp: add.commute)
    qed
  qed
qed

lemma pool_not_Nil: "tmuxSessionNamePool e \<noteq> []"
  by (simp add: tmuxSessionNamePool_def Let_def TMUX_SESSION_NAMES_def)

lemma default_names_valid: "list_all isCurrentTmuxSessionId TMUX_SESSION_NAMES"
  by (simp add: TMUX_SESSION_NAMES_def isCurrentTmuxSessionId_def tmux_char_def is_space_def)

lemma pool_valid: "w \<in> set (tmuxSessionNamePool e) \<Longrightarrow> isCurrentTmuxSessionId w"
  using default_names_valid
  by (auto simp: tmuxSessionNamePool_def Let_def list_all_iff json_session_ids_valid split: if_splits)

lemma digit_tmux_char: "is_digit c \<Longrightarrow> tmux_char c"
  by (auto simp: is_digit_def tmux_char_def is_space_def)

lemma format_number_valid: "list_all tmux_char (formatTmuxSessionNumber k)"
  by (auto simp: formatTmuxSessionNumber_def pad_start_def list_all_iff digit_tmux_char
      dest!: nat_string_digits) (simp_all add: tmux_char_def is_space_def)

lemma numbered_valid:
  "isCurrentTmuxSessionId w \<Longrightarrow> isCurrentTmuxSessionId (w @ formatTmuxSessionNumber k)"
  using format_number_valid [of k] by (simp add: isCurrentTmuxSessionId_def)


lemma try_names_valid:
  assumes "\<And>w. w \<in> set pool \<Longrightarrow> isCurrentTmuxSessionId w" "pool \<noteq> []"
    and "try_names n [] pool existing e = (Some c, e')"
  shows "isCurrentTmuxSessionId c"
  using try_names_cases [where pool = pool and n = n and sfx = "[]" and existing = existing and e = e,
      OF assms(2)] assms drawn_in_pool [OF assms(2)] by auto

text \<open>Every draw the search makes is already taken: the only way a taken name comes out.\<close>

definition draws_exhausted :: "string list \<Rightarrow> tmux_env \<Rightarrow> bool" where
  "draws_exhausted existing e =
     (let pool = tmuxSessionNamePool e; n = length pool
      in (\<forall>i \<in> {0..<2 * n}. drawn pool e i \<in> set existing)
       \<and> (\<forall>j \<in> {0..<98}. \<forall>i \<in> {0..<n}.
            drawn pool e (2 * n + j * n + i) @ formatTmuxSessionNumber (j + 2) \<in> set existing))"

lemma generate_spec:
  assumes "generateTmuxSessionId existing e = (s, e')"
  shows "isCurrentTmuxSessionId s \<and> (s \<in> set existing \<longrightarrow> draws_exhausted existing e)
    \<and> (\<exists>m > 0. e' = advance m e)"
proof -
  let ?pool = "tmuxSessionNamePool e" and ?n = "length (tmuxSessionNamePool e)"
  have ne: "?pool \<noteq> []" by (rule pool_not_Nil)
  obtain r1 e1 where t1: "try_names (?n * 2) [] ?pool existing e = (r1, e1)" by fastforce
  note c1 = try_names_cases [where pool = ?pool and n = "?n * 2" and sfx = "[]" and existing = existing
      and e = e, OF ne, unfolded t1]
  show ?thesis
  proof (cases r1)
    case (Some c)
    then have "s = c" "e' = e1" using assms t1 by (auto simp: generateTmuxSessionId_def Let_def)
    then show ?thesis using c1 Some drawn_in_pool [OF ne] by (auto dest: pool_valid)
  next
    case None
    then have e1: "e1 = advance (?n * 2) e" and h1: "\<forall>i < ?n * 2. drawn ?pool e i \<in> set existing"
      using c1 by auto
    obtain r2 e2 where t2: "try_suffixes [2..<100] ?pool existing e1 = (r2, e2)" by fastforce
    note c2 = try_suffixes_cases [where pool = ?pool and ks = "[2..<100]" and existing = existing
        and e = e1, OF ne, unfolded t2]
    have npos: "0 < ?n" using ne by simp
    show ?thesis
    proof (cases r2)
      case (Some c)
      then have "s = c" "e' = e2" using assms t1 None t2 by (auto simp: generateTmuxSessionId_def Let_def)
      moreover obtain k w m where "w \<in> set ?pool" "c = w @ formatTmuxSessionNumber k"
        "e2 = advance m e1" "c \<notin> set existing"
        using c2 Some by auto
      ultimately show ?thesis using e1 npos
        by (auto intro!: numbered_valid exI [of _ "?n * 2 + m"] dest: pool_valid)
    next
      case None2: None
      then have e2: "e2 = advance (98 * ?n) e1"
        and h2: "\<forall>j < 98. \<forall>i < ?n. drawn ?pool e1 (j * ?n + i)
            @ formatTmuxSessionNumber ([2..<100] ! j) \<in> set existing"
        using c2 by auto
      have nth: "[2..<100] ! j = j + 2" if "j < 98" for j :: nat
        using that by (subst nth_upt) simp_all
      have h3: "drawn ?pool e1 (j * ?n + i) @ formatTmuxSessionNumber (j + 2) \<in> set existing"
        if "j < 98" "i < ?n" for i j
        using h2 [rule_format, OF that] unfolding nth [OF that(1)] .
      have "draws_exhausted existing e"
        unfolding draws_exhausted_def Let_def
        using h1 h3 by (simp add: e1 mult.commute add.assoc)
      moreover have "s = drawn ?pool e2 0 @ formatTmuxSessionNumber (date_now e2 mod 98 + 2)"
        "e' = advance 1 e2"
        using assms t1 None t2 None2 ne
        by (auto simp: generateTmuxSessionId_def Let_def randomTmuxName_drawn e2 e1)
      moreover have "isCurrentTmuxSessionId (drawn ?pool e2 0 @ formatTmuxSessionNumber k)" for k
        by (rule numbered_valid, rule pool_valid [of _ e], rule drawn_in_pool, rule ne)
      ultimately show ?thesis using e1 e2 by auto
    qed
  qed
qed

text \<open>C6. A generated session name is always acceptable to tmux: not empty, with no white
  space, colon, semicolon or control character.  It differs from every name it must avoid
  unless all of the two draws per pool name and of the draws for the suffixes 02 to 99 hit a
  taken name.\<close>

theorem generated_name_is_valid_and_fresh:
  "isCurrentTmuxSessionId (fst (generateTmuxSessionId existing e))
   \<and> (fst (generateTmuxSessionId existing e) \<notin> set existing \<or> draws_exhausted existing e)"
  using generate_spec [of existing e] by (cases "generateTmuxSessionId existing e") auto

section \<open>The names of a Connection's Panes\<close>

lemma generate_entries:
  "generateTmuxSessionId existing e = (s, e') \<Longrightarrow> tmux_entries e' = tmux_entries e
    \<and> setItem_fails e' = setItem_fails e \<and> writes e' = writes e"
  using generate_spec [of existing e s e'] by auto

lemma load_depends_on_entries:
  "tmux_entries e' = tmux_entries e \<Longrightarrow> loadStoredTmuxSessionIds k e' = loadStoredTmuxSessionIds k e"
  by (simp add: loadStoredTmuxSessionIds_def)

lemma fill_ids_spec:
  "fill_ids n ids reserved e = (ids', e') \<Longrightarrow> list_all isCurrentTmuxSessionId ids
   \<Longrightarrow> length ids' = length ids + n \<and> prefix ids ids' \<and> list_all isCurrentTmuxSessionId ids'
     \<and> tmux_entries e' = tmux_entries e
     \<and> setItem_fails e' = setItem_fails e \<and> writes e' = writes e"
proof (induction n arbitrary: ids e)
  case 0
  then show ?case by simp
next
  case (Suc n)
  obtain s e1 where g: "generateTmuxSessionId (ids @ reserved) e = (s, e1)" by fastforce
  have v: "isCurrentTmuxSessionId s" using generate_spec [OF g] by simp
  have "fill_ids n (ids @ [s]) reserved e1 = (ids', e')" using Suc.prems(1) g by simp
  from Suc.IH [OF this] v Suc.prems(2) generate_entries [OF g] show ?case
    by (auto simp: prefix_def)
qed

lemma tmuxSessionIds_spec:
  assumes "connectionUsesMultiplexer c d" "tmuxSessionIdsForConnection c cnt d e = (ids, e')"
  shows "length ids = cnt \<and> prefix (take cnt (loadStoredTmuxSessionIds (conn_id c) e)) ids
    \<and> list_all isCurrentTmuxSessionId ids
    \<and> loadStoredTmuxSessionIds k e'
      = (if k = conn_id c \<and> storage_takes e then ids else loadStoredTmuxSessionIds k e)"
proof -
  let ?st = "take cnt (loadStoredTmuxSessionIds (conn_id c) e)"
  obtain ids1 e1 where f: "fill_ids (cnt - length ?st) ?st (reserved_ids c e) e = (ids1, e1)" by fastforce
  have "list_all isCurrentTmuxSessionId ?st"
    using loadStored_valid [of "conn_id c" e] by (auto simp: list_all_iff dest: in_set_takeD)
  note F = fill_ids_spec [OF f this]
  have r: "ids = ids1" "e' = persistTmuxSessionIds (conn_id c) ids1 e1"
    using assms f by (auto simp: tmuxSessionIdsForConnection_def Let_def)
  have L: "length ?st \<le> cnt" by simp
  show ?thesis using F L r load_depends_on_entries [of e1 e k] by (auto simp: tmux_storage.get_put)
qed

text \<open>For a Connection that uses a multiplexer, asking for the names of \<open>cnt\<close> Panes
  returns exactly \<open>cnt\<close> acceptable names that start with the stored ones; when local storage
  takes the write, it stores that list and no other Connection's, and asking again returns
  the same list without a random draw.\<close>

theorem session_names_are_sticky:
  assumes "connectionUsesMultiplexer c d"
    and "tmuxSessionIdsForConnection c cnt d e = (ids, e')" and "storage_takes e"
  shows "length ids = cnt \<and> list_all isCurrentTmuxSessionId ids
    \<and> prefix (take cnt (loadStoredTmuxSessionIds (conn_id c) e)) ids
    \<and> (\<forall>k. loadStoredTmuxSessionIds k e'
          = (if k = conn_id c then ids else loadStoredTmuxSessionIds k e))
    \<and> fst (tmuxSessionIdsForConnection c cnt d e') = ids
    \<and> draw_pos (snd (tmuxSessionIdsForConnection c cnt d e')) = draw_pos e'"
proof -
  note S = tmuxSessionIds_spec [OF assms(1,2)]
  have l: "loadStoredTmuxSessionIds (conn_id c) e' = ids" "length ids = cnt" using S assms(3) by auto
  have "tmuxSessionIdsForConnection c cnt d e' = (ids, persistTmuxSessionIds (conn_id c) ids e')"
    using assms(1) l by (simp add: tmuxSessionIdsForConnection_def)
  then show ?thesis using S assms(3) by simp
qed

definition sample_env :: tmux_env where
  "sample_env = \<lparr>tmux_entries = [(''c1'', Some (JArr [JStr ''nova'', JStr ''a b'']))],
     setItem_fails = (\<lambda>i. False), writes = 0, tmux_labels = Some (JArr [JStr ''alpha'', JStr ''beta'']), draw = (\<lambda>i. i), draw_pos = 0, date_now = 0\<rparr>"

definition sample_ssh :: connection where
  "sample_ssh = mk_connection ''c1'' ''web'' ''host'' ''root'' CSsh"

lemma session_names_are_sticky_witness:
  "fst (tmuxSessionIdsForConnection sample_ssh 3 True sample_env) = [''nova'', ''alpha'', ''beta'']
   \<and> loadStoredTmuxSessionIds ''c1'' (snd (tmuxSessionIdsForConnection sample_ssh 3 True sample_env))
     = [''nova'', ''alpha'', ''beta'']"
proof -
  have u: "connectionUsesMultiplexer sample_ssh True" by code_simp
  have i: "fst (tmuxSessionIdsForConnection sample_ssh 3 True sample_env) = [''nova'', ''alpha'', ''beta'']"
    by code_simp
  have "conn_id sample_ssh = ''c1''" by code_simp
  then show ?thesis using i session_names_are_sticky [OF u surjective_pairing, of sample_env 3]
    by (simp add: sample_env_def)
qed


lemma generated_name_is_valid_and_fresh_witness:
  "isCurrentTmuxSessionId (fst (generateTmuxSessionId [''alpha''] sample_env))
   \<and> fst (generateTmuxSessionId [''alpha''] sample_env) \<noteq> ''alpha''"
proof -
  have "\<not> draws_exhausted [''alpha''] sample_env" by code_simp
  then show ?thesis using generated_name_is_valid_and_fresh [of "[''alpha'']" sample_env] by simp
qed

end
