(* ===== verification/Pane_Builder.thy ===== *)
theory Pane_Builder
  imports Layout Tmux_Ids "HOL-Library.Word"
begin

unbundle bit_operations_syntax

text \<open>
  How \<open>src/store.ts\<close> makes Panes: the titles and addresses of a Connection, new Panes of
  every kind, the Panes of a stored layout, the Connection behind a saved child, and the
  upkeep of Panes when their Connection is edited.  Pane ids come from a supply of fresh
  suffixes (\<open>crypto.randomUUID\<close>), tmux names from the environment of \<open>Tmux_Ids\<close>.
\<close>

section \<open>Definitions\<close>

subsection \<open>Environment and ids\<close>

record build_env =
  be_tmux :: tmux_env
  uuid :: "nat \<Rightarrow> string"
  uuid_pos :: nat

definition next_uuid :: "build_env \<Rightarrow> string \<times> build_env" where
  "next_uuid e = (uuid e (uuid_pos e), e\<lparr>uuid_pos := Suc (uuid_pos e)\<rparr>)"

definition createPaneId :: "string \<Rightarrow> build_env \<Rightarrow> string \<times> build_env" where
  "createPaneId cid e = (let (u, e') = next_uuid e in (''pane-'' @ cid @ ''-'' @ u, e'))"

definition createConnectionTabId :: "string \<Rightarrow> build_env \<Rightarrow> string \<times> build_env" where
  "createConnectionTabId cid e = (let (u, e') = next_uuid e in (''tab-'' @ cid @ ''-'' @ u, e'))"

definition localFilesBrowserChildId :: "string \<Rightarrow> string" where
  "localFilesBrowserChildId cid = ''child-'' @ cid @ ''-localFiles-browser''"

text \<open>\<open>n.toString(36)\<close> and the FNV-1a hash of a path in 32-bit arithmetic.\<close>

definition base36_char :: "nat \<Rightarrow> char" where
  "base36_char d = (if d < 10 then char_of (48 + d) else char_of (87 + d))"

fun base36 :: "nat \<Rightarrow> string" where
  "base36 n = (if n < 36 then [base36_char n] else base36 (n div 36) @ [base36_char (n mod 36)])"

declare base36.simps [simp del]

definition fnv_step :: "32 word \<Rightarrow> char \<Rightarrow> 32 word" where
  "fnv_step h c = (h XOR of_nat (of_char c)) * 16777619"

definition stableIdFromPath :: "string \<Rightarrow> string" where
  "stableIdFromPath path = base36 (unat (foldl fnv_step 2166136261 path))"

definition fileViewerChildId :: "string \<Rightarrow> string \<Rightarrow> string" where
  "fileViewerChildId cid path = ''child-'' @ cid @ ''-fileView-'' @ stableIdFromPath path"

subsection \<open>Titles\<close>

text \<open>\<open>a ?? b\<close> on optional nullable values, and \<open>s?.trim() || d\<close>.\<close>

definition nullish_null :: "'a option option \<Rightarrow> 'a option option \<Rightarrow> 'a option option" where
  "nullish_null a b = (case a of Some (Some x) \<Rightarrow> Some (Some x) | _ \<Rightarrow> b)"

definition trim_or :: "string option \<Rightarrow> string \<Rightarrow> string" where
  "trim_or s d = (case s of None \<Rightarrow> d | Some t \<Rightarrow> (if trim t = [] then d else trim t))"

definition isRemoteDesktopConnection :: "connection \<Rightarrow> bool" where
  "isRemoteDesktopConnection c = (conn_type c = CRdp \<or> conn_type c = CVnc)"

definition terminalPaneTitleForConnection :: "connection \<Rightarrow> string" where
  "terminalPaneTitleForConnection c =
     (case conn_type c of CLocal \<Rightarrow> conn_name c | CTelnet \<Rightarrow> ''telnet'' | CSerial \<Rightarrow> ''serial''
      | _ \<Rightarrow> ''ssh'')"

definition titleForConnectionPane :: "connection \<Rightarrow> string" where
  "titleForConnectionPane c =
     (if conn_type c = CUrl then conn_name c
      else if isRemoteDesktopConnection c then conn_name c
      else if conn_type c = CLocalFiles \<or> conn_type c = CFileView then conn_name c
      else terminalPaneTitleForConnection c)"

definition formatConnectionAddress :: "connection \<Rightarrow> string" where
  "formatConnectionAddress c =
     (case port c of Some p \<Rightarrow> (if p \<noteq> 0 then host c @ '':'' @ int_string p else host c)
      | None \<Rightarrow> host c)"

definition octet_string :: "string \<Rightarrow> bool" where
  "octet_string s = (1 \<le> length s \<and> length s \<le> 3 \<and> list_all is_digit s \<and> digits_value s \<le> 255)"

definition strip_dot :: "string \<Rightarrow> string" where
  "strip_dot s = (if s \<noteq> [] \<and> last s = CHR ''.'' then butlast s else s)"

definition terminalHostDisplayName :: "string \<Rightarrow> string" where
  "terminalHostDisplayName h =
     (let value = trim h
      in if value = [] \<or> CHR '':'' \<in> set value then value
         else let parts = split_on (CHR ''.'') (strip_dot value);
                  isIpv4 = (length parts = 4 \<and> list_all octet_string parts)
              in if (length parts > 1 \<or> last value = CHR ''.'') \<and> \<not> isIpv4 then hd parts else value)"

definition toolbarTitleForConnection :: "connection \<Rightarrow> string" where
  "toolbarTitleForConnection c =
     (case conn_type c of
        CUrl \<Rightarrow> conn_name c
      | CSerial \<Rightarrow> trim_or (serialLine c) (if host c \<noteq> [] then host c else conn_name c)
      | CLocal \<Rightarrow> conn_name c
      | CLocalFiles \<Rightarrow> conn_name c
      | CFileView \<Rightarrow> conn_name c
      | CSsh \<Rightarrow> terminalHostDisplayName (host c)
      | CTelnet \<Rightarrow> terminalHostDisplayName (host c)
      | CRdp \<Rightarrow> terminalHostDisplayName (host c)
      | CVnc \<Rightarrow> terminalHostDisplayName (host c)
      | _ \<Rightarrow> formatConnectionAddress c)"

definition is_path_sep :: "char \<Rightarrow> bool" where
  "is_path_sep c = (c = CHR ''/'' \<or> c = CHR 0x5C)"

definition fileNameFromPath :: "string \<Rightarrow> string" where
  "fileNameFromPath p =
     (let normalized = rev (dropWhile is_path_sep (rev (trim p)))
      in trim (rev (takeWhile (\<lambda>c. \<not> is_path_sep c) (rev normalized))))"

definition defaultTerminalCwdForConnection :: "connection \<Rightarrow> string" where
  "defaultTerminalCwdForConnection c =
     (if conn_type c = CLocal then trim_or (localStartupDirectory c) ''.'' else ''~'')"

definition sftpBrowserConnectionFromFtpConnection :: "connection \<Rightarrow> connection" where
  "sftpBrowserConnectionFromFtpConnection c =
     c\<lparr> conn_type := CSsh, port := Some (nullish (port c) 22),
        keyPath := (if authMethod c = Some KeyFile then keyPath c else None),
        proxyJump := None,
        iconDataUrl := nullish_null (iconDataUrl c) (Some (Some ''material:folder-server'')) \<rparr>"

definition isSftpProtocol :: "connection \<Rightarrow> bool" where
  "isSftpProtocol c = (map_option ftp_protocol_of (ftpOptions c) = Some ProtoSftp)"

fun protocol_label :: "ftp_protocol \<Rightarrow> string" where
  "protocol_label ProtoSftp = ''SFTP''"
| "protocol_label ProtoFtp = ''FTP''"
| "protocol_label ProtoFtps = ''FTPS''"

subsection \<open>Updating a property of any Pane\<close>

fun set_pane_id :: "string \<Rightarrow> workspace_pane \<Rightarrow> workspace_pane" where
  "set_pane_id i (TerminalPane p) = TerminalPane (p\<lparr>tp_id := i\<rparr>)"
| "set_pane_id i (UrlPane p) = UrlPane (p\<lparr>up_id := i\<rparr>)"
| "set_pane_id i (RemoteDesktopPane p) = RemoteDesktopPane (p\<lparr>rp_id := i\<rparr>)"
| "set_pane_id i (FileBrowserPane p) = FileBrowserPane (p\<lparr>fp_id := i\<rparr>)"
| "set_pane_id i (FileViewerPane p) = FileViewerPane (p\<lparr>vp_id := i\<rparr>)"

fun set_pane_title :: "string \<Rightarrow> workspace_pane \<Rightarrow> workspace_pane" where
  "set_pane_title t (TerminalPane p) = TerminalPane (p\<lparr>tp_title := t\<rparr>)"
| "set_pane_title t (UrlPane p) = UrlPane (p\<lparr>up_title := t\<rparr>)"
| "set_pane_title t (RemoteDesktopPane p) = RemoteDesktopPane (p\<lparr>rp_title := t\<rparr>)"
| "set_pane_title t (FileBrowserPane p) = FileBrowserPane (p\<lparr>fp_title := t\<rparr>)"
| "set_pane_title t (FileViewerPane p) = FileViewerPane (p\<lparr>vp_title := t\<rparr>)"

fun isTerminalPane :: "workspace_pane \<Rightarrow> bool" where
  "isTerminalPane (TerminalPane p) = True"
| "isTerminalPane _ = False"

subsection \<open>New Panes\<close>

record pane_options =
  opt_childConnectionId :: "string option"
  opt_cwd :: "string option"
  opt_iconColor :: "string option option"
  opt_iconBackgroundColor :: "string option option"
  opt_iconDataUrl :: "string option option"
  opt_fontSize :: "rat option"
  opt_textEncoding :: "string option"
  opt_terminalOpacity :: "rat option option"
  opt_terminalBackground :: "json option option"
  opt_title :: "string option"
  opt_toolbarTitle :: "string option"
  opt_tmuxSessionId :: "string option"

definition no_options :: pane_options where
  "no_options = \<lparr>opt_childConnectionId = None, opt_cwd = None, opt_iconColor = None,
     opt_iconBackgroundColor = None, opt_iconDataUrl = None, opt_fontSize = None,
     opt_textEncoding = None, opt_terminalOpacity = None, opt_terminalBackground = None,
     opt_title = None, opt_toolbarTitle = None, opt_tmuxSessionId = None\<rparr>"

definition connectionWithPaneOptions :: "connection \<Rightarrow> pane_options option \<Rightarrow> connection" where
  "connectionWithPaneOptions c opts =
     (case opts of
        None \<Rightarrow> c
      | Some o1 \<Rightarrow>
          (if opt_iconDataUrl o1 = None \<and> opt_iconColor o1 = None
              \<and> opt_iconBackgroundColor o1 = None \<and> opt_terminalOpacity o1 = None
              \<and> opt_terminalBackground o1 = None
           then c
           else c\<lparr> iconColor := nullish_null (opt_iconColor o1) (iconColor c),
                   iconBackgroundColor :=
                     nullish_null (opt_iconBackgroundColor o1) (iconBackgroundColor c),
                   iconDataUrl := nullish_null (opt_iconDataUrl o1) (iconDataUrl c),
                   terminalOpacity := nullish_opt (opt_terminalOpacity o1) (terminalOpacity c),
                   conn_terminalBackground :=
                     nullish_opt (opt_terminalBackground o1) (conn_terminalBackground c) \<rparr>))"

definition inheritedTerminalCwdForConnection :: "connection \<Rightarrow> workspace_pane option \<Rightarrow> string" where
  "inheritedTerminalCwdForConnection c focused =
     (case focused of
        Some (TerminalPane p) \<Rightarrow>
          (if map_option conn_id (tp_connection p) = Some (conn_id c) then cwd p
           else defaultTerminalCwdForConnection c)
      | _ \<Rightarrow> defaultTerminalCwdForConnection c)"

text \<open>Appending a tmux name inside the larger environment.\<close>

definition append_tmux :: "connection \<Rightarrow> bool \<Rightarrow> build_env \<Rightarrow> string option \<times> build_env" where
  "append_tmux c d e =
     (let (s, t) = appendTmuxSessionId c d (be_tmux e) in (s, e\<lparr>be_tmux := t\<rparr>))"

definition new_tmux_id :: "connection \<Rightarrow> pane_options \<Rightarrow> bool \<Rightarrow> build_env
    \<Rightarrow> string option \<times> build_env" where
  "new_tmux_id c o1 d e =
     (if \<not> connectionUsesMultiplexer c d then (None, e)
      else case opt_tmuxSessionId o1 of Some s \<Rightarrow> (Some s, e) | None \<Rightarrow> append_tmux c d e)"

definition buildPaneForConnection :: "connection \<Rightarrow> workspace_pane option \<Rightarrow> pane_options option
    \<Rightarrow> bool \<Rightarrow> build_env \<Rightarrow> workspace_pane option \<times> build_env" where
  "buildPaneForConnection c focused opts d e =
     (let o1 = nullish opts no_options;
          tb = nullish (opt_toolbarTitle o1) (toolbarTitleForConnection c)
      in if conn_type c = CUrl then
           (case conn_url c of
              None \<Rightarrow> (None, e)
            | Some u \<Rightarrow>
                (if u = [] then (None, e)
                 else let (i, e1) = createPaneId (conn_id c) e in
                  (Some (UrlPane \<lparr>up_id = i, up_childConnectionId = opt_childConnectionId o1,
                     up_title = titleForConnectionPane c, up_toolbarTitle = Some tb,
                     up_connection = c, up_url = u, up_dataPartition = conn_dataPartition c,
                     up_sshPortForwardSessionId = None, up_sshPortForwardRemotePort = None\<rparr>), e1)))
         else let (i, e1) = createPaneId (conn_id c) e
         in if isRemoteDesktopConnection c then
              (Some (RemoteDesktopPane \<lparr>rdpStartupFullscreen = None, rp_id = i,
                 rp_childConnectionId = opt_childConnectionId o1,
                 rp_title = titleForConnectionPane c, rp_toolbarTitle = Some tb,
                 rp_connection = c\<rparr>), e1)
            else if conn_type c = CFtp then
              (let fc = (if isSftpProtocol c then sftpBrowserConnectionFromFtpConnection c else c);
                   label = (case ftpOptions c of None \<Rightarrow> ''FTP''
                            | Some f \<Rightarrow> protocol_label (ftp_protocol_of f))
               in (Some (FileBrowserPane \<lparr>fp_kind = (if isSftpProtocol c then FbSftp else FbFtp),
                     fp_id = i, fp_childConnectionId = opt_childConnectionId o1,
                     fp_title = nullish (opt_title o1) (conn_name c @ '' '' @ label),
                     fp_toolbarTitle =
                       Some (nullish (opt_toolbarTitle o1) (toolbarTitleForConnection fc)),
                     fp_connection = fc\<rparr>), e1))
            else if conn_type c = CLocalFiles then
              (Some (FileBrowserPane \<lparr>fp_kind = FbLocalFiles, fp_id = i,
                 fp_childConnectionId = opt_childConnectionId o1,
                 fp_title = nullish (opt_title o1) (conn_name c), fp_toolbarTitle = Some tb,
                 fp_connection = c\<rparr>), e1)
            else if conn_type c = CFileView then
              (Some (FileViewerPane \<lparr>vp_id = i, vp_childConnectionId = opt_childConnectionId o1,
                 vp_title = nullish (opt_title o1) (conn_name c), vp_toolbarTitle = Some tb,
                 vp_connection = c\<rparr>), e1)
            else
              (let (ts, e2) = new_tmux_id c o1 d e1
               in (Some (TerminalPane \<lparr>tp_kind = True, tp_id = i,
                     tp_childConnectionId = opt_childConnectionId o1,
                     tp_title = nullish (opt_title o1) (titleForConnectionPane c),
                     tp_toolbarTitle = Some tb,
                     cwd = trim_or (opt_cwd o1) (inheritedTerminalCwdForConnection c focused),
                     buffer = [],
                     tp_connection =
                       Some (c\<lparr> terminalOpacity := nullish_opt (opt_terminalOpacity o1) (terminalOpacity c),
                               conn_terminalBackground :=
                                 nullish_opt (opt_terminalBackground o1) (conn_terminalBackground c) \<rparr>),
                     fontSize = opt_fontSize o1, textEncoding = opt_textEncoding o1,
                     tp_terminalBackground = opt_terminalBackground o1,
                     tmuxSessionId = ts, tmuxUnavailable = None, x11ForwardingStatus = None,
                     sshPortForwardFailures = None\<rparr>), e2)))"

subsection \<open>The Panes of a terminal Connection and of a stored layout\<close>

text \<open>\<open>xs.map(f)\<close> where \<open>f\<close> also changes the environment.\<close>

fun map_env :: "('a \<Rightarrow> 'e \<Rightarrow> 'b \<times> 'e) \<Rightarrow> 'a list \<Rightarrow> 'e \<Rightarrow> 'b list \<times> 'e" where
  "map_env f [] e = ([], e)"
| "map_env f (x # xs) e =
     (let (y, e1) = f x e; (ys, e2) = map_env f xs e1 in (y # ys, e2))"

definition build_indexed_pane :: "connection \<Rightarrow> string list \<Rightarrow> nat \<Rightarrow> build_env
    \<Rightarrow> workspace_pane \<times> build_env" where
  "build_indexed_pane c tmuxSessionIds index e =
     (let (i, e1) = (if index = 0 then (''pane-'' @ conn_id c, e) else createPaneId (conn_id c) e);
          t = terminalPaneTitleForConnection c
      in (TerminalPane \<lparr>tp_kind = False, tp_id = i, tp_childConnectionId = None,
            tp_title = (if index = 0 then t else t @ '' '' @ nat_string (index + 1)),
            tp_toolbarTitle = Some (toolbarTitleForConnection c),
            cwd = defaultTerminalCwdForConnection c, buffer = [], tp_connection = Some c,
            fontSize = None, textEncoding = None, tp_terminalBackground = None,
            tmuxSessionId = js_nth tmuxSessionIds (int index), tmuxUnavailable = None,
            x11ForwardingStatus = None, sshPortForwardFailures = None\<rparr>, e1))"

definition buildPanesForConnection :: "connection \<Rightarrow> nat \<Rightarrow> bool \<Rightarrow> build_env
    \<Rightarrow> workspace_pane list \<times> build_env" where
  "buildPanesForConnection c cnt d e =
     (let (ids, t) = tmuxSessionIdsForConnection c cnt d (be_tmux e)
      in map_env (build_indexed_pane c ids) [0..<cnt] (e\<lparr>be_tmux := t\<rparr>))"

text \<open>
  The stored Pane's Connection is a parameter: the only caller has checked that it is there.
\<close>

definition buildPaneFromStoredLayoutPane :: "stored_layout_pane \<Rightarrow> connection \<Rightarrow> build_env
    \<Rightarrow> workspace_pane option \<times> build_env" where
  "buildPaneFromStoredLayoutPane sp c e =
     (let (i, e1) = createPaneId (conn_id c) e;
          title = trim_or (sp_title sp) (titleForConnectionPane c);
          tb = Some (toolbarTitleForConnection c);
          browser = (\<lambda>k fc. FileBrowserPane \<lparr>fp_kind = k, fp_id = i, fp_childConnectionId = None,
                       fp_title = title, fp_toolbarTitle = tb, fp_connection = fc\<rparr>)
      in if sp_kind sp = Some KSftp then
           (Some (browser FbSftp
              (if conn_type c = CFtp then sftpBrowserConnectionFromFtpConnection c else c)), e1)
         else if sp_kind sp = Some KLocalFiles then (Some (browser FbLocalFiles c), e1)
         else if conn_type c = CUrl then
           (case conn_url c of
              None \<Rightarrow> (None, e1)
            | Some u \<Rightarrow>
                (if u = [] then (None, e1)
                 else (Some (UrlPane \<lparr>up_id = i, up_childConnectionId = None, up_title = title,
                         up_toolbarTitle = tb, up_connection = c, up_url = trim_or (sp_url sp) u,
                         up_dataPartition = nullish_opt (sp_dataPartition sp) (conn_dataPartition c),
                         up_sshPortForwardSessionId = None,
                         up_sshPortForwardRemotePort = None\<rparr>), e1)))
         else if isRemoteDesktopConnection c then
           (Some (RemoteDesktopPane \<lparr>rdpStartupFullscreen = None, rp_id = i,
              rp_childConnectionId = None, rp_title = title, rp_toolbarTitle = tb,
              rp_connection = c\<rparr>), e1)
         else if conn_type c = CFtp then
           (Some (browser (if isSftpProtocol c then FbSftp else FbFtp)
              (if isSftpProtocol c then sftpBrowserConnectionFromFtpConnection c else c)), e1)
         else if sp_kind sp = Some KFileViewer \<or> conn_type c = CFileView then
           (Some (FileViewerPane \<lparr>vp_id = i, vp_childConnectionId = None, vp_title = title,
              vp_toolbarTitle = tb, vp_connection = c\<rparr>), e1)
         else if conn_type c = CLocalFiles then (Some (browser FbLocalFiles c), e1)
         else (Some (TerminalPane \<lparr>tp_kind = True, tp_id = i, tp_childConnectionId = None,
                 tp_title = title, tp_toolbarTitle = tb,
                 cwd = trim_or (sp_cwd sp) (defaultTerminalCwdForConnection c), buffer = [],
                 tp_connection = Some c, fontSize = sp_fontSize sp,
                 textEncoding = sp_textEncoding sp,
                 tp_terminalBackground = sp_terminalBackground sp,
                 tmuxSessionId = sp_tmuxSessionId sp, tmuxUnavailable = None,
                 x11ForwardingStatus = None, sshPortForwardFailures = None\<rparr>), e1))"

text \<open>One Pane of a stored layout, once its fallback and its stored form are built.\<close>

definition tmuxDisabled :: "connection option \<Rightarrow> bool \<Rightarrow> bool" where
  "tmuxDisabled c d = (case c of None \<Rightarrow> True | Some c' \<Rightarrow> \<not> connectionUsesMultiplexer c' d)"

fun merge_stored_pane :: "bool \<Rightarrow> workspace_pane option \<Rightarrow> workspace_pane option
    \<Rightarrow> workspace_pane option" where
  "merge_stored_pane d (Some (TerminalPane p)) (Some (TerminalPane f)) =
     (if map_option conn_id (tp_connection p) = map_option conn_id (tp_connection f) then
        (let off = tmuxDisabled (tp_connection f) d
         in Some (TerminalPane (p\<lparr>tp_connection := tp_connection f,
              tmuxSessionId :=
                (if off then None
                 else nullish_opt (tmuxSessionId p)
                        (if tmuxUnavailable p = Some True then None else tmuxSessionId f)),
              tmuxUnavailable := (if off then None else tmuxUnavailable p)\<rparr>)))
      else if \<not> truthy_str (tmuxSessionId p) \<and> tmuxUnavailable p \<noteq> Some True
              \<and> \<not> tmuxDisabled (tp_connection f) d \<and> truthy_str (tmuxSessionId f)
      then Some (TerminalPane (p\<lparr>tmuxSessionId := tmuxSessionId f\<rparr>))
      else Some (TerminalPane p))"
| "merge_stored_pane d (Some p) f = Some p"
| "merge_stored_pane d None f = f"

definition stored_pane_at :: "connection \<Rightarrow> bool \<Rightarrow> workspace_pane list \<Rightarrow> stored_layout_pane list
    \<Rightarrow> nat \<Rightarrow> build_env \<Rightarrow> workspace_pane option \<times> build_env" where
  "stored_pane_at c d fallback sps index e =
     (let (fb, e1) = (case js_nth fallback (int index) of
                        Some p \<Rightarrow> (Some p, e)
                      | None \<Rightarrow> buildPaneForConnection c None None d e);
          storedPane = js_nth sps (int index);
          (pane, e2) = (case Option.bind storedPane sp_connection of
                          Some sc \<Rightarrow> buildPaneFromStoredLayoutPane (the storedPane) sc e1
                        | None \<Rightarrow> (fb, e1))
      in (merge_stored_pane d pane fb, e2))"

definition is_single_surface :: "connection \<Rightarrow> bool" where
  "is_single_surface c =
     (conn_type c = CUrl \<or> isRemoteDesktopConnection c \<or> conn_type c = CFtp
      \<or> conn_type c = CLocalFiles \<or> conn_type c = CFileView)"

definition surface_fallback :: "connection \<Rightarrow> nat \<Rightarrow> build_env \<Rightarrow> workspace_pane option \<times> build_env" where
  "surface_fallback c index e =
     (case buildPaneForConnection c None None True e of
        (None, e1) \<Rightarrow> (None, e1)
      | (Some p, e1) \<Rightarrow> (let (i, e2) = createPaneId (conn_id c) e1 in (Some (set_pane_id i p), e2)))"

definition fallback_panes :: "connection \<Rightarrow> nat \<Rightarrow> bool \<Rightarrow> build_env \<Rightarrow> workspace_pane list \<times> build_env" where
  "fallback_panes c n d e =
     (if is_single_surface c then
        (let (ps, e1) = map_env (surface_fallback c) [0..<n] e in (js_compact ps, e1))
      else buildPanesForConnection c n d e)"

definition stored_pane_count :: "stored_connection_layout option \<Rightarrow> nat" where
  "stored_pane_count stored = nat (max 1 (nullish (map_option paneCount stored) 1))"

definition buildPanesFromStoredLayout :: "connection \<Rightarrow> stored_connection_layout option \<Rightarrow> bool
    \<Rightarrow> build_env \<Rightarrow> workspace_pane list \<times> build_env" where
  "buildPanesFromStoredLayout c stored d e =
     (let n = stored_pane_count stored;
          (fallback, e1) = fallback_panes c n d e;
          sps = (case stored of None \<Rightarrow> [] | Some s \<Rightarrow> nullish (stored_panes s) [])
      in if sps = [] then (fallback, e1)
         else let (ps, e2) = map_env (stored_pane_at c d fallback sps) [0..<n] e1
              in (js_compact ps, e2))"

subsection \<open>Standalone Tabs and child Connections\<close>

fun browser_kind_of :: "surface_kind \<Rightarrow> file_browser_kind option" where
  "browser_kind_of KSftp = Some FbSftp"
| "browser_kind_of KFtp = Some FbFtp"
| "browser_kind_of KLocalFiles = Some FbLocalFiles"
| "browser_kind_of _ = None"

definition buildPaneForStandaloneTab :: "workspace_tab \<Rightarrow> workspace_pane option" where
  "buildPaneForStandaloneTab tab =
     (case tab_connection tab of
        None \<Rightarrow> None
      | Some c \<Rightarrow>
          (let tb = Some (nullish (tab_toolbarTitle tab) (toolbarTitleForConnection c))
           in if tab_kind tab = KWebview \<and> truthy_str (tab_url tab) then
                Some (UrlPane \<lparr>up_id = tab_id tab, up_childConnectionId = None,
                  up_title = tab_title tab, up_toolbarTitle = tb, up_connection = c,
                  up_url = nullish (tab_url tab) [], up_dataPartition = tab_dataPartition tab,
                  up_sshPortForwardSessionId = None, up_sshPortForwardRemotePort = None\<rparr>)
              else if tab_kind tab = KRemoteDesktop then
                Some (RemoteDesktopPane \<lparr>rdpStartupFullscreen = None, rp_id = tab_id tab,
                  rp_childConnectionId = None, rp_title = tab_title tab, rp_toolbarTitle = tb,
                  rp_connection = c\<rparr>)
              else case browser_kind_of (tab_kind tab) of
                Some k \<Rightarrow>
                  Some (FileBrowserPane \<lparr>fp_kind = k, fp_id = tab_id tab,
                    fp_childConnectionId = None, fp_title = tab_title tab, fp_toolbarTitle = tb,
                    fp_connection = c\<rparr>)
              | None \<Rightarrow>
                  (if tab_kind tab = KFileViewer then
                     Some (FileViewerPane \<lparr>vp_id = tab_id tab, vp_childConnectionId = None,
                       vp_title = tab_title tab, vp_toolbarTitle = tb, vp_connection = c\<rparr>)
                   else None)))"

definition connectionForChild :: "connection \<Rightarrow> workspace_child_connection \<Rightarrow> connection" where
  "connectionForChild c child =
     (let path = trim_or (fileViewPath child) []
      in if path \<noteq> [] then
           (mk_connection (''inline-file-view-'' @ stableIdFromPath path) (child_name child)
              ''localhost'' [] CFileView)
           \<lparr> localStartupDirectory := Some path,
             iconColor := nullish_null (child_iconColor child) (iconColor c),
             iconBackgroundColor := nullish_null (child_iconBackgroundColor child) (iconBackgroundColor c),
             iconDataUrl := nullish_null (child_iconDataUrl child) (iconDataUrl c) \<rparr>
         else
           c\<lparr> iconColor := nullish_null (child_iconColor child) (iconColor c),
              iconBackgroundColor := nullish_null (child_iconBackgroundColor child) (iconBackgroundColor c),
              iconDataUrl := nullish_null (child_iconDataUrl child) (iconDataUrl c),
              terminalOpacity := nullish_opt (child_terminalOpacity child) (terminalOpacity c),
              conn_terminalBackground :=
                nullish_opt (child_terminalBackground child) (conn_terminalBackground c) \<rparr>)"

text \<open>\<open>s.trim() || undefined\<close>.\<close>

definition trim_opt :: "string \<Rightarrow> string option" where
  "trim_opt s = (if trim s = [] then None else Some (trim s))"

fun terminal_pane_of :: "workspace_pane \<Rightarrow> terminal_pane option" where
  "terminal_pane_of (TerminalPane p) = Some p"
| "terminal_pane_of _ = None"

definition childConnectionFromOpenPane :: "connection \<Rightarrow> workspace_pane \<Rightarrow> string
    \<Rightarrow> workspace_child_connection option" where
  "childConnectionFromOpenPane parent pane workspaceId =
     (if \<not> truthy_str (pane_childConnectionId pane) then None
      else let tp = terminal_pane_of pane;
               pc = pane_connection pane;
               own_bg = Option.bind tp tp_terminalBackground
           in Some \<lparr>child_id = nullish (pane_childConnectionId pane) [],
                child_workspaceId = Some workspaceId, parentConnectionId = conn_id parent,
                child_name = trim_or (pane_toolbarTitle pane) (pane_title pane),
                fileViewPath = None,
                child_tmuxSessionId = Option.bind tp tmuxSessionId,
                child_cwd = Option.bind tp (\<lambda>p. trim_opt (cwd p)),
                child_fontSize = Option.bind tp fontSize,
                child_textEncoding = Option.bind tp textEncoding,
                child_terminalOpacity = Option.bind pc terminalOpacity,
                child_terminalBackground =
                  nullish_opt own_bg (Option.bind pc conn_terminalBackground),
                child_iconColor = Option.bind pc iconColor,
                child_iconDataUrl = Option.bind pc iconDataUrl,
                child_iconBackgroundColor = Option.bind pc iconBackgroundColor\<rparr>)"

definition childConnectionGroupLayout :: "workspace_pane list \<Rightarrow> layout_node option" where
  "childConnectionGroupLayout ps =
     (case panoramaLayoutFor ps of
        Some (Leaf i) \<Rightarrow> Some (Split Horizontal [Leaf i])
      | l \<Rightarrow> l)"

text \<open>A saved child wins over the incoming one, property by property: a stored entry comes
  from JSON, so a property it leaves undefined is absent.\<close>

definition merge_child :: "workspace_child_connection \<Rightarrow> workspace_child_connection
    \<Rightarrow> workspace_child_connection" where
  "merge_child child st =
     \<lparr>child_id = child_id st,
      child_workspaceId = nullish_opt (child_workspaceId st) (child_workspaceId child),
      parentConnectionId = parentConnectionId child,
      child_name = child_name st,
      fileViewPath = nullish_opt (fileViewPath child) (fileViewPath st),
      child_tmuxSessionId = nullish_opt (child_tmuxSessionId st) (child_tmuxSessionId child),
      child_cwd = nullish_opt (child_cwd st) (child_cwd child),
      child_fontSize = nullish_opt (child_fontSize st) (child_fontSize child),
      child_textEncoding = nullish_opt (child_textEncoding st) (child_textEncoding child),
      child_terminalOpacity = nullish_opt (child_terminalOpacity st) (child_terminalOpacity child),
      child_terminalBackground =
        nullish_opt (child_terminalBackground st) (child_terminalBackground child),
      child_iconColor = nullish_opt (child_iconColor st) (child_iconColor child),
      child_iconDataUrl = nullish_opt (child_iconDataUrl st) (child_iconDataUrl child),
      child_iconBackgroundColor =
        nullish_opt (child_iconBackgroundColor st) (child_iconBackgroundColor child)\<rparr>"

text \<open>The loop of \<open>upsertStoredChildConnections\<close>: the list to store and the upserted entries.\<close>

fun upsert_children :: "workspace_child_connection list \<Rightarrow> workspace_child_connection list
    \<Rightarrow> workspace_child_connection list \<times> workspace_child_connection list" where
  "upsert_children next [] = (next, [])"
| "upsert_children next (child # children) =
     (case find_index (\<lambda>x. child_id x = child_id child) next of
        Some i \<Rightarrow>
          (let m = merge_child child (next ! i);
               (n', u) = upsert_children (next[i := m]) children
           in (n', m # u))
      | None \<Rightarrow>
          (let (n', u) = upsert_children (next @ [child]) children in (n', child # u)))"

definition upsertStoredChildConnections :: "workspace_child_connection list
    \<Rightarrow> workspace_child_connection list
    \<Rightarrow> workspace_child_connection list \<times> workspace_child_connection list" where
  "upsertStoredChildConnections stored children = upsert_children stored children"

subsection \<open>Refreshing Panes after a Connection edit\<close>

definition refreshedPaneTitle :: "workspace_pane \<Rightarrow> connection \<Rightarrow> string" where
  "refreshedPaneTitle pane c =
     (if pane_kind pane = Some KWebview \<or> pane_kind pane = Some KRemoteDesktop then conn_name c
      else pane_title pane)"

definition refreshTerminalPaneConnection :: "terminal_pane \<Rightarrow> connection \<Rightarrow> string option \<Rightarrow> bool
    \<Rightarrow> build_env \<Rightarrow> terminal_pane \<times> build_env" where
  "refreshTerminalPaneConnection pane c toolbarTitle d e =
     (let uses = connectionUsesMultiplexer c d;
          (sid, e') =
            (if \<not> uses then (None, e)
             else case tmuxSessionId pane of
                    Some s \<Rightarrow> (Some s, e)
                  | None \<Rightarrow> (if tmuxUnavailable pane = Some True then (None, e) else append_tmux c d e))
      in (pane\<lparr>tp_connection := Some c,
               tp_title := refreshedPaneTitle (TerminalPane pane) c,
               tp_toolbarTitle := Some (nullish toolbarTitle (toolbarTitleForConnection c)),
               tmuxSessionId := sid,
               tmuxUnavailable := (if uses then tmuxUnavailable pane else None)\<rparr>, e'))"

definition keep_override :: "'a option option \<Rightarrow> 'a option option option \<Rightarrow> 'a option option
    \<Rightarrow> 'a option option" where
  "keep_override current before after =
     (if current \<noteq> (case before of None \<Rightarrow> None | Some b \<Rightarrow> b) then current else after)"

definition refreshChildPaneConnection :: "terminal_pane \<Rightarrow> connection option \<Rightarrow> connection
    \<Rightarrow> connection" where
  "refreshChildPaneConnection pane before after =
     (case tp_connection pane of
        None \<Rightarrow> after
      | Some current \<Rightarrow>
          (if \<not> truthy_str (tp_childConnectionId pane) then after
           else after\<lparr>
             iconColor := keep_override (iconColor current) (map_option iconColor before) (iconColor after),
             iconBackgroundColor := keep_override (iconBackgroundColor current)
               (map_option iconBackgroundColor before) (iconBackgroundColor after),
             iconDataUrl := keep_override (iconDataUrl current) (map_option iconDataUrl before)
               (iconDataUrl after),
             terminalOpacity := terminalOpacity current,
             conn_terminalBackground := conn_terminalBackground current\<rparr>))"

text \<open>The host part of a URL is the platform's \<open>URL\<close> parser; the localized label a text.\<close>

definition remoteDesktopSubtitle :: "connection \<Rightarrow> string" where
  "remoteDesktopSubtitle c = trim (user c)"

definition urlConnectionSubtitle :: "(string \<Rightarrow> string option) \<Rightarrow> connection \<Rightarrow> string" where
  "urlConnectionSubtitle url_host c =
     (case conn_url c of None \<Rightarrow> []
      | Some u \<Rightarrow> (if u = [] then [] else case url_host u of Some h \<Rightarrow> h | None \<Rightarrow> u))"

definition terminalConnectionSubtitle :: "string \<Rightarrow> connection \<Rightarrow> string" where
  "terminalConnectionSubtitle local_label c =
     (if conn_type c = CLocal then local_label
      else if conn_type c = CSerial then
        nullish (serialLine c) (host c) @ '' @ '' @ int_string (nullish (serialSpeed c) 9600)
      else if trim (user c) \<noteq> [] then user c @ ''@'' @ formatConnectionAddress c
      else formatConnectionAddress c)"

definition terminal_tab_prefix :: "connection \<Rightarrow> string" where
  "terminal_tab_prefix c = ''tab-'' @ conn_id c @ ''-terminal-''"

definition refreshedTabTitle :: "workspace_tab \<Rightarrow> connection \<Rightarrow> string" where
  "refreshedTabTitle tab c =
     (if tab_kind tab = KSftp then conn_name c @ '' SFTP''
      else if starts_with (tab_id tab) (terminal_tab_prefix c) then conn_name c @ '' terminal''
      else conn_name c)"

definition refreshedTabSubtitle :: "string \<Rightarrow> workspace_tab \<Rightarrow> connection \<Rightarrow> string" where
  "refreshedTabSubtitle local_label tab c =
     (if tab_kind tab = KSftp then user c @ ''@'' @ host c
      else if tab_kind tab = KWebview then subtitle tab
      else if starts_with (tab_id tab) (terminal_tab_prefix c) then
        (let path = trim_or (map_option cwd (Option.bind (find isTerminalPane (panes tab)) terminal_pane_of)) ''.''
         in user c @ ''@'' @ formatConnectionAddress c @ '':'' @ path)
      else if Option.bind (js_nth (panes tab) 0) pane_kind = Some KRemoteDesktop then remoteDesktopSubtitle c
      else terminalConnectionSubtitle local_label c)"

definition refresh_pane :: "workspace_tab \<Rightarrow> connection \<Rightarrow> connection \<Rightarrow> bool \<Rightarrow> workspace_pane
    \<Rightarrow> build_env \<Rightarrow> workspace_pane \<times> build_env" where
  "refresh_pane tab c refreshed d pane e =
     (case pane of
        TerminalPane p \<Rightarrow>
          (if map_option conn_id (tp_connection p) \<noteq> Some (conn_id c) then (pane, e)
           else let child = truthy_str (tp_childConnectionId p);
                    pc = refreshChildPaneConnection p (tab_connection tab) refreshed;
                    (p', e') = refreshTerminalPaneConnection p (if child then pc else refreshed)
                      (if child then tp_toolbarTitle p else Some (toolbarTitleForConnection refreshed)) d e
                in (TerminalPane p', e'))
      | _ \<Rightarrow> (pane, e))"

definition refreshTabConnectionMetadata :: "string \<Rightarrow> connection \<Rightarrow> bool \<Rightarrow> workspace_tab
    \<Rightarrow> build_env \<Rightarrow> workspace_tab \<times> build_env" where
  "refreshTabConnectionMetadata local_label c d tab e =
     (let refreshed = (if tab_kind tab = KSftp \<and> conn_type c = CFtp \<and> isSftpProtocol c
                       then sftpBrowserConnectionFromFtpConnection c else c);
          (ps, e') = map_env (refresh_pane tab c refreshed d) (panes tab) e
      in if map_option conn_id (tab_connection tab) \<noteq> Some (conn_id c) then (tab\<lparr>panes := ps\<rparr>, e')
         else (tab\<lparr>tab_connection := Some refreshed,
                  tab_title := refreshedTabTitle tab refreshed,
                  tab_toolbarTitle := Some (toolbarTitleForConnection refreshed),
                  subtitle := refreshedTabSubtitle local_label tab refreshed,
                  panes := ps\<rparr>, e'))"

section \<open>Pane ids\<close>

text \<open>
  The serial number of a generated id is the position of its suffix in the supply.  Suffixes
  are UUIDs: pairwise different, and each with four hyphens.
\<close>

definition uuid_supply :: "build_env \<Rightarrow> bool" where
  "uuid_supply e = (inj (uuid e) \<and> (\<forall>i. count_list (uuid e i) (CHR ''-'') = 4))"

definition pane_serial :: "build_env \<Rightarrow> nat \<Rightarrow> string \<Rightarrow> bool" where
  "pane_serial e k i = (\<exists>cid. i = ''pane-'' @ cid @ ''-'' @ uuid e k)"

lemma same_tail_after_hyphen:
  assumes "a @ h # u = b @ h # v" "count_list u h = count_list v h"
  shows "u = v"
proof -
  from assms(1) obtain us where
    "a = b @ us \<and> us @ h # u = h # v \<or> a @ us = b \<and> h # u = us @ h # v"
    by (auto simp: append_eq_append_conv2)
  then show ?thesis using assms(2) by (cases us) auto
qed

lemma pane_serial_unique:
  assumes "uuid_supply e" "pane_serial e k i" "pane_serial e m i"
  shows "k = m"
proof -
  from assms(2,3) obtain a b where "a @ CHR ''-'' # uuid e k = b @ CHR ''-'' # uuid e m"
    by (auto simp: pane_serial_def)
  then have "uuid e k = uuid e m"
    by (rule same_tail_after_hyphen) (use assms(1) in \<open>simp add: uuid_supply_def\<close>)
  then show ?thesis using assms(1) by (auto simp: uuid_supply_def dest: injD)
qed

text \<open>The environment keeps its supply and only moves forward in it.\<close>

definition env_leq :: "build_env \<Rightarrow> build_env \<Rightarrow> bool" where
  "env_leq e e' = (uuid e' = uuid e \<and> uuid_pos e \<le> uuid_pos e')"

lemma env_leq_refl [simp]: "env_leq e e"
  by (simp add: env_leq_def)

lemma env_leq_trans: "env_leq a b \<Longrightarrow> env_leq b c \<Longrightarrow> env_leq a c"
  by (simp add: env_leq_def)

lemma env_leq_tmux [simp]: "env_leq e (e\<lparr>be_tmux := t\<rparr>)"
  by (simp add: env_leq_def)

lemma append_tmux_env: "append_tmux c d e = (s, e') \<Longrightarrow> uuid e' = uuid e \<and> uuid_pos e' = uuid_pos e"
  by (auto simp: append_tmux_def split: prod.splits)

lemma new_tmux_id_env: "new_tmux_id c o1 d e = (s, e') \<Longrightarrow> uuid e' = uuid e \<and> uuid_pos e' = uuid_pos e"
  by (auto simp: new_tmux_id_def dest: append_tmux_env split: if_splits option.splits)

lemma createPaneId_spec:
  "createPaneId c e = (i, e') \<Longrightarrow> pane_serial e (uuid_pos e) i \<and> uuid e' = uuid e
    \<and> uuid_pos e' = Suc (uuid_pos e)"
  by (auto simp: createPaneId_def next_uuid_def pane_serial_def)

text \<open>A build step: the Pane it makes, if any, carries the serial number it consumed.\<close>

definition serial_step :: "(build_env \<Rightarrow> workspace_pane option \<times> build_env) \<Rightarrow> bool" where
  "serial_step f = (\<forall>e. let (r, e') = f e in env_leq e e' \<and>
     (case r of None \<Rightarrow> True
      | Some p \<Rightarrow> \<exists>k. uuid_pos e \<le> k \<and> k < uuid_pos e' \<and> pane_serial e k (pane_id p)))"

lemma serial_stepD:
  "serial_step f \<Longrightarrow> f e = (r, e') \<Longrightarrow> env_leq e e' \<and>
     (case r of None \<Rightarrow> True
      | Some p \<Rightarrow> \<exists>k. uuid_pos e \<le> k \<and> k < uuid_pos e' \<and> pane_serial e k (pane_id p))"
  unfolding serial_step_def by (drule spec [of _ e]) simp

lemma pane_id_set [simp]: "pane_id (set_pane_id i p) = i"
  by (cases p) auto

lemma pane_id_set_title [simp]: "pane_id (set_pane_title t p) = pane_id p"
  by (cases p) auto

lemma serial_buildPane: "serial_step (buildPaneForConnection c focused opts d)"
  by (auto simp: serial_step_def buildPaneForConnection_def Let_def env_leq_def
      split: prod.splits option.splits dest!: createPaneId_spec new_tmux_id_env)

lemma serial_storedPane: "serial_step (buildPaneFromStoredLayoutPane sp c)"
  by (auto simp: serial_step_def buildPaneFromStoredLayoutPane_def Let_def env_leq_def
      split: prod.splits option.splits dest!: createPaneId_spec)

lemma serial_surface_fallback: "serial_step (surface_fallback c n)"
proof -
  have "env_leq e e' \<and> (case r of None \<Rightarrow> True
      | Some p \<Rightarrow> \<exists>k. uuid_pos e \<le> k \<and> k < uuid_pos e' \<and> pane_serial e k (pane_id p))"
    if "surface_fallback c n e = (r, e')" for e r e'
  proof (cases "buildPaneForConnection c None None True e")
    case (Pair q e1)
    note B = serial_stepD [OF serial_buildPane Pair]
    show ?thesis
    proof (cases q)
      case None
      then show ?thesis using that Pair B by (simp add: surface_fallback_def)
    next
      case (Some p)
      obtain i e2 where i: "createPaneId (conn_id c) e1 = (i, e2)" by fastforce
      have "r = Some (set_pane_id i p)" "e' = e2"
        using that Pair Some i by (auto simp: surface_fallback_def)
      moreover have "pane_serial e (uuid_pos e1) i"
        using createPaneId_spec [OF i] B by (simp add: pane_serial_def env_leq_def)
      ultimately show ?thesis using createPaneId_spec [OF i] B
        by (auto simp: env_leq_def intro!: exI [of _ "uuid_pos e1"])
    qed
  qed
  then show ?thesis by (auto simp: serial_step_def)
qed

text \<open>
  A traversal whose steps take a fresh id or the one set aside for their input: the ids of
  the Panes it makes are pairwise different.
\<close>

definition ids_from :: "build_env \<Rightarrow> nat \<Rightarrow> nat \<Rightarrow> string set" where
  "ids_from e a b = {i. \<exists>k. a \<le> k \<and> k < b \<and> pane_serial e k i}"

lemma ids_from_disjoint: "uuid_supply e \<Longrightarrow> b \<le> c \<Longrightarrow> ids_from e a b \<inter> ids_from e c d = {}"
  by (auto simp: ids_from_def) (metis le_trans not_less pane_serial_unique)

lemma ids_from_mono: "a \<le> a' \<Longrightarrow> b' \<le> b \<Longrightarrow> ids_from e a' b' \<subseteq> ids_from e a b"
  by (auto simp: ids_from_def) (meson le_trans less_le_trans)

lemma ids_from_env: "uuid e' = uuid e \<Longrightarrow> ids_from e' = ids_from e"
  by (simp add: ids_from_def pane_serial_def fun_eq_iff)

definition id_step :: "('a \<Rightarrow> string option) \<Rightarrow> ('a \<Rightarrow> build_env \<Rightarrow> workspace_pane option \<times> build_env) \<Rightarrow> bool"
where
  "id_step alt f = (\<forall>x e r e'. f x e = (r, e') \<longrightarrow> env_leq e e' \<and>
     (\<forall>p. r = Some p \<longrightarrow> pane_id p \<in> ids_from e (uuid_pos e) (uuid_pos e') \<or> alt x = Some (pane_id p)))"

lemma id_stepD:
  "id_step alt f \<Longrightarrow> f x e = (r, e') \<Longrightarrow> env_leq e e' \<and>
     (\<forall>p. r = Some p \<longrightarrow> pane_id p \<in> ids_from e (uuid_pos e) (uuid_pos e') \<or> alt x = Some (pane_id p))"
  by (simp add: id_step_def)

lemma id_step_serial: "(\<And>x. serial_step (f x)) \<Longrightarrow> id_step alt f"
  unfolding id_step_def
proof (intro allI impI)
  fix x e r e' assume "\<And>x. serial_step (f x)" "f x e = (r, e')"
  from serial_stepD [OF this] show "env_leq e e' \<and>
     (\<forall>p. r = Some p \<longrightarrow> pane_id p \<in> ids_from e (uuid_pos e) (uuid_pos e') \<or> alt x = Some (pane_id p))"
    by (auto simp: ids_from_def)
qed

lemma map_env_ids:
  assumes "id_step alt f" "uuid_supply e" "map_env f xs e = (rs, e')"
    and "distinct (js_compact (map alt xs))"
    and "set (js_compact (map alt xs)) \<inter> ids_from e (uuid_pos e) (uuid_pos e') = {}"
  shows "env_leq e e' \<and> distinct (map pane_id (js_compact rs))
    \<and> pane_id ` set (js_compact rs)
      \<subseteq> set (js_compact (map alt xs)) \<union> ids_from e (uuid_pos e) (uuid_pos e')"
  using assms(2-)
proof (induction xs arbitrary: e rs)
  case Nil
  then show ?case by simp
next
  case (Cons x xs)
  obtain r e1 where h: "f x e = (r, e1)" by fastforce
  obtain rs1 where t: "map_env f xs e1 = (rs1, e')" "rs = r # rs1"
    using Cons.prems(2) h by (auto split: prod.splits)
  have s: "env_leq e e1" using id_stepD [OF assms(1) h] by simp
  have u1: "uuid_supply e1" using Cons.prems(1) s by (simp add: env_leq_def uuid_supply_def)
  have g: "ids_from e1 = ids_from e" by (rule ids_from_env) (use s in \<open>simp add: env_leq_def\<close>)
  have sub: "ids_from e (uuid_pos e1) (uuid_pos e') \<subseteq> ids_from e (uuid_pos e) (uuid_pos e')"
    using s by (simp add: ids_from_mono env_leq_def)
  have alts: "set (js_compact (map alt xs)) \<subseteq> set (js_compact (map alt (x # xs)))"
    by (auto simp: set_js_compact)
  have d: "distinct (js_compact (map alt xs))" using Cons.prems(3) by (cases "alt x") auto
  note IH = Cons.IH [OF u1 t(1) d, unfolded g]
  have IH': "env_leq e1 e' \<and> distinct (map pane_id (js_compact rs1))
    \<and> pane_id ` set (js_compact rs1)
      \<subseteq> set (js_compact (map alt xs)) \<union> ids_from e (uuid_pos e1) (uuid_pos e')"
    by (rule IH) (use Cons.prems(4) alts sub in blast)
  have l: "env_leq e e'" using s IH' env_leq_trans by blast
  show ?case
  proof (cases r)
    case None
    then show ?thesis using IH' alts sub t(2) l by auto
  next
    case (Some p)
    have sub1: "ids_from e (uuid_pos e) (uuid_pos e1) \<subseteq> ids_from e (uuid_pos e) (uuid_pos e')"
      using IH' by (simp add: ids_from_mono env_leq_def)
    have disj: "ids_from e (uuid_pos e) (uuid_pos e1) \<inter> ids_from e (uuid_pos e1) (uuid_pos e') = {}"
      using Cons.prems(1) by (simp add: ids_from_disjoint)
    consider (fresh) "pane_id p \<in> ids_from e (uuid_pos e) (uuid_pos e1)" | (alt) "alt x = Some (pane_id p)"
      using id_stepD [OF assms(1) h] Some by blast
    then have "pane_id p \<notin> pane_id ` set (js_compact rs1)
      \<and> pane_id p \<in> set (js_compact (map alt (x # xs))) \<union> ids_from e (uuid_pos e) (uuid_pos e')"
    proof cases
      case fresh
      then show ?thesis using IH' disj sub1 alts Cons.prems(4) by blast
    next
      case alt
      then have "pane_id p \<notin> set (js_compact (map alt xs))" "pane_id p \<in> set (js_compact (map alt (x # xs)))"
        using Cons.prems(3) by auto
      then show ?thesis using IH' sub Cons.prems(4) by blast
    qed
    then show ?thesis using Some IH' alts sub t(2) l by auto
  qed
qed

lemma build_indexed_pane_step:
  "build_indexed_pane c ids n e = (p, e') \<Longrightarrow> env_leq e e' \<and>
     (pane_id p \<in> ids_from e (uuid_pos e) (uuid_pos e') \<or> n = 0 \<and> pane_id p = ''pane-'' @ conn_id c)"
  by (auto simp: build_indexed_pane_def Let_def env_leq_def ids_from_def
      split: prod.splits if_splits dest!: createPaneId_spec)

lemma map_env_lift:
  "map_env (\<lambda>x e. let (y, e') = f x e in (Some y, e')) xs e
    = (let (ys, e') = map_env f xs e in (map Some ys, e'))"
  by (induction xs arbitrary: e) (auto split: prod.splits)

definition base_alt :: "connection \<Rightarrow> nat \<Rightarrow> string option" where
  "base_alt c n = (if n = 0 then Some (''pane-'' @ conn_id c) else None)"

lemma js_compact_base_alt:
  "js_compact (map (base_alt c) [0..<n]) = (if n = 0 then [] else [''pane-'' @ conn_id c])"
proof -
  have "js_compact (map (base_alt c) [Suc 0..<n]) = []" by (auto simp: js_compact_Nil_iff base_alt_def)
  then show ?thesis by (cases "n = 0") (simp_all add: upt_conv_Cons base_alt_def)
qed

text \<open>No supplied suffix ends the Connection's id, so a base id is not a generated one.\<close>

definition id_apart :: "build_env \<Rightarrow> connection \<Rightarrow> bool" where
  "id_apart e c = (\<forall>k. \<not> suffix (uuid e k) (conn_id c))"

lemma base_not_generated:
  assumes "id_apart e c" "uuid_supply e"
  shows "''pane-'' @ conn_id c \<notin> ids_from e a b"
proof
  assume "''pane-'' @ conn_id c \<in> ids_from e a b"
  then obtain k cid where k: "''pane-'' @ conn_id c = ''pane-'' @ cid @ ''-'' @ uuid e k"
    by (auto simp: ids_from_def pane_serial_def)
  then have "suffix (uuid e k) (conn_id c)" by (auto simp: suffix_def)
  then show False using assms(1) by (simp add: id_apart_def)
qed

lemma surface_fallback_step: "id_step (\<lambda>_. None) (surface_fallback c)"
  by (rule id_step_serial) (rule serial_surface_fallback)

lemma lifted_indexed_step:
  "id_step (base_alt c) (\<lambda>n e. let (y, e') = build_indexed_pane c ids n e in (Some y, e'))"
  unfolding id_step_def by (auto dest!: build_indexed_pane_step simp: base_alt_def split: prod.splits)

lemma fallback_ids:
  assumes "uuid_supply e" "id_apart e c" "fallback_panes c n d e = (ps, e')"
  shows "env_leq e e' \<and> distinct (map pane_id ps)
    \<and> pane_id ` set ps \<subseteq> insert (''pane-'' @ conn_id c) (ids_from e (uuid_pos e) (uuid_pos e'))"
proof (cases "is_single_surface c")
  case True
  then obtain rs where m: "map_env (surface_fallback c) [0..<n] e = (rs, e')" "ps = js_compact rs"
    using assms(3) by (auto simp: fallback_panes_def split: prod.splits)
  have "js_compact (map (\<lambda>_. None :: string option) [0..<n]) = []" by (auto simp: js_compact_Nil_iff)
  then show ?thesis using map_env_ids [OF surface_fallback_step assms(1) m(1)] m(2) by auto
next
  case False
  obtain ids t where i: "tmuxSessionIdsForConnection c n d (be_tmux e) = (ids, t)" by fastforce
  let ?e = "e\<lparr>be_tmux := t\<rparr>"
  have m: "map_env (build_indexed_pane c ids) [0..<n] ?e = (ps, e')"
    using assms(3) False i by (simp add: fallback_panes_def buildPanesForConnection_def)
  have l: "map_env (\<lambda>x e. let (y, e') = build_indexed_pane c ids x e in (Some y, e')) [0..<n] ?e
    = (map Some ps, e')"
    unfolding map_env_lift m by simp
  have u: "uuid_supply ?e" "ids_from ?e = ids_from e"
    using assms(1) by (simp_all add: uuid_supply_def) (rule ids_from_env, simp)
  have "set (js_compact (map (base_alt c) [0..<n])) \<inter> ids_from e (uuid_pos e) (uuid_pos e') = {}"
    using base_not_generated [OF assms(2,1)] by (simp add: js_compact_base_alt)
  then show ?thesis using map_env_ids [OF lifted_indexed_step u(1) l] u(2)
    by (auto simp: js_compact_base_alt env_leq_def split: if_splits)
qed

lemma merge_stored_pane_id:
  "merge_stored_pane d pane fb = Some p \<Longrightarrow>
     (case pane of Some q \<Rightarrow> pane_id p = pane_id q | None \<Rightarrow> fb = Some p)"
  by (cases "(d, pane, fb)" rule: merge_stored_pane.cases) (auto simp: Let_def split: if_splits)

lemma stored_pane_at_step:
  "id_step (\<lambda>i. map_option pane_id (js_nth fallback (int i))) (stored_pane_at c d fallback sps)"
  unfolding id_step_def
proof (intro allI impI)
  fix i :: nat and e r e'
  assume a: "stored_pane_at c d fallback sps i e = (r, e')"
  let ?alt = "map_option pane_id (js_nth fallback (int i))"
  obtain fb e1 where f: "(case js_nth fallback (int i) of Some p \<Rightarrow> (Some p, e)
      | None \<Rightarrow> buildPaneForConnection c None None d e) = (fb, e1)" by fastforce
  have F: "env_leq e e1 \<and> (\<forall>p. fb = Some p \<longrightarrow>
      pane_id p \<in> ids_from e (uuid_pos e) (uuid_pos e1) \<or> ?alt = Some (pane_id p))"
    using f serial_stepD [OF serial_buildPane, of c None None d e]
    by (fastforce simp: ids_from_def split: option.splits)
  let ?st = "js_nth sps (int i)"
  obtain pane e2 where p: "(case Option.bind ?st sp_connection of
      Some sc \<Rightarrow> buildPaneFromStoredLayoutPane (the ?st) sc e1 | None \<Rightarrow> (fb, e1)) = (pane, e2)"
    by fastforce
  have r: "r = merge_stored_pane d pane fb" "e' = e2"
    using a f p by (auto simp: stored_pane_at_def Let_def)
  have g: "ids_from e1 = ids_from e" by (rule ids_from_env) (use F in \<open>simp add: env_leq_def\<close>)
  have P: "env_leq e1 e2 \<and> (\<forall>q. pane = Some q \<longrightarrow>
      pane_id q \<in> ids_from e (uuid_pos e1) (uuid_pos e2) \<or> fb = Some q)"
  proof (cases "Option.bind ?st sp_connection")
    case None
    then show ?thesis using p by auto
  next
    case (Some sc)
    then have "buildPaneFromStoredLayoutPane (the ?st) sc e1 = (pane, e2)" using p by simp
    from serial_stepD [OF serial_storedPane this] show ?thesis
      unfolding g [symmetric] by (auto simp: ids_from_def)
  qed
  have mono: "ids_from e (uuid_pos e) (uuid_pos e1) \<subseteq> ids_from e (uuid_pos e) (uuid_pos e2)"
    "ids_from e (uuid_pos e1) (uuid_pos e2) \<subseteq> ids_from e (uuid_pos e) (uuid_pos e2)"
    using F P by (simp_all add: ids_from_mono env_leq_def)
  have "pane_id q \<in> ids_from e (uuid_pos e) (uuid_pos e2) \<or> ?alt = Some (pane_id q)"
    if "r = Some q" for q
  proof -
    from merge_stored_pane_id [of d pane fb q] that r(1)
    consider s where "pane = Some s" "pane_id q = pane_id s" | "fb = Some q"
      by (cases pane) auto
    then show ?thesis using F P mono by cases (metis subsetD)+
  qed
  then show "env_leq e e' \<and> (\<forall>p. r = Some p \<longrightarrow>
      pane_id p \<in> ids_from e (uuid_pos e) (uuid_pos e') \<or> ?alt = Some (pane_id p))"
    using F P r(2) env_leq_trans by blast
qed

lemma js_compact_nth_take:
  "js_compact (map (\<lambda>i. map_option f (js_nth xs (int i))) [0..<n]) = map f (take n xs)"
proof (induction n)
  case 0
  then show ?case by simp
next
  case (Suc n)
  then show ?case
    by (cases "n < length xs") (simp_all add: take_Suc_conv_app_nth js_nth_def)
qed

lemma disjoint_sub: "A \<subseteq> B \<Longrightarrow> B \<inter> C = {} \<Longrightarrow> A \<inter> C = {}"
  by blast

lemma stored_layout_ids:
  assumes "uuid_supply e" "id_apart e c" "buildPanesFromStoredLayout c st d e = (ps, e')"
  shows "env_leq e e' \<and> distinct (map pane_id ps)
    \<and> pane_id ` set ps \<subseteq> insert (''pane-'' @ conn_id c) (ids_from e (uuid_pos e) (uuid_pos e'))"
proof -
  let ?n = "stored_pane_count st"
  let ?sps = "case st of None \<Rightarrow> [] | Some s \<Rightarrow> nullish (stored_panes s) []"
  obtain fb e1 where f: "fallback_panes c ?n d e = (fb, e1)" by fastforce
  note F = fallback_ids [OF assms(1,2) f]
  show ?thesis
  proof (cases "?sps = []")
    case True
    then have "ps = fb" "e' = e1" using assms(3) f by (simp_all add: buildPanesFromStoredLayout_def)
    then show ?thesis using F by simp
  next
    case False
    then obtain rs where m: "map_env (stored_pane_at c d fb ?sps) [0..<?n] e1 = (rs, e')"
      and ps: "ps = js_compact rs"
      using assms(3) f by (auto simp: buildPanesFromStoredLayout_def Let_def split: prod.splits)
    have ue: "uuid e1 = uuid e" using F by (simp add: env_leq_def)
    have u1: "uuid_supply e1" using assms(1) ue by (simp add: uuid_supply_def)
    have g: "ids_from e1 = ids_from e" by (rule ids_from_env) (rule ue)
    have "ids_from e (uuid_pos e) (uuid_pos e1) \<inter> ids_from e (uuid_pos e1) (uuid_pos e') = {}"
      by (rule ids_from_disjoint [OF assms(1) order_refl])
    moreover have "''pane-'' @ conn_id c \<notin> ids_from e (uuid_pos e1) (uuid_pos e')"
      by (rule base_not_generated [OF assms(2,1)])
    ultimately have "insert (''pane-'' @ conn_id c) (ids_from e (uuid_pos e) (uuid_pos e1))
        \<inter> ids_from e (uuid_pos e1) (uuid_pos e') = {}" by simp
    moreover have "pane_id ` set fb
        \<subseteq> insert (''pane-'' @ conn_id c) (ids_from e (uuid_pos e) (uuid_pos e1))"
      using F by simp
    ultimately have "pane_id ` set fb \<inter> ids_from e (uuid_pos e1) (uuid_pos e') = {}"
      by (rule disjoint_sub [rotated])
    then have "set (map pane_id (take ?n fb)) \<inter> ids_from e1 (uuid_pos e1) (uuid_pos e') = {}"
      using g by (auto dest: in_set_takeD)
    moreover have "distinct (map pane_id (take ?n fb))" using F by (simp add: take_map [symmetric])
    ultimately have M: "env_leq e1 e' \<and> distinct (map pane_id (js_compact rs))
        \<and> pane_id ` set (js_compact rs)
          \<subseteq> set (map pane_id (take ?n fb)) \<union> ids_from e1 (uuid_pos e1) (uuid_pos e')"
      using map_env_ids [OF stored_pane_at_step u1 m] by (simp add: js_compact_nth_take)
    have le: "env_leq e e1" using F by simp
    have "ids_from e (uuid_pos e) (uuid_pos e1) \<subseteq> ids_from e (uuid_pos e) (uuid_pos e')"
      "ids_from e (uuid_pos e1) (uuid_pos e') \<subseteq> ids_from e (uuid_pos e) (uuid_pos e')"
      using M le by (simp_all add: ids_from_mono env_leq_def)
    moreover have "set (map pane_id (take ?n fb)) \<subseteq> pane_id ` set fb" by (auto dest: in_set_takeD)
    ultimately show ?thesis using M F ps g env_leq_trans [OF le] by (auto 4 3 simp: subset_iff)
  qed
qed

subsection \<open>How many Panes\<close>

text \<open>Every Connection can be shown in a Pane but a URL Connection without a URL.\<close>

definition has_surface :: "connection \<Rightarrow> bool" where
  "has_surface c = (conn_type c = CUrl \<longrightarrow> truthy_str (conn_url c))"

lemma buildPane_Some:
  "has_surface c \<Longrightarrow> \<exists>p. fst (buildPaneForConnection c focused opts d e) = Some p"
  by (auto simp: has_surface_def buildPaneForConnection_def Let_def split: prod.splits option.splits)

lemma map_env_length:
  "map_env f xs e = (ys, e') \<Longrightarrow> length ys = length xs"
  by (induction xs arbitrary: e ys) (auto split: prod.splits)

lemma map_env_all:
  assumes "\<And>x e. P (fst (f x e))" "map_env f xs e = (ys, e')" "y \<in> set ys"
  shows "P y"
  using assms(2,3)
proof (induction xs arbitrary: e ys)
  case Nil
  then show ?case by simp
next
  case (Cons x xs)
  obtain y1 e1 where f: "f x e = (y1, e1)" by fastforce
  obtain zs where t: "map_env f xs e1 = (zs, e')" "ys = y1 # zs"
    using Cons.prems(1) f by (auto split: prod.splits)
  show ?case using Cons.IH [OF t(1)] Cons.prems(2) t(2) assms(1) [of x e] f by auto
qed

lemma length_js_compact_Some: "(\<And>x. x \<in> set xs \<Longrightarrow> x \<noteq> None) \<Longrightarrow> length (js_compact xs) = length xs"
  by (induction xs rule: js_compact.induct) auto

lemma surface_fallback_Some: "has_surface c \<Longrightarrow> fst (surface_fallback c n e) \<noteq> None"
  using buildPane_Some [of c None None True e]
  by (auto simp: surface_fallback_def split: prod.splits option.splits)

lemma length_fallback:
  assumes "has_surface c" "fallback_panes c n d e = (ps, e')"
  shows "length ps = n"
proof (cases "is_single_surface c")
  case True
  then obtain rs where m: "map_env (surface_fallback c) [0..<n] e = (rs, e')" "ps = js_compact rs"
    using assms(2) by (auto simp: fallback_panes_def split: prod.splits)
  have "r \<noteq> None" if "r \<in> set rs" for r
    using map_env_all [where P = "\<lambda>r. r \<noteq> None", OF _ m(1) that] surface_fallback_Some [OF assms(1)] by blast
  then show ?thesis using map_env_length [OF m(1)] m(2) by (simp add: length_js_compact_Some)
next
  case False
  then show ?thesis using assms(2)
    by (auto simp: fallback_panes_def buildPanesForConnection_def dest: map_env_length split: prod.splits)
qed

lemma merge_stored_pane_Some: "fb \<noteq> None \<Longrightarrow> merge_stored_pane d pane fb \<noteq> None"
  by (cases "(d, pane, fb)" rule: merge_stored_pane.cases) (auto simp: Let_def)

lemma stored_pane_at_Some:
  "has_surface c \<Longrightarrow> fst (stored_pane_at c d fallback sps i e) \<noteq> None"
  using buildPane_Some [of c None None d e] merge_stored_pane_Some
  by (auto simp: stored_pane_at_def Let_def split: prod.splits option.splits)

lemma length_stored_layout:
  assumes "has_surface c" "buildPanesFromStoredLayout c st d e = (ps, e')"
  shows "length ps = stored_pane_count st"
proof -
  let ?n = "stored_pane_count st"
  let ?sps = "case st of None \<Rightarrow> [] | Some s \<Rightarrow> nullish (stored_panes s) []"
  obtain fb e1 where f: "fallback_panes c ?n d e = (fb, e1)" by fastforce
  show ?thesis
  proof (cases "?sps = []")
    case True
    then show ?thesis using assms f by (simp add: buildPanesFromStoredLayout_def length_fallback)
  next
    case False
    then obtain rs where m: "map_env (stored_pane_at c d fb ?sps) [0..<?n] e1 = (rs, e')"
      and ps: "ps = js_compact rs"
      using assms(2) f by (auto simp: buildPanesFromStoredLayout_def Let_def split: prod.splits)
    have "r \<noteq> None" if "r \<in> set rs" for r
      using map_env_all [where P = "\<lambda>r. r \<noteq> None", OF _ m that] stored_pane_at_Some [OF assms(1)] by blast
    then show ?thesis using map_env_length [OF m] ps by (simp add: length_js_compact_Some)
  qed
qed

definition sample_build_env :: build_env where
  "sample_build_env = \<lparr>be_tmux = sample_env, uuid = (\<lambda>i. ''8-4-4-4-'' @ nat_string i), uuid_pos = 0\<rparr>"

definition sample_stored :: stored_connection_layout where
  "sample_stored = \<lparr>paneCount = 2, stored_layout = SSplit Horizontal [SLeaf 1, SLeaf 0],
     stored_panes = Some [stored_pane_of sample_ssh (viewer_pane ''p'')]\<rparr>"

lemma sample_supply: "uuid_supply sample_build_env" "id_apart sample_build_env sample_ssh"
proof -
  have "count_list (nat_string i) (CHR ''-'') = 0" for i
    by (auto simp: count_list_0_iff dest!: nat_string_digits) (simp add: is_digit_def)
  then show "uuid_supply sample_build_env"
    by (auto simp: uuid_supply_def sample_build_env_def nat_string_inj intro!: injI)
  show "id_apart sample_build_env sample_ssh"
    by (auto simp: id_apart_def sample_build_env_def sample_ssh_def suffix_def Cons_eq_append_conv)
qed

text \<open>Opening a Connection, with or without a saved layout, builds as many Panes as the
  layout says (at least one), and no two of them share an id: the layout tree, which names
  Panes by id, is unambiguous.\<close>

theorem opened_panes_are_distinct:
  assumes "uuid_supply e" "id_apart e c" "has_surface c"
  shows "distinct (map pane_id (fst (buildPanesFromStoredLayout c st d e)))
    \<and> length (fst (buildPanesFromStoredLayout c st d e)) = stored_pane_count st
    \<and> 1 \<le> stored_pane_count st"
  using stored_layout_ids [OF assms(1,2) surjective_pairing]
    length_stored_layout [OF assms(3) surjective_pairing]
  by (simp add: stored_pane_count_def)

theorem opened_panes_are_distinct_witness:
  "distinct (map pane_id (fst (buildPanesFromStoredLayout sample_ssh (Some sample_stored) True
     sample_build_env)))
   \<and> length (fst (buildPanesFromStoredLayout sample_ssh (Some sample_stored) True sample_build_env)) = 2"
proof -
  have "has_surface sample_ssh" by (simp add: has_surface_def sample_ssh_def)
  moreover have "stored_pane_count (Some sample_stored) = 2"
    by (simp add: stored_pane_count_def sample_stored_def)
  ultimately show ?thesis
    using opened_panes_are_distinct [OF sample_supply, of "Some sample_stored" True] by simp
qed

section \<open>Sessions resumed by the Panes\<close>

definition pane_tmux :: "workspace_pane \<Rightarrow> string option" where
  "pane_tmux p = Option.bind (terminal_pane_of p) tmuxSessionId"

lemma map_env_map:
  assumes "\<And>x e. g (fst (f x e)) = h x" "map_env f xs e = (ys, e')"
  shows "map g ys = map h xs"
  using assms(2)
proof (induction xs arbitrary: e ys)
  case Nil
  then show ?case by simp
next
  case (Cons x xs)
  obtain y e1 where f: "f x e = (y, e1)" by fastforce
  obtain zs where t: "map_env f xs e1 = (zs, e')" "ys = y # zs"
    using Cons.prems f by (auto split: prod.splits)
  show ?case using Cons.IH [OF t(1)] t(2) assms(1) [of x e] f by simp
qed

lemma map_env_env:
  assumes "\<And>x e. k (snd (f x e)) = k e" "map_env f xs e = (ys, e')"
  shows "k e' = k e"
  using assms(2)
proof (induction xs arbitrary: e ys)
  case Nil
  then show ?case by simp
next
  case (Cons x xs)
  obtain y e1 where f: "f x e = (y, e1)" by fastforce
  obtain zs where t: "map_env f xs e1 = (zs, e')" using Cons.prems f by (auto split: prod.splits)
  show ?case using Cons.IH [OF t] assms(1) [of x e] f by simp
qed

lemma build_indexed_pane_facts:
  "pane_tmux (fst (build_indexed_pane c ids n e)) = js_nth ids (int n)"
  "be_tmux (snd (build_indexed_pane c ids n e)) = be_tmux e"
  by (auto simp: build_indexed_pane_def Let_def pane_tmux_def createPaneId_def next_uuid_def
      split: prod.splits)

lemma multiplexer_terminal: "connectionUsesMultiplexer c d \<Longrightarrow> \<not> is_single_surface c"
  by (auto simp: connectionUsesMultiplexer_def connectionUsesTmux_def connectionUsesPsmux_def
      is_single_surface_def isRemoteDesktopConnection_def split: if_splits)

lemma map_js_nth_upt: "map (\<lambda>i. js_nth xs (int i)) [0..<length xs] = map Some xs"
  by (rule nth_equalityI) (simp_all add: js_nth_nat)

lemma buildPanes_tmux:
  assumes "connectionUsesMultiplexer c d" "buildPanesForConnection c n d e = (ps, e')"
  shows "map pane_tmux ps = map Some (fst (tmuxSessionIdsForConnection c n d (be_tmux e)))
    \<and> be_tmux e' = snd (tmuxSessionIdsForConnection c n d (be_tmux e))"
proof -
  obtain ids t where i: "tmuxSessionIdsForConnection c n d (be_tmux e) = (ids, t)" by fastforce
  then have m: "map_env (build_indexed_pane c ids) [0..<n] (e\<lparr>be_tmux := t\<rparr>) = (ps, e')"
    using assms(2) by (simp add: buildPanesForConnection_def)
  have "length ids = n" using tmuxSessionIds_spec [OF assms(1) i] by simp
  moreover have "map pane_tmux ps = map (\<lambda>n. js_nth ids (int n)) [0..<n]"
    using m by (rule map_env_map [rotated]) (rule build_indexed_pane_facts)
  moreover have "be_tmux e' = be_tmux (e\<lparr>be_tmux := t\<rparr>)"
    using m by (rule map_env_env [rotated]) (rule build_indexed_pane_facts)
  ultimately show ?thesis using i by (auto simp: map_js_nth_upt)
qed

section \<open>Stored Panes keep their surface\<close>

text \<open>A Pane whose kind suits its Connection: what the operations of the store build.\<close>

fun pane_fits :: "workspace_pane \<Rightarrow> bool" where
  "pane_fits (TerminalPane p) =
     (case tp_connection p of None \<Rightarrow> False | Some c \<Rightarrow> \<not> is_single_surface c)"
| "pane_fits (UrlPane p) = (conn_type (up_connection p) = CUrl \<and> truthy_str (conn_url (up_connection p)))"
| "pane_fits (RemoteDesktopPane p) = isRemoteDesktopConnection (rp_connection p)"
| "pane_fits (FileBrowserPane p) =
     (case fp_kind p of
        FbSftp \<Rightarrow> conn_type (fp_connection p) \<noteq> CFtp
      | FbFtp \<Rightarrow> conn_type (fp_connection p) = CFtp \<and> \<not> isSftpProtocol (fp_connection p)
      | FbLocalFiles \<Rightarrow> True
      | FbCloudStorage \<Rightarrow> False)"
| "pane_fits (FileViewerPane p) =
     (conn_type (vp_connection p) \<noteq> CUrl \<and> \<not> isRemoteDesktopConnection (vp_connection p)
      \<and> conn_type (vp_connection p) \<noteq> CFtp)"

definition surface_of :: "workspace_pane \<Rightarrow> surface_kind" where
  "surface_of p = nullish (pane_kind p) KTerminal"

lemma trim_or_trimmed: "trim_or (Some s) d = (if trim s = [] then d else trim s)"
  by (simp add: trim_or_def)

text \<open>Saving a Pane into a stored layout and rebuilding it keeps its surface, its
  Connection and, for a terminal, its tmux session, font size and encoding: an SFTP browser
  on an SSH Connection never comes back as an SSH terminal.\<close>

theorem stored_pane_keeps_surface:
  assumes "pane_fits p" "pane_connection p = Some c"
  shows "\<exists>q. fst (buildPaneFromStoredLayoutPane (stored_pane_of c p) c e) = Some q
    \<and> surface_of q = surface_of p \<and> pane_connection q = Some c
    \<and> pane_tmux q = pane_tmux p
    \<and> map_option fontSize (terminal_pane_of q) = map_option fontSize (terminal_pane_of p)
    \<and> map_option textEncoding (terminal_pane_of q) = map_option textEncoding (terminal_pane_of p)
    \<and> (trim (pane_title p) \<noteq> [] \<longrightarrow> pane_title q = trim (pane_title p))"
proof (cases p)
  case (TerminalPane t)
  then show ?thesis using assms
    by (auto simp: buildPaneFromStoredLayoutPane_def Let_def is_single_surface_def surface_of_def
        pane_tmux_def trim_or_trimmed split: prod.splits)
next
  case (UrlPane t)
  then show ?thesis using assms
    by (auto simp: buildPaneFromStoredLayoutPane_def Let_def surface_of_def pane_tmux_def
        trim_or_trimmed truthy_str_def split: prod.splits option.splits)
next
  case (RemoteDesktopPane t)
  then show ?thesis using assms
    by (auto simp: buildPaneFromStoredLayoutPane_def Let_def surface_of_def pane_tmux_def
        trim_or_trimmed isRemoteDesktopConnection_def split: prod.splits)
next
  case (FileBrowserPane t)
  then show ?thesis using assms
    by (cases "fp_kind t") (auto simp: buildPaneFromStoredLayoutPane_def Let_def surface_of_def
        pane_tmux_def trim_or_trimmed isRemoteDesktopConnection_def split: prod.splits)
next
  case (FileViewerPane t)
  then show ?thesis using assms
    by (auto simp: buildPaneFromStoredLayoutPane_def Let_def surface_of_def pane_tmux_def
        trim_or_trimmed split: prod.splits)
qed

theorem stored_pane_keeps_surface_witness:
  "\<exists>q. fst (buildPaneFromStoredLayoutPane
       (stored_pane_of sample_ssh (FileBrowserPane \<lparr>fp_kind = FbSftp, fp_id = ''p'',
          fp_childConnectionId = None, fp_title = ''files'', fp_toolbarTitle = None,
          fp_connection = sample_ssh\<rparr>)) sample_ssh sample_build_env) = Some q
     \<and> surface_of q = KSftp \<and> pane_title q = ''files''"
  using stored_pane_keeps_surface [of "FileBrowserPane \<lparr>fp_kind = FbSftp, fp_id = ''p'',
      fp_childConnectionId = None, fp_title = ''files'', fp_toolbarTitle = None,
      fp_connection = sample_ssh\<rparr>" sample_ssh sample_build_env]
  by (auto simp: sample_ssh_def surface_of_def trim_def is_space_def)

section \<open>Reopening a Connection with its stored Panes\<close>

text \<open>
  The session of the Pane rebuilt at an index, given the name set aside for that index and
  the stored Pane there.
\<close>

definition stored_terminal :: "stored_layout_pane \<Rightarrow> connection \<Rightarrow> bool" where
  "stored_terminal sp c = (sp_kind sp \<notin> {Some KSftp, Some KLocalFiles, Some KFileViewer}
     \<and> \<not> is_single_surface c)"

definition stored_is_blank_url :: "stored_layout_pane \<Rightarrow> connection \<Rightarrow> bool" where
  "stored_is_blank_url sp c = (sp_kind sp \<notin> {Some KSftp, Some KLocalFiles}
     \<and> conn_type c = CUrl \<and> \<not> truthy_str (conn_url c))"

definition resumed :: "connection \<Rightarrow> string \<Rightarrow> stored_layout_pane option \<Rightarrow> string option" where
  "resumed c name st =
     (case st of
        None \<Rightarrow> Some name
      | Some sp \<Rightarrow>
          (case sp_connection sp of
             None \<Rightarrow> Some name
           | Some sc \<Rightarrow>
               if stored_is_blank_url sp sc then Some name
               else if \<not> stored_terminal sp sc then None
               else case sp_tmuxSessionId sp of
                      None \<Rightarrow> Some name
                    | Some x \<Rightarrow> if x = [] \<and> conn_id sc \<noteq> conn_id c then Some name else Some x))"

lemma buildStored_env: "be_tmux (snd (buildPaneFromStoredLayoutPane sp sc e)) = be_tmux e"
  by (auto simp: buildPaneFromStoredLayoutPane_def Let_def createPaneId_def next_uuid_def
      split: prod.splits option.splits)

lemma buildStored_cases:
  "stored_is_blank_url sp sc \<Longrightarrow> fst (buildPaneFromStoredLayoutPane sp sc e) = None"
  "stored_terminal sp sc \<Longrightarrow> \<exists>p. fst (buildPaneFromStoredLayoutPane sp sc e) = Some (TerminalPane p)
     \<and> tp_connection p = Some sc \<and> tmuxSessionId p = sp_tmuxSessionId sp \<and> tmuxUnavailable p = None"
  "\<not> stored_is_blank_url sp sc \<Longrightarrow> \<not> stored_terminal sp sc
    \<Longrightarrow> \<exists>p. fst (buildPaneFromStoredLayoutPane sp sc e) = Some p \<and> terminal_pane_of p = None"
  by (auto simp: buildPaneFromStoredLayoutPane_def Let_def stored_is_blank_url_def stored_terminal_def
      is_single_surface_def truthy_str_def split: prod.splits option.splits)

text \<open>The fallback Pane of a Connection that uses a multiplexer.\<close>

definition names_fallback :: "connection \<Rightarrow> string \<Rightarrow> workspace_pane \<Rightarrow> bool" where
  "names_fallback c name fb = (\<exists>f. fb = TerminalPane f \<and> tp_connection f = Some c
     \<and> tmuxSessionId f = Some name)"

lemma merge_fallback:
  "names_fallback c name fb \<Longrightarrow> connectionUsesMultiplexer c d
    \<Longrightarrow> map_option pane_tmux (merge_stored_pane d (Some fb) (Some fb)) = Some (Some name)"
  by (auto simp: names_fallback_def tmuxDisabled_def pane_tmux_def Let_def)

lemma merge_terminal:
  assumes "names_fallback c name fb" "connectionUsesMultiplexer c d" "name \<noteq> []"
    and "tp_connection p = Some sc" "tmuxUnavailable p = None"
  shows "map_option pane_tmux (merge_stored_pane d (Some (TerminalPane p)) (Some fb))
    = Some (case tmuxSessionId p of
              None \<Rightarrow> Some name
            | Some x \<Rightarrow> if x = [] \<and> conn_id sc \<noteq> conn_id c then Some name else Some x)"
  using assms by (cases "tmuxSessionId p")
    (auto simp: names_fallback_def tmuxDisabled_def pane_tmux_def Let_def truthy_str_def)

lemma merge_other:
  "terminal_pane_of p = None
    \<Longrightarrow> map_option pane_tmux (merge_stored_pane d (Some p) fb) = Some None"
  by (cases p) (auto simp: pane_tmux_def)

lemma stored_pane_session:
  assumes "connectionUsesMultiplexer c d" "name \<noteq> []"
    and "js_nth fallback (int i) = Some fb" "names_fallback c name fb"
  shows "map_option pane_tmux (fst (stored_pane_at c d fallback sps i e))
      = Some (resumed c name (js_nth sps (int i)))"
    and "be_tmux (snd (stored_pane_at c d fallback sps i e)) = be_tmux e"
proof -
  let ?st = "js_nth sps (int i)"
  have eq: "stored_pane_at c d fallback sps i e
      = (case Option.bind ?st sp_connection of
           None \<Rightarrow> (merge_stored_pane d (Some fb) (Some fb), e)
         | Some sc \<Rightarrow> (let (pane, e2) = buildPaneFromStoredLayoutPane (the ?st) sc e
                       in (merge_stored_pane d pane (Some fb), e2)))"
    using assms(3) by (simp add: stored_pane_at_def split: option.splits)
  show "be_tmux (snd (stored_pane_at c d fallback sps i e)) = be_tmux e"
    by (auto simp: eq split: option.splits prod.splits)
      (metis buildStored_env snd_conv)
  show "map_option pane_tmux (fst (stored_pane_at c d fallback sps i e)) = Some (resumed c name ?st)"
  proof (cases "Option.bind ?st sp_connection")
    case None
    then have "resumed c name ?st = Some name"
      by (auto simp: resumed_def split: option.splits bind_splits)
    then show ?thesis using None merge_fallback [OF assms(4,1)] by (simp add: eq)
  next
    case (Some sc)
    then obtain sp where sp: "?st = Some sp" "sp_connection sp = Some sc"
      by (auto split: bind_splits)
    let ?b = "fst (buildPaneFromStoredLayoutPane sp sc e)"
    have m: "fst (stored_pane_at c d fallback sps i e) = merge_stored_pane d ?b (Some fb)"
      using sp by (simp add: eq split: prod.splits)
    consider (blank) "stored_is_blank_url sp sc" | (shell) "stored_terminal sp sc"
      | (other) "\<not> stored_is_blank_url sp sc" "\<not> stored_terminal sp sc" by blast
    then show ?thesis
    proof cases
      case blank
      then show ?thesis using m sp assms(4) buildStored_cases(1) [OF blank, of e]
        by (auto simp: resumed_def names_fallback_def pane_tmux_def)
    next
      case shell
      then have nb: "\<not> stored_is_blank_url sp sc"
        by (auto simp: stored_terminal_def stored_is_blank_url_def is_single_surface_def)
      from buildStored_cases(2) [OF shell, of e] obtain p where
        p: "?b = Some (TerminalPane p)" "tp_connection p = Some sc"
          "tmuxSessionId p = sp_tmuxSessionId sp" "tmuxUnavailable p = None" by auto
      from merge_terminal [OF assms(4,1,2) p(2,4)] show ?thesis
        using m p(1,3) sp nb shell by (simp add: resumed_def)
    next
      case other
      from buildStored_cases(3) [OF other, of e] obtain p where
        "?b = Some p" "terminal_pane_of p = None" by auto
      then show ?thesis using m sp other merge_other [of p d "Some fb"] by (simp add: resumed_def)
    qed
  qed
qed

lemma map_js_compact_all:
  "map (map_option g) rs = map Some zs \<Longrightarrow> map g (js_compact rs) = zs"
proof (induction rs arbitrary: zs)
  case (Cons r rs)
  then show ?case by (cases zs; cases r) auto
qed simp

lemma build_indexed_fallback:
  "i < length ids \<Longrightarrow> names_fallback c (ids ! i) (fst (build_indexed_pane c ids i e))"
  by (auto simp: build_indexed_pane_def Let_def names_fallback_def js_nth_nat split: prod.splits)

lemma map_env_nth_all:
  assumes "\<And>x e. x \<in> set xs \<Longrightarrow> P x (fst (f x e))" "map_env f xs e = (ys, e')"
  shows "list_all2 P xs ys"
  using assms
proof (induction xs arbitrary: e ys)
  case Nil
  then show ?case by simp
next
  case (Cons x xs)
  obtain y e1 where f: "f x e = (y, e1)" by fastforce
  obtain zs where t: "map_env f xs e1 = (zs, e')" "ys = y # zs"
    using Cons.prems(2) f by (auto split: prod.splits)
  show ?case using Cons.IH [OF _ t(1)] Cons.prems(1) t(2) Cons.prems(1) [of x e] f by simp
qed

lemma map_env_env_on:
  assumes "\<And>x e. x \<in> set xs \<Longrightarrow> k (snd (f x e)) = k e" "map_env f xs e = (ys, e')"
  shows "k e' = k e"
  using assms
proof (induction xs arbitrary: e ys)
  case Nil
  then show ?case by simp
next
  case (Cons x xs)
  obtain y e1 where f: "f x e = (y, e1)" by fastforce
  obtain zs where t: "map_env f xs e1 = (zs, e')" using Cons.prems(2) f by (auto split: prod.splits)
  show ?case using Cons.IH [OF _ t] Cons.prems(1) Cons.prems(1) [of x e] f by simp
qed

lemma stored_layout_sessions:
  assumes "connectionUsesMultiplexer c d"
    and "tmuxSessionIdsForConnection c (stored_pane_count st) d (be_tmux e) = (names, t)"
    and "buildPanesFromStoredLayout c st d e = (ps, e')"
  shows "be_tmux e' = t \<and> map pane_tmux ps
    = map (\<lambda>i. resumed c (names ! i)
        (js_nth (case st of None \<Rightarrow> [] | Some s \<Rightarrow> nullish (stored_panes s) []) (int i)))
        [0..<stored_pane_count st]"
proof -
  let ?n = "stored_pane_count st"
  let ?sps = "case st of None \<Rightarrow> [] | Some s \<Rightarrow> nullish (stored_panes s) []"
  obtain fb e1 where f: "buildPanesForConnection c ?n d e = (fb, e1)" by fastforce
  then have f': "fallback_panes c ?n d e = (fb, e1)"
    by (simp add: fallback_panes_def multiplexer_terminal [OF assms(1)])
  have len: "length names = ?n" and valid: "list_all isCurrentTmuxSessionId names"
    using tmuxSessionIds_spec [OF assms(1,2)] by auto
  have env: "be_tmux e1 = t" and tm: "map pane_tmux fb = map Some names"
    using buildPanes_tmux [OF assms(1) f] assms(2) by auto
  have "map_env (build_indexed_pane c names) [0..<?n] (e\<lparr>be_tmux := t\<rparr>) = (fb, e1)"
    using f assms(2) by (simp add: buildPanesForConnection_def)
  then have la: "list_all2 (\<lambda>i p. names_fallback c (names ! i) p) [0..<?n] fb"
    by (rule map_env_nth_all [rotated]) (simp add: build_indexed_fallback len)
  show ?thesis
  proof (cases "?sps = []")
    case True
    then have "ps = fb" "e' = e1" using assms(3) f' by (simp_all add: buildPanesFromStoredLayout_def)
    moreover have "map (\<lambda>i. resumed c (names ! i) (js_nth ?sps (int i))) [0..<?n] = map Some names"
      unfolding True using len by (intro nth_equalityI) (auto simp: resumed_def js_nth_def)
    ultimately show ?thesis using env tm by simp
  next
    case False
    then obtain rs where m: "map_env (stored_pane_at c d fb ?sps) [0..<?n] e1 = (rs, e')"
      and ps: "ps = js_compact rs"
      using assms(3) f' by (auto simp: buildPanesFromStoredLayout_def Let_def split: prod.splits)
    have at: "js_nth fb (int i) = Some (fb ! i)" "names_fallback c (names ! i) (fb ! i)"
        "names ! i \<noteq> []" if "i < ?n" for i
      using that la len valid
      by (auto simp: list_all2_conv_all_nth js_nth_nat list_all_length isCurrentTmuxSessionId_def)
    have s: "map_option pane_tmux (fst (stored_pane_at c d fb ?sps i x))
        = Some (resumed c (names ! i) (js_nth ?sps (int i)))"
      and k: "be_tmux (snd (stored_pane_at c d fb ?sps i x)) = be_tmux x" if "i \<in> set [0..<?n]" for i x
      using that stored_pane_session [OF assms(1) at(3) at(1,2)] by simp_all
    have "list_all2 (\<lambda>i r. map_option pane_tmux r = Some (resumed c (names ! i) (js_nth ?sps (int i))))
        [0..<?n] rs"
      using map_env_nth_all [where f = "stored_pane_at c d fb ?sps"
          and P = "\<lambda>i r. map_option pane_tmux r = Some (resumed c (names ! i) (js_nth ?sps (int i)))"]
        s m by blast
    then have "map (map_option pane_tmux) rs
        = map Some (map (\<lambda>i. resumed c (names ! i) (js_nth ?sps (int i))) [0..<?n])"
      by (auto simp: list_all2_conv_all_nth intro!: nth_equalityI)
    then have "map pane_tmux ps = map (\<lambda>i. resumed c (names ! i) (js_nth ?sps (int i))) [0..<?n]"
      unfolding ps by (rule map_js_compact_all)
    moreover have "be_tmux e' = be_tmux e1" using k m by (rule map_env_env_on)
    ultimately show ?thesis using env by simp
  qed
qed

text \<open>A Pane as it stands in an open Tab: its kind suits its Connection, and a terminal has
  the session it shows.\<close>

definition running_pane :: "workspace_pane \<Rightarrow> bool" where
  "running_pane p = (pane_fits p \<and> (isTerminalPane p \<longrightarrow> truthy_str (pane_tmux p)))"

lemma pane_fits_connection: "pane_fits p \<Longrightarrow> \<exists>c. pane_connection p = Some c"
  by (cases p) (auto split: option.splits)

lemma resumed_stored:
  assumes "running_pane p" "pane_connection p = Some sc"
  shows "resumed c name (Some (stored_pane_of sc p)) = pane_tmux p"
proof (cases p)
  case (TerminalPane t)
  then show ?thesis using assms
    by (auto simp: running_pane_def resumed_def stored_is_blank_url_def stored_terminal_def
        is_single_surface_def pane_tmux_def truthy_str_def split: if_splits option.splits)
next
  case (FileBrowserPane t)
  then show ?thesis using assms
    by (cases "fp_kind t") (auto simp: running_pane_def resumed_def stored_is_blank_url_def
        stored_terminal_def is_single_surface_def pane_tmux_def)
qed (use assms in \<open>auto simp: running_pane_def resumed_def stored_is_blank_url_def
        stored_terminal_def is_single_surface_def pane_tmux_def isRemoteDesktopConnection_def\<close>)

lemma stored_panes_running:
  assumes "list_all running_pane qs"
  shows "stored_panes_of qs = map (\<lambda>q. stored_pane_of (the (pane_connection q)) q) qs"
proof -
  have "map_option (\<lambda>c. stored_pane_of c q) (nullish_opt (pane_connection q) x)
      = Some (stored_pane_of (the (pane_connection q)) q)" if "q \<in> set qs" for q x
    using that assms pane_fits_connection [of q]
    by (auto simp: list_all_iff running_pane_def nullish_opt_def)
  then have "map (\<lambda>q. map_option (\<lambda>c. stored_pane_of c q)
      (nullish_opt (pane_connection q) (case qs of [] \<Rightarrow> None | p # _ \<Rightarrow> pane_connection p))) qs
    = map Some (map (\<lambda>q. stored_pane_of (the (pane_connection q)) q) qs)"
    unfolding map_map o_def by (intro map_cong) blast+
  then show ?thesis unfolding stored_panes_of_def by (metis js_compact_map_Some)
qed

lemma saved_sessions:
  assumes "serializeLayout lay qs = Some s" "qs \<noteq> []" "list_all running_pane qs"
    and "length names = stored_pane_count (Some s)"
  shows "map (\<lambda>i. resumed c (names ! i) (js_nth (nullish (stored_panes s) []) (int i)))
      [0..<stored_pane_count (Some s)] = map pane_tmux qs"
proof -
  have s: "paneCount s = int (length qs)" "stored_panes s = Some (stored_panes_of qs)"
    using assms(1) by (auto simp: serializeLayout_def split: option.splits)
  have n: "stored_pane_count (Some s) = length qs"
    using s(1) assms(2) by (cases qs) (auto simp: stored_pane_count_def)
  have "resumed c (names ! i) (js_nth (stored_panes_of qs) (int i)) = pane_tmux (qs ! i)"
    if "i < length qs" for i
  proof -
    have r: "running_pane (qs ! i)" using assms(3) that by (simp add: list_all_length)
    then obtain sc where "pane_connection (qs ! i) = Some sc"
      using pane_fits_connection by (auto simp: running_pane_def)
    with r that show ?thesis
      by (simp add: stored_panes_running [OF assms(3)] js_nth_nat resumed_stored)
  qed
  then show ?thesis unfolding n by (intro nth_equalityI) (simp_all add: s)
qed

text \<open>C7. Opening a tmux or psmux Connection whose stored list of names can be written, with
  any stored layout: as many acceptable names as there are Panes are set aside, starting with
  the names stored for the Connection.  A Pane without a stored form (or whose stored form
  has no Connection, or is a web page without address) resumes the name of its place; a
  stored terminal resumes the session stored with it, or the name of its place when there is
  none; a Pane of another surface has no session.  Opening the Connection again with the same
  layout resumes the same sessions, and opening it with the layout saved from an open Tab,
  whose Panes suit their Connections and whose terminals have a session, resumes exactly the
  sessions of that Tab in order.\<close>

theorem reopening_resumes_sessions:
  assumes "connectionUsesMultiplexer c d" "storage_takes (be_tmux e)"
    and "buildPanesFromStoredLayout c st d e = (ps, e')"
  shows "(\<exists>names. length names = stored_pane_count st \<and> list_all isCurrentTmuxSessionId names
      \<and> prefix (take (stored_pane_count st) (loadStoredTmuxSessionIds (conn_id c) (be_tmux e))) names
      \<and> loadStoredTmuxSessionIds (conn_id c) (be_tmux e') = names
      \<and> map pane_tmux ps
        = map (\<lambda>i. resumed c (names ! i)
            (js_nth (case st of None \<Rightarrow> [] | Some s \<Rightarrow> nullish (stored_panes s) []) (int i)))
            [0..<stored_pane_count st])
    \<and> map pane_tmux (fst (buildPanesFromStoredLayout c st d e')) = map pane_tmux ps
    \<and> (st = serializeLayout lay qs \<and> st \<noteq> None \<and> qs \<noteq> [] \<and> list_all running_pane qs
        \<longrightarrow> map pane_tmux ps = map pane_tmux qs)"
proof -
  let ?n = "stored_pane_count st"
  obtain names t where i: "tmuxSessionIdsForConnection c ?n d (be_tmux e) = (names, t)" by fastforce
  note S = tmuxSessionIds_spec [OF assms(1) i, of "conn_id c"]
  note A = stored_layout_sessions [OF assms(1) i assms(3)]
  have l: "loadStoredTmuxSessionIds (conn_id c) (be_tmux e') = names" "length names = ?n"
    using S A assms(2) by auto
  then obtain t2 where i2: "tmuxSessionIdsForConnection c ?n d (be_tmux e') = (names, t2)"
    using assms(1) by (simp add: tmuxSessionIdsForConnection_def)
  obtain ps2 e2 where o2: "buildPanesFromStoredLayout c st d e' = (ps2, e2)" by fastforce
  have "map pane_tmux ps2 = map pane_tmux ps"
    using stored_layout_sessions [OF assms(1) i2 o2] A by simp
  moreover have "map pane_tmux ps = map pane_tmux qs"
    if "st = serializeLayout lay qs" "st = Some s" "qs \<noteq> []" "list_all running_pane qs" for s
  proof -
    have "serializeLayout lay qs = Some s" "length names = stored_pane_count (Some s)"
      using that l(2) by simp_all
    from saved_sessions [OF this(1) that(3,4) this(2), of c] A show ?thesis
      unfolding that(2) by simp
  qed
  ultimately show ?thesis using S A l o2 by auto
qed

text \<open>A Tab of two terminals and a Document, saved and reopened.\<close>

definition shell_pane :: "string \<Rightarrow> connection \<Rightarrow> string option \<Rightarrow> workspace_pane" where
  "shell_pane i c s = TerminalPane \<lparr>tp_kind = True, tp_id = i, tp_childConnectionId = None,
     tp_title = ''ssh'', tp_toolbarTitle = None, cwd = ''~'', buffer = [], tp_connection = Some c,
     fontSize = None, textEncoding = None, tp_terminalBackground = None, tmuxSessionId = s,
     tmuxUnavailable = None, x11ForwardingStatus = None, sshPortForwardFailures = None\<rparr>"

definition sample_panes :: "workspace_pane list" where
  "sample_panes = [shell_pane ''a'' sample_ssh (Some ''orbit''), viewer_pane ''b'',
     shell_pane ''c'' sample_ssh (Some ''comet'')]"

theorem reopening_resumes_sessions_witness:
  "map pane_tmux (fst (buildPanesFromStoredLayout sample_ssh
      (serializeLayout (Split Vertical [Leaf ''c'', Leaf ''b'', Leaf ''a'']) sample_panes) True
      sample_build_env)) = [Some ''orbit'', None, Some ''comet'']"
proof -
  have u: "connectionUsesMultiplexer sample_ssh True" by code_simp
  have w: "storage_takes (be_tmux sample_build_env)"
    by (simp add: sample_build_env_def sample_env_def)
  have q: "sample_panes \<noteq> []" "list_all running_pane sample_panes"
    by (simp_all add: sample_panes_def shell_pane_def running_pane_def pane_tmux_def sample_ssh_def
        is_single_surface_def isRemoteDesktopConnection_def viewer_pane_def truthy_str_def)
  have st: "serializeLayout (Split Vertical [Leaf ''c'', Leaf ''b'', Leaf ''a'']) sample_panes \<noteq> None"
    by (simp add: serializeLayout_def sample_panes_def shell_pane_def viewer_pane_def index_by_id_def
        upt_conv_Cons)
  have "map pane_tmux sample_panes = [Some ''orbit'', None, Some ''comet'']"
    by (simp add: sample_panes_def shell_pane_def pane_tmux_def viewer_pane_def)
  then show ?thesis
    using reopening_resumes_sessions [OF u w surjective_pairing, THEN conjunct2, THEN conjunct2,
        THEN mp, OF conjI, OF refl conjI, OF st conjI, OF q] by simp
qed

text \<open>A cloud storage Connection added to a Pane becomes a terminal Pane: the Pane builder
  has no case for it and falls through to the terminal one.\<close>

theorem cloud_storage_becomes_terminal:
  assumes "conn_type c = CCloudStorage"
  shows "\<exists>p. fst (buildPaneForConnection c focused opts d e) = Some (TerminalPane p)
    \<and> map_option conn_type (tp_connection p) = Some CCloudStorage"
  using assms by (auto simp: buildPaneForConnection_def Let_def isRemoteDesktopConnection_def
      split: prod.splits)

theorem cloud_storage_becomes_terminal_witness:
  "\<exists>p. fst (buildPaneForConnection (mk_connection ''s3'' ''bucket'' ''h'' ''u'' CCloudStorage)
       None None True sample_build_env) = Some (TerminalPane p)"
  using cloud_storage_becomes_terminal [of "mk_connection ''s3'' ''bucket'' ''h'' ''u'' CCloudStorage"
      None None True sample_build_env] by auto

section \<open>Editing a Connection that is open\<close>

lemma map_env_list_all2:
  assumes "\<And>x e. R x (fst (f x e))" "map_env f xs e = (ys, e')"
  shows "list_all2 R xs ys"
  using assms(2)
proof (induction xs arbitrary: e ys)
  case Nil
  then show ?case by simp
next
  case (Cons x xs)
  obtain y e1 where f: "f x e = (y, e1)" by fastforce
  obtain zs where t: "map_env f xs e1 = (zs, e')" "ys = y # zs"
    using Cons.prems f by (auto split: prod.splits)
  show ?case using Cons.IH [OF t(1)] t(2) assms(1) [of x e] f by simp
qed

definition pane_unavailable :: "workspace_pane \<Rightarrow> bool" where
  "pane_unavailable p = (Option.bind (terminal_pane_of p) tmuxUnavailable = Some True)"

text \<open>What refreshing Connection \<open>c\<close> does to one Pane.\<close>

definition pane_refreshed :: "connection \<Rightarrow> bool \<Rightarrow> workspace_pane \<Rightarrow> workspace_pane \<Rightarrow> bool" where
  "pane_refreshed c d p q =
     (if isTerminalPane p \<and> map_option conn_id (pane_connection p) = Some (conn_id c)
      then pane_id q = pane_id p \<and> pane_title q = pane_title p
         \<and> pane_childConnectionId q = pane_childConnectionId p
         \<and> map_option conn_id (pane_connection q) = Some (conn_id c)
         \<and> map_option host (pane_connection q) = Some (host c)
         \<and> (if \<not> connectionUsesMultiplexer c d then pane_tmux q = None
            else case pane_tmux p of
                   Some s \<Rightarrow> pane_tmux q = Some s
                 | None \<Rightarrow>
                     if pane_unavailable p then pane_tmux q = None
                     else \<exists>s. pane_tmux q = Some s \<and> isCurrentTmuxSessionId s)
      else q = p)"

lemma refreshChildPaneConnection_facts:
  "conn_id (refreshChildPaneConnection p b c) = conn_id c"
  "host (refreshChildPaneConnection p b c) = host c"
  "connectionUsesMultiplexer (refreshChildPaneConnection p b c) d = connectionUsesMultiplexer c d"
  by (auto simp: refreshChildPaneConnection_def connectionUsesMultiplexer_def
      connectionUsesTmux_def connectionUsesPsmux_def split: option.splits)

lemma append_tmux_valid:
  "connectionUsesMultiplexer c d
    \<Longrightarrow> \<exists>s. fst (append_tmux c d e) = Some s \<and> isCurrentTmuxSessionId s"
  using generate_spec [OF surjective_pairing]
  by (auto simp: append_tmux_def appendTmuxSessionId_def Let_def split: prod.splits) (metis fst_conv)

lemma refreshTerminal_session:
  "tmuxSessionId (fst (refreshTerminalPaneConnection p c t d e))
    = (if \<not> connectionUsesMultiplexer c d then None
       else case tmuxSessionId p of
              Some s \<Rightarrow> Some s
            | None \<Rightarrow> if tmuxUnavailable p = Some True then None else fst (append_tmux c d e))"
  by (auto simp: refreshTerminalPaneConnection_def Let_def split: prod.splits option.splits)

lemma refreshTerminal_facts:
  "tp_id (fst (refreshTerminalPaneConnection p c t d e)) = tp_id p"
  "tp_title (fst (refreshTerminalPaneConnection p c t d e)) = tp_title p"
  "tp_childConnectionId (fst (refreshTerminalPaneConnection p c t d e)) = tp_childConnectionId p"
  "tp_connection (fst (refreshTerminalPaneConnection p c t d e)) = Some c"
  by (auto simp: refreshTerminalPaneConnection_def Let_def refreshedPaneTitle_def split: prod.splits)

lemma refresh_pane_spec: "pane_refreshed c d p (fst (refresh_pane tab c c d p e))"
proof (cases p)
  case (TerminalPane t)
  show ?thesis
  proof (cases "map_option conn_id (tp_connection t) = Some (conn_id c)")
    case True
    let ?pc = "if truthy_str (tp_childConnectionId t) then refreshChildPaneConnection t (tab_connection tab) c
      else c"
    let ?tb = "if truthy_str (tp_childConnectionId t) then tp_toolbarTitle t
      else Some (toolbarTitleForConnection c)"
    have eq: "fst (refresh_pane tab c c d p e)
        = TerminalPane (fst (refreshTerminalPaneConnection t ?pc ?tb d e))"
      using TerminalPane True by (simp add: refresh_pane_def Let_def split: prod.splits)
    have pc: "conn_id ?pc = conn_id c" "host ?pc = host c"
        "connectionUsesMultiplexer ?pc d = connectionUsesMultiplexer c d"
      by (simp_all add: refreshChildPaneConnection_facts)
    show ?thesis
      unfolding eq pane_refreshed_def using TerminalPane True pc append_tmux_valid [of ?pc d e]
      by (auto simp: refreshTerminal_facts refreshTerminal_session pane_tmux_def
          pane_unavailable_def split: option.splits)
  next
    case False
    then have "\<not> (isTerminalPane p \<and> map_option conn_id (pane_connection p) = Some (conn_id c))"
      "fst (refresh_pane tab c c d p e) = p"
      using TerminalPane by (simp_all add: refresh_pane_def)
    then show ?thesis unfolding pane_refreshed_def by (simp only: if_False refl)
  qed
qed (simp_all add: refresh_pane_def pane_refreshed_def)

text \<open>C8. Saving an edited Connection updates its open Tab in place.  For every Tab but an SFTP
  browser of an FTP Connection: the Tab keeps its id, kind, layout and focus; every Pane
  keeps its id; a terminal Pane of the Connection keeps its title and its place as a child.
  While the edited Connection uses a multiplexer, such a Pane keeps its session and one
  without a session gets an acceptable name, unless its host has no multiplexer; once the
  Connection no longer uses a multiplexer its Panes lose their sessions.  Panes of other
  Connections are untouched.\<close>

theorem refresh_keeps_sessions:
  assumes "\<not> (tab_kind tab = KSftp \<and> conn_type c = CFtp)"
  shows "let tab' = fst (refreshTabConnectionMetadata ll c d tab e) in
    tab_id tab' = tab_id tab \<and> layout tab' = layout tab \<and> focusedPaneId tab' = focusedPaneId tab
    \<and> tab_kind tab' = tab_kind tab \<and> list_all2 (pane_refreshed c d) (panes tab) (panes tab')"
proof -
  obtain ps e' where m: "map_env (refresh_pane tab c c d) (panes tab) e = (ps, e')" by fastforce
  have "list_all2 (pane_refreshed c d) (panes tab) ps"
    using m by (rule map_env_list_all2 [rotated]) (rule refresh_pane_spec)
  then show ?thesis using assms m by (auto simp: refreshTabConnectionMetadata_def Let_def)
qed

definition sample_tab :: workspace_tab where
  "sample_tab = \<lparr>tab_id = ''tab-c1'', tab_workspaceId = Some ''default'', tab_childConnectionId = None,
     childConnectionGroupParentId = None, tab_title = ''web'', displayTitle = None,
     tab_toolbarTitle = None, subtitle = [], tab_kind = KTerminal, panes = [viewer_pane ''a'', viewer_pane ''b''],
     layout = Some (Split Horizontal [Leaf ''a'', Leaf ''b'']), focusedPaneId = Some ''a'',
     maximizedPaneId = None, quickCommandBarVisible = None, tab_connection = Some sample_ssh,
     tab_url = None, tab_dataPartition = None, ephemeral = None,
     tab_sshPortForwardSessionId = None, tab_sshPortForwardRemotePort = None\<rparr>"

text \<open>A Tab with a running terminal, one without a session, one of another Connection and a
  Document.\<close>

definition other_ssh :: connection where
  "other_ssh = mk_connection ''c2'' ''db'' ''other'' ''root'' CSsh"

definition sample_shells :: workspace_tab where
  "sample_shells = sample_tab\<lparr>panes := [shell_pane ''a'' sample_ssh (Some ''orbit''),
     shell_pane ''c'' sample_ssh None, shell_pane ''d'' other_ssh (Some ''comet''), viewer_pane ''b'']\<rparr>"

theorem refresh_keeps_sessions_witness:
  "list_all2 (pane_refreshed (sample_ssh\<lparr>host := ''new''\<rparr>) True) (panes sample_shells)
      (panes (fst (refreshTabConnectionMetadata ''local'' (sample_ssh\<lparr>host := ''new''\<rparr>) True
        sample_shells sample_build_env)))
   \<and> map pane_tmux (panes (fst (refreshTabConnectionMetadata ''local'' (sample_ssh\<lparr>host := ''new''\<rparr>)
        True sample_shells sample_build_env)))
     = [Some ''orbit'', Some ''alpha'', Some ''comet'', None]"
proof -
  have k: "\<not> (tab_kind sample_shells = KSftp \<and> conn_type (sample_ssh\<lparr>host := ''new''\<rparr>) = CFtp)"
    by (simp add: sample_shells_def sample_tab_def)
  have "map pane_tmux (panes (fst (refreshTabConnectionMetadata ''local'' (sample_ssh\<lparr>host := ''new''\<rparr>)
        True sample_shells sample_build_env))) = [Some ''orbit'', Some ''alpha'', Some ''comet'', None]"
    by code_simp
  then show ?thesis
    using refresh_keeps_sessions [OF k, of "''local''" True sample_build_env] by (simp add: Let_def)
qed

end
