(* ===== verification/Workspace_State.thy ===== *)
theory Workspace_State
  imports Pane_Builder
begin

text \<open>
  The state of the Workspace store (\<open>src/store.ts\<close>) that its Tab and Pane operations read and
  write, the bookkeeping they share (session counts, which Tab a Workspace shows), the order
  of Tabs (\<open>src/modules/workspace/tabOrder.ts\<close>), and the operations that switch, close,
  move and rename Tabs.

  The record also holds what the operations reach outside the store: the generators of
  \<open>Pane_Builder\<close>, the stored layouts and Quick Command Bar flags of local storage, the
  platform's URL parser and the localized name of a local session.
\<close>

section \<open>Definitions\<close>

subsection \<open>State\<close>

record workspace_state =
  tabs :: "workspace_tab list"
  activeTabId :: string
  activeWorkspaceId :: string
  activeTabIdsByWorkspace :: "string \<Rightarrow> string option"
  workspaces :: "workspace list"
  syncInputEnabled :: bool
  activeSessionCounts :: "string \<Rightarrow> nat option"
  defaultUseTmuxSessions :: bool
  rdpOpenInFullscreen :: bool
  vncOpenInFullscreen :: bool
  build :: build_env
  storedLayouts :: "string \<Rightarrow> stored_connection_layout option"
  storedBarVisible :: "string \<Rightarrow> bool"
  storedActiveWorkspaceId :: "string option"
  url_host :: "string \<Rightarrow> string option"
  local_label :: string

definition DEFAULT_WORKSPACE_ID :: string where
  "DEFAULT_WORKSPACE_ID = ''default''"

definition persistActiveWorkspaceId :: "string \<Rightarrow> workspace_state \<Rightarrow> workspace_state" where
  "persistActiveWorkspaceId wid s = s\<lparr>storedActiveWorkspaceId := Some wid\<rparr>"

definition loadStoredActiveWorkspaceId :: "workspace_state \<Rightarrow> string" where
  "loadStoredActiveWorkspaceId s = nullish (storedActiveWorkspaceId s) DEFAULT_WORKSPACE_ID"

definition persistLayout :: "string \<Rightarrow> stored_connection_layout option \<Rightarrow> workspace_state
    \<Rightarrow> workspace_state" where
  "persistLayout cid stored s = s\<lparr>storedLayouts := (storedLayouts s)(cid := stored)\<rparr>"

definition loadStoredLayout :: "string \<Rightarrow> workspace_state \<Rightarrow> stored_connection_layout option" where
  "loadStoredLayout cid s = storedLayouts s cid"

definition clearStoredLayouts :: "workspace_state \<Rightarrow> workspace_state" where
  "clearStoredLayouts s = s\<lparr>storedLayouts := Map.empty\<rparr>"

definition loadStoredQuickCommandBarVisible :: "string option \<Rightarrow> workspace_state \<Rightarrow> bool" where
  "loadStoredQuickCommandBarVisible cid s =
     (truthy_str cid \<and> storedBarVisible s (nullish cid []))"

definition persistQuickCommandBarVisible :: "string option \<Rightarrow> bool \<Rightarrow> workspace_state
    \<Rightarrow> workspace_state" where
  "persistQuickCommandBarVisible cid visible s =
     (if truthy_str cid then s\<lparr>storedBarVisible := (storedBarVisible s)(the cid := visible)\<rparr> else s)"

subsection \<open>Session counts\<close>

fun pane_url_ids :: "workspace_pane \<Rightarrow> string list" where
  "pane_url_ids (UrlPane p) = (if conn_type (up_connection p) = CUrl then [conn_id (up_connection p)] else [])"
| "pane_url_ids _ = []"

definition urlConnectionIdsForTab :: "workspace_tab \<Rightarrow> string list" where
  "urlConnectionIdsForTab tab =
     (case tab_connection tab of
        Some c \<Rightarrow>
          (if tab_kind tab = KWebview \<and> conn_type c = CUrl then [conn_id c]
           else concat (map pane_url_ids (panes tab)))
      | None \<Rightarrow> concat (map pane_url_ids (panes tab)))"

definition increment_one :: "string \<Rightarrow> (string \<Rightarrow> nat option) \<Rightarrow> string \<Rightarrow> nat option" where
  "increment_one k m = m(k := Some (nullish (m k) 0 + 1))"

definition decrement_one :: "string \<Rightarrow> (string \<Rightarrow> nat option) \<Rightarrow> string \<Rightarrow> nat option" where
  "decrement_one k m =
     (let current = nullish (m k) 0
      in if current \<le> 1 then m(k := None) else m(k := Some (current - 1)))"

definition incrementActiveSessionCounts :: "(string \<Rightarrow> nat option) \<Rightarrow> string list \<Rightarrow> string \<Rightarrow> nat option"
where
  "incrementActiveSessionCounts m ids = fold increment_one ids m"

definition decrementActiveSessionCounts :: "(string \<Rightarrow> nat option) \<Rightarrow> string list \<Rightarrow> string \<Rightarrow> nat option"
where
  "decrementActiveSessionCounts m ids = fold decrement_one ids m"

definition markConnectionSessionStarted :: "string \<Rightarrow> workspace_state \<Rightarrow> workspace_state" where
  "markConnectionSessionStarted cid s =
     s\<lparr>activeSessionCounts := increment_one cid (activeSessionCounts s)\<rparr>"

definition markConnectionSessionEnded :: "string \<Rightarrow> workspace_state \<Rightarrow> workspace_state" where
  "markConnectionSessionEnded cid s =
     s\<lparr>activeSessionCounts := decrement_one cid (activeSessionCounts s)\<rparr>"

subsection \<open>Tabs of a Workspace\<close>

definition tabWorkspaceId :: "workspace_tab option \<Rightarrow> string" where
  "tabWorkspaceId tab = nullish (Option.bind tab tab_workspaceId) DEFAULT_WORKSPACE_ID"

definition find_tab :: "string \<Rightarrow> workspace_tab list \<Rightarrow> workspace_tab option" where
  "find_tab i ts = find (\<lambda>t. tab_id t = i) ts"

definition firstTabIdForWorkspace :: "workspace_tab list \<Rightarrow> string \<Rightarrow> string" where
  "firstTabIdForWorkspace ts wid =
     nullish (map_option tab_id (find (\<lambda>t. tabWorkspaceId (Some t) = wid) ts)) []"

definition tabIdForWorkspace :: "workspace_tab list \<Rightarrow> string \<Rightarrow> string option \<Rightarrow> string" where
  "tabIdForWorkspace ts wid preferredTabId =
     (let preferred = (if truthy_str preferredTabId then find_tab (nullish preferredTabId []) ts else None)
      in if tabWorkspaceId preferred = wid then nullish (map_option tab_id preferred) []
         else firstTabIdForWorkspace ts wid)"

definition reorderWorkspaceTabs :: "workspace_tab list \<Rightarrow> string \<Rightarrow> string \<Rightarrow> workspace_tab list" where
  "reorderWorkspaceTabs ts dragged target =
     (case (find_index (\<lambda>t. tab_id t = dragged) ts, find_index (\<lambda>t. tab_id t = target) ts) of
        (Some i, Some j) \<Rightarrow>
          (if i = j then ts
           else if tabWorkspaceId (Some (ts ! i)) \<noteq> tabWorkspaceId (Some (ts ! j)) then ts
           else insert_at j (ts ! i) (remove_at i ts))
      | _ \<Rightarrow> ts)"

subsection \<open>Switching, closing, moving and renaming Tabs\<close>

definition activateTab :: "string \<Rightarrow> workspace_state \<Rightarrow> workspace_state" where
  "activateTab tabId s =
     (let tab = find_tab tabId (tabs s); target = tabWorkspaceId tab
      in if tab \<noteq> None \<and> target \<noteq> activeWorkspaceId s then
           (persistActiveWorkspaceId target s)
             \<lparr> activeTabId := tabId, activeWorkspaceId := target,
               activeTabIdsByWorkspace := (activeTabIdsByWorkspace s)
                 (activeWorkspaceId s \<mapsto> activeTabId s, target \<mapsto> tabId) \<rparr>
         else s\<lparr> activeTabId := tabId,
                 activeTabIdsByWorkspace := (activeTabIdsByWorkspace s)(target \<mapsto> tabId) \<rparr>)"

definition setWorkspaces :: "workspace list \<Rightarrow> workspace_state \<Rightarrow> workspace_state" where
  "setWorkspaces ws s =
     (if (\<forall>w \<in> set ws. ws_id w \<noteq> activeWorkspaceId s) \<and> ws \<noteq> [] then
        (let fallback = nullish (map_option ws_id (find isDefault ws)) (ws_id (hd ws))
         in (persistActiveWorkspaceId fallback s)
              \<lparr> workspaces := ws, activeWorkspaceId := fallback,
                activeTabId := tabIdForWorkspace (tabs s) fallback (activeTabIdsByWorkspace s fallback) \<rparr>)
      else s\<lparr>workspaces := ws\<rparr>)"

definition setActiveWorkspace :: "string \<Rightarrow> workspace_state \<Rightarrow> workspace_state" where
  "setActiveWorkspace wid s =
     (if activeWorkspaceId s = wid then s
      else let byWs = (activeTabIdsByWorkspace s)(activeWorkspaceId s \<mapsto> activeTabId s)
           in (persistActiveWorkspaceId wid s)
                \<lparr> activeWorkspaceId := wid,
                  activeTabId := tabIdForWorkspace (tabs s) wid (byWs wid),
                  activeTabIdsByWorkspace := byWs \<rparr>)"

definition has_terminal :: "workspace_tab \<Rightarrow> bool" where
  "has_terminal tab = (\<exists>p \<in> set (panes tab). isTerminalPane p)"

definition closeWorkspaceTabs :: "string \<Rightarrow> string \<Rightarrow> workspace_state \<Rightarrow> workspace_state" where
  "closeWorkspaceTabs wid fallback s =
     (let closing = filter (\<lambda>t. tabWorkspaceId (Some t) = wid) (tabs s)
      in if closing = [] \<and> activeWorkspaceId s \<noteq> wid then s
         else
           let remaining = filter (\<lambda>t. tabWorkspaceId (Some t) \<noteq> wid) (tabs s);
               nextWs = (if activeWorkspaceId s = wid then fallback else activeWorkspaceId s);
               stillOpen = (\<exists>t \<in> set remaining. tab_id t = activeTabId s);
               nextTab = (if stillOpen then activeTabId s
                          else tabIdForWorkspace remaining nextWs (activeTabIdsByWorkspace s nextWs));
               s1 = (if nextWs \<noteq> activeWorkspaceId s then persistActiveWorkspaceId nextWs s else s)
           in s1\<lparr> tabs := remaining, activeWorkspaceId := nextWs, activeTabId := nextTab,
                  syncInputEnabled := (syncInputEnabled s \<and> \<not> (\<exists>t \<in> set closing. has_terminal t)),
                  activeSessionCounts := decrementActiveSessionCounts (activeSessionCounts s)
                    (concat (map urlConnectionIdsForTab closing)) \<rparr>)"

definition renameTab :: "string \<Rightarrow> string \<Rightarrow> workspace_state \<Rightarrow> workspace_state" where
  "renameTab tabId title s =
     (let t = trim title
      in if t = [] then s
         else s\<lparr>tabs := map_where (\<lambda>x. tab_id x = tabId) (\<lambda>x. x\<lparr>displayTitle := Some (Some t)\<rparr>) (tabs s)\<rparr>)"

definition closeAllTabs :: "workspace_state \<Rightarrow> workspace_state" where
  "closeAllTabs s =
     s\<lparr> tabs := [], activeTabId := [],
        syncInputEnabled := (syncInputEnabled s \<and> \<not> (\<exists>t \<in> set (tabs s). has_terminal t)),
        activeSessionCounts := decrementActiveSessionCounts (activeSessionCounts s)
          (concat (map urlConnectionIdsForTab (tabs s))) \<rparr>"

definition closeTab :: "string \<Rightarrow> workspace_state \<Rightarrow> workspace_state" where
  "closeTab tabId s =
     (let closing = find_tab tabId (tabs s);
          remaining = filter (\<lambda>t. tab_id t \<noteq> tabId) (tabs s)
      in s\<lparr> tabs := remaining,
            activeTabId := (if activeTabId s = tabId
                            then firstTabIdForWorkspace remaining (activeWorkspaceId s)
                            else activeTabId s),
            activeSessionCounts := decrementActiveSessionCounts (activeSessionCounts s)
              (case closing of None \<Rightarrow> [] | Some t \<Rightarrow> urlConnectionIdsForTab t),
            syncInputEnabled := (syncInputEnabled s
              \<and> \<not> (case closing of None \<Rightarrow> False | Some t \<Rightarrow> has_terminal t)) \<rparr>)"

definition moveTab :: "string \<Rightarrow> string \<Rightarrow> workspace_state \<Rightarrow> workspace_state" where
  "moveTab tabId targetTabId s = s\<lparr>tabs := reorderWorkspaceTabs (tabs s) tabId targetTabId\<rparr>"

section \<open>Session counts\<close>

text \<open>A count that is present is positive.\<close>

definition counts_ok :: "(string \<Rightarrow> nat option) \<Rightarrow> bool" where
  "counts_ok m = (\<forall>k. m k \<noteq> Some 0)"

definition count_of :: "(string \<Rightarrow> nat option) \<Rightarrow> string \<Rightarrow> nat" where
  "count_of m k = nullish (m k) 0"

lemma counts_ext: "counts_ok m \<Longrightarrow> counts_ok n \<Longrightarrow> (\<And>k. count_of m k = count_of n k) \<Longrightarrow> m = n"
proof
  fix k assume "counts_ok m" "counts_ok n" "\<And>k. count_of m k = count_of n k"
  then have "m k \<noteq> Some 0" "n k \<noteq> Some 0" "nullish (m k) 0 = nullish (n k) 0"
    by (auto simp: counts_ok_def count_of_def)
  then show "m k = n k" by (cases "m k"; cases "n k") auto
qed

lemma increment_one_facts:
  "counts_ok m \<Longrightarrow> counts_ok (increment_one k m)"
  "count_of (increment_one k m) j = count_of m j + (if j = k then 1 else 0)"
  by (auto simp: counts_ok_def count_of_def increment_one_def)

lemma decrement_one_facts:
  "counts_ok m \<Longrightarrow> counts_ok (decrement_one k m)"
  "count_of (decrement_one k m) j = count_of m j - (if j = k then 1 else 0)"
  by (auto simp: counts_ok_def count_of_def decrement_one_def Let_def)

lemma increment_facts:
  "counts_ok m \<Longrightarrow> counts_ok (incrementActiveSessionCounts m ids)"
  "count_of (incrementActiveSessionCounts m ids) j = count_of m j + count_list ids j"
proof -
  show "counts_ok m \<Longrightarrow> counts_ok (incrementActiveSessionCounts m ids)"
    unfolding incrementActiveSessionCounts_def
    by (induction ids arbitrary: m) (auto simp: increment_one_facts)
  show "count_of (incrementActiveSessionCounts m ids) j = count_of m j + count_list ids j"
    unfolding incrementActiveSessionCounts_def
    by (induction ids arbitrary: m) (auto simp: increment_one_facts)
qed

lemma decrement_facts:
  "counts_ok m \<Longrightarrow> counts_ok (decrementActiveSessionCounts m ids)"
  "count_of (decrementActiveSessionCounts m ids) j = count_of m j - count_list ids j"
proof -
  show "counts_ok m \<Longrightarrow> counts_ok (decrementActiveSessionCounts m ids)"
    unfolding decrementActiveSessionCounts_def
    by (induction ids arbitrary: m) (auto simp: decrement_one_facts)
  show "count_of (decrementActiveSessionCounts m ids) j = count_of m j - count_list ids j"
    unfolding decrementActiveSessionCounts_def
    by (induction ids arbitrary: m) (auto simp: decrement_one_facts)
qed

lemmas counts_simps = increment_facts decrement_facts increment_one_facts decrement_one_facts

text \<open>Opening any sequence of sessions and then closing the same sessions restores the
  session counts exactly, whatever was counted before; each count is the number of sessions
  started less those ended, never below zero, and a Connection without sessions has no entry.\<close>

theorem session_counts_balance:
  assumes "counts_ok m" "mset ended = mset started"
  shows "decrementActiveSessionCounts (incrementActiveSessionCounts m started) ended = m
    \<and> count_of (incrementActiveSessionCounts m started) k = count_of m k + count (mset started) k
    \<and> decrementActiveSessionCounts m ended k
      = (if count_of m k \<le> count (mset ended) k then None
         else Some (count_of m k - count (mset ended) k))"
proof (intro conjI)
  have cl: "count_list xs j = count (mset xs) j" for xs :: "string list" and j
    by (induction xs) auto
  show "decrementActiveSessionCounts (incrementActiveSessionCounts m started) ended = m"
    by (rule counts_ext) (use assms in \<open>simp_all add: counts_simps cl\<close>)
  show "count_of (incrementActiveSessionCounts m started) k = count_of m k + count (mset started) k"
    by (simp add: counts_simps cl)
  have "counts_ok (decrementActiveSessionCounts m ended)" using assms by (simp add: counts_simps)
  then show "decrementActiveSessionCounts m ended k
      = (if count_of m k \<le> count (mset ended) k then None
         else Some (count_of m k - count (mset ended) k))"
    using decrement_facts(2) [of m ended k]
    by (cases "decrementActiveSessionCounts m ended k") (auto simp: counts_ok_def count_of_def cl)
qed

theorem session_counts_balance_witness:
  "decrementActiveSessionCounts
     (incrementActiveSessionCounts [''a'' \<mapsto> 1] [''a'', ''b'', ''a'']) [''b'', ''a'', ''a'']
   = [''a'' \<mapsto> 1]"
  using session_counts_balance [of "[''a'' \<mapsto> 1]" "[''b'', ''a'', ''a'']" "[''a'', ''b'', ''a'']"]
  by (simp add: counts_ok_def)

section \<open>Reordering Tabs\<close>

lemma remove_at_filter:
  assumes "distinct (map k xs)" "i < length xs"
  shows "remove_at i xs = filter (\<lambda>x. k x \<noteq> k (xs ! i)) xs"
proof -
  let ?x = "xs ! i"
  have s: "xs = take i xs @ ?x # drop (Suc i) xs" using assms(2) by (simp add: id_take_nth_drop [symmetric])
  have "distinct (map k (take i xs @ ?x # drop (Suc i) xs))" using assms(1) s by simp
  then have "filter (\<lambda>x. k x \<noteq> k ?x) (take i xs) = take i xs"
    "filter (\<lambda>x. k x \<noteq> k ?x) (drop (Suc i) xs) = drop (Suc i) xs"
    by (auto simp: filter_id_conv image_iff)
  moreover have "filter (\<lambda>x. k x \<noteq> k ?x) xs
    = filter (\<lambda>x. k x \<noteq> k ?x) (take i xs @ ?x # drop (Suc i) xs)"
    using s by metis
  ultimately show ?thesis by (simp add: remove_at_def)
qed

lemma nth_insert_at: "j \<le> length xs \<Longrightarrow> insert_at j x xs ! j = x"
  by (simp add: insert_at_def nth_append)

lemma length_remove_at: "i < length xs \<Longrightarrow> length (remove_at i xs) = length xs - 1"
  by (simp add: remove_at_def)

lemma filter_insert_at: "\<not> p x \<Longrightarrow> filter p (insert_at j x xs) = filter p xs"
  by (simp add: insert_at_def) (metis append_take_drop_id filter_append)

lemma mset_reorder: "mset (reorderWorkspaceTabs ts d t) = mset ts"
  by (auto simp: reorderWorkspaceTabs_def mset_insert_at mset_remove_at
      split: option.splits dest!: find_index_SomeD)

interpretation tab_order: rearrangement "\<lambda>i ts. reorderWorkspaceTabs ts (fst i) (snd i)"
  by unfold_locales (rule mset_reorder)

text \<open>Dragging a Tab onto another of the same Workspace puts it at the index the other
  had; all Tabs stay, in the same relative order but for the dragged one; a drop on a Tab of
  another Workspace, on itself or on an unknown Tab changes nothing.\<close>

theorem drag_moves_one_tab:
  assumes "distinct (map tab_id ts)"
  shows "let next = reorderWorkspaceTabs ts dragged target in
    mset next = mset ts \<and> distinct (map tab_id next)
    \<and> filter (\<lambda>t. tab_id t \<noteq> dragged) next = filter (\<lambda>t. tab_id t \<noteq> dragged) ts
    \<and> (\<forall>i \<in> {0..<length ts}. \<forall>j \<in> {0..<length ts}. tab_id (ts ! i) = dragged \<and> tab_id (ts ! j) = target \<longrightarrow>
        (if tabWorkspaceId (Some (ts ! i)) = tabWorkspaceId (Some (ts ! j)) \<and> dragged \<noteq> target
         then next ! j = ts ! i else next = ts))"
proof -
  let ?next = "reorderWorkspaceTabs ts dragged target"
  have m: "mset ?next = mset ts" "distinct (map tab_id ?next)"
    using mset_reorder tab_order.rearrange_distinct_keys [where k = tab_id and i = "(dragged, target)" and xs = ts] assms
    by simp_all
  have idx: "find_index (\<lambda>t. tab_id t = k) ts = Some i" if "i < length ts" "tab_id (ts ! i) = k" for i k
  proof -
    have "find_index (\<lambda>t. tab_id t = k) ts \<noteq> None"
      unfolding find_index_None using nth_mem [OF that(1)] that(2) by blast
    then obtain i' where i': "find_index (\<lambda>t. tab_id t = k) ts = Some i'" by blast
    then have "i' < length ts" "tab_id (ts ! i') = k" by (auto dest: find_index_SomeD)
    then have "i' = i" using that nth_eq_iff_index_eq [OF assms, of i' i] by simp
    then show ?thesis using i' by simp
  qed
  have f: "filter (\<lambda>t. tab_id t \<noteq> dragged) ?next = filter (\<lambda>t. tab_id t \<noteq> dragged) ts"
  proof (cases "find_index (\<lambda>t. tab_id t = dragged) ts")
    case None
    then show ?thesis by (simp add: reorderWorkspaceTabs_def)
  next
    case (Some i)
    then have i: "i < length ts" "tab_id (ts ! i) = dragged" by (auto dest: find_index_SomeD)
    have "remove_at i ts = filter (\<lambda>t. tab_id t \<noteq> dragged) ts"
      using remove_at_filter [OF assms i(1)] i(2) by simp
    then show ?thesis using Some i
      by (auto simp: reorderWorkspaceTabs_def filter_insert_at split: option.splits)
  qed
  have g: "if tabWorkspaceId (Some (ts ! i)) = tabWorkspaceId (Some (ts ! j)) \<and> dragged \<noteq> target
         then ?next ! j = ts ! i else ?next = ts"
    if "i < length ts" "j < length ts" "tab_id (ts ! i) = dragged" "tab_id (ts ! j) = target" for i j
    using that idx [OF that(1,3)] idx [OF that(2,4)]
    by (auto simp: reorderWorkspaceTabs_def nth_insert_at length_remove_at)
  show ?thesis using m f g by (auto simp: Let_def)
qed

theorem drag_moves_one_tab_witness:
  "let ts = [sample_tab, sample_tab\<lparr>tab_id := ''t2''\<rparr>, sample_tab\<lparr>tab_id := ''t3''\<rparr>] in
   map tab_id (reorderWorkspaceTabs ts ''tab-c1'' ''t3'') = [''t2'', ''t3'', ''tab-c1'']
   \<and> filter (\<lambda>t. tab_id t \<noteq> ''tab-c1'') (reorderWorkspaceTabs ts ''tab-c1'' ''t3'')
     = filter (\<lambda>t. tab_id t \<noteq> ''tab-c1'') ts"
proof -
  let ?ts = "[sample_tab, sample_tab\<lparr>tab_id := ''t2''\<rparr>, sample_tab\<lparr>tab_id := ''t3''\<rparr>]"
  have "distinct (map tab_id ?ts)" by (simp add: sample_tab_def)
  note P = drag_moves_one_tab [OF this, of "''tab-c1''" "''t3''"]
  have "map tab_id (reorderWorkspaceTabs ?ts ''tab-c1'' ''t3'') = [''t2'', ''t3'', ''tab-c1'']"
    by (simp add: reorderWorkspaceTabs_def sample_tab_def tabWorkspaceId_def insert_at_def remove_at_def)
  then show ?thesis using P by (simp add: Let_def)
qed

section \<open>The Tab a Workspace shows\<close>

lemma find_tab_SomeD: "find_tab i ts = Some t \<Longrightarrow> tab_id t = i \<and> t \<in> set ts"
  by (auto simp: find_tab_def dest: find_SomeD)

lemma find_tab_unique: "distinct (map tab_id ts) \<Longrightarrow> t \<in> set ts \<Longrightarrow> find_tab (tab_id t) ts = Some t"
  by (simp add: find_tab_def find_Some_iff_unique)

text \<open>An id the canvas can show in Workspace \<open>wid\<close>: empty, or a Tab of that Workspace.\<close>

definition shows_tab :: "workspace_tab list \<Rightarrow> string \<Rightarrow> string \<Rightarrow> bool" where
  "shows_tab ts wid i = (i = [] \<or> (\<exists>t \<in> set ts. tab_id t = i \<and> tabWorkspaceId (Some t) = wid))"

lemma firstTab_shows: "shows_tab ts wid (firstTabIdForWorkspace ts wid)"
  by (cases "find (\<lambda>t. tabWorkspaceId (Some t) = wid) ts")
    (auto simp: firstTabIdForWorkspace_def shows_tab_def dest: find_SomeD)

lemma tabIdForWorkspace_shows: "shows_tab ts wid (tabIdForWorkspace ts wid preferred)"
proof (cases "if truthy_str preferred then find_tab (nullish preferred []) ts else None")
  case None
  then show ?thesis using firstTab_shows by (auto simp: tabIdForWorkspace_def Let_def shows_tab_def)
next
  case (Some t)
  then have "t \<in> set ts" by (auto dest: find_tab_SomeD split: if_splits)
  then show ?thesis using Some firstTab_shows [of ts wid]
    by (auto simp: tabIdForWorkspace_def Let_def shows_tab_def)
qed

lemma firstTab_empty_iff:
  "(\<And>t. t \<in> set ts \<Longrightarrow> tab_id t \<noteq> []) \<Longrightarrow>
   firstTabIdForWorkspace ts wid = [] \<longleftrightarrow> (\<forall>t \<in> set ts. tabWorkspaceId (Some t) \<noteq> wid)"
  unfolding firstTabIdForWorkspace_def
  by (induction ts) auto

text \<open>For every Workspace but the Default one, the choice shows the remembered Tab if it
  is still open in that Workspace, and otherwise the first Tab of the Workspace; it is empty
  only when the Workspace has no Tab.\<close>

theorem other_workspaces_show_a_tab:
  assumes "wid \<noteq> DEFAULT_WORKSPACE_ID" "distinct (map tab_id ts)" "\<forall>t \<in> set ts. tab_id t \<noteq> []"
  shows "shows_tab ts wid (tabIdForWorkspace ts wid preferred)
    \<and> (tabIdForWorkspace ts wid preferred = [] \<longleftrightarrow> (\<forall>t \<in> set ts. tabWorkspaceId (Some t) \<noteq> wid))
    \<and> (\<forall>t \<in> set ts. preferred = Some (tab_id t) \<and> tabWorkspaceId (Some t) = wid
        \<longrightarrow> tabIdForWorkspace ts wid preferred = tab_id t)"
proof (intro conjI ballI impI)
  show "shows_tab ts wid (tabIdForWorkspace ts wid preferred)" by (rule tabIdForWorkspace_shows)
next
  let ?p = "if truthy_str preferred then find_tab (nullish preferred []) ts else None"
  show "tabIdForWorkspace ts wid preferred = [] \<longleftrightarrow> (\<forall>t \<in> set ts. tabWorkspaceId (Some t) \<noteq> wid)"
  proof (cases "tabWorkspaceId ?p = wid")
    case True
    then obtain t where "?p = Some t" using assms(1) by (cases ?p) (auto simp: tabWorkspaceId_def)
    then have "t \<in> set ts" by (auto dest: find_tab_SomeD split: if_splits)
    then show ?thesis using True \<open>?p = Some t\<close> assms(3)
      by (auto simp: tabIdForWorkspace_def Let_def)
  next
    case False
    then show ?thesis using assms(3) by (simp add: tabIdForWorkspace_def Let_def firstTab_empty_iff)
  qed
next
  fix t assume "t \<in> set ts" and p: "preferred = Some (tab_id t) \<and> tabWorkspaceId (Some t) = wid"
  then have "find_tab (tab_id t) ts = Some t" "tab_id t \<noteq> []"
    using assms(2,3) by (simp_all add: find_tab_unique)
  then show "tabIdForWorkspace ts wid preferred = tab_id t" using p by (simp add: tabIdForWorkspace_def)
qed

theorem other_workspaces_show_a_tab_witness:
  "tabIdForWorkspace [sample_tab, sample_tab\<lparr>tab_id := ''t2'', tab_workspaceId := Some ''w2''\<rparr>]
     ''w2'' (Some ''gone'') \<noteq> []"
  using other_workspaces_show_a_tab [of "''w2''"
      "[sample_tab, sample_tab\<lparr>tab_id := ''t2'', tab_workspaceId := Some ''w2''\<rparr>]" "Some ''gone''"]
  by (auto simp: DEFAULT_WORKSPACE_ID_def sample_tab_def tabWorkspaceId_def)

text \<open>The Default Workspace is different: when its remembered Tab is missing or was
  closed, switching to it shows no Tab at all, however many Tabs it has, because a missing
  Tab counts as one of the Default Workspace.\<close>

theorem default_workspace_shows_nothing:
  assumes "activeWorkspaceId s \<noteq> DEFAULT_WORKSPACE_ID"
    and "\<forall>i \<in> set_option (activeTabIdsByWorkspace s DEFAULT_WORKSPACE_ID). \<forall>t \<in> set (tabs s). tab_id t \<noteq> i"
  shows "activeTabId (setActiveWorkspace DEFAULT_WORKSPACE_ID s) = []
    \<and> tabs (setActiveWorkspace DEFAULT_WORKSPACE_ID s) = tabs s"
proof -
  let ?p = "activeTabIdsByWorkspace s DEFAULT_WORKSPACE_ID"
  have "(if truthy_str ?p then find_tab (nullish ?p []) (tabs s) else None) = None"
    using assms(2) by (cases ?p) (auto simp: find_tab_def find_None_iff)
  then have "tabIdForWorkspace (tabs s) DEFAULT_WORKSPACE_ID ?p = []"
    by (simp add: tabIdForWorkspace_def tabWorkspaceId_def Let_def)
  then show ?thesis using assms(1)
    by (simp add: setActiveWorkspace_def Let_def persistActiveWorkspaceId_def)
qed

definition initial_state :: workspace_state where
  "initial_state = \<lparr>tabs = [], activeTabId = [], activeWorkspaceId = ''default'',
     activeTabIdsByWorkspace = Map.empty, workspaces = [], syncInputEnabled = False,
     activeSessionCounts = Map.empty, defaultUseTmuxSessions = True, rdpOpenInFullscreen = False,
     vncOpenInFullscreen = False, build = sample_build_env, storedLayouts = Map.empty,
     storedBarVisible = (\<lambda>_. False), storedActiveWorkspaceId = None, url_host = Some,
     local_label = ''Local''\<rparr>"

theorem default_workspace_shows_nothing_witness:
  "activeTabId (setActiveWorkspace ''default''
     (initial_state\<lparr>tabs := [sample_tab], activeWorkspaceId := ''w2''\<rparr>)) = []
   \<and> map tabWorkspaceId (map Some (tabs (initial_state\<lparr>tabs := [sample_tab]\<rparr>))) = [''default'']"
  using default_workspace_shows_nothing [of "initial_state\<lparr>tabs := [sample_tab], activeWorkspaceId := ''w2''\<rparr>"]
  by (simp add: DEFAULT_WORKSPACE_ID_def initial_state_def sample_tab_def tabWorkspaceId_def)

end
