(* ===== verification/Workspace_Open.thy ===== *)
theory Workspace_Open
  imports Workspace_State
begin

text \<open>
  The operations of \<open>src/store.ts\<close> that open Tabs: for terminal, remote desktop, URL, SFTP,
  FTP, cloud storage, file browser and Document Connections, for a forwarded port, for a path
  given at launch, and several Connections at once in a panorama.  Opening a file outside the
  program (\<open>openFilesystemPath\<close>) does not change the state.
\<close>

section \<open>Definitions\<close>

text \<open>A Tab with the properties every \<open>open\<close> operation sets; the others are \<open>undefined\<close>.\<close>

definition mk_tab :: "string \<Rightarrow> string \<Rightarrow> string \<Rightarrow> string \<Rightarrow> string \<Rightarrow> surface_kind
    \<Rightarrow> workspace_pane list \<Rightarrow> workspace_tab" where
  "mk_tab i wid title tb sub kind ps =
    \<lparr>tab_id = i, tab_workspaceId = Some wid, tab_childConnectionId = None,
     childConnectionGroupParentId = None, tab_title = title, displayTitle = None,
     tab_toolbarTitle = Some tb, subtitle = sub, tab_kind = kind, panes = ps, layout = None,
     focusedPaneId = None, maximizedPaneId = None, quickCommandBarVisible = None,
     tab_connection = None, tab_url = None, tab_dataPartition = None, ephemeral = None,
     tab_sshPortForwardSessionId = None, tab_sshPortForwardRemotePort = None\<rparr>"

definition push_tab :: "workspace_tab \<Rightarrow> workspace_state \<Rightarrow> workspace_state" where
  "push_tab tab s = s\<lparr>tabs := tabs s @ [tab], activeTabId := tab_id tab\<rparr>"

definition count_urls :: "string list \<Rightarrow> workspace_state \<Rightarrow> workspace_state" where
  "count_urls ids s = s\<lparr>activeSessionCounts := incrementActiveSessionCounts (activeSessionCounts s) ids\<rparr>"

text \<open>Focus the Tab with this id when there is one, otherwise do \<open>opening\<close>.\<close>

definition focus_or :: "string \<Rightarrow> (workspace_state \<Rightarrow> workspace_state) \<Rightarrow> workspace_state
    \<Rightarrow> workspace_state" where
  "focus_or tabId opening s =
     (case find_tab tabId (tabs s) of Some t \<Rightarrow> s\<lparr>activeTabId := tab_id t\<rparr> | None \<Rightarrow> opening s)"

definition with_build :: "(build_env \<Rightarrow> 'a \<times> build_env) \<Rightarrow> workspace_state \<Rightarrow> 'a \<times> workspace_state" where
  "with_build f s = (let (x, b) = f (build s) in (x, s\<lparr>build := b\<rparr>))"

definition json_truthy :: "json option \<Rightarrow> bool" where
  "json_truthy v =
     (case v of None \<Rightarrow> False | Some JNull \<Rightarrow> False | Some (JBool b) \<Rightarrow> b
      | Some (JNum n) \<Rightarrow> n \<noteq> 0 | Some (JStr t) \<Rightarrow> t \<noteq> [] | _ \<Rightarrow> True)"

definition shouldOpenRemoteDesktopInFullscreen :: "connection \<Rightarrow> workspace_state \<Rightarrow> bool" where
  "shouldOpenRemoteDesktopInFullscreen c s =
     (if conn_type c \<noteq> CRdp \<and> conn_type c \<noteq> CVnc then False
      else let defaults = (if conn_type c = CVnc then vncOpenInFullscreen s else rdpOpenInFullscreen s);
               overrides = (if conn_type c = CVnc then vncOptions c else rdpOptions c)
           in (case overrides of
                 None \<Rightarrow> defaults
               | Some opts \<Rightarrow>
                   (if json_truthy (json_get opts ''inheritDefaults'') then defaults
                    else json_get opts ''openInFullscreen'' = Some (JBool True))))"

definition set_startup_fullscreen :: "bool \<Rightarrow> workspace_pane \<Rightarrow> workspace_pane" where
  "set_startup_fullscreen b pane =
     (case pane of RemoteDesktopPane p \<Rightarrow> RemoteDesktopPane (p\<lparr>rdpStartupFullscreen := Some b\<rparr>)
      | _ \<Rightarrow> pane)"

text \<open>A terminal-kind Tab holding one Pane.\<close>

definition single_pane_tab :: "string \<Rightarrow> string \<Rightarrow> string \<Rightarrow> string \<Rightarrow> connection \<Rightarrow> workspace_pane
    \<Rightarrow> workspace_state \<Rightarrow> workspace_tab" where
  "single_pane_tab i title tb sub c pane s =
     (mk_tab i (activeWorkspaceId s) title tb sub KTerminal [pane])
       \<lparr> layout := defaultLayoutFor [pane], focusedPaneId := Some (pane_id pane),
         quickCommandBarVisible := Some (loadStoredQuickCommandBarVisible (Some (conn_id c)) s),
         tab_connection := Some c \<rparr>"

text \<open>A Tab that shows one surface and has no Panes.\<close>

definition surface_tab :: "string \<Rightarrow> string \<Rightarrow> string \<Rightarrow> surface_kind \<Rightarrow> connection \<Rightarrow> workspace_state
    \<Rightarrow> workspace_tab" where
  "surface_tab i title sub kind c s =
     (mk_tab i (activeWorkspaceId s) title (toolbarTitleForConnection c) sub kind [])
       \<lparr> tab_connection := Some c \<rparr>"

subsection \<open>URL and remote desktop Connections\<close>

definition openUrlConnection :: "connection \<Rightarrow> workspace_state \<Rightarrow> workspace_state" where
  "openUrlConnection c s =
     (if conn_type c \<noteq> CUrl \<or> \<not> truthy_str (conn_url c) then s
      else focus_or (''tab-'' @ conn_id c)
        (\<lambda>s. let tab = (surface_tab (''tab-'' @ conn_id c) (conn_name c)
                     (urlConnectionSubtitle (url_host s) c) KWebview c s)
                   \<lparr> tab_url := conn_url c, tab_dataPartition := conn_dataPartition c \<rparr>
             in count_urls (urlConnectionIdsForTab tab) (push_tab tab s)) s)"

definition openUrlInNewTab :: "connection \<Rightarrow> string \<Rightarrow> string option \<Rightarrow> string option
    \<Rightarrow> workspace_state \<Rightarrow> workspace_state" where
  "openUrlInNewTab c url title sub s =
     (let nextUrl = trim url
      in if conn_type c \<noteq> CUrl \<or> nextUrl = [] then s
         else let tc = c\<lparr>conn_url := Some nextUrl\<rparr>;
                  (i, s1) = with_build (createConnectionTabId (conn_id c)) s;
                  tab = (mk_tab i (activeWorkspaceId s) (nullish title (conn_name c))
                          (toolbarTitleForConnection c)
                          (nullish sub (urlConnectionSubtitle (url_host s) tc)) KWebview [])
                        \<lparr> tab_connection := Some tc, tab_url := Some nextUrl,
                          tab_dataPartition := conn_dataPartition c \<rparr>
              in count_urls [conn_id c] (push_tab tab s1))"

definition openRemoteDesktopConnection :: "connection \<Rightarrow> bool option \<Rightarrow> workspace_state
    \<Rightarrow> workspace_state" where
  "openRemoteDesktopConnection c allowFullscreen s =
     (if \<not> isRemoteDesktopConnection c then s
      else focus_or (''tab-'' @ conn_id c)
        (\<lambda>s. case with_build (buildPaneForConnection c None None True) s of
               (None, s1) \<Rightarrow> s1
             | (Some p, s1) \<Rightarrow>
                 (let pane = (if allowFullscreen \<noteq> Some False
                              then set_startup_fullscreen (shouldOpenRemoteDesktopInFullscreen c s) p
                              else p)
                  in push_tab (single_pane_tab (''tab-'' @ conn_id c) (conn_name c)
                       (toolbarTitleForConnection c) (remoteDesktopSubtitle c) c pane s) s1)) s)"

record ssh_forward =
  forwardId :: string
  remotePort :: int
  localPort :: int
  forward_url :: string

definition openSshPortForwardBrowser :: "connection \<Rightarrow> ssh_forward \<Rightarrow> workspace_state \<Rightarrow> workspace_state"
where
  "openSshPortForwardBrowser source f s =
     (if conn_type source \<noteq> CSsh then s
      else let tabId = ''tab-'' @ forwardId f;
               title = conn_name source @ '' :'' @ int_string (remotePort f);
               c = (mk_connection (forwardId f) title ''127.0.0.1'' (user source) CUrl)
                     \<lparr>conn_url := Some (forward_url f)\<rparr>;
               pane = UrlPane \<lparr>up_id = tabId, up_childConnectionId = None, up_title = title,
                 up_toolbarTitle = Some title, up_connection = c, up_url = forward_url f,
                 up_dataPartition = None, up_sshPortForwardSessionId = Some (forwardId f),
                 up_sshPortForwardRemotePort = Some (remotePort f)\<rparr>;
               sub = ''127.0.0.1:'' @ int_string (localPort f) @ '' -> '' @ host source @ '':''
                       @ int_string (remotePort f)
           in push_tab ((single_pane_tab tabId title title sub c pane s)
                \<lparr> tab_url := Some (forward_url f), tab_sshPortForwardSessionId := Some (forwardId f),
                  tab_sshPortForwardRemotePort := Some (remotePort f) \<rparr>) s)"

subsection \<open>File browsers and Documents\<close>

definition user_at_host :: "connection \<Rightarrow> string" where
  "user_at_host c = user c @ ''@'' @ host c"

definition openSftpBrowser :: "connection \<Rightarrow> workspace_state \<Rightarrow> workspace_state" where
  "openSftpBrowser c s =
     (if conn_type c \<noteq> CSsh then s
      else let tabId = ''tab-'' @ conn_id c @ ''-sftp''
           in focus_or tabId (\<lambda>s. push_tab
                (surface_tab tabId (conn_name c @ '' SFTP'') (user_at_host c) KSftp c s) s) s)"

definition openSftpBrowserInNewTab :: "connection \<Rightarrow> workspace_state \<Rightarrow> workspace_state" where
  "openSftpBrowserInNewTab c s =
     (if conn_type c \<noteq> CSsh then s
      else let (i, s1) = with_build (createConnectionTabId (conn_id c @ ''-sftp'')) s
           in push_tab (surface_tab i (conn_name c @ '' SFTP'') (user_at_host c) KSftp c s) s1)"

definition ftp_title :: "connection \<Rightarrow> string" where
  "ftp_title c = conn_name c @ '' '' @
     (case ftpOptions c of None \<Rightarrow> ''FTP'' | Some f \<Rightarrow> protocol_label (ftp_protocol_of f))"

definition ftp_subtitle :: "connection \<Rightarrow> string" where
  "ftp_subtitle c = (if user c \<noteq> [] then user c else ''anonymous'') @ ''@'' @ host c"

definition openFtpBrowser :: "connection \<Rightarrow> workspace_state \<Rightarrow> workspace_state" where
  "openFtpBrowser c s =
     (if conn_type c \<noteq> CFtp then s
      else if isSftpProtocol c then openSftpBrowser (sftpBrowserConnectionFromFtpConnection c) s
      else let tabId = ''tab-'' @ conn_id c @ ''-ftp''
           in focus_or tabId (\<lambda>s. push_tab (surface_tab tabId (ftp_title c) (ftp_subtitle c) KFtp c s) s) s)"

definition cloud_option :: "connection \<Rightarrow> string \<Rightarrow> string option" where
  "cloud_option c k =
     (case Option.bind (cloudStorageOptions c) (\<lambda>o1. json_get o1 k) of
        Some (JStr v) \<Rightarrow> (if v = [] then None else Some v) | _ \<Rightarrow> None)"

definition cloud_is_azure :: "connection \<Rightarrow> bool" where
  "cloud_is_azure c =
     (Option.bind (cloudStorageOptions c) (\<lambda>o1. json_get o1 ''provider'') = Some (JStr ''azureBlob''))"

definition openCloudStorageBrowser :: "connection \<Rightarrow> workspace_state \<Rightarrow> workspace_state" where
  "openCloudStorageBrowser c s =
     (if conn_type c \<noteq> CCloudStorage then s
      else let tabId = ''tab-'' @ conn_id c @ ''-cloud-storage'';
               label = (if cloud_is_azure c then ''Azure Blob'' else ''S3'');
               target = (if cloud_is_azure c
                 then join_with ''/'' (js_compact [cloud_option c ''account'', cloud_option c ''container''])
                 else join_with [CHR '' '', CHR 0xB7, CHR '' '']
                        (js_compact [cloud_option c ''bucket'', cloud_option c ''region'']))
           in focus_or tabId (\<lambda>s. push_tab (surface_tab tabId (conn_name c @ '' '' @ label)
                (if target \<noteq> [] then target else host c) KCloudStorage c s) s) s)"

definition local_files_subtitle :: "connection \<Rightarrow> string" where
  "local_files_subtitle c =
     (if truthy_str (localStartupDirectory c) then nullish (localStartupDirectory c) [] else host c)"

definition openLocalFilesBrowser :: "connection \<Rightarrow> workspace_state \<Rightarrow> workspace_state" where
  "openLocalFilesBrowser c s =
     (if conn_type c \<noteq> CLocalFiles then s
      else let tabId = ''tab-'' @ conn_id c @ ''-localFiles''
           in focus_or tabId (\<lambda>s. push_tab
                (surface_tab tabId (conn_name c) (local_files_subtitle c) KLocalFiles c s) s) s)"

definition openFileViewer :: "connection \<Rightarrow> workspace_state \<Rightarrow> workspace_state" where
  "openFileViewer c s =
     (if conn_type c \<noteq> CFileView then s
      else if fileViewOpenExternal c = Some True then s
      else let tabId = ''tab-'' @ conn_id c @ ''-fileView''
           in focus_or tabId (\<lambda>s. push_tab (surface_tab tabId (conn_name c)
                (trim_or (localStartupDirectory c) []) KFileViewer c s) s) s)"

subsection \<open>Terminal Connections\<close>

definition openConnection :: "connection \<Rightarrow> bool option \<Rightarrow> workspace_state \<Rightarrow> workspace_state" where
  "openConnection c allowFullscreen s =
     (if conn_type c = CUrl then openUrlConnection c s
      else if isRemoteDesktopConnection c then openRemoteDesktopConnection c allowFullscreen s
      else if conn_type c = CFtp then openFtpBrowser c s
      else if conn_type c = CCloudStorage then openCloudStorageBrowser c s
      else if conn_type c = CLocalFiles then openLocalFilesBrowser c s
      else if conn_type c = CFileView then openFileViewer c s
      else let tabId = ''tab-'' @ conn_id c; d = defaultUseTmuxSessions s in
        case find_tab tabId (tabs s) of
          Some t \<Rightarrow>
            (let (ts, b) = map_env (refreshTabConnectionMetadata (local_label s) c d) (tabs s) (build s)
             in s\<lparr>tabs := ts, build := b, activeTabId := tab_id t\<rparr>)
        | None \<Rightarrow>
            (let stored = loadStoredLayout (conn_id c) s;
                 (ps, s1) = with_build (buildPanesFromStoredLayout c stored d) s;
                 hydrated = Option.bind stored (\<lambda>st. hydrateLayout (stored_layout st) (map pane_id ps));
                 tab = (mk_tab tabId (activeWorkspaceId s) (conn_name c) (toolbarTitleForConnection c)
                          (terminalConnectionSubtitle (local_label s) c) KTerminal ps)
                       \<lparr> layout := nullish_opt hydrated (defaultLayoutFor ps),
                         focusedPaneId := map_option pane_id (js_nth ps 0),
                         quickCommandBarVisible :=
                           Some (loadStoredQuickCommandBarVisible (Some (conn_id c)) s),
                         tab_connection := Some c \<rparr>
             in push_tab tab s1))"

definition openConnectionInNewTab :: "connection \<Rightarrow> pane_options option \<Rightarrow> workspace_state
    \<Rightarrow> workspace_state" where
  "openConnectionInNewTab c opts s =
     (let o1 = nullish opts no_options in
      if conn_type c = CUrl then openUrlInNewTab c (nullish (conn_url c) []) (opt_title o1) None s
      else if conn_type c = CFileView \<and> fileViewOpenExternal c = Some True then s
      else if conn_type c = CFtp then
        (if isSftpProtocol c then openSftpBrowserInNewTab (sftpBrowserConnectionFromFtpConnection c) s
         else let (i, s1) = with_build (createConnectionTabId (conn_id c @ ''-ftp'')) s
              in push_tab (surface_tab i (ftp_title c) (ftp_subtitle c) KFtp c s) s1)
      else let pc = connectionWithPaneOptions c opts;
               paneOpts = no_options\<lparr> opt_childConnectionId := opt_childConnectionId o1,
                 opt_cwd := opt_cwd o1, opt_fontSize := opt_fontSize o1,
                 opt_textEncoding := opt_textEncoding o1,
                 opt_terminalOpacity := opt_terminalOpacity o1,
                 opt_terminalBackground := opt_terminalBackground o1,
                 opt_title := nullish_opt (opt_tmuxSessionId o1) (opt_title o1),
                 opt_toolbarTitle := opt_toolbarTitle o1, opt_tmuxSessionId := opt_tmuxSessionId o1 \<rparr>
           in case with_build (buildPaneForConnection pc None (Some paneOpts) (defaultUseTmuxSessions s)) s of
                (None, s1) \<Rightarrow> s1
              | (Some p, s1) \<Rightarrow>
                  (let pane = set_startup_fullscreen (shouldOpenRemoteDesktopInFullscreen c s) p;
                       (i, s2) = with_build (createConnectionTabId (conn_id c)) s1;
                       sub = (if isRemoteDesktopConnection c then remoteDesktopSubtitle c
                              else terminalConnectionSubtitle (local_label s) c);
                       tab = (single_pane_tab i (nullish (opt_title o1) (conn_name c))
                                (nullish (opt_toolbarTitle o1) (toolbarTitleForConnection c)) sub c pane s)
                             \<lparr> tab_childConnectionId := opt_childConnectionId o1,
                               tab_connection := Some pc, tab_url := conn_url c,
                               tab_dataPartition := conn_dataPartition c \<rparr>
                   in count_urls (urlConnectionIdsForTab tab) (push_tab tab s2)))"

definition openTerminalHere :: "connection \<Rightarrow> string \<Rightarrow> workspace_state \<Rightarrow> workspace_state" where
  "openTerminalHere c remotePath s =
     (let path = trim_or (Some remotePath) ''.'';
          tabId = terminal_tab_prefix c @ nat_string (date_now (be_tmux (build s)));
          (i, s1) = with_build (createPaneId (conn_id c @ ''-terminal'')) s;
          (sid, s2) = with_build (append_tmux c (defaultUseTmuxSessions s)) s1;
          pane = TerminalPane \<lparr>tp_kind = False, tp_id = i, tp_childConnectionId = None,
            tp_title = ''ssh'', tp_toolbarTitle = Some (toolbarTitleForConnection c), cwd = path,
            buffer = [], tp_connection = Some c, fontSize = None, textEncoding = None,
            tp_terminalBackground = None, tmuxSessionId = sid, tmuxUnavailable = None,
            x11ForwardingStatus = None, sshPortForwardFailures = None\<rparr>;
          tab = (mk_tab tabId (activeWorkspaceId s) (conn_name c @ '' terminal'')
                   (toolbarTitleForConnection c) (user_at_host c @ '':'' @ path) KTerminal [pane])
                \<lparr> quickCommandBarVisible := Some (loadStoredQuickCommandBarVisible (Some (conn_id c)) s),
                  tab_connection := Some c \<rparr>
      in push_tab tab s2)"

definition openConnectionsInPanorama :: "connection list \<Rightarrow> string option \<Rightarrow> workspace_state
    \<Rightarrow> workspace_state" where
  "openConnectionsInPanorama cs title s =
     (let (built, s1) = with_build
            (map_env (\<lambda>c. buildPaneForConnection c None None (defaultUseTmuxSessions s)) cs) s;
          ps = js_compact built
      in case ps of
           [] \<Rightarrow> s1
         | p # _ \<Rightarrow>
             (let t = trim_or title (nullish (map_option conn_name (pane_connection p)) []);
                  (i, s2) = with_build (createConnectionTabId ''panorama'') s1;
                  tab = (mk_tab i (activeWorkspaceId s) t t [] KTerminal ps)
                        \<lparr> layout := panoramaLayoutFor ps, focusedPaneId := Some (pane_id p),
                          quickCommandBarVisible := Some False \<rparr>
              in count_urls (concat (map pane_url_ids ps)) (push_tab tab s2)))"

subsection \<open>Paths given at launch\<close>

datatype launch_kind = LaunchFile | LaunchFolder

text \<open>The folder branch of \<open>openEphemeralPath\<close>; \<open>fallback\<close> is the localized name.\<close>

definition open_launch_folder :: "string \<Rightarrow> string \<Rightarrow> workspace_state \<Rightarrow> workspace_state" where
  "open_launch_folder fallback path s =
     (let name = (if fileNameFromPath path \<noteq> [] then fileNameFromPath path else fallback);
          c = (mk_connection (''launch-folder-'' @ stableIdFromPath path) name ''localhost'' [] CLocalFiles)
                \<lparr>localStartupDirectory := Some path\<rparr>;
          tabId = ''tab-'' @ conn_id c @ ''-localFiles''
      in focus_or tabId (\<lambda>s. push_tab
           ((mk_tab tabId (activeWorkspaceId s) name name path KLocalFiles [])
              \<lparr>tab_connection := Some c, ephemeral := Some True\<rparr>) s) s)"

text \<open>The part of \<open>openFileViewerPath\<close> that opens a Document in a Tab of its own.\<close>

definition open_document_tab :: "string \<Rightarrow> connection option \<Rightarrow> bool option \<Rightarrow> string
    \<Rightarrow> workspace_state \<Rightarrow> workspace_state" where
  "open_document_tab fallback source eph filePath s =
     (let name = (if fileNameFromPath filePath \<noteq> [] then fileNameFromPath filePath else fallback);
          c = (mk_connection (''inline-file-view-'' @ stableIdFromPath filePath) name ''localhost'' []
                 CFileView)
              \<lparr> localStartupDirectory := Some filePath,
                iconDataUrl := nullish_null (Option.bind source iconDataUrl) (Some None),
                iconBackgroundColor := nullish_null (Option.bind source iconBackgroundColor) (Some None) \<rparr>;
          tabId = ''tab-'' @ conn_id c @ ''-fileView''
      in focus_or tabId (\<lambda>s. push_tab
           ((surface_tab tabId name filePath KFileViewer c s)\<lparr>ephemeral := eph\<rparr>) s) s)"

definition openEphemeralPath :: "(string \<times> string) \<Rightarrow> launch_kind \<Rightarrow> string \<Rightarrow> workspace_state
    \<Rightarrow> workspace_state" where
  "openEphemeralPath names kind p s =
     (let path = trim p
      in if path = [] then s
         else case kind of
           LaunchFile \<Rightarrow> open_document_tab (snd names) None (Some True) path s
         | LaunchFolder \<Rightarrow> open_launch_folder (fst names) path s)"

end
