(* ===== verification/Workspace_Panes.thy ===== *)
theory Workspace_Panes
  imports Workspace_Open
begin

text \<open>
  The operations of \<open>src/store.ts\<close> on the Panes of open Tabs: splitting, docking another
  Connection, closing, focusing, saving and resetting layouts, renaming tmux sessions, the
  updates a running session reports, and the one-shot full screen intent of a remote desktop
  Pane, which navigation cancels (the subscription at the end of the file).
\<close>

section \<open>Definitions\<close>

definition update_tab :: "string \<Rightarrow> (workspace_tab \<Rightarrow> workspace_tab) \<Rightarrow> workspace_state
    \<Rightarrow> workspace_state" where
  "update_tab tabId f s = s\<lparr>tabs := map_where (\<lambda>t. tab_id t = tabId) f (tabs s)\<rparr>"

definition pane_in :: "workspace_tab \<Rightarrow> string option \<Rightarrow> workspace_pane option" where
  "pane_in tab i = find (\<lambda>p. Some (pane_id p) = i) (panes tab)"

fun webview_ids :: "workspace_pane \<Rightarrow> string list" where
  "webview_ids (UrlPane p) = [conn_id (up_connection p)]"
| "webview_ids _ = []"

subsection \<open>Adding Panes\<close>

definition add_pane :: "workspace_pane list \<Rightarrow> layout_node option \<Rightarrow> workspace_pane \<Rightarrow> split_direction
    \<Rightarrow> workspace_pane \<Rightarrow> workspace_tab \<Rightarrow> workspace_tab" where
  "add_pane current lay target dir pane tab =
     tab\<lparr> panes := current @ [pane],
          layout := Some (splitLayout (ensureLayout lay current) (Some (pane_id target)) dir
            (pane_id pane) (map pane_id current)),
          focusedPaneId := Some (pane_id pane) \<rparr>"

definition focused_or_first :: "workspace_tab \<Rightarrow> workspace_pane option" where
  "focused_or_first tab = nullish_opt (pane_in tab (focusedPaneId tab)) (js_nth (panes tab) 0)"

definition split_tab :: "string \<Rightarrow> split_direction \<Rightarrow> bool \<Rightarrow> workspace_tab \<Rightarrow> build_env
    \<Rightarrow> (workspace_tab \<times> string list) \<times> build_env" where
  "split_tab tabId dir d tab e =
     (if tab_id tab \<noteq> tabId \<or> tab_kind tab \<noteq> KTerminal then ((tab, []), e)
      else case focused_or_first tab of
        None \<Rightarrow> ((tab, []), e)
      | Some focused \<Rightarrow>
          (case pane_connection focused of
             None \<Rightarrow> ((tab, []), e)
           | Some c \<Rightarrow>
               (case buildPaneForConnection c (Some focused) None d e of
                  (None, e1) \<Rightarrow> ((tab, []), e1)
                | (Some p, e1) \<Rightarrow>
                    (let pane = set_pane_title (pane_title focused @ '' ''
                           @ nat_string (length (panes tab) + 1)) p
                     in ((add_pane (panes tab) (layout tab) focused dir pane tab, webview_ids pane), e1)))))"

definition apply_to_tabs :: "(workspace_tab \<Rightarrow> build_env \<Rightarrow> (workspace_tab \<times> string list) \<times> build_env)
    \<Rightarrow> workspace_state \<Rightarrow> workspace_state" where
  "apply_to_tabs f s =
     (let (rs, s1) = with_build (map_env f (tabs s)) s
      in count_urls (concat (map snd rs)) (s1\<lparr>tabs := map fst rs\<rparr>))"

definition splitTerminalPaneDirected :: "string \<Rightarrow> split_direction \<Rightarrow> workspace_state
    \<Rightarrow> workspace_state" where
  "splitTerminalPaneDirected tabId dir s =
     apply_to_tabs (split_tab tabId dir (defaultUseTmuxSessions s)) s"

definition splitTerminalPane :: "string \<Rightarrow> workspace_state \<Rightarrow> workspace_state" where
  "splitTerminalPane tabId s = splitTerminalPaneDirected tabId DirRight s"

definition dock_target :: "workspace_tab \<Rightarrow> workspace_pane list \<Rightarrow> string option
    \<Rightarrow> workspace_pane option" where
  "dock_target tab current targetPaneId =
     nullish_opt (if truthy_str targetPaneId then find (\<lambda>p. Some (pane_id p) = targetPaneId) current
                  else None)
       (nullish_opt (find (\<lambda>p. Some (pane_id p) = focusedPaneId tab) current) (js_nth current 0))"

definition dock_panes :: "workspace_tab \<Rightarrow> workspace_pane list" where
  "dock_panes tab =
     (if tab_kind tab = KTerminal then panes tab
      else case buildPaneForStandaloneTab tab of None \<Rightarrow> [] | Some p \<Rightarrow> [p])"

definition dock_tab :: "string \<Rightarrow> connection \<Rightarrow> split_direction \<Rightarrow> string option
    \<Rightarrow> pane_options option \<Rightarrow> workspace_state \<Rightarrow> workspace_tab \<Rightarrow> build_env
    \<Rightarrow> (workspace_tab \<times> string list) \<times> build_env" where
  "dock_tab tabId c dir targetPaneId opts s tab e =
     (if tab_id tab \<noteq> tabId then ((tab, []), e)
      else let current = dock_panes tab in
        case dock_target tab current targetPaneId of
          None \<Rightarrow> ((tab, []), e)
        | Some target \<Rightarrow>
            (case buildPaneForConnection (connectionWithPaneOptions c opts) (Some target) opts
                    (defaultUseTmuxSessions s) e of
               (None, e1) \<Rightarrow> ((tab, []), e1)
             | (Some pane, e1) \<Rightarrow>
                 (((add_pane current (if tab_kind tab = KTerminal then layout tab else None)
                      target dir pane tab)
                    \<lparr> tab_kind := KTerminal,
                      quickCommandBarVisible :=
                        (if tab_kind tab = KTerminal then quickCommandBarVisible tab
                         else Some (loadStoredQuickCommandBarVisible
                                (map_option conn_id (tab_connection tab)) s)) \<rparr>,
                   webview_ids pane), e1)))"

definition addConnectionToTerminalPane :: "string \<Rightarrow> connection \<Rightarrow> split_direction
    \<Rightarrow> string option \<Rightarrow> pane_options option \<Rightarrow> workspace_state \<Rightarrow> workspace_state" where
  "addConnectionToTerminalPane tabId c dir targetPaneId opts s =
     apply_to_tabs (dock_tab tabId c dir targetPaneId opts s) s"

definition tmux_pane_tab :: "string \<Rightarrow> connection \<Rightarrow> string \<Rightarrow> split_direction \<Rightarrow> workspace_tab
    \<Rightarrow> build_env \<Rightarrow> (workspace_tab \<times> string list) \<times> build_env" where
  "tmux_pane_tab tabId c sid dir tab e =
     (if tab_id tab \<noteq> tabId \<or> tab_kind tab \<noteq> KTerminal then ((tab, []), e)
      else case focused_or_first tab of
        Some (TerminalPane f) \<Rightarrow>
          (let (i, e1) = createPaneId (conn_id c) e;
               pane = TerminalPane \<lparr>tp_kind = False, tp_id = i, tp_childConnectionId = None,
                 tp_title = sid, tp_toolbarTitle = Some (toolbarTitleForConnection c), cwd = cwd f,
                 buffer = [], tp_connection = Some c, fontSize = None, textEncoding = None,
                 tp_terminalBackground = None, tmuxSessionId = Some sid, tmuxUnavailable = None,
                 x11ForwardingStatus = None, sshPortForwardFailures = None\<rparr>
           in ((add_pane (panes tab) (layout tab) (TerminalPane f) dir pane tab, []), e1))
      | _ \<Rightarrow> ((tab, []), e))"

definition openTmuxSessionInPane :: "string \<Rightarrow> connection \<Rightarrow> string \<Rightarrow> split_direction
    \<Rightarrow> workspace_state \<Rightarrow> workspace_state" where
  "openTmuxSessionInPane tabId c sid dir s = apply_to_tabs (tmux_pane_tab tabId c sid dir) s"

subsection \<open>Closing Panes\<close>

definition closes_child :: "string \<Rightarrow> workspace_pane \<Rightarrow> bool" where
  "closes_child childId p = (pane_childConnectionId p = Some childId)"

definition focus_after :: "layout_node option \<Rightarrow> workspace_pane list \<Rightarrow> string option" where
  "focus_after lay ps =
     nullish_opt (js_nth (leafOrder lay) 0) (map_option pane_id (js_nth ps 0))"

definition drop_child_panes :: "string \<Rightarrow> workspace_tab \<Rightarrow> workspace_tab" where
  "drop_child_panes childId tab =
     (let nextPanes = filter (\<lambda>p. \<not> closes_child childId p) (panes tab);
          lay = ensureLayout (layout tab) nextPanes;
          kept = (\<lambda>i. truthy_str i \<and> (\<exists>p \<in> set nextPanes. Some (pane_id p) = i))
      in tab\<lparr> panes := nextPanes, layout := lay,
              focusedPaneId := (if kept (focusedPaneId tab) then focusedPaneId tab
                                else focus_after lay nextPanes),
              maximizedPaneId := (if kept (maximizedPaneId tab) then maximizedPaneId tab else None) \<rparr>)"

definition close_child_tab :: "string \<Rightarrow> workspace_tab \<Rightarrow> workspace_tab option" where
  "close_child_tab childId tab =
     (let tabMatches = (tab_childConnectionId tab = Some childId)
      in if \<not> tabMatches \<and> filter (closes_child childId) (panes tab) = [] then Some tab
         else if tabMatches \<or> filter (\<lambda>p. \<not> closes_child childId p) (panes tab) = [] then None
         else Some (drop_child_panes childId tab))"

definition closed_child_urls :: "string \<Rightarrow> workspace_tab \<Rightarrow> string list" where
  "closed_child_urls childId tab =
     (let tabMatches = (tab_childConnectionId tab = Some childId);
          matching = filter (closes_child childId) (panes tab)
      in if \<not> tabMatches \<and> matching = [] then []
         else urlConnectionIdsForTab (tab\<lparr>panes := (if tabMatches then panes tab else matching)\<rparr>))"

definition closeChildConnection :: "string \<Rightarrow> workspace_state \<Rightarrow> workspace_state" where
  "closeChildConnection childId s =
     (let closesTerminal = (\<exists>t \<in> set (tabs s). \<exists>p \<in> set (panes t).
            closes_child childId p \<and> isTerminalPane p);
          ts = js_compact (map (close_child_tab childId) (tabs s))
      in s\<lparr> tabs := ts,
            activeTabId := (if \<exists>t \<in> set ts. tab_id t = activeTabId s then activeTabId s
                            else nullish (map_option tab_id (js_nth ts 0)) []),
            activeSessionCounts := decrementActiveSessionCounts (activeSessionCounts s)
              (concat (map (closed_child_urls childId) (tabs s))),
            syncInputEnabled := (syncInputEnabled s \<and> \<not> closesTerminal) \<rparr>)"

definition closePane :: "string \<Rightarrow> string \<Rightarrow> workspace_state \<Rightarrow> workspace_state" where
  "closePane tabId paneId s =
     (case find_tab tabId (tabs s) of
        None \<Rightarrow> s
      | Some tab \<Rightarrow>
          (let closing = pane_in tab (Some paneId);
               childId = Option.bind closing pane_childConnectionId
           in if tab_kind tab \<noteq> KTerminal then s
              else if truthy_str childId then closeChildConnection (nullish childId []) s
              else if length (panes tab) \<le> 1 then closeTab tabId s
              else let nextPanes = filter (\<lambda>p. pane_id p \<noteq> paneId) (panes tab);
                       nextLayout = ensureLayout (layout tab) nextPanes;
                       nextFocus = (if focusedPaneId tab = Some paneId then focus_after nextLayout nextPanes
                                    else focusedPaneId tab)
                   in (update_tab tabId (\<lambda>t. t\<lparr>panes := nextPanes, layout := nextLayout,
                         focusedPaneId := nextFocus\<rparr>) s)
                      \<lparr> activeSessionCounts := decrementActiveSessionCounts (activeSessionCounts s)
                          (case closing of None \<Rightarrow> [] | Some p \<Rightarrow> webview_ids p),
                        syncInputEnabled := (syncInputEnabled s
                          \<and> \<not> (case closing of None \<Rightarrow> False | Some p \<Rightarrow> isTerminalPane p)) \<rparr>))"

subsection \<open>Focus and reports of a running session\<close>

definition maximizeChildConnectionPane :: "string \<Rightarrow> string \<Rightarrow> workspace_state \<Rightarrow> workspace_state" where
  "maximizeChildConnectionPane tabId paneId s =
     (update_tab tabId (\<lambda>t. if truthy_str (childConnectionGroupParentId t)
        then t\<lparr>focusedPaneId := Some paneId, maximizedPaneId := Some paneId\<rparr>
        else t\<lparr>focusedPaneId := Some paneId\<rparr>) s)\<lparr>activeTabId := tabId\<rparr>"

definition setFocusedPane :: "string \<Rightarrow> string \<Rightarrow> workspace_state \<Rightarrow> workspace_state" where
  "setFocusedPane tabId paneId s = update_tab tabId (\<lambda>t. t\<lparr>focusedPaneId := Some paneId\<rparr>) s"

text \<open>An update of one terminal Pane; the other kinds are left alone.\<close>

fun on_terminal :: "(terminal_pane \<Rightarrow> terminal_pane) \<Rightarrow> workspace_pane \<Rightarrow> workspace_pane" where
  "on_terminal f (TerminalPane p) = TerminalPane (f p)"
| "on_terminal f p = p"

definition update_pane :: "string \<Rightarrow> (terminal_pane \<Rightarrow> terminal_pane) \<Rightarrow> workspace_tab \<Rightarrow> workspace_tab"
where
  "update_pane paneId f tab = tab\<lparr>panes := map_where (\<lambda>p. pane_id p = paneId) (on_terminal f) (panes tab)\<rparr>"

definition update_terminal :: "string \<Rightarrow> string \<Rightarrow> (terminal_pane \<Rightarrow> terminal_pane)
    \<Rightarrow> workspace_state \<Rightarrow> workspace_state" where
  "update_terminal tabId paneId f s =
     update_tab tabId (\<lambda>t. if tab_kind t = KTerminal then update_pane paneId f t else t) s"

definition updatePaneCwd :: "string \<Rightarrow> string \<Rightarrow> string \<Rightarrow> workspace_state \<Rightarrow> workspace_state" where
  "updatePaneCwd tabId paneId dir s =
     (if trim dir = [] then s
      else update_tab tabId (update_pane paneId (\<lambda>p. p\<lparr>cwd := trim dir\<rparr>)) s)"

definition setQuickCommandBarVisible :: "string \<Rightarrow> bool \<Rightarrow> workspace_state \<Rightarrow> workspace_state" where
  "setQuickCommandBarVisible tabId visible s =
     update_tab tabId (\<lambda>t. t\<lparr>quickCommandBarVisible := Some visible\<rparr>)
       (persistQuickCommandBarVisible
          (map_option conn_id (Option.bind (find_tab tabId (tabs s)) tab_connection)) visible s)"

definition rename_tmux_pane :: "string \<Rightarrow> string \<Rightarrow> string \<Rightarrow> terminal_pane \<Rightarrow> terminal_pane" where
  "rename_tmux_pane cid previous nextId p =
     (if map_option conn_id (tp_connection p) \<noteq> Some cid \<or> tmuxSessionId p \<noteq> Some previous then p
      else p\<lparr>tmuxSessionId := Some nextId,
             tp_title := (if tp_title p = previous then nextId else tp_title p)\<rparr>)"

definition renameTmuxSessionInOpenPanes :: "string \<Rightarrow> string \<Rightarrow> string \<Rightarrow> workspace_state
    \<Rightarrow> workspace_state" where
  "renameTmuxSessionInOpenPanes cid previous nextSessionId s =
     (let nextId = trim nextSessionId
      in if nextId = [] \<or> \<not> isCurrentTmuxSessionId nextId then s
         else s\<lparr> build := (build s)\<lparr>be_tmux := replaceTmuxSessionId cid previous nextId (be_tmux (build s))\<rparr>,
                 tabs := map_where (\<lambda>t. tab_kind t = KTerminal)
                   (\<lambda>t. t\<lparr>panes := map (on_terminal (rename_tmux_pane cid previous nextId)) (panes t)\<rparr>)
                   (tabs s) \<rparr>)"

definition markOpenTerminalPaneTmuxUnavailable :: "string \<Rightarrow> string \<Rightarrow> workspace_state
    \<Rightarrow> workspace_state" where
  "markOpenTerminalPaneTmuxUnavailable tabId paneId s =
     update_terminal tabId paneId (\<lambda>p. if \<not> truthy_str (tmuxSessionId p) then p
       else p\<lparr> tp_title := (if Some (tp_title p) = tmuxSessionId p
                           then nullish (map_option conn_name (tp_connection p)) (tp_title p)
                           else tp_title p),
               tmuxSessionId := None, tmuxUnavailable := Some True \<rparr>) s"

definition updateOpenTerminalPaneX11ForwardingStatus :: "string \<Rightarrow> string \<Rightarrow> x11_status
    \<Rightarrow> workspace_state \<Rightarrow> workspace_state" where
  "updateOpenTerminalPaneX11ForwardingStatus tabId paneId st s =
     update_terminal tabId paneId (\<lambda>p. p\<lparr>x11ForwardingStatus := Some st\<rparr>) s"

definition setOpenTerminalPaneSshForwardFailures :: "string \<Rightarrow> string \<Rightarrow> string list
    \<Rightarrow> workspace_state \<Rightarrow> workspace_state" where
  "setOpenTerminalPaneSshForwardFailures tabId paneId failed s =
     update_terminal tabId paneId
       (\<lambda>p. if nullish (sshPortForwardFailures p) [] = failed then p
            else p\<lparr>sshPortForwardFailures := Some failed\<rparr>) s"

definition updateWebviewTabMetadata :: "string \<Rightarrow> string option \<Rightarrow> string option \<Rightarrow> string option
    \<Rightarrow> workspace_state \<Rightarrow> workspace_state" where
  "updateWebviewTabMetadata tabId title sub url s =
     (let upd = (\<lambda>t. t\<lparr>tab_title := nullish title (tab_title t), subtitle := nullish sub (subtitle t),
                        tab_url := nullish_opt url (tab_url t)\<rparr>);
          upd_pane = (\<lambda>p. case p of
            UrlPane u \<Rightarrow> (if up_id u = tabId
                         then UrlPane (u\<lparr>up_title := nullish title (up_title u), up_url := nullish url (up_url u)\<rparr>)
                         else p)
            | _ \<Rightarrow> p);
          has = (\<lambda>t. \<exists>p \<in> set (panes t). pane_kind p = Some KWebview \<and> pane_id p = tabId)
      in s\<lparr>tabs := map (\<lambda>t.
           if tab_kind t = KTerminal then
             (if tab_id t \<noteq> tabId \<and> \<not> has t then t
              else (if tab_id t = tabId \<or> has t \<and> length (panes t) = 1 then upd t else t)
                     \<lparr>panes := map upd_pane (panes t)\<rparr>)
           else if tab_id t \<noteq> tabId \<or> tab_kind t \<noteq> KWebview then t
           else upd t) (tabs s)\<rparr>)"

subsection \<open>Layouts\<close>

definition saveTabLayout :: "string \<Rightarrow> workspace_state \<Rightarrow> workspace_state" where
  "saveTabLayout tabId s =
     (case find_tab tabId (tabs s) of
        None \<Rightarrow> s
      | Some tab \<Rightarrow>
          (case (tab_connection tab, ensureLayout (layout tab) (panes tab)) of
             (Some c, Some lay) \<Rightarrow>
               (let ordered = filter (\<lambda>p. pane_connection p \<noteq> None)
                      (js_compact (map (\<lambda>i. pane_in tab (Some i)) (leaf_ids lay)))
                in if tab_kind tab \<noteq> KTerminal \<or> length ordered \<noteq> length (panes tab) then s
                   else persistLayout (conn_id c) (serializeLayout lay ordered) s)
           | _ \<Rightarrow> s))"

definition resetTabLayout :: "string \<Rightarrow> workspace_state \<Rightarrow> workspace_state" where
  "resetTabLayout tabId s =
     (case find_tab tabId (tabs s) of
        None \<Rightarrow> s
      | Some tab \<Rightarrow>
          (case tab_connection tab of
             Some c \<Rightarrow> (if tab_kind tab \<noteq> KTerminal then s else persistLayout (conn_id c) None s)
           | None \<Rightarrow> s))"

definition saveConnectionLayout :: "string \<Rightarrow> workspace_state \<Rightarrow> workspace_state" where
  "saveConnectionLayout cid s =
     (let ofc = (\<lambda>t. tab_kind t = KTerminal \<and> map_option conn_id (tab_connection t) = Some cid)
      in case nullish_opt (find (\<lambda>t. tab_id t = activeTabId s \<and> ofc t) (tabs s)) (find ofc (tabs s)) of
           None \<Rightarrow> s
         | Some t \<Rightarrow> saveTabLayout (tab_id t) s)"

definition resetConnectionLayout :: "string \<Rightarrow> workspace_state \<Rightarrow> workspace_state" where
  "resetConnectionLayout cid s = persistLayout cid None s"

definition resetAllLayouts :: "workspace_state \<Rightarrow> workspace_state" where
  "resetAllLayouts s =
     (clearStoredLayouts s)\<lparr>tabs := map_where (\<lambda>t. tab_kind t = KTerminal)
        (\<lambda>t. t\<lparr>layout := defaultLayoutFor (panes t),
               focusedPaneId := map_option pane_id (js_nth (panes t) 0)\<rparr>) (tabs s)\<rparr>"

text \<open>Updates of a terminal Pane that are also saved with the layout of its Tab.\<close>

definition persist_tab_layout :: "workspace_tab \<Rightarrow> workspace_state \<Rightarrow> workspace_state" where
  "persist_tab_layout tab s =
     (case (tab_connection tab, ensureLayout (layout tab) (panes tab)) of
        (Some c, Some lay) \<Rightarrow> persistLayout (conn_id c) (serializeLayout lay (panes tab)) s
      | _ \<Rightarrow> s)"

definition has_terminal_pane :: "string \<Rightarrow> workspace_tab \<Rightarrow> bool" where
  "has_terminal_pane paneId t =
     (tab_kind t = KTerminal \<and> (\<exists>p \<in> set (panes t). isTerminalPane p \<and> pane_id p = paneId))"

definition update_and_persist :: "string \<Rightarrow> string \<Rightarrow> (terminal_pane \<Rightarrow> terminal_pane)
    \<Rightarrow> workspace_state \<Rightarrow> workspace_state" where
  "update_and_persist tabId paneId f s =
     (let s1 = update_terminal tabId paneId f s
      in fold persist_tab_layout
           (filter (\<lambda>t. tab_id t = tabId \<and> has_terminal_pane paneId t) (tabs s1)) s1)"

definition updateOpenTerminalPaneFontSize :: "string \<Rightarrow> string \<Rightarrow> rat option \<Rightarrow> workspace_state
    \<Rightarrow> workspace_state" where
  "updateOpenTerminalPaneFontSize tabId paneId fsize s =
     update_and_persist tabId paneId (\<lambda>p. p\<lparr>fontSize := fsize\<rparr>) s"

definition updateOpenTerminalPaneTextEncoding :: "string \<Rightarrow> string \<Rightarrow> string option
    \<Rightarrow> workspace_state \<Rightarrow> workspace_state" where
  "updateOpenTerminalPaneTextEncoding tabId paneId enc s =
     update_and_persist tabId paneId (\<lambda>p. p\<lparr>textEncoding := enc\<rparr>) s"

definition updateOpenTerminalPaneBackground :: "string \<Rightarrow> string \<Rightarrow> json option option
    \<Rightarrow> workspace_state \<Rightarrow> workspace_state" where
  "updateOpenTerminalPaneBackground tabId paneId bg s =
     update_and_persist tabId paneId (\<lambda>p. p\<lparr>tp_terminalBackground := bg\<rparr>) s"

definition refreshOpenConnectionMetadata :: "connection \<Rightarrow> workspace_state \<Rightarrow> workspace_state" where
  "refreshOpenConnectionMetadata c s =
     (let (ts, b) = map_env (refreshTabConnectionMetadata (local_label s) c (defaultUseTmuxSessions s))
            (tabs s) (build s)
      in s\<lparr>tabs := ts, build := b\<rparr>)"

subsection \<open>The full screen intent of a remote desktop Pane\<close>

definition owner_of :: "string \<Rightarrow> workspace_tab list \<Rightarrow> workspace_tab option" where
  "owner_of paneId ts = find (\<lambda>t. \<exists>p \<in> set (panes t). pane_id p = paneId) ts"

definition armed :: "workspace_pane \<Rightarrow> bool" where
  "armed pane = (case pane of RemoteDesktopPane p \<Rightarrow> rdpStartupFullscreen p = Some True | _ \<Rightarrow> False)"

definition disarm :: "workspace_pane \<Rightarrow> workspace_pane" where
  "disarm pane = (case pane of RemoteDesktopPane p \<Rightarrow> RemoteDesktopPane (p\<lparr>rdpStartupFullscreen := None\<rparr>)
     | _ \<Rightarrow> pane)"

definition hasRdpStartupFullscreen :: "string \<Rightarrow> workspace_state \<Rightarrow> bool" where
  "hasRdpStartupFullscreen paneId s =
     (case owner_of paneId (tabs s) of
        None \<Rightarrow> False
      | Some t \<Rightarrow>
          (case pane_in t (Some paneId) of
             None \<Rightarrow> False
           | Some p \<Rightarrow> armed p \<and> tab_id t = activeTabId s
               \<and> tabWorkspaceId (Some t) = activeWorkspaceId s \<and> focusedPaneId t = Some paneId))"

text \<open>\<open>tab !== owner\<close> and \<open>entry !== pane\<close> compare references: the first Tab that owns the
  Pane and the first Pane with the id.\<close>

fun map_first :: "('a \<Rightarrow> bool) \<Rightarrow> ('a \<Rightarrow> 'a) \<Rightarrow> 'a list \<Rightarrow> 'a list" where
  "map_first p f [] = []"
| "map_first p f (x # xs) = (if p x then f x # xs else x # map_first p f xs)"

definition consumeRdpStartupFullscreen :: "string \<Rightarrow> workspace_state \<Rightarrow> bool \<times> workspace_state" where
  "consumeRdpStartupFullscreen paneId s =
     (case Option.bind (owner_of paneId (tabs s)) (\<lambda>t. pane_in t (Some paneId)) of
        None \<Rightarrow> (False, s)
      | Some p \<Rightarrow>
          (if \<not> armed p then (False, s)
           else (hasRdpStartupFullscreen paneId s,
                 s\<lparr>tabs := map_first (\<lambda>t. \<exists>p \<in> set (panes t). pane_id p = paneId)
                     (\<lambda>t. t\<lparr>panes := map_first (\<lambda>p. pane_id p = paneId) disarm (panes t)\<rparr>)
                     (tabs s)\<rparr>)))"

text \<open>The store's subscription: what runs after a change from \<open>previous\<close> to \<open>s\<close>.\<close>

definition on_navigation :: "workspace_state \<Rightarrow> workspace_state \<Rightarrow> workspace_state" where
  "on_navigation previous s =
     (if tabs s = tabs previous \<and> activeTabId s = activeTabId previous
         \<and> activeWorkspaceId s = activeWorkspaceId previous then s
      else case Option.bind (find_tab (activeTabId previous) (tabs previous)) focusedPaneId of
        None \<Rightarrow> s
      | Some previousPaneId \<Rightarrow>
          (if previousPaneId \<noteq> []
              \<and> (activeWorkspaceId s \<noteq> activeWorkspaceId previous \<or> activeTabId s \<noteq> activeTabId previous
                 \<or> Option.bind (find_tab (activeTabId s) (tabs s)) focusedPaneId \<noteq> Some previousPaneId)
           then snd (consumeRdpStartupFullscreen previousPaneId s) else s))"

end
