(* ===== verification/Workspace_Invariant.thy ===== *)
theory Workspace_Invariant
  imports Workspace_Panes
begin

text \<open>
  What every sequence of Tab and Pane operations keeps true: Tabs have different ids, the
  Panes of a Tab have different ids, its layout shows exactly its Panes, its focus is one of
  them, a terminal Tab is never empty, and the saved layouts can be restored.  The operations
  are the events of a machine; the environment supplies fresh UUIDs.
\<close>

section \<open>The invariant\<close>

definition tab_ok :: "workspace_tab \<Rightarrow> bool" where
  "tab_ok t =
     (starts_with (tab_id t) ''tab-'' \<and> distinct (map pane_id (panes t))
      \<and> (\<forall>l. layout t = Some l \<longrightarrow> mset (leaf_ids l) = mset (map pane_id (panes t)))
      \<and> (\<forall>i. focusedPaneId t = Some i \<longrightarrow> i \<in> pane_id ` set (panes t))
      \<and> (tab_kind t = KTerminal \<longrightarrow> panes t \<noteq> [])
      \<and> (tab_kind t \<noteq> KTerminal \<longrightarrow> panes t = [] \<and> layout t = None))"

definition tab_serial :: "build_env \<Rightarrow> nat \<Rightarrow> string \<Rightarrow> bool" where
  "tab_serial e k i = (\<exists>cid. i = ''tab-'' @ cid @ ''-'' @ uuid e k)"

text \<open>No id of the Tab is one the environment could still generate.\<close>

definition tab_old :: "build_env \<Rightarrow> workspace_tab \<Rightarrow> bool" where
  "tab_old e t = (\<forall>k \<ge> uuid_pos e. \<not> tab_serial e k (tab_id t)
     \<and> (\<forall>p \<in> set (panes t). \<not> pane_serial e k (pane_id p)))"

definition tabs_inv :: "build_env \<Rightarrow> workspace_tab list \<Rightarrow> bool" where
  "tabs_inv e ts = (uuid_supply e \<and> distinct (map tab_id ts) \<and> (\<forall>t \<in> set ts. tab_ok t \<and> tab_old e t))"

lemma tab_serial_unique:
  assumes "uuid_supply e" "tab_serial e k i" "tab_serial e m i"
  shows "k = m"
proof -
  from assms(2,3) obtain a b where "a @ CHR ''-'' # uuid e k = b @ CHR ''-'' # uuid e m"
    by (auto simp: tab_serial_def)
  then have "uuid e k = uuid e m"
    by (rule same_tail_after_hyphen) (use assms(1) in \<open>simp add: uuid_supply_def\<close>)
  then show ?thesis using assms(1) by (auto simp: uuid_supply_def dest: injD)
qed

lemma serial_env:
  "uuid e' = uuid e \<Longrightarrow> tab_serial e' = tab_serial e"
  "uuid e' = uuid e \<Longrightarrow> pane_serial e' = pane_serial e"
  by (simp_all add: tab_serial_def pane_serial_def fun_eq_iff)

lemma tab_old_mono: "env_leq e e' \<Longrightarrow> tab_old e t \<Longrightarrow> tab_old e' t"
  using serial_env [of e' e] by (simp add: env_leq_def tab_old_def)

lemma uuid_supply_mono: "env_leq e e' \<Longrightarrow> uuid_supply e \<Longrightarrow> uuid_supply e'"
  by (simp add: env_leq_def uuid_supply_def)

lemma tabs_inv_mono: "env_leq e e' \<Longrightarrow> tabs_inv e ts \<Longrightarrow> tabs_inv e' ts"
  by (auto simp: tabs_inv_def intro: tab_old_mono uuid_supply_mono)

lemma tabs_inv_sub:
  "tabs_inv e ts \<Longrightarrow> set ts' \<subseteq> set ts \<Longrightarrow> distinct (map tab_id ts') \<Longrightarrow> tabs_inv e ts'"
  by (auto simp: tabs_inv_def)

lemma distinct_map_filter: "distinct (map f xs) \<Longrightarrow> distinct (map f (filter p xs))"
  by (induction xs) auto

lemma tabs_inv_filter: "tabs_inv e ts \<Longrightarrow> tabs_inv e (filter p ts)"
  by (rule tabs_inv_sub) (auto simp: tabs_inv_def distinct_map_filter)

text \<open>An update of Tabs in place.\<close>

definition tab_update :: "build_env \<Rightarrow> (workspace_tab \<Rightarrow> workspace_tab) \<Rightarrow> bool" where
  "tab_update e f = (\<forall>t. tab_id (f t) = tab_id t \<and> (tab_ok t \<and> tab_old e t \<longrightarrow> tab_ok (f t) \<and> tab_old e (f t)))"

lemma tabs_inv_map: "tabs_inv e ts \<Longrightarrow> tab_update e f \<Longrightarrow> tabs_inv e (map f ts)"
  by (auto simp: tabs_inv_def tab_update_def o_def)

lemma tab_update_where: "tab_update e f \<Longrightarrow> tab_update e (\<lambda>t. if p t then f t else t)"
  by (simp add: tab_update_def)

lemma tabs_inv_map_where: "tabs_inv e ts \<Longrightarrow> tab_update e f \<Longrightarrow> tabs_inv e (map_where p f ts)"
  unfolding map_where_def by (rule tabs_inv_map) (simp_all add: tab_update_where)

lemma tabs_inv_push:
  "tabs_inv e ts \<Longrightarrow> tab_ok t \<Longrightarrow> tab_old e t \<Longrightarrow> tab_id t \<notin> set (map tab_id ts) \<Longrightarrow> tabs_inv e (ts @ [t])"
  by (auto simp: tabs_inv_def)

text \<open>A traversal of the Tabs that threads the environment.\<close>

definition tab_step :: "(workspace_tab \<Rightarrow> build_env \<Rightarrow> (workspace_tab \<times> string list) \<times> build_env) \<Rightarrow> bool"
where
  "tab_step f = (\<forall>t e t' u e'. f t e = ((t', u), e') \<longrightarrow> uuid_supply e \<longrightarrow>
     env_leq e e' \<and> tab_id t' = tab_id t \<and> (tab_ok t \<and> tab_old e t \<longrightarrow> tab_ok t' \<and> tab_old e' t'))"

lemma tab_stepD:
  "tab_step f \<Longrightarrow> f t e = ((t', u), e') \<Longrightarrow> uuid_supply e \<Longrightarrow>
     env_leq e e' \<and> tab_id t' = tab_id t \<and> (tab_ok t \<and> tab_old e t \<longrightarrow> tab_ok t' \<and> tab_old e' t')"
  unfolding tab_step_def by blast

lemma map_env_tabs:
  assumes "tab_step f" "tabs_inv e ts" "map_env f ts e = (rs, e')"
  shows "env_leq e e' \<and> tabs_inv e' (map fst rs) \<and> map tab_id (map fst rs) = map tab_id ts"
  using assms(2,3)
proof (induction ts arbitrary: e rs)
  case Nil
  then show ?case by (auto simp: tabs_inv_def)
next
  case (Cons t ts)
  obtain t1 u e1 where f: "f t e = ((t1, u), e1)" by (metis prod.exhaust_sel)
  obtain qs where m: "map_env f ts e1 = (qs, e')" "rs = (t1, u) # qs"
    using Cons.prems(2) f by (auto split: prod.splits)
  have S: "env_leq e e1" "tab_id t1 = tab_id t" "tab_ok t1" "tab_old e1 t1"
    using tab_stepD [OF assms(1) f] Cons.prems(1) by (auto simp: tabs_inv_def)
  have "tabs_inv e1 ts"
    using tabs_inv_mono [OF S(1), of ts] Cons.prems(1) by (simp add: tabs_inv_def)
  from Cons.IH [OF this m(1)]
  have IH: "env_leq e1 e'" "tabs_inv e' (map fst qs)" "map tab_id (map fst qs) = map tab_id ts" by auto
  then have "tab_old e' t1" using S(4) by (blast intro: tab_old_mono)
  moreover have "tab_id t1 \<notin> set (map tab_id (map fst qs))"
    unfolding IH(3) using S(2) Cons.prems(1) by (simp add: tabs_inv_def)
  ultimately have "tabs_inv e' (t1 # map fst qs)" using IH(2) S(3) by (simp add: tabs_inv_def)
  then show ?case using IH(3) S(2) m(2) env_leq_trans [OF S(1) IH(1)] by simp
qed

section \<open>New ids\<close>

lemma pane_serial_fresh:
  assumes "uuid_supply e" "pane_serial e k i" "k < uuid_pos e'" "env_leq e e'" "uuid_pos e' \<le> m"
  shows "\<not> pane_serial e' m i"
  using assms pane_serial_unique [OF assms(1,2), of m] serial_env(2) [of e' e]
  by (auto simp: env_leq_def)

lemma createConnectionTabId_spec:
  assumes "createConnectionTabId c e = (i, e')" "uuid_supply e"
  shows "env_leq e e' \<and> be_tmux e' = be_tmux e \<and> (\<exists>k. k = uuid_pos e \<and> tab_serial e k i)
    \<and> (\<forall>m \<ge> uuid_pos e'. \<not> tab_serial e' m i)"
proof -
  have e': "e' = e\<lparr>uuid_pos := Suc (uuid_pos e)\<rparr>" and i: "tab_serial e (uuid_pos e) i"
    using assms(1) by (auto simp: createConnectionTabId_def next_uuid_def tab_serial_def)
  have "\<not> tab_serial e' m i" if "uuid_pos e' \<le> m" for m
    using that e' i tab_serial_unique [OF assms(2) i, of m] serial_env(1) [of e' e] by auto
  then show ?thesis using e' i by (auto simp: env_leq_def)
qed

lemma new_tab_id_notin:
  "tabs_inv e ts \<Longrightarrow> tab_serial e k i \<Longrightarrow> uuid_pos e \<le> k \<Longrightarrow> i \<notin> set (map tab_id ts)"
  by (auto simp: tabs_inv_def tab_old_def)

text \<open>A built Pane: its id is new to every old Tab, and old afterwards.\<close>

definition pane_new :: "build_env \<Rightarrow> build_env \<Rightarrow> string \<Rightarrow> bool" where
  "pane_new e e' i = (\<exists>k. uuid_pos e \<le> k \<and> k < uuid_pos e' \<and> pane_serial e k i)"

lemma pane_new_notin: "pane_new e e' i \<Longrightarrow> tab_old e t \<Longrightarrow> i \<notin> pane_id ` set (panes t)"
  by (auto simp: pane_new_def tab_old_def)

lemma pane_new_old:
  "pane_new e e' i \<Longrightarrow> uuid_supply e \<Longrightarrow> env_leq e e' \<Longrightarrow> uuid_pos e' \<le> m \<Longrightarrow> \<not> pane_serial e' m i"
  by (auto simp: pane_new_def dest: pane_serial_fresh)

lemma buildPane_new:
  "buildPaneForConnection c focused opts d e = (Some p, e') \<Longrightarrow> env_leq e e' \<and> pane_new e e' (pane_id p)"
  using serial_stepD [OF serial_buildPane] by (fastforce simp: pane_new_def)

lemma buildPane_env: "buildPaneForConnection c focused opts d e = (r, e') \<Longrightarrow> env_leq e e'"
  using serial_stepD [OF serial_buildPane] by blast

lemma createPaneId_new: "createPaneId c e = (i, e') \<Longrightarrow> env_leq e e' \<and> pane_new e e' i"
  by (auto dest!: createPaneId_spec simp: env_leq_def pane_new_def)

section \<open>Adding and removing Panes of a Tab\<close>

lemma mset_by_set: "distinct xs \<Longrightarrow> distinct ys \<Longrightarrow> set xs = set ys \<Longrightarrow> mset xs = mset ys"
  by (simp add: set_eq_iff_mset_eq_distinct [symmetric])

lemma ensure_mset:
  assumes "distinct (map pane_id ps)" "\<forall>l. lay = Some l \<longrightarrow> mset (leaf_ids l) = mset (map pane_id ps)"
  shows "mset (leafOrder (ensureLayout lay ps)) = mset (map pane_id ps)"
proof (cases lay)
  case None
  then show ?thesis by (simp add: ensureLayout_def leafOrder_default)
next
  case (Some l)
  then have m: "mset (leaf_ids l) = mset (map pane_id ps)" using assms(2) by simp
  then have d: "distinct (leaf_ids l)" and s: "set (leaf_ids l) = set (map pane_id ps)"
    using assms(1) by (metis mset_eq_imp_distinct_iff, metis mset_eq_setD)
  show ?thesis
  proof (cases "ps = []")
    case True
    then show ?thesis using Some m leafOrder_ensure_unknown [of l ps] by simp
  next
    case False
    then have i: "set (leaf_ids l) \<inter> set (map pane_id ps) \<noteq> {}" using s by (cases ps) auto
    have "distinct (leafOrder (ensureLayout lay ps))"
      unfolding Some by (rule distinct_leafOrder_ensure [OF d assms(1) i])
    then show ?thesis using assms(1) set_leafOrder_ensure by (rule mset_by_set)
  qed
qed

lemma ensure_mset_filter:
  assumes "distinct (map pane_id ps)" "\<forall>l. lay = Some l \<longrightarrow> mset (leaf_ids l) = mset (map pane_id ps)"
    and "filter q ps \<noteq> []"
  shows "mset (leafOrder (ensureLayout lay (filter q ps))) = mset (map pane_id (filter q ps))"
proof (cases lay)
  case None
  then show ?thesis by (simp add: ensureLayout_def leafOrder_default)
next
  case (Some l)
  then have m: "mset (leaf_ids l) = mset (map pane_id ps)" using assms(2) by simp
  then have d: "distinct (leaf_ids l)" and s: "set (leaf_ids l) = set (map pane_id ps)"
    using assms(1) by (metis mset_eq_imp_distinct_iff, metis mset_eq_setD)
  have d2: "distinct (map pane_id (filter q ps))" using assms(1) by (rule distinct_map_filter)
  obtain p where "p \<in> set (filter q ps)" using assms(3) by (cases "filter q ps") auto
  then have i: "set (leaf_ids l) \<inter> set (map pane_id (filter q ps)) \<noteq> {}" using s by auto
  have "distinct (leafOrder (ensureLayout lay (filter q ps)))"
    unfolding Some by (rule distinct_leafOrder_ensure [OF d d2 i])
  then show ?thesis using d2 set_leafOrder_ensure by (rule mset_by_set)
qed

lemma ensure_some: "ps \<noteq> [] \<Longrightarrow> ensureLayout lay ps \<noteq> None"
  using set_leafOrder_ensure [of lay ps] by (cases "ensureLayout lay ps") auto

lemma add_pane_ok:
  assumes "distinct (map pane_id cur)"
    and "\<forall>l. lay = Some l \<longrightarrow> mset (leaf_ids l) = mset (map pane_id cur)"
    and "pane_id pane \<notin> pane_id ` set cur" "starts_with (tab_id tab) ''tab-''"
  shows "tab_ok ((add_pane cur lay target dir pane tab)\<lparr>tab_kind := KTerminal, quickCommandBarVisible := q\<rparr>)"
  using assms ensure_mset [OF assms(1,2)]
  by (auto simp: add_pane_def tab_ok_def mset_leaves_splitLayout)

lemma tab_okD:
  assumes "tab_ok t"
  shows "distinct (map pane_id (panes t))"
    and "\<forall>l. layout t = Some l \<longrightarrow> mset (leaf_ids l) = mset (map pane_id (panes t))"
    and "starts_with (tab_id t) ''tab-''"
  using assms by (auto simp: tab_ok_def)

lemma not_pane_serial_tab: "starts_with i ''tab-'' \<Longrightarrow> \<not> pane_serial e k i"
  by (auto simp: starts_with_def pane_serial_def prefix_def)

lemma focus_after_in:
  assumes "mset (leafOrder lay) = mset (map pane_id ps)" "focus_after lay ps = Some i"
  shows "i \<in> pane_id ` set ps"
proof -
  have "set (leafOrder lay) = pane_id ` set ps" using assms(1) by (metis mset_eq_setD set_map)
  then show ?thesis using assms(2)
    by (auto simp: focus_after_def nullish_opt_def dest: js_nth_SomeD split: option.splits)
qed

section \<open>The operations on one Tab\<close>

lemma same_kind_update:
  "tab_kind t = KTerminal \<Longrightarrow> t\<lparr>tab_kind := KTerminal, quickCommandBarVisible := quickCommandBarVisible t\<rparr> = t"
  by simp

lemma add_pane_kind:
  "tab_kind (add_pane cur lay target dir pane tab) = tab_kind tab"
  "quickCommandBarVisible (add_pane cur lay target dir pane tab) = quickCommandBarVisible tab"
  "tab_id (add_pane cur lay target dir pane tab) = tab_id tab"
  "panes (add_pane cur lay target dir pane tab) = cur @ [pane]"
  by (simp_all add: add_pane_def)

lemma add_pane_old:
  assumes "tab_old e tab" "uuid_supply e" "env_leq e e'" "pane_new e e' (pane_id pane)"
    and "\<forall>p \<in> set cur. \<forall>k \<ge> uuid_pos e. \<not> pane_serial e k (pane_id p)"
  shows "tab_old e' (add_pane cur lay target dir pane tab)"
proof -
  have "\<not> pane_serial e' k (pane_id pane)" if "uuid_pos e' \<le> k" for k
    using pane_new_old [OF assms(4,2,3) that] .
  then show ?thesis
    using tab_old_mono [OF assms(3,1)] assms(3,5) serial_env(2) [of e' e]
    by (auto simp: tab_old_def add_pane_kind env_leq_def)
qed

lemma add_pane_terminal:
  assumes "tab_ok t" "tab_old e t" "uuid_supply e" "tab_kind t = KTerminal" "env_leq e e'"
    and "pane_new e e' (pane_id pane)"
  shows "tab_ok (add_pane (panes t) (layout t) target dir pane t)
    \<and> tab_old e' (add_pane (panes t) (layout t) target dir pane t)"
proof
  have "pane_id pane \<notin> pane_id ` set (panes t)" using assms(6,2) by (rule pane_new_notin)
  note ok = add_pane_ok [OF tab_okD(1,2) [OF assms(1)] this tab_okD(3) [OF assms(1)],
      where q = "quickCommandBarVisible t" and target = target and dir = dir]
  have "tab_kind (add_pane (panes t) (layout t) target dir pane t) = KTerminal"
    using assms(4) by (simp add: add_pane_kind)
  then have "(add_pane (panes t) (layout t) target dir pane t)
      \<lparr>tab_kind := KTerminal, quickCommandBarVisible := quickCommandBarVisible t\<rparr>
    = add_pane (panes t) (layout t) target dir pane t"
    using same_kind_update by (metis add_pane_kind(2))
  then show "tab_ok (add_pane (panes t) (layout t) target dir pane t)" using ok by simp
  show "tab_old e' (add_pane (panes t) (layout t) target dir pane t)"
    by (rule add_pane_old [OF assms(2,3,5,6)]) (use assms(2) in \<open>simp add: tab_old_def\<close>)
qed

lemma tab_stepI:
  assumes "\<And>t e t' u e'. f t e = ((t', u), e') \<Longrightarrow> uuid_supply e \<Longrightarrow>
     env_leq e e' \<and> tab_id t' = tab_id t \<and> (tab_ok t \<longrightarrow> tab_old e t \<longrightarrow> tab_ok t' \<and> tab_old e' t')"
  shows "tab_step f"
  unfolding tab_step_def using assms by blast

lemma split_tab_step: "tab_step (split_tab tabId dir d)"
proof (rule tab_stepI)
  fix t e t' u e'
  assume a: "split_tab tabId dir d t e = ((t', u), e')" and s: "uuid_supply e"
  show "env_leq e e' \<and> tab_id t' = tab_id t
    \<and> (tab_ok t \<longrightarrow> tab_old e t \<longrightarrow> tab_ok t' \<and> tab_old e' t')"
  proof (cases "tab_id t \<noteq> tabId \<or> tab_kind t \<noteq> KTerminal \<or> focused_or_first t = None
      \<or> Option.bind (focused_or_first t) pane_connection = None")
    case True
    then show ?thesis using a by (auto simp: split_tab_def split: option.splits if_splits)
  next
    case False
    then obtain f c where f: "focused_or_first t = Some f" "pane_connection f = Some c" by auto
    obtain r e1 where b: "buildPaneForConnection c (Some f) None d e = (r, e1)" by fastforce
    show ?thesis
    proof (cases r)
      case None
      then have "t' = t" "e' = e1" using a b f False by (auto simp: split_tab_def)
      then show ?thesis using buildPane_env [OF b] tab_old_mono by blast
    next
      case (Some p)
      define pane where "pane = set_pane_title (pane_title f @ '' '' @ nat_string (length (panes t) + 1)) p"
      have t': "t' = add_pane (panes t) (layout t) f dir pane t" "e' = e1"
        using a b f False Some by (auto simp: split_tab_def Let_def pane_def)
      have n: "env_leq e e1" "pane_new e e1 (pane_id pane)"
        using buildPane_new [OF b [unfolded Some]] by (simp_all add: pane_def)
      show ?thesis using add_pane_terminal [OF _ _ s _ n, of t f dir] False n(1)
        by (auto simp: t' add_pane_kind)
    qed
  qed
qed

lemma tmux_pane_tab_step: "tab_step (tmux_pane_tab tabId c sid dir)"
proof (rule tab_stepI)
  fix t e t' u e'
  assume a: "tmux_pane_tab tabId c sid dir t e = ((t', u), e')" and s: "uuid_supply e"
  show "env_leq e e' \<and> tab_id t' = tab_id t
    \<and> (tab_ok t \<longrightarrow> tab_old e t \<longrightarrow> tab_ok t' \<and> tab_old e' t')"
  proof (cases "tab_id t = tabId \<and> tab_kind t = KTerminal \<and> (\<exists>f. focused_or_first t = Some (TerminalPane f))")
    case False
    then show ?thesis using a
      by (auto simp: tmux_pane_tab_def split: option.splits if_splits workspace_pane.splits)
  next
    case True
    then obtain f where f: "focused_or_first t = Some (TerminalPane f)" by blast
    obtain i e1 where i: "createPaneId (conn_id c) e = (i, e1)" by fastforce
    obtain pane where t': "t' = add_pane (panes t) (layout t) (TerminalPane f) dir pane t" "e' = e1"
      and p: "pane_id pane = i"
      using a f True i by (auto simp: tmux_pane_tab_def Let_def)
    have n: "env_leq e e1" "pane_new e e1 (pane_id pane)" using createPaneId_new [OF i] p by simp_all
    show ?thesis using add_pane_terminal [OF _ _ s _ n, of t "TerminalPane f" dir] True n(1)
      by (auto simp: t' add_pane_kind)
  qed
qed

lemma standalone_pane_id: "buildPaneForStandaloneTab t = Some p \<Longrightarrow> pane_id p = tab_id t"
  by (auto simp: buildPaneForStandaloneTab_def Let_def split: option.splits if_splits)

lemma dock_panes_facts:
  assumes "tab_ok t" "tab_old e t"
  shows "distinct (map pane_id (dock_panes t))"
    and "\<forall>l. (if tab_kind t = KTerminal then layout t else None) = Some l
          \<longrightarrow> mset (leaf_ids l) = mset (map pane_id (dock_panes t))"
    and "\<forall>p \<in> set (dock_panes t). \<forall>k \<ge> uuid_pos e. \<not> pane_serial e k (pane_id p)"
  using tab_okD [OF assms(1)] assms(2) not_pane_serial_tab
  by (auto simp: dock_panes_def tab_old_def standalone_pane_id split: option.splits)

lemma dock_tab_step: "tab_step (dock_tab tabId c dir target opts s)"
proof (rule tab_stepI)
  fix t e t' u e'
  assume a: "dock_tab tabId c dir target opts s t e = ((t', u), e')" and sup: "uuid_supply e"
  let ?d = "defaultUseTmuxSessions s"
  show "env_leq e e' \<and> tab_id t' = tab_id t
    \<and> (tab_ok t \<longrightarrow> tab_old e t \<longrightarrow> tab_ok t' \<and> tab_old e' t')"
  proof (cases "tab_id t \<noteq> tabId \<or> dock_target t (dock_panes t) target = None")
    case True
    then show ?thesis using a by (auto simp: dock_tab_def Let_def split: if_splits)
  next
    case False
    then obtain tp where tp: "dock_target t (dock_panes t) target = Some tp" by auto
    obtain r e1 where b: "buildPaneForConnection (connectionWithPaneOptions c opts) (Some tp) opts ?d e
        = (r, e1)" by fastforce
    show ?thesis
    proof (cases r)
      case None
      then have "t' = t" "e' = e1" using a b tp False by (auto simp: dock_tab_def)
      then show ?thesis using buildPane_env [OF b] tab_old_mono by blast
    next
      case (Some pane)
      let ?lay = "if tab_kind t = KTerminal then layout t else None"
      obtain q where t': "t' = (add_pane (dock_panes t) ?lay tp dir pane t)
          \<lparr>tab_kind := KTerminal, quickCommandBarVisible := q\<rparr>" "e' = e1"
        using a b tp False Some by (auto simp: dock_tab_def Let_def)
      have n: "env_leq e e1" "pane_new e e1 (pane_id pane)"
        using buildPane_new [OF b [unfolded Some]] by simp_all
      have "tab_ok t' \<and> tab_old e' t'" if ok: "tab_ok t" "tab_old e t"
      proof
        note D = dock_panes_facts [OF ok]
        have nin: "pane_id pane \<notin> pane_id ` set (dock_panes t)"
          using n(2) D(3) by (auto simp: pane_new_def)
        show "tab_ok t'" unfolding t' by (rule add_pane_ok [OF D(1,2) nin tab_okD(3) [OF ok(1)]])
        have "tab_old e1 (add_pane (dock_panes t) ?lay tp dir pane t)"
          by (rule add_pane_old [OF ok(2) sup n D(3)])
        then show "tab_old e' t'" unfolding t' by (simp add: tab_old_def)
      qed
      then show ?thesis using n(1) by (auto simp: t' add_pane_kind)
    qed
  qed
qed

lemma focus_after_Some: "ps \<noteq> [] \<Longrightarrow> \<exists>i. focus_after lay ps = Some i"
  by (cases ps; cases "js_nth (leafOrder lay) 0") (simp_all add: focus_after_def js_nth_def)

lemma drop_child_ok:
  assumes "filter (\<lambda>p. \<not> closes_child cid p) (panes t) \<noteq> []" "tab_ok t" "tab_old e t"
  shows "tab_ok (drop_child_panes cid t) \<and> tab_old e (drop_child_panes cid t)"
proof
  let ?t' = "drop_child_panes cid t"
  let ?ps = "filter (\<lambda>p. \<not> closes_child cid p) (panes t)"
  have t': "panes ?t' = ?ps" "layout ?t' = ensureLayout (layout t) ?ps" "tab_id ?t' = tab_id t"
    "tab_kind ?t' = tab_kind t"
    "focusedPaneId ?t' = (if truthy_str (focusedPaneId t) \<and> (\<exists>p \<in> set ?ps. Some (pane_id p) = focusedPaneId t)
        then focusedPaneId t else focus_after (layout ?t') ?ps)"
    by (auto simp: drop_child_panes_def Let_def)
  have k: "tab_kind t = KTerminal" using assms(1,2) by (auto simp: tab_ok_def)
  have m: "mset (leafOrder (layout ?t')) = mset (map pane_id ?ps)"
    unfolding t'(2) by (rule ensure_mset_filter [OF tab_okD(1,2) [OF assms(2)] assms(1)])
  have f: "i \<in> pane_id ` set (panes ?t')" if "focusedPaneId ?t' = Some i" for i
    using that focus_after_in [OF m, of i] t'(5) unfolding t'(1) by (auto split: if_splits)
  have l: "mset (leaf_ids l) = mset (map pane_id (panes ?t'))" if "layout ?t' = Some l" for l
    using m unfolding that t'(1) by simp
  show "tab_ok ?t'"
    unfolding tab_ok_def using f l assms(1) k tab_okD [OF assms(2)]
    by (simp add: t'(1,3,4) distinct_map_filter)
  show "tab_old e ?t'" using assms(3) by (simp add: tab_old_def t'(1,3))
qed

lemma drop_child_id:
  "tab_id (drop_child_panes cid t) = tab_id t" "tab_workspaceId (drop_child_panes cid t) = tab_workspaceId t"
  by (simp_all add: drop_child_panes_def Let_def)

lemma close_child_ok:
  assumes "close_child_tab cid t = Some t'" "tab_ok t" "tab_old e t"
  shows "tab_id t' = tab_id t \<and> tab_workspaceId t' = tab_workspaceId t \<and> tab_ok t' \<and> tab_old e t'"
  using assms drop_child_ok [OF _ assms(2,3)]
  by (auto simp: close_child_tab_def Let_def drop_child_id simp del: filter_empty_conv split: if_splits)

lemma close_pane_ok:
  fixes i :: string
  assumes "tab_ok t" "tab_old e t" "tab_kind t = KTerminal" "\<not> length (panes t) \<le> 1"
  defines "ps \<equiv> filter (\<lambda>p. pane_id p \<noteq> i) (panes t)"
  defines "lay \<equiv> ensureLayout (layout t) ps"
  defines "t' \<equiv> t\<lparr>panes := ps, layout := lay,
      focusedPaneId := if focusedPaneId t = Some i then focus_after lay ps else focusedPaneId t\<rparr>"
  shows "tab_ok t' \<and> tab_old e t'"
proof
  have d: "distinct (map pane_id (panes t))" using tab_okD(1) [OF assms(1)] .
  have ne: "ps \<noteq> []"
  proof
    assume "ps = []"
    then have "set (map pane_id (panes t)) \<subseteq> {i}" by (auto simp: ps_def filter_empty_conv)
    then have "card (set (map pane_id (panes t))) \<le> 1"
      using card_mono [of "{i}"] by fastforce
    then show False using distinct_card [OF d] assms(4) by simp
  qed
  have m: "mset (leafOrder lay) = mset (map pane_id ps)"
    unfolding lay_def ps_def
    by (rule ensure_mset_filter [OF tab_okD(1,2) [OF assms(1)] ne [unfolded ps_def]])
  show "tab_ok t'"
    unfolding tab_ok_def
  proof (intro conjI allI impI)
    show "j \<in> pane_id ` set (panes t')" if "focusedPaneId t' = Some j" for j
      using that focus_after_in [OF m, of j] assms(1)
      by (auto simp: t'_def ps_def tab_ok_def split: if_splits)
  qed (use m ne d tab_okD [OF assms(1)] assms(3) in \<open>auto simp: t'_def distinct_map_filter ps_def\<close>)
  show "tab_old e t'" using assms(2) by (auto simp: tab_old_def t'_def ps_def)
qed

lemma on_terminal_id: "(\<And>p. tp_id (f p) = tp_id p) \<Longrightarrow> pane_id (on_terminal f q) = pane_id q"
  by (cases q) auto

lemma map_where_ids:
  "(\<And>p. pane_id (f p) = pane_id p) \<Longrightarrow> map pane_id (map_where q f ps) = map pane_id ps"
  by (simp add: map_where_def)

lemma same_ids_ok:
  assumes "map pane_id ps = map pane_id (panes t)"
  shows "tab_ok (t\<lparr>panes := ps\<rparr>) = tab_ok t" "tab_old e (t\<lparr>panes := ps\<rparr>) = tab_old e t"
proof -
  have s: "pane_id ` set ps = pane_id ` set (panes t)" using assms by (metis set_map)
  have n: "(ps = []) = (panes t = [])" using assms by (metis map_is_Nil_conv)
  show "tab_ok (t\<lparr>panes := ps\<rparr>) = tab_ok t" unfolding tab_ok_def using s n assms by simp
  have "(\<forall>p \<in> set ps. \<not> pane_serial e k (pane_id p))
      = (\<forall>p \<in> set (panes t). \<not> pane_serial e k (pane_id p))" for k
    using s by (metis (mono_tags, lifting) image_iff)
  then show "tab_old e (t\<lparr>panes := ps\<rparr>) = tab_old e t"
    unfolding tab_old_def by simp
qed

lemma update_pane_update:
  "(\<And>p. tp_id (f p) = tp_id p) \<Longrightarrow> tab_update e (update_pane i f)"
  by (simp add: tab_update_def update_pane_def same_ids_ok map_where_ids on_terminal_id)

lemma reset_layout_ok:
  assumes "tab_ok t" "tab_old e t" "tab_kind t = KTerminal"
  shows "tab_ok (t\<lparr>layout := defaultLayoutFor (panes t), focusedPaneId := map_option pane_id (js_nth (panes t) 0)\<rparr>)
    \<and> tab_old e (t\<lparr>layout := defaultLayoutFor (panes t), focusedPaneId := map_option pane_id (js_nth (panes t) 0)\<rparr>)"
  using assms leafOrder_default [of "panes t"]
  by (auto simp: tab_ok_def tab_old_def dest: js_nth_SomeD)

lemma refresh_pane_id: "pane_id (fst (refresh_pane tab c r d p e)) = pane_id p"
  by (cases p) (auto simp: refresh_pane_def Let_def refreshTerminalPaneConnection_def split: prod.splits)

lemma refresh_pane_env:
  "(uuid (snd (refresh_pane tab c r d p e)), uuid_pos (snd (refresh_pane tab c r d p e))) = (uuid e, uuid_pos e)"
  by (cases p) (auto simp: refresh_pane_def Let_def refreshTerminalPaneConnection_def
      split: prod.splits option.splits if_splits dest: append_tmux_env)

lemma refresh_tab_ok:
  assumes "refreshTabConnectionMetadata ll c d t e = (t', e')"
  shows "env_leq e e' \<and> tab_id t' = tab_id t \<and> tab_workspaceId t' = tab_workspaceId t
    \<and> (tab_ok t \<longrightarrow> tab_old e t \<longrightarrow> tab_ok t' \<and> tab_old e' t')"
proof -
  let ?r = "if tab_kind t = KSftp \<and> conn_type c = CFtp \<and> isSftpProtocol c
    then sftpBrowserConnectionFromFtpConnection c else c"
  obtain ps e1 where m: "map_env (refresh_pane t c ?r d) (panes t) e = (ps, e1)" by fastforce
  have ids: "map pane_id ps = map pane_id (panes t)"
    using m by (rule map_env_map [rotated]) (rule refresh_pane_id)
  have env: "(uuid e1, uuid_pos e1) = (uuid e, uuid_pos e)"
    using m by (rule map_env_env [where k = "\<lambda>e. (uuid e, uuid_pos e)", rotated]) (rule refresh_pane_env)
  have e': "e' = e1" using assms m by (auto simp: refreshTabConnectionMetadata_def Let_def split: if_splits)
  have le: "env_leq e e'" using env e' by (simp add: env_leq_def)
  have t': "tab_id t' = tab_id t" "tab_workspaceId t' = tab_workspaceId t" "panes t' = ps" "layout t' = layout t"
    "focusedPaneId t' = focusedPaneId t" "tab_kind t' = tab_kind t"
    using assms m by (auto simp: refreshTabConnectionMetadata_def Let_def split: if_splits)
  have "tab_ok t' = tab_ok (t\<lparr>panes := ps\<rparr>)" "tab_old e' t' = tab_old e' (t\<lparr>panes := ps\<rparr>)"
    using t' by (simp_all add: tab_ok_def tab_old_def)
  then show ?thesis using same_ids_ok [OF ids] le t' tab_old_mono by auto
qed

section \<open>Stored layouts\<close>

fun stored_leaves :: "stored_layout_node \<Rightarrow> int list" where
  "stored_leaves (SLeaf i) = [i]"
| "stored_leaves (SSplit ori cs) = concat (map stored_leaves cs)"

definition stored_ok :: "stored_connection_layout \<Rightarrow> bool" where
  "stored_ok st = (0 < paneCount st
     \<and> mset (stored_leaves (stored_layout st)) = mset (map int [0..<nat (paneCount st)]))"

definition stored_leaves_opt :: "stored_layout_node option \<Rightarrow> int list" where
  "stored_leaves_opt s = (case s of None \<Rightarrow> [] | Some n \<Rightarrow> stored_leaves n)"

lemma stored_leaves_opt_simps [simp]: "stored_leaves_opt None = []" "stored_leaves_opt (Some n) = stored_leaves n"
  by (simp_all add: stored_leaves_opt_def)

lemma concat_compact_stored:
  "concat (map stored_leaves (js_compact xs)) = concat (map stored_leaves_opt xs)"
  by (induction xs rule: js_compact.induct) auto

lemma js_compact_concat: "js_compact (concat xss) = concat (map js_compact xss)"
  by (induction xss) auto

lemma serialize_leaves: "stored_leaves_opt (serializeNode l idx) = js_compact (map idx (leaf_ids l))"
proof (induction l)
  case (Leaf p)
  then show ?case by (cases "idx p") auto
next
  case (Split ori cs)
  let ?xs = "map (\<lambda>c. serializeNode c idx) cs"
  have "concat (map stored_leaves (js_compact ?xs)) = concat (map (\<lambda>c. js_compact (map idx (leaf_ids c))) cs)"
    unfolding concat_compact_stored using Split by (simp add: o_def cong: map_cong)
  also have "\<dots> = js_compact (map idx (leaf_ids (Split ori cs)))"
    by (simp add: map_concat js_compact_concat o_def)
  finally have "concat (map stored_leaves (js_compact ?xs)) = js_compact (map idx (leaf_ids (Split ori cs)))" .
  then show ?case by (cases "js_compact ?xs" rule: remdups_adj.cases) auto
qed

definition live_id :: "string list \<Rightarrow> int \<Rightarrow> string option" where
  "live_id ids i = (let x = js_nth ids i in if truthy_str x then x else None)"

lemma hydrate_leaves: "leafOrder (hydrateLayout st ids) = js_compact (map (live_id ids) (stored_leaves st))"
proof (induction st)
  case (SLeaf i)
  then show ?case by (cases "js_nth ids i") (auto simp: live_id_def Let_def)
next
  case (SSplit ori cs)
  let ?xs = "map (\<lambda>c. hydrateLayout c ids) cs"
  have "concat (map leaf_ids (js_compact ?xs)) = concat (map (\<lambda>c. js_compact (map (live_id ids) (stored_leaves c))) cs)"
    unfolding leaf_ids_compact using SSplit by (simp add: o_def cong: map_cong)
  also have "\<dots> = js_compact (map (live_id ids) (stored_leaves (SSplit ori cs)))"
    by (simp add: map_concat js_compact_concat o_def)
  finally have "concat (map leaf_ids (js_compact ?xs)) = js_compact (map (live_id ids) (stored_leaves (SSplit ori cs)))" .
  then show ?case by (cases "js_compact ?xs" rule: remdups_adj.cases) auto
qed

lemma mset_js_compact: "mset (js_compact xs) = image_mset the (filter_mset (\<lambda>x. x \<noteq> None) (mset xs))"
  by (induction xs rule: js_compact.induct) auto

lemma mset_js_compact_map:
  "mset xs = mset ys \<Longrightarrow> mset (js_compact (map f xs)) = mset (js_compact (map f ys))"
  by (simp add: mset_js_compact)

lemma hydrate_tracks:
  assumes "stored_ok st" "length ids = nat (paneCount st)" "\<forall>i \<in> set ids. i \<noteq> []"
  shows "mset (leafOrder (hydrateLayout (stored_layout st) ids)) = mset ids"
proof -
  have l: "live_id ids (int i) = Some (ids ! i)" if "i < length ids" for i
    using assms(3) nth_mem [OF that] that by (auto simp: live_id_def js_nth_nat)
  have "mset (leafOrder (hydrateLayout (stored_layout st) ids))
    = mset (js_compact (map (live_id ids) (map int [0..<length ids])))"
    unfolding hydrate_leaves using assms(1,2) by (intro mset_js_compact_map) (simp add: stored_ok_def)
  also have "map (live_id ids) (map int [0..<length ids]) = map Some ids"
    by (rule nth_equalityI) (simp_all add: l)
  finally show ?thesis by simp
qed

lemma index_by_id_nth: "distinct ids \<Longrightarrow> i < length ids \<Longrightarrow> index_by_id ids (ids ! i) = Some (int i)"
proof -
  assume d: "distinct ids" and i: "i < length ids"
  let ?z = "zip ids (map int [0..<length ids])"
  have "distinct (map fst (rev ?z))" using d by (simp add: rev_map [symmetric])
  moreover have "(ids ! i, int i) \<in> set (rev ?z)"
    using i by (auto simp: in_set_zip intro!: exI [of _ i])
  ultimately show ?thesis by (simp add: index_by_id_def)
qed

lemma serialize_None: "(\<And>p. p \<in> set (leaf_ids l) \<Longrightarrow> idx p = None) \<Longrightarrow> serializeNode l idx = None"
proof (induction l)
  case (Leaf p)
  then show ?case by simp
next
  case (Split ori cs)
  then have "js_compact (map (\<lambda>c. serializeNode c idx) cs) = []"
    by (auto simp: js_compact_Nil_iff)
  then show ?case by simp
qed

lemma serialize_ok:
  assumes "distinct (map pane_id ps)" "mset (leaf_ids l) = mset (map pane_id ps)"
    and "serializeLayout l ps = Some st"
  shows "stored_ok st"
proof -
  let ?idx = "index_by_id (map pane_id ps)"
  obtain n where n: "serializeNode l ?idx = Some n" and st: "paneCount st = int (length ps)" "stored_layout st = n"
    using assms(3) by (auto simp: serializeLayout_def split: option.splits)
  have "map ?idx (map pane_id ps) = map Some (map int [0..<length ps])"
    by (rule nth_equalityI) (use index_by_id_nth [OF assms(1)] in simp_all)
  then have "mset (stored_leaves n) = mset (map int [0..<length ps])"
    using serialize_leaves [of l ?idx] n mset_js_compact_map [OF assms(2), of ?idx]
    by (metis js_compact_map_Some stored_leaves_opt_simps(2))
  moreover have "ps \<noteq> []"
  proof
    assume "ps = []"
    then have "leaf_ids l = []" using assms(2) by simp
    then show False using n serialize_None [of l ?idx] by simp
  qed
  ultimately show ?thesis using st by (simp add: stored_ok_def)
qed

section \<open>The state and its events\<close>

definition ws_inv :: "workspace_state \<Rightarrow> bool" where
  "ws_inv s = (tabs_inv (build s) (tabs s)
     \<and> (\<forall>cid st. storedLayouts s cid = Some st \<longrightarrow> stored_ok st))"

lemma ws_invI:
  "ws_inv s \<Longrightarrow> storedLayouts s' = storedLayouts s \<Longrightarrow> tabs_inv (build s') (tabs s') \<Longrightarrow> ws_inv s'"
  by (simp add: ws_inv_def)

lemma push_inv:
  assumes "ws_inv s" "env_leq (build s) (build s')" "tabs s' = tabs s @ [t]" "storedLayouts s' = storedLayouts s"
    and "tab_ok t" "tab_old (build s') t" "tab_id t \<notin> set (map tab_id (tabs s))"
  shows "ws_inv s'"
  using assms tabs_inv_push [OF tabs_inv_mono [OF assms(2)], of "tabs s" t]
  by (auto intro: ws_invI simp: ws_inv_def)

text \<open>Ids of Tabs opened for a Connection, and the condition that they are not generated ones.\<close>

definition tab_suffixes :: "string list" where
  "tab_suffixes = [[], ''-sftp'', ''-ftp'', ''-cloud-storage'', ''-localFiles'', ''-fileView'']"

definition names_apart :: "build_env \<Rightarrow> connection \<Rightarrow> bool" where
  "names_apart e c = (\<forall>x \<in> set tab_suffixes. \<forall>k. \<not> suffix (uuid e k) (conn_id c @ x))"

lemma names_apart_id: "names_apart e c \<Longrightarrow> id_apart e c"
  by (auto simp: names_apart_def tab_suffixes_def id_apart_def)

lemma named_not_serial:
  assumes "\<forall>k. \<not> suffix (uuid e k) x"
  shows "\<not> tab_serial e k (''tab-'' @ x)"
proof
  assume "tab_serial e k (''tab-'' @ x)"
  then obtain cid where "x = (cid @ ''-'') @ uuid e k" by (auto simp: tab_serial_def)
  then have "suffix (uuid e k) x" unfolding suffix_def by blast
  then show False using assms by simp
qed

lemma surface_tab_ok:
  assumes "kind \<noteq> KTerminal" "starts_with i ''tab-''"
  shows "tab_ok ((surface_tab i title sub kind c s)\<lparr>tab_url := u, tab_dataPartition := d\<rparr>)"
    and "tab_ok ((surface_tab i title sub kind c s)\<lparr>ephemeral := eph\<rparr>)"
    and "tab_ok (surface_tab i title sub kind c s)"
  using assms by (simp_all add: surface_tab_def mk_tab_def tab_ok_def)

lemma starts_with_tab [simp]: "starts_with (''tab-'' @ x) ''tab-''"
  "starts_with (CHR ''t'' # CHR ''a'' # CHR ''b'' # CHR ''-'' # x) ''tab-''"
  by (simp_all add: starts_with_def)

text \<open>Opening a Tab without Panes under a reserved name, or focusing the one that is there.\<close>

lemma focus_or_inv:
  assumes "ws_inv s" "find_tab i (tabs s) = None \<Longrightarrow> ws_inv (f s)"
  shows "ws_inv (focus_or i f s)"
  using assms by (auto simp: focus_or_def ws_inv_def split: option.splits)

lemma find_tab_None: "find_tab i ts = None \<Longrightarrow> i \<notin> set (map tab_id ts)"
  by (auto simp: find_tab_def find_None_iff)

lemma open_surface_inv:
  assumes "ws_inv s" "\<forall>k. \<not> suffix (uuid (build s) k) x" "find_tab (''tab-'' @ x) (tabs s) = None"
    and "tab_ok t" "tab_id t = ''tab-'' @ x" "panes t = []" "build s' = build s"
    and "tabs s' = tabs s @ [t]" "storedLayouts s' = storedLayouts s"
  shows "ws_inv s'"
proof (rule push_inv [OF assms(1) _ assms(8,9,4)])
  show "tab_old (build s') t" using named_not_serial [OF assms(2)] assms(5,6,7) by (simp add: tab_old_def)
  show "tab_id t \<notin> set (map tab_id (tabs s))" using find_tab_None [OF assms(3)] assms(5) by simp
qed (use assms(7) in simp)

lemma state_simps [simp]:
  "tabs (push_tab t s) = tabs s @ [t]" "build (push_tab t s) = build s"
  "storedLayouts (push_tab t s) = storedLayouts s"
  "tabs (count_urls us s) = tabs s" "build (count_urls us s) = build s"
  "storedLayouts (count_urls us s) = storedLayouts s"
  by (simp_all add: push_tab_def count_urls_def)

lemma surface_tab_simps [simp]:
  "tab_id (surface_tab i title sub kind c s) = i" "panes (surface_tab i title sub kind c s) = []"
  by (simp_all add: surface_tab_def mk_tab_def)

lemma with_build_spec:
  "with_build f s = (r, s') \<Longrightarrow> f (build s) = (r, build s') \<and> s' = s\<lparr>build := build s'\<rparr>"
  by (auto simp: with_build_def split: prod.splits)

lemma with_build_same:
  "with_build f s = (r, s') \<Longrightarrow> tabs s' = tabs s \<and> storedLayouts s' = storedLayouts s
    \<and> activeWorkspaceId s' = activeWorkspaceId s"
  by (auto simp: with_build_def split: prod.splits)

lemma apart_suffix: "names_apart e c \<Longrightarrow> x \<in> set tab_suffixes \<Longrightarrow> \<forall>k. \<not> suffix (uuid e k) (conn_id c @ x)"
  by (simp add: names_apart_def)

lemma suffix_mem:
  "[] \<in> set tab_suffixes" "''-sftp'' \<in> set tab_suffixes" "''-ftp'' \<in> set tab_suffixes"
  "''-cloud-storage'' \<in> set tab_suffixes" "''-localFiles'' \<in> set tab_suffixes"
  "''-fileView'' \<in> set tab_suffixes"
  by (simp_all add: tab_suffixes_def)

lemma apart_conn_id: "names_apart e c \<Longrightarrow> \<forall>k. \<not> suffix (uuid e k) (conn_id c)"
  using apart_suffix [OF _ suffix_mem(1)] by simp

lemma openUrlConnection_inv:
  assumes "ws_inv s" "names_apart (build s) c"
  shows "ws_inv (openUrlConnection c s)"
  unfolding openUrlConnection_def Let_def using assms
  by (auto intro!: focus_or_inv open_surface_inv [where x = "conn_id c", OF assms(1) apart_conn_id [OF assms(2)]]
      surface_tab_ok)

lemma openSftpBrowser_inv:
  assumes "ws_inv s" "names_apart (build s) c"
  shows "ws_inv (openSftpBrowser c s)"
  unfolding openSftpBrowser_def Let_def using assms
  by (auto intro!: focus_or_inv
      open_surface_inv [where x = "conn_id c @ ''-sftp''", OF assms(1) apart_suffix [OF assms(2) suffix_mem(2)]]
      surface_tab_ok)

lemma sftp_conn_id [simp]: "conn_id (sftpBrowserConnectionFromFtpConnection c) = conn_id c"
  by (simp add: sftpBrowserConnectionFromFtpConnection_def)

lemma openFtpBrowser_inv:
  assumes "ws_inv s" "names_apart (build s) c"
  shows "ws_inv (openFtpBrowser c s)"
proof -
  have "names_apart (build s) (sftpBrowserConnectionFromFtpConnection c)"
    using assms(2) by (simp add: names_apart_def)
  then show ?thesis
    unfolding openFtpBrowser_def Let_def using assms
    by (auto intro!: focus_or_inv openSftpBrowser_inv
        open_surface_inv [where x = "conn_id c @ ''-ftp''", OF assms(1) apart_suffix [OF assms(2) suffix_mem(3)]]
        surface_tab_ok)
qed

lemma openCloudStorageBrowser_inv:
  assumes "ws_inv s" "names_apart (build s) c"
  shows "ws_inv (openCloudStorageBrowser c s)"
  unfolding openCloudStorageBrowser_def Let_def using assms
  by (auto intro!: focus_or_inv open_surface_inv [where x = "conn_id c @ ''-cloud-storage''",
        OF assms(1) apart_suffix [OF assms(2) suffix_mem(4)]] surface_tab_ok)

lemma openLocalFilesBrowser_inv:
  assumes "ws_inv s" "names_apart (build s) c"
  shows "ws_inv (openLocalFilesBrowser c s)"
  unfolding openLocalFilesBrowser_def Let_def using assms
  by (auto intro!: focus_or_inv open_surface_inv [where x = "conn_id c @ ''-localFiles''",
        OF assms(1) apart_suffix [OF assms(2) suffix_mem(5)]] surface_tab_ok)

lemma openFileViewer_inv:
  assumes "ws_inv s" "names_apart (build s) c"
  shows "ws_inv (openFileViewer c s)"
  unfolding openFileViewer_def Let_def using assms
  by (auto intro!: focus_or_inv open_surface_inv [where x = "conn_id c @ ''-fileView''",
        OF assms(1) apart_suffix [OF assms(2) suffix_mem(6)]] surface_tab_ok)

lemma single_pane_tab_simps [simp]:
  "tab_id (single_pane_tab i title tb sub c p s) = i" "panes (single_pane_tab i title tb sub c p s) = [p]"
  by (simp_all add: single_pane_tab_def mk_tab_def)

lemma single_pane_tab_ok:
  "starts_with i ''tab-'' \<Longrightarrow> tab_ok (single_pane_tab i title tb sub c p s)"
  using leafOrder_default [of "[p]"] by (auto simp: tab_ok_def single_pane_tab_def mk_tab_def)

lemma pane_id_fullscreen [simp]: "pane_id (set_startup_fullscreen b p) = pane_id p"
  by (simp add: set_startup_fullscreen_def split: workspace_pane.split)

lemma env_only_inv:
  "ws_inv s \<Longrightarrow> with_build f s = (r, s') \<Longrightarrow> env_leq (build s) (build s') \<Longrightarrow> ws_inv s'"
  using with_build_same [of f s r s'] tabs_inv_mono [of "build s" "build s'" "tabs s"]
  by (simp add: ws_inv_def)

lemma openRemoteDesktopConnection_inv:
  assumes "ws_inv s" "names_apart (build s) c"
  shows "ws_inv (openRemoteDesktopConnection c allow s)"
proof -
  have "ws_inv (case with_build (buildPaneForConnection c None None True) s of
      (None, s1) \<Rightarrow> s1
    | (Some p, s1) \<Rightarrow>
        (let pane = (if allow \<noteq> Some False
                     then set_startup_fullscreen (shouldOpenRemoteDesktopInFullscreen c s) p else p)
         in push_tab (single_pane_tab (''tab-'' @ conn_id c) (conn_name c)
              (toolbarTitleForConnection c) (remoteDesktopSubtitle c) c pane s) s1))"
    (is "ws_inv ?s'") if none: "find_tab (''tab-'' @ conn_id c) (tabs s) = None"
  proof -
    obtain r s1 where b: "with_build (buildPaneForConnection c None None True) s = (r, s1)" by fastforce
    note W = with_build_spec [OF b] and s1 = with_build_same [OF b]
    have le: "env_leq (build s) (build s1)" using buildPane_env W by blast
    show ?thesis
    proof (cases r)
      case None
      then have "?s' = s1" using b by simp
      then show ?thesis using env_only_inv [OF assms(1) b le] by simp
    next
      case (Some p)
      have n: "pane_new (build s) (build s1) (pane_id p)" using W Some buildPane_new by blast
      define q where "q = (if allow \<noteq> Some False
        then set_startup_fullscreen (shouldOpenRemoteDesktopInFullscreen c s) p else p)"
      let ?t = "single_pane_tab (''tab-'' @ conn_id c) (conn_name c) (toolbarTitleForConnection c)
          (remoteDesktopSubtitle c) c q s"
      have q: "pane_id q = pane_id p" "?s' = push_tab ?t s1"
        using b Some by (simp_all add: q_def)
      have sup: "uuid_supply (build s)" using assms(1) by (simp add: ws_inv_def tabs_inv_def)
      have "\<not> tab_serial (build s) k (''tab-'' @ conn_id c)" for k
        by (rule named_not_serial [OF apart_conn_id [OF assms(2)]])
      then have "tab_old (build s1) ?t"
        using pane_new_old [OF n sup le] q(1) serial_env(1) [of "build s1" "build s"] le
        by (simp add: tab_old_def env_leq_def)
      then show ?thesis unfolding q(2)
        by (intro push_inv [OF assms(1), where t = ?t])
          (use le s1 find_tab_None [OF none] in \<open>simp_all add: single_pane_tab_ok\<close>)
    qed
  qed
  then show ?thesis unfolding openRemoteDesktopConnection_def using assms(1)
    by (auto intro!: focus_or_inv)
qed

lemma tabId_starts: "createConnectionTabId c e = (i, e') \<Longrightarrow> starts_with i ''tab-''"
  by (auto simp: createConnectionTabId_def next_uuid_def)

lemma push_new_tab_inv:
  assumes "ws_inv s1" "with_build (createConnectionTabId cid) s1 = (i, s2)" "tab_ok t" "tab_id t = i"
    and "tabs s' = tabs s2 @ [t]" "build s' = build s2" "storedLayouts s' = storedLayouts s2"
    and "\<forall>p \<in> set (panes t). \<forall>k \<ge> uuid_pos (build s1). \<not> pane_serial (build s1) k (pane_id p)"
  shows "ws_inv s'"
proof -
  note W = with_build_spec [OF assms(2)] and same = with_build_same [OF assms(2)]
  have sup: "uuid_supply (build s1)" using assms(1) by (simp add: ws_inv_def tabs_inv_def)
  obtain k where C: "env_leq (build s1) (build s2)" "k = uuid_pos (build s1)" "tab_serial (build s1) k i"
    "\<forall>m \<ge> uuid_pos (build s2). \<not> tab_serial (build s2) m i"
    using createConnectionTabId_spec [of cid "build s1" i "build s2"] W sup by auto
  have "tab_id t \<notin> set (map tab_id (tabs s1))"
    using new_tab_id_notin [of "build s1" "tabs s1" k i] assms(1,4) C(2,3) by (simp add: ws_inv_def)
  moreover have "tab_old (build s2) t"
    using C(1,4) assms(4,8) serial_env(2) [of "build s2" "build s1"]
    by (auto simp: tab_old_def env_leq_def)
  ultimately show ?thesis
    using push_inv [OF assms(1), of s' t] C(1) same assms(3,5,6,7) by simp
qed

lemma mk_tab_ok:
  "kind \<noteq> KTerminal \<Longrightarrow> starts_with i ''tab-'' \<Longrightarrow> tab_ok (mk_tab i wid title tb sub kind [])"
  by (simp add: mk_tab_def tab_ok_def)

lemma tab_ok_cong:
  "tab_id t' = tab_id t \<Longrightarrow> panes t' = panes t \<Longrightarrow> layout t' = layout t \<Longrightarrow> focusedPaneId t' = focusedPaneId t
    \<Longrightarrow> tab_kind t' = tab_kind t \<Longrightarrow> tab_ok t \<Longrightarrow> tab_ok t'"
  by (simp add: tab_ok_def)

lemma openUrlInNewTab_inv: "ws_inv s \<Longrightarrow> ws_inv (openUrlInNewTab c url title sub s)"
proof -
  assume inv: "ws_inv s"
  obtain i s1 where w: "with_build (createConnectionTabId (conn_id c)) s = (i, s1)" by fastforce
  show ?thesis
  proof (cases "conn_type c \<noteq> CUrl \<or> trim url = []")
    case True
    then show ?thesis using inv by (simp add: openUrlInNewTab_def Let_def)
  next
    case False
    let ?tc = "c\<lparr>conn_url := Some (trim url)\<rparr>"
    let ?t = "(mk_tab i (activeWorkspaceId s) (nullish title (conn_name c)) (toolbarTitleForConnection c)
        (nullish sub (urlConnectionSubtitle (url_host s) ?tc)) KWebview [])
        \<lparr>tab_connection := Some ?tc, tab_url := Some (trim url), tab_dataPartition := conn_dataPartition c\<rparr>"
    have e: "openUrlInNewTab c url title sub s = count_urls [conn_id c] (push_tab ?t s1)"
      using False w by (simp add: openUrlInNewTab_def Let_def)
    have st: "starts_with i ''tab-''" using with_build_spec [OF w] tabId_starts by blast
    have "tab_ok (mk_tab i (activeWorkspaceId s) (nullish title (conn_name c)) (toolbarTitleForConnection c)
        (nullish sub (urlConnectionSubtitle (url_host s) ?tc)) KWebview [])"
      using st by (intro mk_tab_ok) simp_all
    then have "tab_ok ?t" by (rule tab_ok_cong [rotated -1]) simp_all
    then show ?thesis unfolding e
      by (intro push_new_tab_inv [OF inv w, of ?t]) (simp_all add: mk_tab_def)
  qed
qed

lemma push_new_surface_inv:
  assumes "ws_inv s" "with_build (createConnectionTabId cid) s = (i, s1)" "kind \<noteq> KTerminal"
  shows "ws_inv (push_tab (surface_tab i title sub kind c s) s1)"
proof -
  have st: "starts_with i ''tab-''" using with_build_spec [OF assms(2)] tabId_starts by blast
  show ?thesis
    by (rule push_new_tab_inv [OF assms(1,2) surface_tab_ok(3) [OF assms(3) st]]) simp_all
qed

lemma openSftpBrowserInNewTab_inv: "ws_inv s \<Longrightarrow> ws_inv (openSftpBrowserInNewTab c s)"
  by (auto simp: openSftpBrowserInNewTab_def intro: push_new_surface_inv split: prod.splits)

lemma openConnectionInNewTab_inv:
  assumes "ws_inv s"
  shows "ws_inv (openConnectionInNewTab c opts s)"
proof -
  let ?o = "nullish opts no_options"
  let ?po = "no_options\<lparr> opt_childConnectionId := opt_childConnectionId ?o,
                 opt_cwd := opt_cwd ?o, opt_fontSize := opt_fontSize ?o,
                 opt_textEncoding := opt_textEncoding ?o,
                 opt_terminalOpacity := opt_terminalOpacity ?o,
                 opt_terminalBackground := opt_terminalBackground ?o,
                 opt_title := nullish_opt (opt_tmuxSessionId ?o) (opt_title ?o),
                 opt_toolbarTitle := opt_toolbarTitle ?o, opt_tmuxSessionId := opt_tmuxSessionId ?o \<rparr>"
  let ?pc = "connectionWithPaneOptions c opts"
  consider (url) "conn_type c = CUrl" | (ext) "conn_type c = CFileView" "fileViewOpenExternal c = Some True"
    | (ftp) "conn_type c = CFtp"
    | (pane) "conn_type c \<noteq> CUrl" "\<not> (conn_type c = CFileView \<and> fileViewOpenExternal c = Some True)"
      "conn_type c \<noteq> CFtp" by blast
  then show ?thesis
  proof cases
    case url
    then show ?thesis using openUrlInNewTab_inv [OF assms] by (simp add: openConnectionInNewTab_def Let_def)
  next
    case ext
    then show ?thesis using assms by (simp add: openConnectionInNewTab_def Let_def)
  next
    case ftp
    then show ?thesis using openSftpBrowserInNewTab_inv [OF assms] push_new_surface_inv [OF assms]
      by (auto simp: openConnectionInNewTab_def Let_def split: prod.splits)
  next
    case pane
    obtain r s1 where b: "with_build (buildPaneForConnection ?pc None (Some ?po) (defaultUseTmuxSessions s)) s
        = (r, s1)" by fastforce
    have le: "env_leq (build s) (build s1)" using with_build_spec [OF b] buildPane_env by blast
    have inv1: "ws_inv s1" by (rule env_only_inv [OF assms b le])
    show ?thesis
    proof (cases r)
      case None
      then have "openConnectionInNewTab c opts s = s1"
        using pane b by (auto simp: openConnectionInNewTab_def Let_def)
      then show ?thesis using inv1 by simp
    next
      case (Some p)
      obtain i s2 where w: "with_build (createConnectionTabId (conn_id c)) s1 = (i, s2)" by fastforce
      let ?q = "set_startup_fullscreen (shouldOpenRemoteDesktopInFullscreen c s) p"
      let ?t0 = "single_pane_tab i (nullish (opt_title ?o) (conn_name c))
          (nullish (opt_toolbarTitle ?o) (toolbarTitleForConnection c))
          (if isRemoteDesktopConnection c then remoteDesktopSubtitle c
           else terminalConnectionSubtitle (local_label s) c) c ?q s"
      let ?t = "?t0\<lparr>tab_childConnectionId := opt_childConnectionId ?o, tab_connection := Some ?pc,
          tab_url := conn_url c, tab_dataPartition := conn_dataPartition c\<rparr>"
      have e: "openConnectionInNewTab c opts s = count_urls (urlConnectionIdsForTab ?t) (push_tab ?t s2)"
        by (simp add: openConnectionInNewTab_def Let_def pane(1,3) if_not_P [OF pane(2)] b Some w)
      have st: "starts_with i ''tab-''" using with_build_spec [OF w] tabId_starts by blast
      have ok: "tab_ok ?t" using single_pane_tab_ok [OF st] by (rule tab_ok_cong [rotated -1]) simp_all
      have "pane_new (build s) (build s1) (pane_id p)" using with_build_spec [OF b] Some buildPane_new by blast
      moreover have sup: "uuid_supply (build s)" using assms by (simp add: ws_inv_def tabs_inv_def)
      ultimately have "\<forall>k \<ge> uuid_pos (build s1). \<not> pane_serial (build s1) k (pane_id ?q)"
        using pane_new_old [OF _ sup le] by simp
      then show ?thesis unfolding e
        by (intro push_new_tab_inv [OF inv1 w ok]) simp_all
    qed
  qed
qed

lemma refresh_step: "tab_step (\<lambda>t e. let (t', e') = refreshTabConnectionMetadata ll c d t e in ((t', []), e'))"
  by (rule tab_stepI) (auto dest!: refresh_tab_ok split: prod.splits)

lemma map_env_pair:
  "map_env (\<lambda>t e. let (t', e') = f t e in ((t', []), e')) ts e
    = (let (us, e') = map_env f ts e in (map (\<lambda>u. (u, [])) us, e'))"
  by (induction ts arbitrary: e) (auto split: prod.splits)

lemma refresh_all_inv:
  assumes "tabs_inv (build s) (tabs s)"
    and "map_env (refreshTabConnectionMetadata ll c d) (tabs s) (build s) = (ts, b)"
  shows "env_leq (build s) b \<and> tabs_inv b ts \<and> map tab_id ts = map tab_id (tabs s)"
proof -
  have "map_env (\<lambda>t e. let (t', e') = refreshTabConnectionMetadata ll c d t e in ((t', []), e'))
      (tabs s) (build s) = (map (\<lambda>u. (u, [])) ts, b)"
    unfolding map_env_pair assms(2) by simp
  from map_env_tabs [OF refresh_step assms(1) this] show ?thesis by (simp add: o_def)
qed

lemma refreshOpenConnectionMetadata_inv: "ws_inv s \<Longrightarrow> ws_inv (refreshOpenConnectionMetadata c s)"
  using refresh_all_inv [of s] by (auto simp: refreshOpenConnectionMetadata_def ws_inv_def split: prod.splits)

lemma opened_tab_ok:
  assumes "uuid_supply e" "id_apart e c" "has_surface c" "\<forall>x. st = Some x \<longrightarrow> stored_ok x"
    and "buildPanesFromStoredLayout c st d e = (ps, e')" "panes t = ps" "tab_kind t = KTerminal"
    and "layout t = nullish_opt (Option.bind st (\<lambda>x. hydrateLayout (stored_layout x) (map pane_id ps)))
      (defaultLayoutFor ps)"
    and "focusedPaneId t = map_option pane_id (js_nth ps 0)" "starts_with (tab_id t) ''tab-''"
  shows "tab_ok t \<and> (\<forall>p \<in> set ps. \<forall>k \<ge> uuid_pos e'. \<not> pane_serial e' k (pane_id p)) \<and> env_leq e e'"
proof (intro conjI)
  have S: "env_leq e e'" "distinct (map pane_id ps)"
    "pane_id ` set ps \<subseteq> insert (''pane-'' @ conn_id c) (ids_from e (uuid_pos e) (uuid_pos e'))"
    using stored_layout_ids [OF assms(1,2,5)] by simp_all
  have len: "length ps = stored_pane_count st" by (rule length_stored_layout [OF assms(3,5)])
  then have ne: "ps \<noteq> []" by (auto simp: stored_pane_count_def)
  have nonempty: "\<forall>i \<in> set (map pane_id ps). i \<noteq> []"
    using S(3) by (auto simp: ids_from_def pane_serial_def)
  have lay: "mset (leaf_ids l) = mset (map pane_id ps)" if l: "layout t = Some l" for l
  proof (cases "Option.bind st (\<lambda>x. hydrateLayout (stored_layout x) (map pane_id ps))")
    case None
    then show ?thesis using l assms(8) leafOrder_default [of ps] by simp
  next
    case (Some h)
    then obtain x where x: "st = Some x" "hydrateLayout (stored_layout x) (map pane_id ps) = Some h"
      by (cases st) auto
    have ok: "stored_ok x" using assms(4) x by simp
    have n: "length (map pane_id ps) = nat (paneCount x)"
      using len x ok by (simp add: stored_pane_count_def stored_ok_def)
    show ?thesis using hydrate_tracks [OF ok n nonempty] x l assms(8) Some by simp
  qed
  have foc: "i \<in> pane_id ` set ps" if "focusedPaneId t = Some i" for i
    using that assms(9) by (auto dest: js_nth_SomeD)
  show "tab_ok t"
    unfolding tab_ok_def assms(6,7)
  proof (intro conjI allI impI)
    show "starts_with (tab_id t) ''tab-''" by (rule assms(10))
    show "distinct (map pane_id ps)" by (rule S(2))
  qed (use lay foc ne in simp_all)
  show "env_leq e e'" by (rule S(1))
  show "\<forall>p \<in> set ps. \<forall>k \<ge> uuid_pos e'. \<not> pane_serial e' k (pane_id p)"
  proof (intro ballI allI impI)
    fix p k assume p: "p \<in> set ps" and k: "uuid_pos e' \<le> k"
    have env: "pane_serial e' = pane_serial e" by (rule serial_env(2)) (use S(1) in \<open>simp add: env_leq_def\<close>)
    from p S(3) consider "pane_id p = ''pane-'' @ conn_id c" | m where "m < uuid_pos e'" "pane_serial e m (pane_id p)"
      by (auto simp: ids_from_def)
    then show "\<not> pane_serial e' k (pane_id p)"
    proof cases
      case 1
      then show ?thesis using base_not_generated [OF assms(2,1), of k "Suc k"] env by (auto simp: ids_from_def)
    next
      case 2
      then show ?thesis using pane_serial_unique [OF assms(1), of m _ k] k env by auto
    qed
  qed
qed

lemma openConnection_inv:
  assumes "ws_inv s" "names_apart (build s) c"
  shows "ws_inv (openConnection c allow s)"
proof (cases "is_single_surface c \<or> conn_type c = CCloudStorage")
  case True
  then show ?thesis
    using openUrlConnection_inv [OF assms] openRemoteDesktopConnection_inv [OF assms]
      openFtpBrowser_inv [OF assms] openCloudStorageBrowser_inv [OF assms]
      openLocalFilesBrowser_inv [OF assms] openFileViewer_inv [OF assms]
    by (auto simp: openConnection_def is_single_surface_def isRemoteDesktopConnection_def)
next
  case False
  let ?id = "''tab-'' @ conn_id c" and ?d = "defaultUseTmuxSessions s"
  have F: "conn_type c \<noteq> CUrl" "\<not> isRemoteDesktopConnection c" "conn_type c \<noteq> CFtp"
    "conn_type c \<noteq> CCloudStorage" "conn_type c \<noteq> CLocalFiles" "conn_type c \<noteq> CFileView"
    using False by (auto simp: is_single_surface_def)
  have sup: "uuid_supply (build s)" using assms(1) by (simp add: ws_inv_def tabs_inv_def)
  show ?thesis
  proof (cases "find_tab ?id (tabs s)")
    case (Some t)
    then have "openConnection c allow s = (let (ts, b) = map_env (refreshTabConnectionMetadata (local_label s) c ?d)
        (tabs s) (build s) in s\<lparr>tabs := ts, build := b, activeTabId := tab_id t\<rparr>)"
      using F unfolding openConnection_def by (simp only: Let_def if_False option.case)
    then show ?thesis using assms(1) refresh_all_inv [of s] by (auto simp: ws_inv_def split: prod.splits)
  next
    case None
    let ?st = "loadStoredLayout (conn_id c) s"
    obtain ps s1 where b: "with_build (buildPanesFromStoredLayout c ?st ?d) s = (ps, s1)" by fastforce
    note W = with_build_spec [OF b] and same = with_build_same [OF b]
    let ?h = "Option.bind ?st (\<lambda>st. hydrateLayout (stored_layout st) (map pane_id ps))"
    let ?t = "(mk_tab ?id (activeWorkspaceId s) (conn_name c) (toolbarTitleForConnection c)
        (terminalConnectionSubtitle (local_label s) c) KTerminal ps)
        \<lparr>layout := nullish_opt ?h (defaultLayoutFor ps), focusedPaneId := map_option pane_id (js_nth ps 0),
         quickCommandBarVisible := Some (loadStoredQuickCommandBarVisible (Some (conn_id c)) s),
         tab_connection := Some c\<rparr>"
    have e: "openConnection c allow s = push_tab ?t s1"
      using F None b unfolding openConnection_def by (simp add: Let_def)
    have "tab_ok ?t \<and> (\<forall>p \<in> set ps. \<forall>k \<ge> uuid_pos (build s1). \<not> pane_serial (build s1) k (pane_id p))
        \<and> env_leq (build s) (build s1)"
      by (rule opened_tab_ok [OF sup names_apart_id [OF assms(2)]])
        (use F W assms(1) in \<open>auto simp: has_surface_def ws_inv_def loadStoredLayout_def mk_tab_def\<close>)
    moreover have "\<not> tab_serial (build s) k ?id" for k
      by (rule named_not_serial [OF apart_conn_id [OF assms(2)]])
    ultimately have "tab_ok ?t" "tab_old (build s1) ?t" "env_leq (build s) (build s1)"
      using serial_env(1) [of "build s1" "build s"] by (auto simp: tab_old_def mk_tab_def env_leq_def)
    then show ?thesis unfolding e using find_tab_None [OF None] same
      by (intro push_inv [OF assms(1), where t = ?t]) (simp_all add: mk_tab_def)
  qed
qed

section \<open>The remaining operations\<close>

lemma panorama_inv: "ws_inv s \<Longrightarrow> ws_inv (openConnectionsInPanorama cs title s)"
proof -
  assume inv: "ws_inv s"
  let ?f = "\<lambda>c. buildPaneForConnection c None None (defaultUseTmuxSessions s)"
  obtain built s1 where b: "with_build (map_env ?f cs) s = (built, s1)" by fastforce
  have sup: "uuid_supply (build s)" using inv by (simp add: ws_inv_def tabs_inv_def)
  have step: "id_step (\<lambda>_. None) ?f" by (rule id_step_serial) (rule serial_buildPane)
  have "js_compact (map (\<lambda>_. None :: string option) cs) = []" by (auto simp: js_compact_Nil_iff)
  then have M: "env_leq (build s) (build s1)" "distinct (map pane_id (js_compact built))"
    "pane_id ` set (js_compact built) \<subseteq> ids_from (build s) (uuid_pos (build s)) (uuid_pos (build s1))"
    using map_env_ids [OF step sup, of cs built "build s1"] with_build_spec [OF b] by auto
  have inv1: "ws_inv s1" by (rule env_only_inv [OF inv b M(1)])
  show ?thesis
  proof (cases "js_compact built")
    case Nil
    then show ?thesis using inv1 b by (simp add: openConnectionsInPanorama_def)
  next
    case (Cons p ps')
    let ?ps = "js_compact built"
    obtain i s2 where w: "with_build (createConnectionTabId ''panorama'') s1 = (i, s2)" by fastforce
    let ?name = "trim_or title (nullish (map_option conn_name (pane_connection p)) [])"
    let ?t = "(mk_tab i (activeWorkspaceId s) ?name ?name [] KTerminal ?ps)
        \<lparr>layout := panoramaLayoutFor ?ps, focusedPaneId := Some (pane_id p), quickCommandBarVisible := Some False\<rparr>"
    have e: "openConnectionsInPanorama cs title s
        = count_urls (concat (map pane_url_ids ?ps)) (push_tab ?t s2)"
      using b Cons w by (simp add: openConnectionsInPanorama_def Let_def)
    have st: "starts_with i ''tab-''" using with_build_spec [OF w] tabId_starts by blast
    have "leafOrder (panoramaLayoutFor ?ps) = map pane_id ?ps" by (rule leafOrder_panorama)
    then have ok: "tab_ok ?t" using M(2) Cons st unfolding tab_ok_def by (auto simp: mk_tab_def)
    have "\<not> pane_serial (build s1) k (pane_id q)" if "q \<in> set ?ps" "uuid_pos (build s1) \<le> k" for q k
    proof -
      have "pane_new (build s) (build s1) (pane_id q)"
        using M(3) that(1) by (force simp: ids_from_def pane_new_def)
      then show ?thesis using sup M(1) that(2) by (rule pane_new_old)
    qed
    then show ?thesis unfolding e
      by (intro push_new_tab_inv [OF inv1 w ok]) (simp_all add: mk_tab_def)
  qed
qed

lemma apply_to_tabs_inv:
  assumes "ws_inv s" "tab_step f"
  shows "ws_inv (apply_to_tabs f s)"
proof -
  obtain rs s1 where b: "with_build (map_env f (tabs s)) s = (rs, s1)" by fastforce
  have "tabs_inv (build s1) (map fst rs)"
    using map_env_tabs [OF assms(2)] assms(1) with_build_spec [OF b] by (auto simp: ws_inv_def)
  then show ?thesis using assms(1) b with_build_same [OF b]
    by (simp add: apply_to_tabs_def ws_inv_def)
qed

lemma tabs_inv_map_on:
  "tabs_inv e ts \<Longrightarrow> (\<And>t. t \<in> set ts \<Longrightarrow> tab_ok t \<Longrightarrow> tab_old e t \<Longrightarrow>
      tab_id (f t) = tab_id t \<and> tab_ok (f t) \<and> tab_old e (f t)) \<Longrightarrow> tabs_inv e (map f ts)"
  by (auto simp: tabs_inv_def o_def cong: map_cong)

lemma update_tab_inv:
  assumes "ws_inv s"
    and "\<And>t. t \<in> set (tabs s) \<Longrightarrow> tab_id t = i \<Longrightarrow> tab_ok t \<Longrightarrow> tab_old (build s) t \<Longrightarrow>
      tab_id (f t) = tab_id t \<and> tab_ok (f t) \<and> tab_old (build s) (f t)"
  shows "ws_inv (update_tab i f s)"
  using assms tabs_inv_map_on [of "build s" "tabs s" "\<lambda>t. if tab_id t = i then f t else t"]
  by (simp add: ws_inv_def update_tab_def map_where_def)

lemma update_terminal_inv:
  assumes "ws_inv s" "\<And>p. tp_id (f p) = tp_id p"
  shows "ws_inv (update_terminal tabId i f s)"
  unfolding update_terminal_def
  by (rule update_tab_inv [OF assms(1)])
    (use update_pane_update [OF assms(2), of _ i] in \<open>auto simp: tab_update_def\<close>)

text \<open>A pass over the Tabs that updates some and drops others.\<close>

lemma tabs_inv_shrink:
  assumes "tabs_inv e ts"
    and "\<And>t t'. t \<in> set ts \<Longrightarrow> f t = Some t' \<Longrightarrow> tab_ok t \<Longrightarrow> tab_old e t \<Longrightarrow>
      tab_id t' = tab_id t \<and> tab_ok t' \<and> tab_old e t'"
  shows "tabs_inv e (js_compact (map f ts)) \<and> set (map tab_id (js_compact (map f ts))) \<subseteq> set (map tab_id ts)"
  using assms
proof (induction ts)
  case Nil
  then show ?case by simp
next
  case (Cons t ts)
  have ok: "tabs_inv e ts" "tab_ok t" "tab_old e t" "tab_id t \<notin> set (map tab_id ts)"
    using Cons.prems(1) by (simp_all add: tabs_inv_def)
  have IH: "tabs_inv e (js_compact (map f ts)) \<and> set (map tab_id (js_compact (map f ts))) \<subseteq> set (map tab_id ts)"
    by (rule Cons.IH [OF ok(1)], rule Cons.prems(2)) simp_all
  show ?case
  proof (cases "f t")
    case None
    then show ?thesis using IH by (simp add: subset_insertI2)
  next
    case (Some t')
    then have t': "tab_id t' = tab_id t" "tab_ok t'" "tab_old e t'"
      using Cons.prems(2) [of t t'] ok by simp_all
    have "tab_id t \<notin> set (map tab_id (js_compact (map f ts)))" using IH ok(4) by blast
    then show ?thesis using IH Some t' by (simp add: tabs_inv_def subset_insertI2)
  qed
qed

lemma close_child_state:
  "tabs_inv e ts \<Longrightarrow> tabs_inv e (js_compact (map (close_child_tab cid) ts))"
  using tabs_inv_shrink [of e ts "close_child_tab cid"] close_child_ok by blast

lemma closeChildConnection_inv: "ws_inv s \<Longrightarrow> ws_inv (closeChildConnection cid s)"
  by (simp add: ws_inv_def closeChildConnection_def Let_def close_child_state)

lemma closeTab_inv: "ws_inv s \<Longrightarrow> ws_inv (closeTab i s)"
  by (simp add: ws_inv_def closeTab_def Let_def tabs_inv_filter)

lemma closePane_inv:
  assumes "ws_inv s"
  shows "ws_inv (closePane i j s)"
proof (cases "find_tab i (tabs s)")
  case None
  then show ?thesis using assms by (simp add: closePane_def)
next
  case (Some t)
  then have t: "t \<in> set (tabs s)" "tab_id t = i" by (auto dest: find_tab_SomeD)
  have d: "distinct (map tab_id (tabs s))" using assms by (simp add: ws_inv_def tabs_inv_def)
  let ?ps = "filter (\<lambda>p. pane_id p \<noteq> j) (panes t)"
  let ?lay = "ensureLayout (layout t) ?ps"
  let ?f = "\<lambda>x. x\<lparr>panes := ?ps, layout := ?lay,
      focusedPaneId := if focusedPaneId t = Some j then focus_after ?lay ?ps else focusedPaneId t\<rparr>"
  have upd: "ws_inv (update_tab i ?f s)" if k: "tab_kind t = KTerminal" and l: "\<not> length (panes t) \<le> 1"
  proof (rule update_tab_inv [OF assms])
    fix x assume x: "x \<in> set (tabs s)" "tab_id x = i" "tab_ok x" "tab_old (build s) x"
    then have xt: "x = t" using t d by (metis find_tab_unique option.inject)
    have "tab_ok (?f t) \<and> tab_old (build s) (?f t)"
      by (rule close_pane_ok) (use x xt k l in simp_all)
    then show "tab_id (?f x) = tab_id x \<and> tab_ok (?f x) \<and> tab_old (build s) (?f x)"
      unfolding xt by (intro conjI) (simp, (erule conjunct1 conjunct2)+)
  qed
  have "ws_inv s' \<Longrightarrow> ws_inv (s'\<lparr>activeSessionCounts := m, syncInputEnabled := b\<rparr>)" for s' m b
    by (simp add: ws_inv_def)
  then show ?thesis using Some assms upd closeChildConnection_inv [OF assms] closeTab_inv [OF assms]
    by (simp add: closePane_def Let_def)
qed

lemma found_ids:
  "(\<And>x. x \<in> set xs \<Longrightarrow> map_option pane_id (f x) = Some x) \<Longrightarrow> map pane_id (js_compact (map f xs)) = xs"
proof (induction xs)
  case Nil
  then show ?case by simp
next
  case (Cons a xs)
  have "map_option pane_id (f a) = Some a" by (rule Cons.prems) simp
  then obtain z where z: "f a = Some z" "pane_id z = a" by blast
  have "map pane_id (js_compact (map f xs)) = xs" by (rule Cons.IH) (rule Cons.prems, simp)
  then show ?case using z by simp
qed

lemma saveTabLayout_inv:
  assumes "ws_inv s"
  shows "ws_inv (saveTabLayout i s)"
proof (cases "find_tab i (tabs s)")
  case None
  then show ?thesis using assms by (simp add: saveTabLayout_def)
next
  case (Some t)
  have ok: "tab_ok t" using Some assms by (auto dest!: find_tab_SomeD simp: ws_inv_def tabs_inv_def)
  let ?ps = "panes t"
  show ?thesis
  proof (cases "\<exists>c l. tab_connection t = Some c \<and> ensureLayout (layout t) ?ps = Some l")
    case False
    then show ?thesis using Some assms by (auto simp: saveTabLayout_def split: option.splits)
  next
    case True
    then obtain c l where c: "tab_connection t = Some c" and l: "ensureLayout (layout t) ?ps = Some l" by blast
    have m: "mset (leaf_ids l) = mset (map pane_id ?ps)"
      using ensure_mset [OF tab_okD(1,2) [OF ok]] l by simp
    let ?found = "js_compact (map (\<lambda>i. pane_in t (Some i)) (leaf_ids l))"
    let ?ordered = "filter (\<lambda>p. pane_connection p \<noteq> None) ?found"
    have "map pane_id ?found = leaf_ids l"
    proof -
      have "map_option pane_id (pane_in t (Some x)) = Some x" if "x \<in> set (leaf_ids l)" for x
      proof -
        have "x \<in> pane_id ` set ?ps" using that m by (metis mset_eq_setD set_map)
        then have "pane_in t (Some x) \<noteq> None" by (auto simp: pane_in_def find_None_iff)
        then show ?thesis by (auto simp: pane_in_def dest: find_SomeD)
      qed
      then show ?thesis by (rule found_ids)
    qed
    then have "stored_ok st" if "length ?ordered = length ?ps" "serializeLayout l ?ordered = Some st" for st
    proof -
      have "length ?found = length ?ps"
        using \<open>map pane_id ?found = leaf_ids l\<close> m by (metis length_map size_mset)
      then have "?ordered = ?found" using that(1) by (metis filter_True length_filter_less nat_neq_iff)
      then have "map pane_id ?ordered = leaf_ids l" using \<open>map pane_id ?found = leaf_ids l\<close> by simp
      moreover have "distinct (leaf_ids l)" using m tab_okD(1) [OF ok] by (metis mset_eq_imp_distinct_iff)
      ultimately show ?thesis by (intro serialize_ok [OF _ _ that(2)]) simp_all
    qed
    then show ?thesis using Some c l assms
      by (auto simp: saveTabLayout_def Let_def ws_inv_def persistLayout_def)
  qed
qed

lemma initial_state_inv: "ws_inv initial_state"
  using sample_supply(1) by (simp add: ws_inv_def tabs_inv_def initial_state_def)

end
