(* ===== verification/Workspace_Children.thy ===== *)
theory Workspace_Children
  imports Workspace_Invariant
begin

text \<open>
  Child Connections: \<open>src/modules/workspace/connections/childConnections.ts\<close> (the saved list,
  its upkeep from the open Tabs, what a group Tab keeps) and the operations of \<open>src/store.ts\<close>
  that show the children of a Connection as Panes of one group Tab, moving the Panes that are
  open elsewhere in the Workspace into it.

  The saved list is an argument and, where it is written, a result.  \<open>markPanesForRuntimeMove\<close>
  belongs to the Pane registry: an operation that calls it returns the ids it marks.
\<close>

section \<open>Definitions\<close>

subsection \<open>The saved list\<close>

definition isStoredChildConnection :: "workspace_child_connection \<Rightarrow> bool" where
  "isStoredChildConnection child =
     (trim (child_id child) \<noteq> [] \<and> trim (parentConnectionId child) \<noteq> [] \<and> trim (child_name child) \<noteq> [])"

definition loadStoredChildConnections :: "workspace_child_connection list \<Rightarrow> workspace_child_connection list"
where
  "loadStoredChildConnections stored = filter isStoredChildConnection stored"

text \<open>The list is written back only when an entry goes away.\<close>

definition pruneChildConnectionsForParent :: "string \<Rightarrow> workspace_child_connection list
    \<Rightarrow> workspace_child_connection list" where
  "pruneChildConnectionsForParent parent stored =
     (let children = loadStoredChildConnections stored;
          next = filter (\<lambda>c. parentConnectionId c \<noteq> parent) children
      in if length next \<noteq> length children then next else stored)"

subsection \<open>Upkeep from the open Tabs\<close>

text \<open>A \<open>Map\<close> filled by a loop: later entries replace earlier ones, or the first one stays.\<close>

definition index_last :: "('a \<Rightarrow> string option) \<Rightarrow> 'a list \<Rightarrow> string \<Rightarrow> 'a option" where
  "index_last key xs i = find (\<lambda>x. key x = Some i) (rev xs)"

definition index_first :: "('a \<Rightarrow> string option) \<Rightarrow> 'a list \<Rightarrow> string \<Rightarrow> 'a option" where
  "index_first key xs i = find (\<lambda>x. key x = Some i) xs"

definition all_panes :: "workspace_tab list \<Rightarrow> workspace_pane list" where
  "all_panes ts = concat (map panes ts)"

definition child_key :: "workspace_pane \<Rightarrow> string option" where
  "child_key p = (if truthy_str (pane_childConnectionId p) then pane_childConnectionId p else None)"

definition join_null :: "'a option option \<Rightarrow> 'a option" where
  "join_null v = Option.bind v (\<lambda>x. x)"

definition backgroundsEqual :: "json option option \<Rightarrow> json option option \<Rightarrow> bool" where
  "backgroundsEqual l r = (join_null l = join_null r)"

definition sync_child :: "workspace_child_connection \<Rightarrow> terminal_pane \<Rightarrow> workspace_child_connection" where
  "sync_child child p =
     (let dir = trim (cwd p);
          op = Option.bind (tp_connection p) terminalOpacity;
          bg = nullish_opt (tp_terminalBackground p) (Option.bind (tp_connection p) conn_terminalBackground);
          cwdChanged = (dir \<noteq> [] \<and> child_cwd child \<noteq> Some dir)
      in if \<not> cwdChanged \<and> child_fontSize child = fontSize p \<and> child_textEncoding child = textEncoding p
            \<and> child_terminalOpacity child = op \<and> backgroundsEqual (child_terminalBackground child) bg
         then child
         else child\<lparr> child_cwd := (if cwdChanged then Some dir else child_cwd child),
                child_fontSize := fontSize p, child_textEncoding := textEncoding p,
                child_terminalOpacity := op, child_terminalBackground := bg \<rparr>)"

definition syncChildConnectionsFromTabs :: "workspace_child_connection list \<Rightarrow> workspace_tab list
    \<Rightarrow> workspace_child_connection list" where
  "syncChildConnectionsFromTabs children ts =
     map (\<lambda>child. case index_last child_key (all_panes ts) (child_id child) of
            Some (TerminalPane p) \<Rightarrow> sync_child child p
          | _ \<Rightarrow> child) children"

definition isTerminalConnectionType :: "connection \<Rightarrow> bool" where
  "isTerminalConnectionType c = (conn_type c \<in> {CLocal, CSsh, CTelnet, CSerial})"

text \<open>\<open>a || b\<close> on strings.\<close>

definition or_str :: "string \<Rightarrow> string \<Rightarrow> string" where
  "or_str a b = (if a = [] then b else a)"

definition convertedChildName :: "workspace_tab \<Rightarrow> terminal_pane \<Rightarrow> string" where
  "convertedChildName tab p =
     or_str (nullish (tmuxSessionId p) [])
       (or_str (case displayTitle tab of Some (Some t) \<Rightarrow> trim t | _ \<Rightarrow> [])
         (or_str (trim (tab_title tab))
           (or_str (case tp_connection p of Some c \<Rightarrow> conn_name c | None \<Rightarrow> []) (tp_title p))))"

definition converted_child :: "string \<Rightarrow> workspace_tab \<Rightarrow> terminal_pane \<Rightarrow> connection
    \<Rightarrow> workspace_child_connection" where
  "converted_child wid tab p c =
     \<lparr>child_id = tp_id p, child_workspaceId = Some wid, parentConnectionId = conn_id c,
      child_name = or_str (trim (convertedChildName tab p)) (conn_name c), fileViewPath = None,
      child_tmuxSessionId = tmuxSessionId p, child_cwd = trim_opt (cwd p),
      child_fontSize = fontSize p, child_textEncoding = None,
      child_terminalOpacity = terminalOpacity c,
      child_terminalBackground = nullish_opt (tp_terminalBackground p) (conn_terminalBackground c),
      child_iconColor = iconColor c, child_iconDataUrl = iconDataUrl c,
      child_iconBackgroundColor = iconBackgroundColor c\<rparr>"

text \<open>The child a Pane of this Tab is converted to, when it is a plain terminal Pane.\<close>

definition convertible :: "string \<Rightarrow> workspace_tab \<Rightarrow> workspace_pane \<Rightarrow> workspace_child_connection option"
where
  "convertible wid tab pane =
     (case pane of
        TerminalPane p \<Rightarrow>
          (if truthy_str (tp_childConnectionId p) then None
           else case tp_connection p of
             Some c \<Rightarrow> (if isTerminalConnectionType c then Some (converted_child wid tab p c) else None)
           | None \<Rightarrow> None)
      | _ \<Rightarrow> None)"

definition convertible_panes :: "workspace_tab list \<Rightarrow> string \<Rightarrow> workspace_child_connection list" where
  "convertible_panes ts wid =
     concat (map (\<lambda>tab. if tab_kind tab \<noteq> KTerminal \<or> tabWorkspaceId (Some tab) \<noteq> wid then []
       else js_compact (map (convertible wid tab) (panes tab))) ts)"

text \<open>The loop: an entry whose id is taken, by then or before, is skipped.\<close>

definition add_new_child :: "workspace_child_connection \<Rightarrow> workspace_child_connection list
    \<Rightarrow> workspace_child_connection list" where
  "add_new_child child next =
     (if child_id child \<in> set (map child_id next) then next else next @ [child])"

definition convertOpenTabsToChildConnections :: "workspace_child_connection list \<Rightarrow> workspace_tab list
    \<Rightarrow> string \<Rightarrow> workspace_child_connection list" where
  "convertOpenTabsToChildConnections children ts wid =
     fold add_new_child (convertible_panes ts wid) children"

subsection \<open>What a group Tab keeps\<close>

definition collectPreservedParentPanes :: "workspace_tab option \<Rightarrow> string list
    \<Rightarrow> workspace_pane list \<times> workspace_pane list" where
  "collectPreservedParentPanes gtab excluded =
     ((case gtab of
         None \<Rightarrow> []
       | Some t \<Rightarrow> filter (\<lambda>p. \<not> truthy_str (pane_childConnectionId p) \<and> pane_id p \<notin> set excluded) (panes t)), [])"

definition focusedPaneIdForChildLayout :: "workspace_tab option \<Rightarrow> workspace_pane list \<Rightarrow> string option"
where
  "focusedPaneIdForChildLayout gtab ps =
     (let f = Option.bind gtab focusedPaneId
      in if truthy_str f \<and> nullish f [] \<in> set (map pane_id ps) then f else None)"

definition isChildConnectionRowActive :: "string \<Rightarrow> string option \<Rightarrow> workspace_tab option \<Rightarrow> bool" where
  "isChildConnectionRowActive activeTab paneId tab =
     (case tab of
        None \<Rightarrow> False
      | Some t \<Rightarrow>
          (if tab_id t \<noteq> activeTab then False
           else if \<not> truthy_str paneId then True
           else if truthy_str (childConnectionGroupParentId t) then maximizedPaneId t = paneId
           else focusedPaneId t = paneId))"

subsection \<open>A Pane dressed as a child\<close>

text \<open>\<open>{ ...pane, childConnectionId, connection, title, toolbarTitle }\<close>.\<close>

fun dress_pane :: "string \<Rightarrow> connection \<Rightarrow> string \<Rightarrow> string \<Rightarrow> workspace_pane \<Rightarrow> workspace_pane" where
  "dress_pane i c t tb (TerminalPane p) = TerminalPane (p\<lparr>tp_childConnectionId := Some i,
     tp_connection := Some c, tp_title := t, tp_toolbarTitle := Some tb\<rparr>)"
| "dress_pane i c t tb (UrlPane p) = UrlPane (p\<lparr>up_childConnectionId := Some i,
     up_connection := c, up_title := t, up_toolbarTitle := Some tb\<rparr>)"
| "dress_pane i c t tb (RemoteDesktopPane p) = RemoteDesktopPane (p\<lparr>rp_childConnectionId := Some i,
     rp_connection := c, rp_title := t, rp_toolbarTitle := Some tb\<rparr>)"
| "dress_pane i c t tb (FileBrowserPane p) = FileBrowserPane (p\<lparr>fp_childConnectionId := Some i,
     fp_connection := c, fp_title := t, fp_toolbarTitle := Some tb\<rparr>)"
| "dress_pane i c t tb (FileViewerPane p) = FileViewerPane (p\<lparr>vp_childConnectionId := Some i,
     vp_connection := c, vp_title := t, vp_toolbarTitle := Some tb\<rparr>)"

text \<open>A Pane already open for the child; \<open>fontSize\<close> and \<open>textEncoding\<close> are read from terminal
  Panes only.\<close>

definition as_child :: "connection \<Rightarrow> workspace_child_connection \<Rightarrow> workspace_pane \<Rightarrow> workspace_pane" where
  "as_child c child pane =
     on_terminal (\<lambda>p. p\<lparr>fontSize := nullish_opt (child_fontSize child) (fontSize p),
                        textEncoding := nullish_opt (child_textEncoding child) (textEncoding p)\<rparr>)
       (dress_pane (child_id child) (connectionForChild c child)
          (nullish (child_tmuxSessionId child) (child_name child)) (child_name child) pane)"

definition child_pane_options :: "workspace_child_connection \<Rightarrow> pane_options" where
  "child_pane_options child =
     no_options\<lparr> opt_childConnectionId := Some (child_id child), opt_cwd := child_cwd child,
       opt_fontSize := child_fontSize child, opt_textEncoding := child_textEncoding child,
       opt_terminalOpacity := child_terminalOpacity child,
       opt_terminalBackground := child_terminalBackground child,
       opt_title := Some (nullish (child_tmuxSessionId child) (child_name child)),
       opt_toolbarTitle := Some (child_name child), opt_tmuxSessionId := child_tmuxSessionId child \<rparr>"

subsection \<open>The group Tab of a Connection\<close>

definition find_group_tab :: "string \<Rightarrow> string \<Rightarrow> workspace_tab list \<Rightarrow> workspace_tab option" where
  "find_group_tab parent wid ts =
     find (\<lambda>t. childConnectionGroupParentId t = Some parent \<and> tabWorkspaceId (Some t) = wid) ts"

fun keep_first :: "('a \<Rightarrow> 'k) \<Rightarrow> 'a list \<Rightarrow> 'a list" where
  "keep_first f [] = []"
| "keep_first f (x # xs) = x # filter (\<lambda>y. f y \<noteq> f x) (keep_first f xs)"

text \<open>The child a Pane stands for: the one it carries, or the one named after a plain Pane.\<close>

definition is_plain :: "workspace_pane \<Rightarrow> bool" where
  "is_plain p = (\<not> truthy_str (pane_childConnectionId p))"

definition child_of_pane :: "string \<Rightarrow> string list \<Rightarrow> workspace_pane \<Rightarrow> string option" where
  "child_of_pane parent ids p =
     (if \<not> is_plain p then
        (if nullish (pane_childConnectionId p) [] \<in> set ids then pane_childConnectionId p else None)
      else if map_option conn_id (pane_connection p) = Some parent \<and> pane_id p \<in> set ids
      then Some (pane_id p) else None)"

definition group_pane_of :: "string \<Rightarrow> string list \<Rightarrow> workspace_tab option \<Rightarrow> string \<Rightarrow> workspace_pane option"
where
  "group_pane_of parent ids gtab i =
     (case gtab of None \<Rightarrow> None | Some t \<Rightarrow> index_last (child_of_pane parent ids) (panes t) i)"

text \<open>The Panes of the other Tabs of the Workspace.\<close>

definition external_panes :: "workspace_tab option \<Rightarrow> string \<Rightarrow> workspace_tab list \<Rightarrow> workspace_pane list"
where
  "external_panes gtab wid ts =
     all_panes (filter (\<lambda>t. Some (tab_id t) \<noteq> map_option tab_id gtab \<and> tabWorkspaceId (Some t) = wid) ts)"

definition external_pane_of :: "string \<Rightarrow> string list \<Rightarrow> workspace_tab option \<Rightarrow> string \<Rightarrow> workspace_tab list
    \<Rightarrow> string \<Rightarrow> workspace_pane option" where
  "external_pane_of parent ids gtab wid ts i =
     (if i = [] then None else index_first (child_of_pane parent ids) (external_panes gtab wid ts) i)"

text \<open>Whether a plain Pane is about to become a child (\<open>convertedPlainPaneIds\<close> is not empty).\<close>

definition converts_plain :: "string \<Rightarrow> string list \<Rightarrow> workspace_tab option \<Rightarrow> string \<Rightarrow> workspace_tab list
    \<Rightarrow> bool" where
  "converts_plain parent ids gtab wid ts =
     ((case gtab of None \<Rightarrow> False
       | Some t \<Rightarrow> list_ex (\<lambda>p. is_plain p \<and> child_of_pane parent ids p \<noteq> None) (panes t))
      \<or> list_ex (\<lambda>i. case external_pane_of parent ids gtab wid ts i of
           Some p \<Rightarrow> is_plain p | None \<Rightarrow> False) ids)"

definition child_pane :: "connection \<Rightarrow> bool \<Rightarrow> (string \<Rightarrow> workspace_pane option)
    \<Rightarrow> workspace_child_connection \<Rightarrow> build_env \<Rightarrow> workspace_pane option \<times> build_env" where
  "child_pane c d existing child e =
     (case existing (child_id child) of
        Some p \<Rightarrow> (Some (as_child c child p), e)
      | None \<Rightarrow> buildPaneForConnection (connectionForChild c child) None (Some (child_pane_options child)) d e)"

text \<open>What happens to another Tab that loses the moved Panes.\<close>

definition lose_panes :: "string list \<Rightarrow> string list \<Rightarrow> workspace_tab \<Rightarrow> workspace_tab option" where
  "lose_panes ids moved t =
     (let nextPanes = filter (\<lambda>p. pane_id p \<notin> set moved) (panes t);
          nextLayout = ensureLayout (layout t) nextPanes
      in if length nextPanes = length (panes t) then Some t
         else if nextPanes = [] then None
         else Some (t\<lparr>
           tab_childConnectionId :=
             (if truthy_str (tab_childConnectionId t) \<and> nullish (tab_childConnectionId t) [] \<in> set ids
              then None else tab_childConnectionId t),
           panes := nextPanes, layout := nextLayout,
           focusedPaneId := (if truthy_str (focusedPaneId t) \<and> nullish (focusedPaneId t) [] \<in> set moved
             then focus_after nextLayout nextPanes else focusedPaneId t)\<rparr>))"

definition group_tab :: "connection \<Rightarrow> workspace_tab option \<Rightarrow> string \<Rightarrow> bool \<Rightarrow> workspace_pane list
    \<Rightarrow> workspace_state \<Rightarrow> workspace_tab" where
  "group_tab c gtab tabId converts ps s =
     (case gtab of
        Some t \<Rightarrow> t
      | None \<Rightarrow> mk_tab tabId (activeWorkspaceId s) [] [] [] KTerminal [])
     \<lparr> tab_id := tabId, tab_workspaceId := Some (activeWorkspaceId s),
       childConnectionGroupParentId := Some (conn_id c), tab_title := conn_name c,
       tab_toolbarTitle := Some (toolbarTitleForConnection c),
       subtitle := terminalConnectionSubtitle (local_label s) c, tab_kind := KTerminal, panes := ps,
       layout := (case gtab of
           Some t \<Rightarrow> (if converts then childConnectionGroupLayout ps else ensureLayout (layout t) ps)
         | None \<Rightarrow> childConnectionGroupLayout ps),
       focusedPaneId := focusedPaneIdForChildLayout gtab ps, maximizedPaneId := None,
       quickCommandBarVisible := Some (nullish (Option.bind gtab quickCommandBarVisible)
         (loadStoredQuickCommandBarVisible (Some (conn_id c)) s)),
       tab_connection := Some c \<rparr>"

definition place_group :: "workspace_tab option \<Rightarrow> string list \<Rightarrow> string list \<Rightarrow> workspace_tab
    \<Rightarrow> workspace_tab list \<Rightarrow> workspace_tab list" where
  "place_group gtab ids moved tab ts =
     js_compact (map (\<lambda>t. if tab_id t = tab_id tab then Some tab else lose_panes ids moved t) ts)
       @ (if gtab = None then [tab] else [])"

definition openChildConnectionLayout :: "connection \<Rightarrow> workspace_child_connection list
    \<Rightarrow> workspace_state \<Rightarrow> string list \<times> workspace_state" where
  "openChildConnectionLayout c children s =
     (let wid = activeWorkspaceId s;
          gtab = find_group_tab (conn_id c) wid (tabs s);
          uniq = keep_first child_id children;
          ids = map child_id uniq;
          grouped = group_pane_of (conn_id c) ids gtab;
          external = external_pane_of (conn_id c) ids gtab wid (tabs s);
          (built, s1) = with_build (map_env (child_pane c (defaultUseTmuxSessions s)
             (\<lambda>i. nullish_opt (grouped i) (external i))) uniq) s;
          moved1 = js_compact (map (\<lambda>i. if grouped i = None then map_option pane_id (external i) else None) ids);
          newPanes = js_compact (map (\<lambda>(i, p). if grouped i = None \<and> external i = None then p else None)
            (zip ids built));
          named = js_compact built;
          (carried, adopted) = collectPreservedParentPanes gtab (moved1 @ map pane_id named);
          moved = moved1 @ map pane_id adopted;
          ps = named @ carried @ adopted
      in if ps = [] then ([], openConnection c None s1)
         else let (tabId, s2) = (case gtab of
                    Some t \<Rightarrow> (tab_id t, s1)
                  | None \<Rightarrow> with_build (createConnectionTabId (conn_id c @ ''-children'')) s1);
                  tab = group_tab c gtab tabId (converts_plain (conn_id c) ids gtab wid (tabs s)) ps s
              in (map pane_id (filter (\<lambda>p. pane_id p \<in> set moved \<and> isTerminalPane p) ps),
                  count_urls (concat (map pane_url_ids newPanes))
                    (s2\<lparr>tabs := place_group gtab ids moved tab (tabs s2), activeTabId := tab_id tab\<rparr>)))"

text \<open>Opening the children of a Connection and showing one of them alone.\<close>

definition show_child :: "string \<Rightarrow> string \<Rightarrow> string \<Rightarrow> workspace_state \<Rightarrow> workspace_state" where
  "show_child parent wid childId s =
     (case find_group_tab parent wid (tabs s) of
        None \<Rightarrow> s
      | Some t \<Rightarrow>
          (case find (\<lambda>p. pane_childConnectionId p = Some childId) (panes t) of
             None \<Rightarrow> s
           | Some p \<Rightarrow> maximizeChildConnectionPane (tab_id t) (pane_id p) s))"

definition open_children :: "connection \<Rightarrow> workspace_tab option \<Rightarrow> workspace_child_connection
    \<Rightarrow> workspace_child_connection list \<Rightarrow> string \<Rightarrow> workspace_child_connection list" where
  "open_children c gtab child stored wid =
     keep_first child_id
       ((case gtab of
           None \<Rightarrow> []
         | Some t \<Rightarrow> js_compact (map (\<lambda>p.
             if \<not> truthy_str (pane_childConnectionId p) then None
             else nullish_opt (index_last (\<lambda>x. Some (child_id x)) stored (nullish (pane_childConnectionId p) []))
                    (childConnectionFromOpenPane c p wid)) (panes t))) @ [child])"

definition openChildConnection :: "connection \<Rightarrow> workspace_child_connection
    \<Rightarrow> workspace_child_connection list \<Rightarrow> workspace_state \<Rightarrow> string list \<times> workspace_state" where
  "openChildConnection c child stored s =
     (let wid = activeWorkspaceId s;
          loaded = loadStoredChildConnections stored;
          saved = filter (\<lambda>x. parentConnectionId x = conn_id c
                    \<and> nullish (child_workspaceId x) DEFAULT_WORKSPACE_ID = wid) loaded;
          children =
            (if conn_type c = CLocalFiles then
               (if \<exists>x \<in> set saved. child_id x = child_id child then saved else [child])
             else open_children c (find_group_tab (conn_id c) wid (tabs s)) child loaded wid);
          (marked, s1) = openChildConnectionLayout c children s
      in (marked, show_child (conn_id c) wid (child_id child) s1))"


subsection \<open>Presentation of children and Connections in open Tabs\<close>

fun map_pane_connection :: "(connection \<Rightarrow> connection) \<Rightarrow> workspace_pane \<Rightarrow> workspace_pane" where
  "map_pane_connection f (TerminalPane p) = TerminalPane (p\<lparr>tp_connection := map_option f (tp_connection p)\<rparr>)"
| "map_pane_connection f (UrlPane p) = UrlPane (p\<lparr>up_connection := f (up_connection p)\<rparr>)"
| "map_pane_connection f (RemoteDesktopPane p) = RemoteDesktopPane (p\<lparr>rp_connection := f (rp_connection p)\<rparr>)"
| "map_pane_connection f (FileBrowserPane p) = FileBrowserPane (p\<lparr>fp_connection := f (fp_connection p)\<rparr>)"
| "map_pane_connection f (FileViewerPane p) = FileViewerPane (p\<lparr>vp_connection := f (vp_connection p)\<rparr>)"

fun set_pane_toolbarTitle :: "string \<Rightarrow> workspace_pane \<Rightarrow> workspace_pane" where
  "set_pane_toolbarTitle t (TerminalPane p) = TerminalPane (p\<lparr>tp_toolbarTitle := Some t\<rparr>)"
| "set_pane_toolbarTitle t (UrlPane p) = UrlPane (p\<lparr>up_toolbarTitle := Some t\<rparr>)"
| "set_pane_toolbarTitle t (RemoteDesktopPane p) = RemoteDesktopPane (p\<lparr>rp_toolbarTitle := Some t\<rparr>)"
| "set_pane_toolbarTitle t (FileBrowserPane p) = FileBrowserPane (p\<lparr>fp_toolbarTitle := Some t\<rparr>)"
| "set_pane_toolbarTitle t (FileViewerPane p) = FileViewerPane (p\<lparr>vp_toolbarTitle := Some t\<rparr>)"

definition child_icons :: "workspace_child_connection \<Rightarrow> connection \<Rightarrow> connection" where
  "child_icons child c =
     c\<lparr> iconColor := nullish_null (child_iconColor child) (iconColor c),
        iconBackgroundColor := nullish_null (child_iconBackgroundColor child) (iconBackgroundColor c),
        iconDataUrl := nullish_null (child_iconDataUrl child) (iconDataUrl c) \<rparr>"

definition updateOpenChildConnectionMetadata :: "workspace_child_connection \<Rightarrow> workspace_state
    \<Rightarrow> workspace_state" where
  "updateOpenChildConnectionMetadata child s =
     (let upd_pane = (\<lambda>p. if pane_childConnectionId p \<noteq> Some (child_id child) \<or> pane_connection p = None then p
            else set_pane_toolbarTitle (child_name child) (map_pane_connection (child_icons child) p));
          upd = (\<lambda>t. let t' = t\<lparr>panes := map upd_pane (panes t)\<rparr>
            in if tab_childConnectionId t = Some (child_id child)
               then t'\<lparr> tab_title := child_name child, tab_toolbarTitle := Some (child_name child),
                        tab_connection := map_option (child_icons child) (tab_connection t) \<rparr>
               else t')
      in s\<lparr>tabs := map upd (tabs s)\<rparr>)"

text \<open>\<open>Partial<Pick<Connection, ...>>\<close>: \<open>None\<close> is a property the object does not have.\<close>

record terminal_appearance =
  ap_opacity :: "rat option option option"
  ap_background :: "json option option option"
  ap_colorScheme :: "string option option option"
  ap_syntaxProfile :: "string option option option"

definition no_appearance :: terminal_appearance where
  "no_appearance = \<lparr>ap_opacity = None, ap_background = None, ap_colorScheme = None, ap_syntaxProfile = None\<rparr>"

definition apply_appearance :: "terminal_appearance \<Rightarrow> connection \<Rightarrow> connection" where
  "apply_appearance a c =
     c\<lparr> terminalOpacity := nullish (ap_opacity a) (terminalOpacity c),
        conn_terminalBackground := nullish (ap_background a) (conn_terminalBackground c),
        terminalColorScheme := nullish (ap_colorScheme a) (terminalColorScheme c),
        terminalSyntaxHighlightProfileId :=
          nullish (ap_syntaxProfile a) (terminalSyntaxHighlightProfileId c) \<rparr>"

definition updateTabTerminalAppearance :: "workspace_tab \<Rightarrow> string \<Rightarrow> terminal_appearance \<Rightarrow> workspace_tab"
where
  "updateTabTerminalAppearance tab cid a =
     tab\<lparr> tab_connection := map_option (\<lambda>c. if conn_id c = cid then apply_appearance a c else c) (tab_connection tab),
          panes := map_where (\<lambda>p. map_option conn_id (pane_connection p) = Some cid)
            (map_pane_connection (apply_appearance a)) (panes tab) \<rparr>"

definition update_appearance :: "string \<Rightarrow> terminal_appearance \<Rightarrow> workspace_state \<Rightarrow> workspace_state" where
  "update_appearance cid a s = s\<lparr>tabs := map (\<lambda>t. updateTabTerminalAppearance t cid a) (tabs s)\<rparr>"

definition updateOpenConnectionTerminalAppearance :: "string \<Rightarrow> rat option option \<Rightarrow> json option option
    \<Rightarrow> workspace_state \<Rightarrow> workspace_state" where
  "updateOpenConnectionTerminalAppearance cid opacity bg s =
     update_appearance cid (no_appearance\<lparr>ap_opacity := Some opacity, ap_background := Some bg\<rparr>) s"

definition updateOpenConnectionTerminalColorScheme :: "string \<Rightarrow> string option \<Rightarrow> workspace_state
    \<Rightarrow> workspace_state" where
  "updateOpenConnectionTerminalColorScheme cid scheme s =
     update_appearance cid (no_appearance\<lparr>ap_colorScheme := Some (Some scheme)\<rparr>) s"

definition updateOpenConnectionTerminalSyntaxHighlightProfile :: "string \<Rightarrow> string option
    \<Rightarrow> workspace_state \<Rightarrow> workspace_state" where
  "updateOpenConnectionTerminalSyntaxHighlightProfile cid profileId s =
     update_appearance cid (no_appearance\<lparr>ap_syntaxProfile := Some (Some profileId)\<rparr>) s"

definition updateOpenConnectionFileBrowserViewOptions :: "string \<Rightarrow> json option option
    \<Rightarrow> workspace_state \<Rightarrow> workspace_state" where
  "updateOpenConnectionFileBrowserViewOptions cid opts s =
     s\<lparr>tabs := map (\<lambda>t. t\<lparr>tab_connection := map_option
         (\<lambda>c. if conn_id c = cid then c\<lparr>fileBrowserViewOptions := opts\<rparr> else c) (tab_connection t)\<rparr>) (tabs s)\<rparr>"

definition updateOpenTerminalPaneAppearance :: "string \<Rightarrow> string \<Rightarrow> rat option option
    \<Rightarrow> json option option \<Rightarrow> workspace_state \<Rightarrow> workspace_state" where
  "updateOpenTerminalPaneAppearance tabId paneId opacity bg s =
     update_terminal tabId paneId (\<lambda>p. case tp_connection p of
         None \<Rightarrow> p
       | Some c \<Rightarrow> p\<lparr>tp_connection := Some (c\<lparr>terminalOpacity := opacity, conn_terminalBackground := bg\<rparr>),
                     tp_terminalBackground := bg\<rparr>) s"

subsection \<open>A Document docked beside its file browser\<close>

definition document_connection :: "string \<Rightarrow> connection option \<Rightarrow> string \<Rightarrow> connection" where
  "document_connection name source filePath =
     (mk_connection (''inline-file-view-'' @ stableIdFromPath filePath) name ''localhost'' [] CFileView)
       \<lparr> localStartupDirectory := Some filePath,
         iconDataUrl := nullish_null (Option.bind source iconDataUrl) (Some None),
         iconBackgroundColor := nullish_null (Option.bind source iconBackgroundColor) (Some None) \<rparr>"

definition document_children :: "connection \<Rightarrow> string \<Rightarrow> string \<Rightarrow> string \<Rightarrow> workspace_child_connection list"
where
  "document_children source name filePath wid =
     (let child = \<lparr>child_id = localFilesBrowserChildId (conn_id source), child_workspaceId = Some wid,
            parentConnectionId = conn_id source, child_name = conn_name source, fileViewPath = None,
            child_tmuxSessionId = None, child_cwd = None, child_fontSize = None, child_textEncoding = None,
            child_terminalOpacity = None, child_terminalBackground = None,
            child_iconColor = iconColor source, child_iconDataUrl = iconDataUrl source,
            child_iconBackgroundColor = iconBackgroundColor source\<rparr>
      in [child, child\<lparr>child_id := fileViewerChildId (conn_id source) filePath, child_name := name,
                       fileViewPath := Some filePath\<rparr>])"

text \<open>The Pane of one of the two children: open already, the Pane of a standalone Tab, or new.\<close>

definition document_pane :: "connection \<Rightarrow> workspace_child_connection \<Rightarrow> workspace_pane option
    \<Rightarrow> workspace_tab option \<Rightarrow> build_env \<Rightarrow> workspace_pane option \<times> build_env" where
  "document_pane c child existing standalone e =
     (let dress = dress_pane (child_id child) c (child_name child) (child_name child)
      in case existing of
           Some p \<Rightarrow> (Some (dress p), e)
         | None \<Rightarrow>
             (case standalone of
                Some t \<Rightarrow> (map_option dress (buildPaneForStandaloneTab t), e)
              | None \<Rightarrow> buildPaneForConnection c None (Some (no_options\<lparr>
                  opt_childConnectionId := Some (child_id child), opt_title := Some (child_name child),
                  opt_toolbarTitle := Some (child_name child)\<rparr>)) True e))"

definition standalone_tab :: "surface_kind \<Rightarrow> string \<Rightarrow> string \<Rightarrow> workspace_tab list \<Rightarrow> workspace_tab option"
where
  "standalone_tab kind cid wid ts =
     find (\<lambda>t. tab_kind t = kind \<and> map_option conn_id (tab_connection t) = Some cid
       \<and> tabWorkspaceId (Some t) = wid) ts"

definition document_group :: "connection \<Rightarrow> workspace_tab option \<Rightarrow> string \<Rightarrow> string
    \<Rightarrow> workspace_pane list \<Rightarrow> workspace_pane \<Rightarrow> workspace_tab" where
  "document_group source gtab tabId wid ps filePane =
     (case gtab of Some t \<Rightarrow> t | None \<Rightarrow> mk_tab tabId wid [] [] [] KTerminal [])
     \<lparr> tab_id := tabId, tab_workspaceId := Some wid,
       childConnectionGroupParentId := Some (conn_id source), tab_title := conn_name source,
       tab_toolbarTitle := Some (toolbarTitleForConnection source),
       subtitle := or_str (nullish (localStartupDirectory source) []) (host source), tab_kind := KTerminal,
       panes := ps, layout := panoramaLayoutFor ps, focusedPaneId := Some (pane_id filePane),
       maximizedPaneId := Some (pane_id filePane), quickCommandBarVisible := Some False,
       tab_connection := Some source \<rparr>"

definition dock_document :: "connection \<Rightarrow> string \<Rightarrow> string \<Rightarrow> workspace_child_connection list
    \<Rightarrow> workspace_state \<Rightarrow> workspace_child_connection list \<times> workspace_state" where
  "dock_document source name filePath stored s =
     (let wid = activeWorkspaceId s;
          cid = conn_id (document_connection name (Some source) filePath);
          (next, upserted) = upsertStoredChildConnections (loadStoredChildConnections stored)
            (document_children source name filePath wid);
          here = filter (\<lambda>t. tabWorkspaceId (Some t) = wid) (tabs s);
          gtab = find_group_tab (conn_id source) wid (tabs s);
          browserTab = standalone_tab KLocalFiles (conn_id source) wid (tabs s);
          viewerTab = standalone_tab KFileViewer cid wid (tabs s);
          paneOf = index_last child_key (all_panes here)
      in case upserted of
           [bchild, fchild] \<Rightarrow>
             (let (bp, s1) = with_build (document_pane (connectionForChild source bchild) bchild
                    (paneOf (child_id bchild)) browserTab) s;
                  (fp, s2) = with_build (document_pane (connectionForChild source fchild) fchild
                    (paneOf (child_id fchild)) viewerTab) s1
              in case (bp, fp) of
                   (Some b, Some f) \<Rightarrow>
                     (let carried = (case gtab of None \<Rightarrow> []
                            | Some t \<Rightarrow> filter (\<lambda>p. pane_childConnectionId p \<noteq> Some (child_id bchild)
                                \<and> pane_childConnectionId p \<noteq> Some (child_id fchild)) (panes t));
                          ps = b # carried @ [f];
                          (tabId, s3) = (case nullish_opt (map_option tab_id gtab) (map_option tab_id browserTab) of
                              Some i \<Rightarrow> (i, s2)
                            | None \<Rightarrow> with_build (createConnectionTabId (conn_id source @ ''-children'')) s2);
                          tab = document_group source gtab tabId wid ps f;
                          removed = (\<lambda>t. t \<noteq> [] \<and> t \<noteq> tabId
                            \<and> (map_option tab_id browserTab = Some t \<or> map_option tab_id viewerTab = Some t));
                          ts = js_compact (map (\<lambda>t. if tab_id t = tabId then Some tab
                            else if removed (tab_id t) then None else Some t) (tabs s3))
                      in (next, s3\<lparr>tabs := (if tabId \<in> set (map tab_id (tabs s3)) then ts else ts @ [tab]),
                                   activeTabId := tabId\<rparr>))
                 | _ \<Rightarrow> (next, s2))
         | _ \<Rightarrow> (next, s))"

text \<open>\<open>fallback\<close> is the localized name and \<open>hideTop\<close> the setting that moves child Tabs to the
  sidebar.\<close>

definition openFileViewerPath :: "string \<Rightarrow> bool \<Rightarrow> string \<Rightarrow> connection option \<Rightarrow> bool option
    \<Rightarrow> workspace_child_connection list \<Rightarrow> workspace_state
    \<Rightarrow> workspace_child_connection list \<times> workspace_state" where
  "openFileViewerPath fallback hideTop path source eph stored s =
     (let filePath = trim path
      in if filePath = [] then (stored, s)
         else case source of
           Some c \<Rightarrow>
             (if conn_type c = CLocalFiles \<and> eph \<noteq> Some True \<and> hideTop
              then dock_document c (or_str (fileNameFromPath filePath) fallback) filePath stored s
              else (stored, open_document_tab fallback source eph filePath s))
         | None \<Rightarrow> (stored, open_document_tab fallback None eph filePath s))"


section \<open>Upkeep settles\<close>

lemma sync_child_id [simp]: "child_id (sync_child child p) = child_id child"
  by (simp add: sync_child_def Let_def)

lemma sync_child_twice: "sync_child (sync_child child p) p = sync_child child p"
  by (simp add: sync_child_def Let_def backgroundsEqual_def)

lemma sync_ids: "map child_id (syncChildConnectionsFromTabs cs ts) = map child_id cs"
  by (auto simp: syncChildConnectionsFromTabs_def split: option.splits workspace_pane.splits)

lemma sync_twice:
  "syncChildConnectionsFromTabs (syncChildConnectionsFromTabs cs ts) ts = syncChildConnectionsFromTabs cs ts"
  by (auto simp: syncChildConnectionsFromTabs_def sync_child_twice split: option.splits workspace_pane.splits)

lemma sync_append:
  "syncChildConnectionsFromTabs (cs @ ds) ts = syncChildConnectionsFromTabs cs ts @ syncChildConnectionsFromTabs ds ts"
  by (simp add: syncChildConnectionsFromTabs_def)

text \<open>An entry no open Pane carries is left alone.\<close>

lemma sync_unopened:
  assumes "\<And>d p. d \<in> set ds \<Longrightarrow> p \<in> set (all_panes ts) \<Longrightarrow> child_key p \<noteq> Some (child_id d)"
  shows "syncChildConnectionsFromTabs ds ts = ds"
proof -
  have "index_last child_key (all_panes ts) (child_id d) = None" if "d \<in> set ds" for d
    using assms [OF that] by (auto simp: index_last_def find_None_iff)
  then show ?thesis by (auto simp: syncChildConnectionsFromTabs_def intro: map_idI)
qed

lemma fold_add_known:
  "child_id ` set ds \<subseteq> child_id ` set cs \<Longrightarrow> fold add_new_child ds cs = cs"
  by (induction ds) (auto simp: add_new_child_def)

definition extends_by :: "workspace_child_connection list \<Rightarrow> workspace_child_connection list
    \<Rightarrow> workspace_child_connection list \<Rightarrow> bool" where
  "extends_by cs ds new =
     (set new \<subseteq> set ds \<and> child_id ` set (cs @ new) = child_id ` set cs \<union> child_id ` set ds
      \<and> child_id ` set cs \<inter> child_id ` set new = {}
      \<and> (distinct (map child_id cs) \<longrightarrow> distinct (map child_id (cs @ new))))"

lemma fold_add_new: "\<exists>new. fold add_new_child ds cs = cs @ new \<and> extends_by cs ds new"
proof (induction ds arbitrary: cs)
  case Nil
  then show ?case by (simp add: extends_by_def)
next
  case (Cons d ds)
  show ?case
  proof (cases "child_id d \<in> set (map child_id cs)")
    case True
    then have "fold add_new_child (d # ds) cs = fold add_new_child ds cs" by (simp add: add_new_child_def)
    moreover have "extends_by cs (d # ds) new" if "extends_by cs ds new" for new
      using that True by (auto simp: extends_by_def)
    ultimately show ?thesis using Cons.IH [of cs] by auto
  next
    case False
    then have e: "fold add_new_child (d # ds) cs = fold add_new_child ds (cs @ [d])"
      by (simp add: add_new_child_def)
    have "extends_by cs (d # ds) (d # new)" if "extends_by (cs @ [d]) ds new" for new
      using that False by (auto simp: extends_by_def)
    then show ?thesis unfolding e using Cons.IH [of "cs @ [d]"] by auto
  qed
qed

text \<open>One pass of the sidebar over the saved children.\<close>

definition upkeep :: "workspace_child_connection list \<Rightarrow> workspace_tab list \<Rightarrow> string
    \<Rightarrow> workspace_child_connection list" where
  "upkeep children ts wid =
     convertOpenTabsToChildConnections (syncChildConnectionsFromTabs children ts) ts wid"

lemma convertible_id: "convertible wid t p = Some child \<Longrightarrow> child_id child = pane_id p \<and> child_key p = None"
  by (auto simp: convertible_def converted_child_def child_key_def split: workspace_pane.splits if_splits option.splits)

text \<open>C18. When every open Pane that carries a child carries a saved one, the upkeep the sidebar
  runs after every change settles after one pass: it keeps the saved children and their order
  (bringing the entries of open terminals up to date), adds one child for every plain terminal
  Pane of the Workspace, never two with one id when the saved ones have different ids, and a
  second pass over the same Tabs changes nothing, so the effect that runs it does not trigger
  itself again.\<close>

theorem upkeep_settles:
  assumes "\<forall>p \<in> set (all_panes ts). \<forall>i. child_key p = Some i \<longrightarrow> i \<in> child_id ` set children"
  shows "upkeep (upkeep children ts wid) ts wid = upkeep children ts wid
    \<and> take (length children) (map child_id (upkeep children ts wid)) = map child_id children
    \<and> (distinct (map child_id children) \<longrightarrow> distinct (map child_id (upkeep children ts wid)))
    \<and> (\<forall>t \<in> set ts. tab_kind t = KTerminal \<longrightarrow> tabWorkspaceId (Some t) = wid \<longrightarrow>
         (\<forall>p \<in> set (panes t). convertible wid t p \<noteq> None \<longrightarrow>
            pane_id p \<in> child_id ` set (upkeep children ts wid)))"
proof -
  let ?s = "syncChildConnectionsFromTabs children ts" and ?ds = "convertible_panes ts wid"
  obtain new where e: "fold add_new_child ?ds ?s = ?s @ new" "extends_by ?s ?ds new"
    using fold_add_new by blast
  note n = e(1) e(2) [unfolded extends_by_def, THEN conjunct1]
    e(2) [unfolded extends_by_def, THEN conjunct2, THEN conjunct1]
    e(2) [unfolded extends_by_def, THEN conjunct2, THEN conjunct2, THEN conjunct1]
    e(2) [unfolded extends_by_def, THEN conjunct2, THEN conjunct2, THEN conjunct2]
  have u: "upkeep children ts wid = ?s @ new"
    by (simp add: upkeep_def convertOpenTabsToChildConnections_def n(1))
  have ids: "child_id ` set ?s = child_id ` set children" using sync_ids [of children ts] by (metis set_map)
  have "child_key p \<noteq> Some (child_id d)" if "d \<in> set new" "p \<in> set (all_panes ts)" for d p
  proof
    assume "child_key p = Some (child_id d)"
    then have "child_id d \<in> child_id ` set ?s" unfolding ids using assms that(2) by blast
    moreover have "child_id d \<in> child_id ` set new" using that(1) by (rule imageI)
    ultimately show False using n(4) by blast
  qed
  then have "syncChildConnectionsFromTabs new ts = new" by (rule sync_unopened)
  then have s2: "syncChildConnectionsFromTabs (?s @ new) ts = ?s @ new" by (simp add: sync_append sync_twice)
  have "child_id ` set ?ds \<subseteq> child_id ` set (?s @ new)" using n(3) by blast
  then have "upkeep (?s @ new) ts wid = ?s @ new"
    by (simp add: upkeep_def convertOpenTabsToChildConnections_def s2 fold_add_known)
  moreover have "take (length children) (map child_id (?s @ new)) = map child_id children"
    using sync_ids [of children ts] by (simp add: map_eq_imp_length_eq [OF sync_ids])
  moreover have "pane_id p \<in> child_id ` set (?s @ new)"
    if "t \<in> set ts" "tab_kind t = KTerminal" "tabWorkspaceId (Some t) = wid" "p \<in> set (panes t)"
      "convertible wid t p \<noteq> None" for t p
  proof -
    from that(5) obtain child where c: "convertible wid t p = Some child" by auto
    then have "child \<in> set ?ds" using that by (auto simp: convertible_panes_def set_js_compact_map)
    then have "pane_id p \<in> child_id ` set ?ds" using convertible_id [OF c] by (metis imageI)
    then show ?thesis using n(3) by blast
  qed
  ultimately show ?thesis using n(5) unfolding u sync_ids by blast
qed

text \<open>A Tab with a plain terminal, a terminal that carries the saved child and has changed its
  directory, and a Document.\<close>

definition kept_child :: workspace_child_connection where
  "kept_child = \<lparr>child_id = ''k1'', child_workspaceId = Some ''default'', parentConnectionId = ''c1'',
     child_name = ''logs'', fileViewPath = None, child_tmuxSessionId = Some ''comet'', child_cwd = None,
     child_fontSize = None, child_textEncoding = None, child_terminalOpacity = None,
     child_terminalBackground = None, child_iconColor = None, child_iconDataUrl = None,
     child_iconBackgroundColor = None\<rparr>"

definition children_tab :: workspace_tab where
  "children_tab = sample_tab\<lparr>panes := [shell_pane ''a'' sample_ssh (Some ''orbit''),
     on_terminal (\<lambda>p. p\<lparr>tp_childConnectionId := Some ''k1'', cwd := ''/srv''\<rparr>)
       (shell_pane ''b'' sample_ssh (Some ''comet'')), viewer_pane ''v'']\<rparr>"

theorem upkeep_settles_witness:
  "map (\<lambda>c. (child_id c, child_name c, child_cwd c)) (upkeep [kept_child] [children_tab] ''default'')
     = [(''k1'', ''logs'', Some ''/srv''), (''a'', ''orbit'', Some ''~'')]
   \<and> upkeep (upkeep [kept_child] [children_tab] ''default'') [children_tab] ''default''
     = upkeep [kept_child] [children_tab] ''default''"
proof -
  have "\<forall>p \<in> set (all_panes [children_tab]). \<forall>i. child_key p = Some i \<longrightarrow> i \<in> child_id ` set [kept_child]"
    by (simp add: all_panes_def children_tab_def child_key_def viewer_pane_def shell_pane_def
        truthy_str_def kept_child_def)
  from upkeep_settles [OF this, of "''default''"]
  have "upkeep (upkeep [kept_child] [children_tab] ''default'') [children_tab] ''default''
      = upkeep [kept_child] [children_tab] ''default''" by blast
  moreover have "map (\<lambda>c. (child_id c, child_name c, child_cwd c)) (upkeep [kept_child] [children_tab] ''default'')
     = [(''k1'', ''logs'', Some ''/srv''), (''a'', ''orbit'', Some ''~'')]"
    by code_simp
  ultimately show ?thesis by simp
qed

end
