(* ===== verification/Workspace_Groups.thy ===== *)
theory Workspace_Groups
  imports Workspace_Children
begin

text \<open>
  What opening the children of a Connection does to the Panes of the Workspace: the Panes that
  are open elsewhere move into the group Tab, none is lost or shown twice.
\<close>

section \<open>Which Pane stands for a child\<close>

lemma index_last_SomeD: "index_last key xs i = Some x \<Longrightarrow> x \<in> set xs \<and> key x = Some i"
  by (auto simp: index_last_def dest: find_SomeD)

lemma index_first_SomeD: "index_first key xs i = Some x \<Longrightarrow> x \<in> set xs \<and> key x = Some i"
  by (auto simp: index_first_def dest: find_SomeD)

lemma index_last_None: "index_last key xs i = None \<longleftrightarrow> (\<forall>x \<in> set xs. key x \<noteq> Some i)"
  by (auto simp: index_last_def find_None_iff)

lemma all_panes_simps [simp]:
  "all_panes [] = []" "all_panes (t # ts) = panes t @ all_panes ts"
  "all_panes (ts @ us) = all_panes ts @ all_panes us"
  by (simp_all add: all_panes_def)

lemma set_all_panes: "set (all_panes ts) = (\<Union>t \<in> set ts. set (panes t))"
  by (simp add: all_panes_def)

lemma all_panes_filter_sub: "set (all_panes (filter p ts)) \<subseteq> set (all_panes ts)"
  by (auto simp: set_all_panes)

lemma find_group_tabD:
  "find_group_tab parent wid ts = Some t \<Longrightarrow>
     t \<in> set ts \<and> childConnectionGroupParentId t = Some parent \<and> tabWorkspaceId (Some t) = wid"
  by (auto simp: find_group_tab_def dest: find_SomeD)

lemma set_keep_first: "f ` set (keep_first f xs) = f ` set xs"
proof (induction xs)
  case (Cons x xs)
  have "f ` {y \<in> set (keep_first f xs). f y \<noteq> f x} = f ` set (keep_first f xs) - {f x}" by auto
  then show ?case using Cons by auto
qed simp

lemma keep_first_sub: "set (keep_first f xs) \<subseteq> set xs"
  by (induction xs) auto

lemma distinct_keep_first: "distinct (map f (keep_first f xs))"
  by (induction xs) (auto simp: distinct_map_filter)

lemma keep_first_Nil [simp]: "keep_first f xs = [] \<longleftrightarrow> xs = []"
  by (cases xs) auto

text \<open>The Pane already open for a child: in the group, or else in another Tab.\<close>

definition open_child_pane :: "connection \<Rightarrow> string list \<Rightarrow> workspace_state \<Rightarrow> string
    \<Rightarrow> workspace_pane option" where
  "open_child_pane c ids s i =
     (let gtab = find_group_tab (conn_id c) (activeWorkspaceId s) (tabs s)
      in nullish_opt (group_pane_of (conn_id c) ids gtab i)
           (external_pane_of (conn_id c) ids gtab (activeWorkspaceId s) (tabs s) i))"

lemma group_pane_ofD:
  "group_pane_of parent ids gtab i = Some p \<Longrightarrow>
     (\<exists>t. gtab = Some t \<and> p \<in> set (panes t)) \<and> child_of_pane parent ids p = Some i"
  by (auto simp: group_pane_of_def split: option.splits dest: index_last_SomeD)

lemma external_pane_ofD:
  "external_pane_of parent ids gtab wid ts i = Some p \<Longrightarrow>
     p \<in> set (external_panes gtab wid ts) \<and> child_of_pane parent ids p = Some i \<and> i \<noteq> []"
  by (auto simp: external_pane_of_def split: if_splits dest: index_first_SomeD)

lemma external_panes_sub: "set (external_panes gtab wid ts) \<subseteq> set (all_panes ts)"
  unfolding external_panes_def by (rule all_panes_filter_sub)

lemma open_child_paneD:
  assumes "open_child_pane c ids s i = Some p"
  shows "p \<in> set (all_panes (tabs s)) \<and> child_of_pane (conn_id c) ids p = Some i"
proof -
  let ?g = "find_group_tab (conn_id c) (activeWorkspaceId s) (tabs s)"
  consider "group_pane_of (conn_id c) ids ?g i = Some p"
    | "external_pane_of (conn_id c) ids ?g (activeWorkspaceId s) (tabs s) i = Some p"
    using assms by (auto simp: open_child_pane_def Let_def nullish_opt_def split: option.splits)
  then show ?thesis
  proof cases
    case 1
    then show ?thesis by (auto dest!: group_pane_ofD find_group_tabD simp: set_all_panes)
  next
    case 2
    then show ?thesis using external_panes_sub by (auto dest!: external_pane_ofD)
  qed
qed

section \<open>The named Panes\<close>

lemma pane_id_dress [simp]: "pane_id (dress_pane i c t tb p) = pane_id p"
  by (cases p) simp_all

lemma pane_child_dress [simp]: "pane_childConnectionId (dress_pane i c t tb p) = Some i"
  by (cases p) simp_all

lemma isTerminalPane_dress [simp]: "isTerminalPane (dress_pane i c t tb p) = isTerminalPane p"
  by (cases p) simp_all

lemma on_terminal_update:
  assumes "\<And>q. tp_id (f q) = tp_id q" "\<And>q. tp_childConnectionId (f q) = tp_childConnectionId q"
  shows "pane_id (on_terminal f p) = pane_id p"
    "pane_childConnectionId (on_terminal f p) = pane_childConnectionId p"
  using assms by (cases p; simp)+

lemma as_child_facts [simp]:
  "pane_id (as_child c child p) = pane_id p"
  "pane_childConnectionId (as_child c child p) = Some (child_id child)"
  by (simp_all add: as_child_def on_terminal_update)

lemma buildPane_child:
  "buildPaneForConnection c focused (Some (child_pane_options child)) d e = (Some p, e') \<Longrightarrow>
     pane_childConnectionId p = Some (child_id child)"
  by (auto simp: buildPaneForConnection_def Let_def child_pane_options_def
      split: prod.splits if_splits option.splits)

text \<open>Every Connection but a URL Connection without a URL can be shown.\<close>

lemma buildPane_some:
  "conn_type c \<noteq> CUrl \<Longrightarrow> fst (buildPaneForConnection c focused opts d e) \<noteq> None"
  by (auto simp: buildPaneForConnection_def Let_def split: prod.splits)

lemma connectionForChild_type: "conn_type c \<noteq> CUrl \<Longrightarrow> conn_type (connectionForChild c child) \<noteq> CUrl"
  by (simp add: connectionForChild_def Let_def)

definition existing_id :: "(string \<Rightarrow> workspace_pane option) \<Rightarrow> workspace_child_connection \<Rightarrow> string option"
where
  "existing_id existing child = map_option pane_id (existing (child_id child))"

lemma child_pane_step: "id_step (existing_id existing) (child_pane c d existing)"
  unfolding id_step_def
proof (intro allI impI)
  fix child e r e'
  assume a: "child_pane c d existing child e = (r, e')"
  show "env_leq e e' \<and> (\<forall>p. r = Some p \<longrightarrow>
      pane_id p \<in> ids_from e (uuid_pos e) (uuid_pos e') \<or> existing_id existing child = Some (pane_id p))"
  proof (cases "existing (child_id child)")
    case None
    then have "buildPaneForConnection (connectionForChild c child) None (Some (child_pane_options child)) d e
        = (r, e')"
      using a by (simp add: child_pane_def)
    from serial_stepD [OF serial_buildPane this] show ?thesis by (auto simp: ids_from_def)
  next
    case (Some p)
    then show ?thesis using a by (auto simp: child_pane_def existing_id_def env_leq_def)
  qed
qed

text \<open>The Pane built for a child: the open one, or a new one.\<close>

definition stands_for :: "(string \<Rightarrow> workspace_pane option) \<Rightarrow> build_env \<Rightarrow> workspace_child_connection
    \<Rightarrow> workspace_pane \<Rightarrow> bool" where
  "stands_for existing e child p =
     (pane_childConnectionId p = Some (child_id child)
      \<and> (case existing (child_id child) of
           Some q \<Rightarrow> pane_id p = pane_id q
         | None \<Rightarrow> \<exists>k \<ge> uuid_pos e. pane_serial e k (pane_id p)))"

lemma child_pane_stands:
  assumes "conn_type c \<noteq> CUrl" "child_pane c d existing child e = (r, e')"
  shows "\<exists>p. r = Some p \<and> stands_for existing e child p"
proof (cases "existing (child_id child)")
  case (Some p)
  then show ?thesis using assms(2) by (auto simp: child_pane_def stands_for_def)
next
  case None
  then have b: "buildPaneForConnection (connectionForChild c child) None (Some (child_pane_options child)) d e
      = (r, e')"
    using assms(2) by (simp add: child_pane_def)
  with buildPane_some [OF connectionForChild_type [OF assms(1)]] obtain p where "r = Some p"
    by (metis fst_conv option.exhaust)
  then show ?thesis using b buildPane_child [of _ _ child d e p e'] None
      serial_stepD [OF serial_buildPane b] by (auto simp: stands_for_def)
qed

lemma stands_for_mono: "env_leq e e1 \<Longrightarrow> stands_for existing e1 child p \<Longrightarrow> stands_for existing e child p"
  using serial_env(2) [of e1 e]
  by (auto simp: stands_for_def env_leq_def split: option.splits) (meson le_trans)

lemma named_stand:
  assumes "conn_type c \<noteq> CUrl" "map_env (child_pane c d existing) cs e = (rs, e')"
  shows "\<exists>ps. rs = map Some ps \<and> list_all2 (stands_for existing e) cs ps"
  using assms(2)
proof (induction cs arbitrary: e rs)
  case Nil
  then show ?case by auto
next
  case (Cons child cs)
  obtain r e1 where f: "child_pane c d existing child e = (r, e1)" by fastforce
  obtain qs where m: "map_env (child_pane c d existing) cs e1 = (qs, e')" "rs = r # qs"
    using Cons.prems f by (auto split: prod.splits)
  obtain p where p: "r = Some p" "stands_for existing e child p"
    using child_pane_stands [OF assms(1) f] by blast
  obtain ps where ps: "qs = map Some ps" "list_all2 (stands_for existing e1) cs ps"
    using Cons.IH [OF m(1)] by blast
  have "env_leq e e1" using id_stepD [OF child_pane_step f] by simp
  then have "list_all2 (stands_for existing e) cs ps"
    using ps(2) stands_for_mono list_all2_mono by metis
  then show ?case using p ps(1) m(2) by (intro exI [of _ "p # ps"]) simp
qed


section \<open>Panes over all Tabs\<close>

definition pane_ids :: "workspace_tab list \<Rightarrow> string list" where
  "pane_ids ts = map pane_id (all_panes ts)"

lemma pane_ids_inj: "distinct (pane_ids ts) \<Longrightarrow> inj_on pane_id (set (all_panes ts))"
  by (simp add: pane_ids_def distinct_map)

text \<open>Different children are shown by different Panes.\<close>

lemma existing_distinct:
  assumes "distinct (map child_id cs)" "inj_on pane_id A"
    and "\<And>i p. existing i = Some p \<Longrightarrow> p \<in> A \<and> key p = Some i"
  shows "distinct (js_compact (map (existing_id existing) cs))"
  using assms(1)
proof (induction cs)
  case Nil
  then show ?case by simp
next
  case (Cons child cs)
  show ?case
  proof (cases "existing (child_id child)")
    case None
    then show ?thesis using Cons by (simp add: existing_id_def)
  next
    case (Some p)
    have "pane_id p \<noteq> pane_id q" if "x \<in> set cs" "existing (child_id x) = Some q" for x q
    proof
      assume "pane_id p = pane_id q"
      then have "p = q" using assms(2,3) Some that(2) by (metis inj_on_contraD)
      then have "child_id x = child_id child" using assms(3) Some that(2) by (metis option.inject)
      moreover have "child_id x \<in> set (map child_id cs)" using that(1) by simp
      ultimately show False using Cons.prems by simp
    qed
    then have "pane_id p \<notin> set (js_compact (map (existing_id existing) cs))"
      by (fastforce simp: set_js_compact_map existing_id_def)
    moreover have "existing_id existing child = Some (pane_id p)" using Some by (simp add: existing_id_def)
    ultimately show ?thesis using Cons by simp
  qed
qed

text \<open>What a Tab still shows once the moved Panes have left.\<close>

definition stays :: "string list \<Rightarrow> workspace_pane list \<Rightarrow> workspace_pane list" where
  "stays moved ps = filter (\<lambda>p. pane_id p \<notin> set moved) ps"

lemma same_length_filter: "length (filter q xs) = length xs \<Longrightarrow> filter q xs = xs"
  by (metis filter_True length_filter_less nat_neq_iff)

lemma lose_panes_panes:
  "(case lose_panes ids moved t of None \<Rightarrow> [] | Some t' \<Rightarrow> panes t') = stays moved (panes t)"
  by (auto simp: lose_panes_def Let_def stays_def dest: same_length_filter [symmetric])

lemma lose_panes_id: "lose_panes ids moved t = Some t' \<Longrightarrow> tab_id t' = tab_id t"
  by (auto simp: lose_panes_def Let_def split: if_splits)

lemma stays_append: "stays moved (ps @ qs) = stays moved ps @ stays moved qs"
  by (simp add: stays_def)

text \<open>Replacing one Tab and thinning the others.\<close>

lemma all_panes_replace:
  assumes "distinct (map tab_id ts)"
  shows "mset (all_panes (js_compact (map (\<lambda>t. if tab_id t = tab_id tab then Some tab
      else lose_panes ids moved t) ts)))
    = (if tab_id tab \<in> tab_id ` set ts then mset (panes tab) else {#})
      + mset (stays moved (all_panes (filter (\<lambda>t. tab_id t \<noteq> tab_id tab) ts)))"
  using assms
proof (induction ts)
  case Nil
  then show ?case by (simp add: stays_def)
next
  case (Cons t ts)
  show ?case
  proof (cases "tab_id t = tab_id tab")
    case True
    then have "tab_id tab \<notin> tab_id ` set ts" using Cons.prems by simp
    then show ?thesis using Cons True by simp
  next
    case False
    have "all_panes (js_compact (lose_panes ids moved t # us)) = stays moved (panes t) @ all_panes (js_compact us)"
      for us
      unfolding lose_panes_panes [of ids moved t, symmetric] by (cases "lose_panes ids moved t") simp_all
    then show ?thesis using Cons False by (auto simp: stays_append)
  qed
qed

lemma all_panes_place:
  assumes "distinct (map tab_id ts)" "gtab = None \<longleftrightarrow> tab_id tab \<notin> tab_id ` set ts"
  shows "mset (all_panes (place_group gtab ids moved tab ts))
    = mset (panes tab) + mset (stays moved (all_panes (filter (\<lambda>t. tab_id t \<noteq> tab_id tab) ts)))"
  using all_panes_replace [OF assms(1), of tab ids moved] assms(2)
  by (auto simp: place_group_def split: if_splits)

lemma all_panes_split:
  assumes "distinct (map tab_id ts)" "g \<in> set ts"
  shows "mset (all_panes ts) = mset (panes g) + mset (all_panes (filter (\<lambda>t. tab_id t \<noteq> tab_id g) ts))"
  using assms
proof (induction ts)
  case Nil
  then show ?case by simp
next
  case (Cons t ts)
  show ?case
  proof (cases "t = g")
    case True
    then have "filter (\<lambda>x. tab_id x \<noteq> tab_id g) ts = ts"
      using Cons.prems(1) by (auto simp: filter_id_conv rev_image_eqI)
    then show ?thesis using True by simp
  next
    case False
    then have "tab_id t \<noteq> tab_id g" using Cons.prems by auto
    then show ?thesis using Cons False by simp
  qed
qed


section \<open>Opening a group\<close>

text \<open>The parts of the state after opening a group.\<close>

record opened_group =
  og_named :: "workspace_pane list"
  og_carried :: "workspace_pane list"
  og_moved :: "string list"
  og_built :: build_env
  og_tab :: workspace_tab

abbreviation group_of :: "connection \<Rightarrow> workspace_state \<Rightarrow> workspace_tab option" where
  "group_of c s \<equiv> find_group_tab (conn_id c) (activeWorkspaceId s) (tabs s)"

abbreviation child_ids :: "workspace_child_connection list \<Rightarrow> string list" where
  "child_ids children \<equiv> map child_id (keep_first child_id children)"

definition group_panes :: "workspace_tab option \<Rightarrow> workspace_pane list" where
  "group_panes gtab = (case gtab of None \<Rightarrow> [] | Some t \<Rightarrow> panes t)"

definition opens_group :: "connection \<Rightarrow> workspace_child_connection list \<Rightarrow> workspace_state
    \<Rightarrow> opened_group \<Rightarrow> workspace_state \<Rightarrow> bool" where
  "opens_group c children s g s' =
     (list_all2 (stands_for (open_child_pane c (child_ids children) s) (build s))
        (keep_first child_id children) (og_named g)
      \<and> map_env (child_pane c (defaultUseTmuxSessions s) (open_child_pane c (child_ids children) s))
          (keep_first child_id children) (build s) = (map Some (og_named g), og_built g)
      \<and> og_moved g = js_compact (map (\<lambda>i. if group_pane_of (conn_id c) (child_ids children) (group_of c s) i = None
          then map_option pane_id (external_pane_of (conn_id c) (child_ids children) (group_of c s)
            (activeWorkspaceId s) (tabs s) i) else None) (child_ids children))
      \<and> og_carried g = filter (\<lambda>p. is_plain p \<and> pane_id p \<notin> set (og_moved g @ map pane_id (og_named g)))
          (group_panes (group_of c s))
      \<and> (\<exists>tabId.
          (case group_of c s of
             Some t \<Rightarrow> tabId = tab_id t \<and> build s' = og_built g
           | None \<Rightarrow> createConnectionTabId (conn_id c @ ''-children'') (og_built g) = (tabId, build s'))
          \<and> og_tab g = group_tab c (group_of c s) tabId
            (converts_plain (conn_id c) (child_ids children) (group_of c s) (activeWorkspaceId s) (tabs s))
            (og_named g @ og_carried g) s)
      \<and> tabs s' = place_group (group_of c s) (child_ids children) (og_moved g) (og_tab g) (tabs s)
      \<and> activeTabId s' = tab_id (og_tab g) \<and> storedLayouts s' = storedLayouts s
      \<and> activeWorkspaceId s' = activeWorkspaceId s)"

lemma count_urls_simps [simp]:
  "tabs (count_urls ids s) = tabs s" "activeTabId (count_urls ids s) = activeTabId s"
  "build (count_urls ids s) = build s" "storedLayouts (count_urls ids s) = storedLayouts s"
  "activeWorkspaceId (count_urls ids s) = activeWorkspaceId s"
  by (simp_all add: count_urls_def)

lemma layout_opens_group:
  assumes "conn_type c \<noteq> CUrl" "children \<noteq> []"
  shows "\<exists>g. opens_group c children s g (snd (openChildConnectionLayout c children s))"
proof -
  let ?ids = "child_ids children" and ?uniq = "keep_first child_id children"
  let ?ex = "open_child_pane c ?ids s" and ?gt = "group_of c s"
  obtain built e1 where m: "map_env (child_pane c (defaultUseTmuxSessions s) ?ex) ?uniq (build s) = (built, e1)"
    by fastforce
  obtain named where n: "built = map Some named" "list_all2 (stands_for ?ex (build s)) ?uniq named"
    using named_stand [OF assms(1) m] by blast
  have w: "with_build (map_env (child_pane c (defaultUseTmuxSessions s) ?ex) ?uniq) s = (built, s\<lparr>build := e1\<rparr>)"
    using m by (simp add: with_build_def)
  have ne: "named \<noteq> []" using n(2) assms(2) by (metis keep_first_Nil list_all2_Nil2)
  have ex: "(\<lambda>i. nullish_opt (group_pane_of (conn_id c) ?ids ?gt i)
      (external_pane_of (conn_id c) ?ids ?gt (activeWorkspaceId s) (tabs s) i)) = ?ex"
    by (simp add: fun_eq_iff open_child_pane_def Let_def)
  define moved where "moved = js_compact (map (\<lambda>i. if group_pane_of (conn_id c) ?ids ?gt i = None
      then map_option pane_id (external_pane_of (conn_id c) ?ids ?gt (activeWorkspaceId s) (tabs s) i) else None) ?ids)"
  define carried where "carried = filter (\<lambda>p. is_plain p \<and> pane_id p \<notin> set (moved @ map pane_id named))
      (group_panes ?gt)"
  have col: "collectPreservedParentPanes ?gt (moved @ map pane_id named) = (carried, [])"
    by (auto simp: collectPreservedParentPanes_def carried_def group_panes_def is_plain_def split: option.splits)
  define conv where "conv = converts_plain (conn_id c) ?ids ?gt (activeWorkspaceId s) (tabs s)"
  obtain tabId s2 where t: "(case ?gt of Some t \<Rightarrow> (tab_id t, s\<lparr>build := e1\<rparr>)
      | None \<Rightarrow> with_build (createConnectionTabId (conn_id c @ ''-children'')) (s\<lparr>build := e1\<rparr>)) = (tabId, s2)"
    by fastforce
  have s2: "tabs s2 = tabs s" "storedLayouts s2 = storedLayouts s" "activeWorkspaceId s2 = activeWorkspaceId s"
    "case ?gt of Some t \<Rightarrow> tabId = tab_id t \<and> build s2 = e1
       | None \<Rightarrow> createConnectionTabId (conn_id c @ ''-children'') e1 = (tabId, build s2)"
    using t by (auto simp: with_build_def split: option.splits prod.splits)
  define tab where "tab = group_tab c ?gt tabId conv (named @ carried) s"
  define g where "g = \<lparr>og_named = named, og_carried = carried, og_moved = moved, og_built = e1, og_tab = tab\<rparr>"
  obtain urls where r: "snd (openChildConnectionLayout c children s)
      = count_urls urls (s2\<lparr>tabs := place_group ?gt ?ids moved tab (tabs s2), activeTabId := tab_id tab\<rparr>)"
    unfolding openChildConnectionLayout_def Let_def ex w n(1) prod.case js_compact_map_Some
      moved_def [symmetric] col prod.case conv_def [symmetric] list.map append_Nil2 t tab_def [symmetric]
    using ne by auto
  have "opens_group c children s g (snd (openChildConnectionLayout c children s))"
    unfolding opens_group_def r
    by (intro conjI exI [of _ tabId])
      (use m n s2 in \<open>simp_all add: g_def moved_def carried_def tab_def conv_def del: map_map split: option.splits\<close>)
  then show ?thesis ..
qed


section \<open>No Pane is lost or shown twice\<close>

definition panes_apart :: "workspace_tab list \<Rightarrow> bool" where
  "panes_apart ts = (distinct (pane_ids ts) \<and> [] \<notin> set (pane_ids ts))"

text \<open>Every child with a Pane in the group is among those to be shown, by one Pane.\<close>

definition children_listed :: "connection \<Rightarrow> string list \<Rightarrow> workspace_state \<Rightarrow> bool" where
  "children_listed c ids s =
     ((\<forall>p \<in> set (group_panes (group_of c s)). is_plain p \<or> nullish (pane_childConnectionId p) [] \<in> set ids)
      \<and> distinct (js_compact (map (child_of_pane (conn_id c) ids) (group_panes (group_of c s)))))"

lemma ws_invD:
  assumes "ws_inv s"
  shows "uuid_supply (build s)" "distinct (map tab_id (tabs s))"
    "\<And>t. t \<in> set (tabs s) \<Longrightarrow> tab_ok t" "\<And>t. t \<in> set (tabs s) \<Longrightarrow> tab_old (build s) t"
  using assms by (simp_all add: ws_inv_def tabs_inv_def)

lemma old_not_fresh:
  assumes "ws_inv s" "p \<in> set (all_panes (tabs s))"
  shows "pane_id p \<notin> ids_from (build s) (uuid_pos (build s)) n"
  using assms ws_invD(4) [OF assms(1)] by (auto simp: ids_from_def tab_old_def set_all_panes)

lemma named_ids:
  assumes "ws_inv s" "distinct (pane_ids (tabs s))" "opens_group c children s g s'"
  shows "env_leq (build s) (og_built g) \<and> distinct (map pane_id (og_named g))
    \<and> (\<forall>p \<in> set (og_named g). \<forall>k \<ge> uuid_pos (og_built g). \<not> pane_serial (og_built g) k (pane_id p))"
proof -
  let ?ex = "open_child_pane c (child_ids children) s" and ?uniq = "keep_first child_id children"
  let ?alts = "js_compact (map (existing_id ?ex) ?uniq)"
  have m: "map_env (child_pane c (defaultUseTmuxSessions s) ?ex) ?uniq (build s)
      = (map Some (og_named g), og_built g)"
    using assms(3) by (simp add: opens_group_def)
  have d: "distinct ?alts"
    by (rule existing_distinct [where key = "child_of_pane (conn_id c) (child_ids children)"
          and A = "set (all_panes (tabs s))"])
      (use pane_ids_inj [OF assms(2)] in \<open>auto simp: distinct_keep_first dest: open_child_paneD\<close>)
  have sub: "set ?alts \<subseteq> pane_id ` set (all_panes (tabs s))"
    by (auto simp: set_js_compact_map existing_id_def dest: open_child_paneD)
  have "set ?alts \<inter> ids_from (build s) (uuid_pos (build s)) (uuid_pos (og_built g)) = {}"
    using sub old_not_fresh [OF assms(1)] by blast
  note ids = map_env_ids [OF child_pane_step ws_invD(1) [OF assms(1)] m d this, unfolded js_compact_map_Some]
  have M: "env_leq (build s) (og_built g)" "distinct (map pane_id (og_named g))"
    "pane_id ` set (og_named g) \<subseteq> pane_id ` set (all_panes (tabs s))
       \<union> ids_from (build s) (uuid_pos (build s)) (uuid_pos (og_built g))"
    using ids sub by (blast, blast, blast)
  have "\<not> pane_serial (og_built g) k (pane_id p)" if "p \<in> set (og_named g)" "uuid_pos (og_built g) \<le> k" for p k
  proof -
    have "pane_id p \<in> pane_id ` set (all_panes (tabs s))
        \<union> ids_from (build s) (uuid_pos (build s)) (uuid_pos (og_built g))"
      using M(3) that(1) by blast
    then consider (old) q where "q \<in> set (all_panes (tabs s))" "pane_id p = pane_id q"
      | (new) "pane_new (build s) (og_built g) (pane_id p)"
      unfolding ids_from_def pane_new_def by blast
    then show ?thesis
    proof cases
      case old
      then show ?thesis using ws_invD(4) [OF assms(1)] that(2) M(1) serial_env(2) [of "og_built g" "build s"]
        by (auto simp: set_all_panes tab_old_def env_leq_def)
    next
      case new
      then show ?thesis using ws_invD(1) [OF assms(1)] M(1) that(2) by (rule pane_new_old)
    qed
  qed
  then show ?thesis using M by blast
qed

lemma stands_for_id:
  "stands_for ex e child p \<Longrightarrow> ex (child_id child) = Some q \<Longrightarrow> pane_id p = pane_id q"
  by (simp add: stands_for_def)

text \<open>A child with an open Pane is named in the group.\<close>

lemma existing_is_named:
  assumes "opens_group c children s g s'" "i \<in> set (child_ids children)"
    and "open_child_pane c (child_ids children) s i = Some q"
  shows "pane_id q \<in> pane_id ` set (og_named g)"
proof -
  let ?uniq = "keep_first child_id children"
  obtain n where n: "n < length ?uniq" "child_id (?uniq ! n) = i"
    using assms(2) by (auto simp: in_set_conv_nth)
  have l: "list_all2 (stands_for (open_child_pane c (child_ids children) s) (build s)) ?uniq (og_named g)"
    using assms(1) by (simp add: opens_group_def)
  then have "stands_for (open_child_pane c (child_ids children) s) (build s) (?uniq ! n) (og_named g ! n)"
    using n(1) by (rule list_all2_nthD)
  then have "pane_id (og_named g ! n) = pane_id q"
    using assms(3) n(2) by (auto dest: stands_for_id)
  moreover have "og_named g ! n \<in> set (og_named g)" using list_all2_lengthD [OF l] n(1) by simp
  ultimately show ?thesis by (metis imageI)
qed

lemma moved_named:
  assumes "opens_group c children s g s'"
  shows "set (og_moved g) \<subseteq> pane_id ` set (og_named g)"
proof
  fix i assume "i \<in> set (og_moved g)"
  then obtain j q where "j \<in> set (child_ids children)"
    "group_pane_of (conn_id c) (child_ids children) (group_of c s) j = None"
    "external_pane_of (conn_id c) (child_ids children) (group_of c s) (activeWorkspaceId s) (tabs s) j = Some q"
    "i = pane_id q"
    using assms by (auto simp: opens_group_def set_js_compact_map split: if_splits simp del: map_map)
  then show "i \<in> pane_id ` set (og_named g)"
    using existing_is_named [OF assms] by (simp add: open_child_pane_def Let_def nullish_opt_def)
qed

lemma shown_distinct:
  assumes "ws_inv s" "distinct (pane_ids (tabs s))" "opens_group c children s g s'"
  shows "distinct (map pane_id (og_named g @ og_carried g))"
proof -
  have c: "og_carried g = filter (\<lambda>p. is_plain p \<and> pane_id p \<notin> set (og_moved g @ map pane_id (og_named g)))
      (group_panes (group_of c s))"
    using assms(3) by (simp add: opens_group_def)
  have "distinct (map pane_id (group_panes (group_of c s)))"
    using ws_invD(3) [OF assms(1)]
    by (auto simp: group_panes_def tab_ok_def split: option.splits dest: find_group_tabD)
  then have "distinct (map pane_id (og_carried g))" unfolding c by (rule distinct_map_filter)
  then show ?thesis using named_ids [OF assms] by (auto simp: c) (metis imageI)
qed


lemma compact_key_inj:
  "distinct (js_compact (map key xs)) \<Longrightarrow> x \<in> set xs \<Longrightarrow> y \<in> set xs \<Longrightarrow> key x = Some i \<Longrightarrow> key y = Some i
    \<Longrightarrow> x = y"
proof (induction xs)
  case (Cons z xs)
  have "distinct (js_compact (map key xs))" using Cons.prems(1) by (cases "key z") auto
  moreover have "w \<notin> set xs" if "key z = Some i" "key w = Some i" for w
    using Cons.prems(1) that by (auto simp: set_js_compact_map)
  ultimately show ?case using Cons by (metis set_ConsD)
qed simp

lemma index_last_distinct:
  assumes "distinct (js_compact (map key xs))" "x \<in> set xs" "key x = Some i"
  shows "index_last key xs i = Some x"
  using index_last_SomeD [of key xs i] compact_key_inj [OF assms(1)] assms(2,3) index_last_None [of key xs i]
  by (metis option.exhaust)

lemma group_kept:
  assumes "opens_group c children s g s'" "children_listed c (child_ids children) s"
    and "p \<in> set (group_panes (group_of c s))"
  shows "pane_id p \<in> pane_id ` set (og_named g @ og_carried g)"
proof (cases "is_plain p")
  case True
  have c: "og_carried g = filter (\<lambda>p. is_plain p \<and> pane_id p \<notin> set (og_moved g @ map pane_id (og_named g)))
      (group_panes (group_of c s))"
    using assms(1) by (simp add: opens_group_def)
  show ?thesis
  proof (cases "pane_id p \<in> set (og_moved g @ map pane_id (og_named g))")
    case True
    then have "pane_id p \<in> pane_id ` set (og_named g)" using moved_named [OF assms(1)] by auto
    then show ?thesis by auto
  next
    case False
    then have "p \<in> set (og_carried g)" unfolding c using \<open>is_plain p\<close> assms(3) by auto
    then show ?thesis by auto
  qed
next
  case False
  then obtain i where i: "pane_childConnectionId p = Some i" "i \<in> set (child_ids children)"
    using assms(2,3) by (cases "pane_childConnectionId p")
      (auto simp: children_listed_def is_plain_def)
  then have k: "child_of_pane (conn_id c) (child_ids children) p = Some i"
    using False by (simp add: child_of_pane_def)
  obtain t where t: "group_of c s = Some t" "p \<in> set (panes t)"
    using assms(3) by (cases "group_of c s") (auto simp: group_panes_def)
  have "group_pane_of (conn_id c) (child_ids children) (group_of c s) i = Some p"
    using index_last_distinct [where key = "child_of_pane (conn_id c) (child_ids children)" and i = i, OF _ t(2) k]
      assms(2) t(1) by (simp add: group_pane_of_def children_listed_def group_panes_def)
  then have "open_child_pane c (child_ids children) s i = Some p"
    by (simp add: open_child_pane_def nullish_opt_def)
  then show ?thesis using existing_is_named [OF assms(1) i(2)] by auto
qed

lemma group_tab_simps [simp]:
  "tab_id (group_tab c gtab i conv ps s) = i" "panes (group_tab c gtab i conv ps s) = ps"
  "tab_kind (group_tab c gtab i conv ps s) = KTerminal"
  "childConnectionGroupParentId (group_tab c gtab i conv ps s) = Some (conn_id c)"
  "tab_workspaceId (group_tab c gtab i conv ps s) = Some (activeWorkspaceId s)"
  "focusedPaneId (group_tab c gtab i conv ps s) = focusedPaneIdForChildLayout gtab ps"
  "layout (group_tab c gtab i conv ps s) = (case gtab of
      Some t \<Rightarrow> (if conv then childConnectionGroupLayout ps else ensureLayout (layout t) ps)
    | None \<Rightarrow> childConnectionGroupLayout ps)"
  by (simp_all add: group_tab_def split: option.splits)

lemma og_tab_id:
  assumes "ws_inv s" "distinct (pane_ids (tabs s))" "opens_group c children s g s'"
  shows "(case group_of c s of Some t \<Rightarrow> tab_id (og_tab g) = tab_id t
      | None \<Rightarrow> tab_id (og_tab g) \<notin> tab_id ` set (tabs s))
    \<and> (group_of c s = None \<longleftrightarrow> tab_id (og_tab g) \<notin> tab_id ` set (tabs s))
    \<and> env_leq (build s) (build s')
    \<and> (\<forall>k \<ge> uuid_pos (build s'). \<not> tab_serial (build s') k (tab_id (og_tab g)))
    \<and> starts_with (tab_id (og_tab g)) ''tab-''
    \<and> env_leq (og_built g) (build s')"
proof (cases "group_of c s")
  case None
  have e: "env_leq (build s) (og_built g)" using named_ids [OF assms] by simp
  then have u: "uuid_supply (og_built g)" using ws_invD(1) [OF assms(1)] by (rule uuid_supply_mono)
  have m: "createConnectionTabId (conn_id c @ ''-children'') (og_built g) = (tab_id (og_tab g), build s')"
    using assms(3) None by (auto simp: opens_group_def)
  note C = createConnectionTabId_spec [OF m u]
  have "tabs_inv (og_built g) (tabs s)" using assms(1) e by (auto simp: ws_inv_def intro: tabs_inv_mono)
  then have "tab_id (og_tab g) \<notin> tab_id ` set (tabs s)" using new_tab_id_notin C by fastforce
  moreover have "starts_with (tab_id (og_tab g)) ''tab-''" using tabId_starts [OF m] .
  ultimately show ?thesis using None C e env_leq_trans by auto
next
  case (Some t)
  then have t: "tab_id (og_tab g) = tab_id t" "build s' = og_built g" "t \<in> set (tabs s)"
    using assms(3) by (auto simp: opens_group_def dest: find_group_tabD)
  have e: "env_leq (build s) (og_built g)" using named_ids [OF assms] by simp
  have "tab_old (og_built g) t" using e ws_invD(4) [OF assms(1) t(3)] by (rule tab_old_mono)
  then show ?thesis using Some t e ws_invD(3) [OF assms(1) t(3)] by (auto simp: tab_old_def tab_ok_def env_leq_def)
qed


definition other_panes :: "workspace_state \<Rightarrow> opened_group \<Rightarrow> workspace_pane list" where
  "other_panes s g = all_panes (filter (\<lambda>t. tab_id t \<noteq> tab_id (og_tab g)) (tabs s))"

lemma panes_before:
  assumes "ws_inv s" "distinct (pane_ids (tabs s))" "opens_group c children s g s'"
  shows "mset (all_panes (tabs s)) = mset (group_panes (group_of c s)) + mset (other_panes s g)"
proof (cases "group_of c s")
  case None
  then have "filter (\<lambda>t. tab_id t \<noteq> tab_id (og_tab g)) (tabs s) = tabs s"
    using og_tab_id [OF assms] by (auto simp: filter_id_conv image_iff)
  then show ?thesis using None by (simp add: other_panes_def group_panes_def)
next
  case (Some t)
  then have "tab_id (og_tab g) = tab_id t" "t \<in> set (tabs s)"
    using og_tab_id [OF assms] by (auto dest: find_group_tabD)
  then show ?thesis using all_panes_split [OF ws_invD(2) [OF assms(1)], of t] Some
    by (simp add: other_panes_def group_panes_def)
qed

lemma panes_after:
  assumes "ws_inv s" "distinct (pane_ids (tabs s))" "opens_group c children s g s'"
  shows "mset (all_panes (tabs s'))
    = mset (og_named g @ og_carried g) + mset (stays (og_moved g) (other_panes s g))"
proof -
  have t: "tabs s' = place_group (group_of c s) (child_ids children) (og_moved g) (og_tab g) (tabs s)"
    and p: "panes (og_tab g) = og_named g @ og_carried g"
    using assms(3) by (auto simp: opens_group_def)
  show ?thesis unfolding t
    using all_panes_place [OF ws_invD(2) [OF assms(1)], of "group_of c s" "og_tab g"] og_tab_id [OF assms]
    by (simp add: p other_panes_def)
qed

lemma mset_pane_ids: "mset (all_panes ts) = mset ps \<Longrightarrow> mset (pane_ids ts) = mset (map pane_id ps)"
  by (simp add: pane_ids_def mset_map)

text \<open>A named Pane was open already or is new.\<close>

lemma named_origin:
  assumes "opens_group c children s g s'" "p \<in> set (og_named g)"
  obtains (old) i q where "open_child_pane c (child_ids children) s i = Some q" "pane_id p = pane_id q"
      "i \<in> set (child_ids children)"
    | (new) k where "uuid_pos (build s) \<le> k" "pane_serial (build s) k (pane_id p)"
proof -
  let ?ex = "open_child_pane c (child_ids children) s"
  have l: "list_all2 (stands_for ?ex (build s)) (keep_first child_id children) (og_named g)"
    using assms(1) by (simp add: opens_group_def)
  obtain n where n: "n < length (og_named g)" "p = og_named g ! n" using assms(2) by (auto simp: in_set_conv_nth)
  define child where "child = keep_first child_id children ! n"
  have "stands_for ?ex (build s) child p" and c: "child \<in> set (keep_first child_id children)"
    using list_all2_nthD2 [OF l n(1)] list_all2_lengthD [OF l] n by (simp_all add: child_def)
  then show thesis
  proof (cases "?ex (child_id child)")
    case None
    then show thesis using \<open>stands_for ?ex (build s) child p\<close> new by (auto simp: stands_for_def)
  next
    case (Some q)
    then show thesis using \<open>stands_for ?ex (build s) child p\<close> old [OF Some] c by (auto simp: stands_for_def)
  qed
qed

lemma shown_apart:
  assumes "ws_inv s" "distinct (pane_ids (tabs s))" "opens_group c children s g s'"
    and "p \<in> set (og_named g @ og_carried g)" "x \<in> set (stays (og_moved g) (other_panes s g))"
  shows "pane_id p \<noteq> pane_id x"
proof -
  have "mset (pane_ids (tabs s)) = mset (map pane_id (group_panes (group_of c s) @ other_panes s g))"
    by (rule mset_pane_ids) (simp add: panes_before [OF assms(1-3)])
  then have "distinct (map pane_id (group_panes (group_of c s) @ other_panes s g))"
    using assms(2) mset_eq_imp_distinct_iff by blast
  then have in_group: "pane_id q \<noteq> pane_id x" if "q \<in> set (group_panes (group_of c s))" for q
    using that assms(5) by (auto simp: stays_def)
  have x: "pane_id x \<notin> set (og_moved g)" "x \<in> set (all_panes (tabs s))"
    using assms(5) by (auto simp: stays_def other_panes_def set_all_panes)
  show ?thesis
  proof (cases "p \<in> set (og_named g)")
    case False
    then have "p \<in> set (group_panes (group_of c s))" using assms(3,4) by (auto simp: opens_group_def)
    then show ?thesis by (rule in_group)
  next
    case True
    from assms(3) True show ?thesis
    proof (cases rule: named_origin)
      case (new k)
      then show ?thesis using x(2) ws_invD(4) [OF assms(1)] by (auto simp: set_all_panes tab_old_def)
    next
      case (old i q)
      show ?thesis
      proof (cases "group_pane_of (conn_id c) (child_ids children) (group_of c s) i")
        case None
        then have "external_pane_of (conn_id c) (child_ids children) (group_of c s) (activeWorkspaceId s)
            (tabs s) i = Some q"
          using old(1) by (simp add: open_child_pane_def Let_def nullish_opt_def)
        then have "pane_id q \<in> set (og_moved g)"
          using assms(3) None old(3) by (auto simp: opens_group_def set_js_compact_map simp del: map_map)
        then show ?thesis using x(1) old(2) by auto
      next
        case (Some r)
        then have "r = q" using old(1) by (simp add: open_child_pane_def Let_def nullish_opt_def)
        then have "q \<in> set (group_panes (group_of c s))"
          using group_pane_ofD [OF Some] by (auto simp: group_panes_def)
        then show ?thesis using in_group old(2) by simp
      qed
    qed
  qed
qed

lemma after_distinct:
  assumes "ws_inv s" "distinct (pane_ids (tabs s))" "opens_group c children s g s'"
  shows "distinct (pane_ids (tabs s'))"
proof -
  let ?ps = "og_named g @ og_carried g" and ?st = "stays (og_moved g) (other_panes s g)"
  have "mset (pane_ids (tabs s)) = mset (map pane_id (group_panes (group_of c s) @ other_panes s g))"
    by (rule mset_pane_ids) (simp add: panes_before [OF assms])
  then have "distinct (map pane_id (other_panes s g))"
    using assms(2) mset_eq_imp_distinct_iff by fastforce
  then have "distinct (map pane_id ?st)" unfolding stays_def by (rule distinct_map_filter)
  moreover have "distinct (map pane_id ?ps)" by (rule shown_distinct [OF assms])
  moreover have "pane_id ` set ?ps \<inter> pane_id ` set ?st = {}" using shown_apart [OF assms] by blast
  ultimately have "distinct (map pane_id ?ps @ map pane_id ?st)"
    unfolding distinct_append set_map by (intro conjI)
  then have "distinct (map pane_id (?ps @ ?st))" by (simp only: map_append)
  moreover have "mset (pane_ids (tabs s')) = mset (map pane_id (?ps @ ?st))"
    by (rule mset_pane_ids) (simp add: panes_after [OF assms])
  ultimately show ?thesis using mset_eq_imp_distinct_iff by blast
qed

lemma before_kept:
  assumes "ws_inv s" "distinct (pane_ids (tabs s))" "opens_group c children s g s'"
    and "children_listed c (child_ids children) s"
  shows "set (pane_ids (tabs s)) \<subseteq> set (pane_ids (tabs s'))"
proof
  let ?ps = "og_named g @ og_carried g" and ?st = "stays (og_moved g) (other_panes s g)"
  have b: "set (all_panes (tabs s)) = set (group_panes (group_of c s) @ other_panes s g)"
    using panes_before [OF assms(1-3)] by (metis mset_append mset_eq_setD)
  have a: "set (all_panes (tabs s')) = set (?ps @ ?st)"
    using panes_after [OF assms(1-3)] by (metis mset_append mset_eq_setD)
  fix i assume "i \<in> set (pane_ids (tabs s))"
  then obtain p where p: "i = pane_id p" "p \<in> set (group_panes (group_of c s)) \<or> p \<in> set (other_panes s g)"
    by (auto simp: pane_ids_def b)
  have "i \<in> pane_id ` set (?ps @ ?st)"
  proof (cases "p \<in> set (group_panes (group_of c s))")
    case True
    from group_kept [OF assms(3,4) this] show ?thesis using p(1) by auto
  next
    case False
    then have o1: "p \<in> set (other_panes s g)" using p(2) by simp
    show ?thesis
    proof (cases "pane_id p \<in> set (og_moved g)")
      case True
      then show ?thesis using moved_named [OF assms(3)] p(1) by auto
    next
      case False
      then show ?thesis using o1 p(1) by (auto simp: stays_def)
    qed
  qed
  then show "i \<in> set (pane_ids (tabs s'))" by (simp add: pane_ids_def a)
qed

lemma after_new:
  assumes "ws_inv s" "distinct (pane_ids (tabs s))" "opens_group c children s g s'"
    and "i \<in> set (pane_ids (tabs s'))" "i \<notin> set (pane_ids (tabs s))"
  shows "\<exists>k \<ge> uuid_pos (build s). pane_serial (build s) k i"
proof -
  let ?ps = "og_named g @ og_carried g" and ?st = "stays (og_moved g) (other_panes s g)"
  have b: "set (all_panes (tabs s)) = set (group_panes (group_of c s) @ other_panes s g)"
    using panes_before [OF assms(1-3)] by (metis mset_append mset_eq_setD)
  have a: "set (all_panes (tabs s')) = set (?ps @ ?st)"
    using panes_after [OF assms(1-3)] by (metis mset_append mset_eq_setD)
  obtain p where p: "p \<in> set ?ps \<or> p \<in> set ?st" "i = pane_id p" using assms(4) by (auto simp: pane_ids_def a)
  have "set (og_carried g) \<subseteq> set (group_panes (group_of c s))" "set ?st \<subseteq> set (other_panes s g)"
    using assms(3) by (auto simp: opens_group_def stays_def)
  then have n: "p \<in> set (og_named g)" using p assms(5) by (auto simp: pane_ids_def b)
  from assms(3) n show ?thesis
  proof (cases rule: named_origin)
    case (old j q)
    then show ?thesis using open_child_paneD [OF old(1)] assms(5) p(2) by (auto simp: pane_ids_def)
  next
    case (new k)
    then show ?thesis using p(2) by blast
  qed
qed


section \<open>The Tabs stay well formed\<close>

lemma leaf_ids_group_layout:
  "childConnectionGroupLayout ps = Some l \<Longrightarrow> leaf_ids l = map pane_id ps"
  using leafOrder_panorama [of ps]
  by (auto simp: childConnectionGroupLayout_def split: option.splits layout_node.splits)

lemma ensure_mset_meet:
  assumes "distinct (map pane_id ps)"
    and "\<And>l. lay = Some l \<Longrightarrow> distinct (leaf_ids l) \<and> set (leaf_ids l) \<inter> set (map pane_id ps) \<noteq> {}"
  shows "mset (leafOrder (ensureLayout lay ps)) = mset (map pane_id ps)"
proof (cases lay)
  case None
  then show ?thesis by (simp add: ensureLayout_def leafOrder_default)
next
  case (Some l)
  have "distinct (leafOrder (ensureLayout lay ps))"
    unfolding Some by (rule distinct_leafOrder_ensure) (use assms Some in auto)
  then show ?thesis using assms(1) set_leafOrder_ensure by (rule mset_by_set)
qed

lemma lose_panes_ok:
  assumes "tab_ok t" "[] \<notin> pane_id ` set (panes t)" "lose_panes ids moved t = Some t'"
  shows "tab_id t' = tab_id t \<and> tab_ok t' \<and> (tab_old e t \<longrightarrow> tab_old e t')"
proof -
  let ?ps = "filter (\<lambda>p. pane_id p \<notin> set moved) (panes t)"
  let ?lay = "ensureLayout (layout t) ?ps"
  show ?thesis
  proof (cases "length ?ps = length (panes t)")
    case True
    then show ?thesis using assms by (simp add: lose_panes_def)
  next
    case False
    then have ne: "?ps \<noteq> []" and t': "tab_id t' = tab_id t" "panes t' = ?ps" "layout t' = ?lay"
      "tab_kind t' = tab_kind t"
      "focusedPaneId t' = (if truthy_str (focusedPaneId t) \<and> nullish (focusedPaneId t) [] \<in> set moved
         then focus_after ?lay ?ps else focusedPaneId t)"
      using assms(3) by (auto simp: lose_panes_def Let_def split: if_splits)
    have k: "tab_kind t = KTerminal" using assms(1) ne by (auto simp: tab_ok_def)
    have m: "mset (leafOrder ?lay) = mset (map pane_id ?ps)"
      by (rule ensure_mset_filter) (use tab_okD [OF assms(1)] ne in auto)
    have "i \<in> pane_id ` set ?ps" if "focusedPaneId t' = Some i" for i
    proof (cases "truthy_str (focusedPaneId t) \<and> nullish (focusedPaneId t) [] \<in> set moved")
      case True
      then show ?thesis using focus_after_in [OF m] that t'(5) by simp
    next
      case False
      then have f: "focusedPaneId t = Some i" using that t'(5) by (simp split: if_splits)
      then have "i \<in> pane_id ` set (panes t)" using assms(1) by (simp add: tab_ok_def)
      moreover from this assms(2) have "i \<noteq> []" by metis
      ultimately show ?thesis using False f by (auto simp: truthy_str_def)
    qed
    moreover have "mset (leaf_ids l) = mset (map pane_id ?ps)" if "layout t' = Some l" for l
      using m that t'(3) by simp
    moreover have "distinct (map pane_id ?ps)" using assms(1) distinct_map_filter by (auto simp: tab_ok_def)
    ultimately show ?thesis using assms(1) t' k ne by (auto simp: tab_ok_def tab_old_def)
  qed
qed

lemma group_tab_ok:
  assumes "ws_inv s" "distinct (pane_ids (tabs s))" "opens_group c children s g s'"
    and "children_listed c (child_ids children) s" "children \<noteq> []"
  shows "tab_ok (og_tab g)"
proof -
  let ?ps = "og_named g @ og_carried g"
  obtain i conv where t: "og_tab g = group_tab c (group_of c s) i conv ?ps s"
    using assms(3) by (auto simp: opens_group_def)
  have d: "distinct (map pane_id ?ps)" by (rule shown_distinct [OF assms(1-3)])
  have "list_all2 (stands_for (open_child_pane c (child_ids children) s) (build s))
      (keep_first child_id children) (og_named g)"
    using assms(3) by (simp add: opens_group_def)
  then have ne: "?ps \<noteq> []" using assms(5) by (metis append_is_Nil_conv keep_first_Nil list_all2_Nil2)
  have "mset (leaf_ids l) = mset (map pane_id ?ps)" if "layout (og_tab g) = Some l" for l
  proof (cases "group_of c s = None \<or> conv")
    case True
    then have "childConnectionGroupLayout ?ps = Some l" using that by (auto simp: t split: option.splits)
    then show ?thesis using leaf_ids_group_layout by metis
  next
    case False
    then obtain w where w: "group_of c s = Some w" "w \<in> set (tabs s)" by (auto dest: find_group_tabD)
    then have ok: "tab_ok w" using ws_invD(3) [OF assms(1)] by simp
    have l: "ensureLayout (layout w) ?ps = Some l" using that False w by (simp add: t)
    have "mset (leafOrder (ensureLayout (layout w) ?ps)) = mset (map pane_id ?ps)"
    proof (rule ensure_mset_meet [OF d])
      fix lw assume lw: "layout w = Some lw"
      have m: "mset (leaf_ids lw) = mset (map pane_id (panes w))" using tab_okD(2) [OF ok] lw by simp
      then have s: "set (leaf_ids lw) = pane_id ` set (panes w)" by (metis mset_eq_setD set_map)
      have "tab_kind w = KTerminal" using ok lw by (auto simp: tab_ok_def)
      then have "panes w \<noteq> []" using ok by (simp add: tab_ok_def)
      then obtain p where p: "p \<in> set (panes w)" by (cases "panes w") auto
      then have "pane_id p \<in> pane_id ` set ?ps"
        using group_kept [OF assms(3,4)] w(1) by (simp add: group_panes_def)
      then have "pane_id p \<in> set (leaf_ids lw) \<inter> set (map pane_id ?ps)"
        using p s by (simp add: image_Un)
      moreover have "distinct (leaf_ids lw)"
        using m tab_okD(1) [OF ok] mset_eq_imp_distinct_iff by blast
      ultimately show "distinct (leaf_ids lw) \<and> set (leaf_ids lw) \<inter> set (map pane_id ?ps) \<noteq> {}" by blast
    qed
    then show ?thesis using l by simp
  qed
  moreover have "i \<in> pane_id ` set ?ps" if "focusedPaneId (og_tab g) = Some i" for i
    using that by (auto simp: t focusedPaneIdForChildLayout_def Let_def split: if_splits)
  moreover have "starts_with (tab_id (og_tab g)) ''tab-''" using og_tab_id [OF assms(1-3)] by blast
  moreover have "panes (og_tab g) = ?ps" "tab_kind (og_tab g) = KTerminal" by (simp_all add: t)
  ultimately show ?thesis using d ne by (simp add: tab_ok_def)
qed

lemma carried_open:
  assumes "opens_group c children s g s'" "p \<in> set (og_carried g)"
  shows "\<exists>w \<in> set (tabs s). p \<in> set (panes w)"
proof -
  have p: "p \<in> set (group_panes (group_of c s))" using assms by (auto simp: opens_group_def)
  then obtain w where "group_of c s = Some w" by (cases "group_of c s") (auto simp: group_panes_def)
  then show ?thesis using p by (auto simp: group_panes_def dest: find_group_tabD)
qed

lemma group_tab_old:
  assumes "ws_inv s" "distinct (pane_ids (tabs s))" "opens_group c children s g s'"
  shows "tab_old (build s') (og_tab g)"
proof -
  have I: "env_leq (og_built g) (build s')" "env_leq (build s) (build s')"
    "\<forall>k \<ge> uuid_pos (build s'). \<not> tab_serial (build s') k (tab_id (og_tab g))"
    using og_tab_id [OF assms] by blast+
  have "panes (og_tab g) = og_named g @ og_carried g" using assms(3) by (auto simp: opens_group_def)
  moreover have "\<not> pane_serial (build s') k (pane_id p)"
    if "p \<in> set (og_named g)" "uuid_pos (build s') \<le> k" for p k
    using named_ids [OF assms] that I(1) serial_env(2) [of "build s'" "og_built g"] by (auto simp: env_leq_def)
  moreover have "\<not> pane_serial (build s') k (pane_id p)"
    if "p \<in> set (og_carried g)" "uuid_pos (build s') \<le> k" for p k
  proof -
    from carried_open [OF assms(3) that(1)] obtain w where w: "w \<in> set (tabs s)" "p \<in> set (panes w)" ..
    have "tab_old (build s') w" using I(2) ws_invD(4) [OF assms(1) w(1)] by (rule tab_old_mono)
    then show ?thesis using w(2) that(2) by (simp add: tab_old_def)
  qed
  ultimately show ?thesis using I(3) by (auto simp: tab_old_def)
qed

lemma opens_group_inv:
  assumes "ws_inv s" "panes_apart (tabs s)" "opens_group c children s g s'"
    and "children_listed c (child_ids children) s" "children \<noteq> []"
  shows "ws_inv s'"
proof -
  have D: "distinct (pane_ids (tabs s))" "[] \<notin> set (pane_ids (tabs s))"
    using assms(2) by (simp_all add: panes_apart_def)
  note I = og_tab_id [OF assms(1) D(1) assms(3)]
  have ok: "tab_ok (og_tab g)" by (rule group_tab_ok [OF assms(1) D(1) assms(3-5)])
  have old: "tab_old (build s') (og_tab g)" by (rule group_tab_old [OF assms(1) D(1) assms(3)])
  let ?f = "\<lambda>t. if tab_id t = tab_id (og_tab g) then Some (og_tab g)
      else lose_panes (child_ids children) (og_moved g) t"
  have ts: "tabs s' = js_compact (map ?f (tabs s)) @ (if group_of c s = None then [og_tab g] else [])"
    using assms(3) by (simp add: opens_group_def place_group_def)
  have inv: "tabs_inv (build s') (tabs s)" using assms(1) I by (auto simp: ws_inv_def intro: tabs_inv_mono)
  have step: "tab_id t' = tab_id t \<and> tab_ok t' \<and> tab_old (build s') t'"
    if "t \<in> set (tabs s)" "?f t = Some t'" "tab_ok t" "tab_old (build s') t" for t t'
  proof (cases "tab_id t = tab_id (og_tab g)")
    case True
    then show ?thesis using that(2) ok old by auto
  next
    case False
    moreover have "[] \<notin> pane_id ` set (panes t)" using D(2) that(1) by (auto simp: pane_ids_def set_all_panes)
    ultimately show ?thesis using that lose_panes_ok by fastforce
  qed
  have S: "tabs_inv (build s') (js_compact (map ?f (tabs s)))"
    "set (map tab_id (js_compact (map ?f (tabs s)))) \<subseteq> set (map tab_id (tabs s))"
    using tabs_inv_shrink [of "build s'" "tabs s" ?f, OF inv step] by blast+
  have "tabs_inv (build s') (tabs s')"
  proof (cases "group_of c s = None")
    case True
    then have "tab_id (og_tab g) \<notin> tab_id ` set (tabs s)" using I by simp
    then have "tab_id (og_tab g) \<notin> set (map tab_id (js_compact (map ?f (tabs s))))" using S(2) by auto
    from tabs_inv_push [OF S(1) ok old this] show ?thesis unfolding ts using True by simp
  next
    case False
    then show ?thesis unfolding ts using S(1) by (simp only: if_False append_Nil2)
  qed
  then show ?thesis using assms(1,3) by (simp add: ws_inv_def opens_group_def)
qed


lemma og_tab_placed:
  assumes "ws_inv s" "distinct (pane_ids (tabs s))" "opens_group c children s g s'"
  shows "og_tab g \<in> set (tabs s')"
proof (cases "group_of c s")
  case None
  then show ?thesis using assms(3) by (simp add: opens_group_def place_group_def)
next
  case (Some w)
  then have "w \<in> set (tabs s)" "tab_id w = tab_id (og_tab g)"
    using og_tab_id [OF assms] by (auto dest: find_group_tabD)
  then show ?thesis using assms(3) by (force simp: opens_group_def place_group_def set_js_compact_map)
qed



definition sample_local :: connection where
  "sample_local = mk_connection ''l1'' ''shell'' ''localhost'' ''local'' CLocal"

definition opened_local :: workspace_state where
  "opened_local = openConnection sample_local None initial_state"

definition local_children :: "workspace_child_connection list" where
  "local_children = convertOpenTabsToChildConnections [] (tabs opened_local) ''default''"

lemma opened_local_inv: "ws_inv opened_local"
proof -
  have "names_apart (build initial_state) sample_local"
    unfolding names_apart_def
  proof (intro ballI allI notI)
    fix x k assume x: "x \<in> set tab_suffixes"
      and "suffix (uuid (build initial_state) k) (conn_id sample_local @ x)"
    then obtain y where "conn_id sample_local @ x = y @ uuid (build initial_state) k" by (auto simp: suffix_def)
    then have "count_list (uuid (build initial_state) k) (CHR ''-'')
        \<le> count_list (conn_id sample_local @ x) (CHR ''-'')" by simp
    moreover have "count_list (uuid (build initial_state) k) (CHR ''-'') = 4"
      using sample_supply(1) by (simp add: uuid_supply_def initial_state_def)
    moreover have "count_list (conn_id sample_local @ x) (CHR ''-'') \<le> 2"
      using x by (auto simp: tab_suffixes_def sample_local_def)
    ultimately show False by simp
  qed
  then show ?thesis using openConnection_inv [OF initial_state_inv] by (simp add: opened_local_def)
qed


section \<open>Where it goes wrong\<close>

text \<open>The first Pane of a terminal Connection always gets the id made of the Connection's
  id.  Once that Pane has moved into a group Tab the Connection has no Tab of its own any more, so
  opening it again builds a second Pane with the same id: two terminals then share one entry of
  the Pane registry.\<close>

theorem reopened_terminal_shares_pane_id:
  assumes "isTerminalConnectionType c" "find_tab (''tab-'' @ conn_id c) (tabs s) = None"
    and "loadStoredLayout (conn_id c) s = None" "''pane-'' @ conn_id c \<in> set (pane_ids (tabs s))"
  shows "\<not> distinct (pane_ids (tabs (openConnection c allow s)))"
proof -
  let ?d = "defaultUseTmuxSessions s"
  have single: "\<not> is_single_surface c" "conn_type c \<noteq> CUrl" "\<not> isRemoteDesktopConnection c"
    "conn_type c \<noteq> CFtp" "conn_type c \<noteq> CCloudStorage" "conn_type c \<noteq> CLocalFiles" "conn_type c \<noteq> CFileView"
    using assms(1) by (auto simp: isTerminalConnectionType_def is_single_surface_def isRemoteDesktopConnection_def)
  obtain ps e' where b: "buildPanesFromStoredLayout c None ?d (build s) = (ps, e')" by fastforce
  obtain ids t where i: "tmuxSessionIdsForConnection c 1 ?d (be_tmux (build s)) = (ids, t)" by fastforce
  have "ps = [fst (build_indexed_pane c ids 0 ((build s)\<lparr>be_tmux := t\<rparr>))]"
    using b i single(1) by (simp add: buildPanesFromStoredLayout_def fallback_panes_def stored_pane_count_def
        nullish_def buildPanesForConnection_def split: prod.splits)
  then have p: "map pane_id ps = [''pane-'' @ conn_id c]"
    by (simp add: build_indexed_pane_def split: prod.splits)
  have "pane_ids (tabs (openConnection c allow s)) = pane_ids (tabs s) @ map pane_id ps"
    using single assms(2,3) b
    by (simp add: openConnection_def Let_def with_build_def push_tab_def mk_tab_def pane_ids_def)
  then show ?thesis using p assms(4) by simp
qed

theorem reopened_terminal_shares_pane_id_witness:
  "let s = snd (openChildConnectionLayout sample_local local_children opened_local) in
    distinct (pane_ids (tabs s)) \<and> \<not> distinct (pane_ids (tabs (openConnection sample_local None s)))"
proof -
  let ?s = "snd (openChildConnectionLayout sample_local local_children opened_local)"
  have "isTerminalConnectionType sample_local" "find_tab (''tab-'' @ conn_id sample_local) (tabs ?s) = None"
    "loadStoredLayout (conn_id sample_local) ?s = None"
    "''pane-'' @ conn_id sample_local \<in> set (pane_ids (tabs ?s))" by code_simp+
  from reopened_terminal_shares_pane_id [OF this, of None] have
    "\<not> distinct (pane_ids (tabs (openConnection sample_local None ?s)))" .
  moreover have "distinct (pane_ids (tabs ?s))" by code_simp
  ultimately show ?thesis unfolding Let_def by blast
qed

text \<open>Showing one child alone moves no Pane.\<close>

lemma show_child_keeps:
  "\<exists>f. tabs (show_child parent wid i s) = map f (tabs s)
     \<and> (\<forall>t. tab_id (f t) = tab_id t \<and> panes (f t) = panes t \<and> layout (f t) = layout t)
     \<and> pane_ids (tabs (show_child parent wid i s)) = pane_ids (tabs s)"
proof -
  have upd: "\<exists>f. tabs (maximizeChildConnectionPane j k s) = map f (tabs s)
      \<and> (\<forall>t. tab_id (f t) = tab_id t \<and> panes (f t) = panes t \<and> layout (f t) = layout t)" for j k
    unfolding maximizeChildConnectionPane_def update_tab_def map_where_def
    by (rule exI [of _ "\<lambda>t. if tab_id t = j then (if truthy_str (childConnectionGroupParentId t)
        then t\<lparr>focusedPaneId := Some k, maximizedPaneId := Some k\<rparr> else t\<lparr>focusedPaneId := Some k\<rparr>) else t"])
      simp
  have "\<exists>f. tabs (show_child parent wid i s) = map f (tabs s)
      \<and> (\<forall>t. tab_id (f t) = tab_id t \<and> panes (f t) = panes t \<and> layout (f t) = layout t)"
    using upd by (auto simp: show_child_def intro: exI [of _ "\<lambda>t. t"] split: option.splits)
  then obtain f where f: "tabs (show_child parent wid i s) = map f (tabs s)"
    "\<forall>t. tab_id (f t) = tab_id t \<and> panes (f t) = panes t \<and> layout (f t) = layout t" by blast
  then have "pane_ids (tabs (show_child parent wid i s)) = pane_ids (tabs s)"
    by (simp add: pane_ids_def all_panes_def o_def)
  then show ?thesis using f by blast
qed

text \<open>C17. Opening a child of a file browser that is not saved yet replaces the whole group: the
  Panes of the other children are closed, and since no leaf of the group's layout survives, the
  new Pane takes two places in it.\<close>

theorem unsaved_child_is_shown_twice:
  assumes "ws_inv s" "distinct (pane_ids (tabs s))" "conn_type c = CLocalFiles"
    and "group_of c s = Some g" "layout g = Some l"
    and "\<forall>p \<in> set (panes g). \<not> is_plain p \<and> pane_childConnectionId p \<noteq> Some (child_id child)"
    and "child_id child \<notin> child_id ` set stored" "open_child_pane c [child_id child] s (child_id child) = None"
  shows "\<exists>t p. t \<in> set (tabs (snd (openChildConnection c child stored s))) \<and> tab_id t = tab_id g
    \<and> panes t = [p] \<and> leafOrder (layout t) = [pane_id p, pane_id p]
    \<and> set (pane_ids (tabs (snd (openChildConnection c child stored s)))) \<inter> pane_id ` set (panes g) = {}"
proof -
  let ?s1 = "snd (openChildConnectionLayout c [child] s)"
  let ?s2 = "snd (openChildConnection c child stored s)"
  have "\<not> (\<exists>x \<in> set (loadStoredChildConnections stored). child_id x = child_id child)"
    using assms(7) by (auto simp: loadStoredChildConnections_def) (metis imageI)
  then have "\<not> (\<exists>x \<in> set (filter (\<lambda>x. parentConnectionId x = conn_id c
      \<and> nullish (child_workspaceId x) DEFAULT_WORKSPACE_ID = activeWorkspaceId s)
      (loadStoredChildConnections stored)). child_id x = child_id child)" by auto
  then have s2: "?s2 = show_child (conn_id c) (activeWorkspaceId s) (child_id child) ?s1"
    unfolding openChildConnection_def Let_def using assms(3)
    by (simp only: if_True if_False) (simp split: prod.splits)
  obtain og where og: "opens_group c [child] s og ?s1" using layout_opens_group [of c "[child]"] assms(3) by auto
  have ex: "external_pane_of (conn_id c) [child_id child] (Some g) (activeWorkspaceId s) (tabs s) (child_id child) = None"
    using assms(4,8) by (simp add: open_child_pane_def Let_def nullish_opt_def split: option.splits)
  then have conv: "\<not> converts_plain (conn_id c) [child_id child] (Some g) (activeWorkspaceId s) (tabs s)"
    using assms(6) by (auto simp: converts_plain_def list_ex_iff)
  have carried: "og_carried og = []" using og assms(4,6) by (auto simp: opens_group_def group_panes_def)
  obtain p where p: "og_named og = [p]" "stands_for (open_child_pane c [child_id child] s) (build s) child p"
    using og by (auto simp: opens_group_def list_all2_Cons1)
  then obtain k where k: "uuid_pos (build s) \<le> k" "pane_serial (build s) k (pane_id p)"
    using assms(8) by (auto simp: stands_for_def)
  then have fresh: "pane_id p \<notin> set (pane_ids (tabs s))"
    using ws_invD(4) [OF assms(1)] by (auto simp: pane_ids_def set_all_panes tab_old_def)
  have g: "g \<in> set (tabs s)" using assms(4) by (auto dest: find_group_tabD)
  have "set (leaf_ids l) = pane_id ` set (panes g)"
    using tab_okD(2) [OF ws_invD(3) [OF assms(1) g]] assms(5) by (metis mset_eq_setD set_map)
  then have "set (leaf_ids l) \<inter> set (map pane_id [p]) = {}"
    using fresh g by (auto simp: pane_ids_def set_all_panes)
  then have lay: "leafOrder (ensureLayout (Some l) [p]) = [pane_id p, pane_id p]"
    by (simp add: leafOrder_ensure_unknown)
  have t: "tab_id (og_tab og) = tab_id g" "panes (og_tab og) = [p]" "layout (og_tab og) = ensureLayout (Some l) [p]"
    "childConnectionGroupParentId (og_tab og) = Some (conn_id c)"
    using og assms(4,5) conv p carried by (auto simp: opens_group_def)
  have "og_tab og \<in> set (tabs ?s1)"
    using og assms(4) g t(1) by (force simp: opens_group_def place_group_def set_js_compact_map)
  moreover have gone: "set (pane_ids (tabs ?s1)) \<inter> pane_id ` set (panes g) = {}"
  proof -
    have "mset (pane_ids (tabs s)) = mset (map pane_id (panes g @ other_panes s og))"
      by (rule mset_pane_ids) (simp add: panes_before [OF assms(1,2) og] assms(4) group_panes_def)
    then have "distinct (map pane_id (panes g @ other_panes s og))"
      using assms(2) mset_eq_imp_distinct_iff by blast
    moreover have "set (pane_ids (tabs ?s1)) = pane_id ` set ([p] @ stays (og_moved og) (other_panes s og))"
      using mset_pane_ids [OF panes_after [OF assms(1,2) og, unfolded mset_append [symmetric]]] p(1) carried
      by (metis append_Nil2 mset_eq_setD set_map)
    ultimately show ?thesis using fresh g
      by (auto simp: stays_def pane_ids_def set_all_panes)
  qed
  ultimately show ?thesis
    using show_child_keeps [of "conn_id c" "activeWorkspaceId s" "child_id child" ?s1] t lay
    unfolding s2 by (metis image_eqI list.set_map)
qed


definition sample_files :: connection where
  "sample_files = mk_connection ''f1'' ''files'' ''localhost'' [] CLocalFiles"

definition files_child :: "string \<Rightarrow> workspace_child_connection" where
  "files_child i = \<lparr>child_id = i, child_workspaceId = Some ''default'', parentConnectionId = ''f1'',
     child_name = i, fileViewPath = None, child_tmuxSessionId = None, child_cwd = None,
     child_fontSize = None, child_textEncoding = None, child_terminalOpacity = None,
     child_terminalBackground = None, child_iconColor = None, child_iconDataUrl = None,
     child_iconBackgroundColor = None\<rparr>"

definition opened_files :: workspace_state where
  "opened_files = snd (openChildConnectionLayout sample_files [files_child ''one''] initial_state)"

definition files_group :: workspace_tab where
  "files_group = hd (tabs opened_files)"

lemma opened_files_inv: "ws_inv opened_files"
proof -
  have c: "conn_type sample_files \<noteq> CUrl" by code_simp
  obtain g where g: "opens_group sample_files [files_child ''one''] initial_state g opened_files"
    using layout_opens_group [OF c, of "[files_child ''one'']" initial_state] by (auto simp: opened_files_def)
  have "panes_apart (tabs initial_state)" by code_simp
  moreover have "children_listed sample_files (child_ids [files_child ''one'']) initial_state" by code_simp
  ultimately show ?thesis by (intro opens_group_inv [OF initial_state_inv _ g]) simp_all
qed

theorem unsaved_child_is_shown_twice_witness:
  "\<exists>t p. t \<in> set (tabs (snd (openChildConnection sample_files (files_child ''two'') [] opened_files)))
     \<and> panes t = [p] \<and> leafOrder (layout t) = [pane_id p, pane_id p]"
proof -
  have d: "distinct (pane_ids (tabs opened_files))" by code_simp
  have c: "conn_type sample_files = CLocalFiles" by code_simp
  have g: "group_of sample_files opened_files = Some files_group" by code_simp
  have l: "layout files_group \<noteq> None" by code_simp
  have o1: "\<forall>p \<in> set (panes files_group). \<not> is_plain p \<and> pane_childConnectionId p \<noteq> Some (child_id (files_child ''two''))"
    by code_simp
  have n: "open_child_pane sample_files [child_id (files_child ''two'')] opened_files (child_id (files_child ''two'')) = None"
    by code_simp
  from l obtain lay where "layout files_group = Some lay" by auto
  from unsaved_child_is_shown_twice [OF opened_files_inv d c g this o1 _ n, of "[]"] show ?thesis by auto
qed

end
