(* ===== verification/Workspace_Machine.thy ===== *)
theory Workspace_Machine
  imports Workspace_Groups
begin

text \<open>
  The Workspace store as a state machine: its operations on Tabs and Panes are the events (all
  but the docking of a Document beside its file browser), each with the condition under which
  it keeps the invariant of \<open>Workspace_Invariant\<close>; the invariant holds along every run that
  meets them, and the Tab on screen belongs to the Workspace on screen along every run of the
  operations that respect it.  Operations that do not are shown too.
\<close>

section \<open>Events\<close>

datatype ws_event =
    ActivateTab string
  | SetWorkspaces "workspace list"
  | SetActiveWorkspace string
  | CloseWorkspaceTabs string string
  | CloseAllTabs
  | CloseTab string
  | MoveTab string string
  | RenameTab string string
  | OpenConnection connection "bool option"
  | OpenConnectionInNewTab connection "pane_options option"
  | OpenUrlInNewTab connection string "string option" "string option"
  | OpenConnectionsInPanorama "connection list" "string option"
  | SplitTerminalPane string split_direction
  | AddConnectionToTerminalPane string connection split_direction "string option" "pane_options option"
  | OpenTmuxSessionInPane string connection string split_direction
  | ClosePane string string
  | CloseChildConnection string
  | SetFocusedPane string string
  | UpdatePaneCwd string string string
  | MarkTmuxUnavailable string string
  | SaveTabLayout string
  | ResetTabLayout string
  | ResetAllLayouts
  | RefreshConnection connection
  | SessionStarted string
  | SessionEnded string
  | OpenUrl connection
  | OpenRemoteDesktop connection "bool option"
  | OpenSftp connection
  | OpenSftpInNewTab connection
  | OpenFtp connection
  | OpenCloudStorage connection
  | OpenLocalFiles connection
  | OpenDocument connection
  | OpenPath "string \<times> string" launch_kind string
  | OpenDocumentPath string string "connection option" "bool option"
  | OpenPortForward connection ssh_forward
  | OpenTerminalHere connection string
  | ShowChildren connection "workspace_child_connection list"
  | ShowChild connection workspace_child_connection "workspace_child_connection list"
  | MaximizePane string string
  | SetCommandBar string bool
  | RenameTmux string string string
  | X11Status string string x11_status
  | ForwardFailures string string "string list"
  | WebviewMetadata string "string option" "string option" "string option"
  | SaveConnectionLayout string
  | ResetConnectionLayout string
  | PaneFontSize string string "rat option"
  | PaneTextEncoding string string "string option"
  | PaneBackground string string "json option option"
  | PaneAppearance string string "rat option option" "json option option"
  | ConnectionAppearance string "rat option option" "json option option"
  | ConnectionColorScheme string "string option"
  | ConnectionSyntaxProfile string "string option"
  | ConnectionFileView string "json option option"
  | ChildMetadata workspace_child_connection
  | ConsumeFullscreen string

fun ws_step :: "ws_event \<Rightarrow> workspace_state \<Rightarrow> workspace_state" where
  "ws_step (ActivateTab i) s = activateTab i s"
| "ws_step (SetWorkspaces ws) s = setWorkspaces ws s"
| "ws_step (SetActiveWorkspace w) s = setActiveWorkspace w s"
| "ws_step (CloseWorkspaceTabs w f) s = closeWorkspaceTabs w f s"
| "ws_step CloseAllTabs s = closeAllTabs s"
| "ws_step (CloseTab i) s = closeTab i s"
| "ws_step (MoveTab i j) s = moveTab i j s"
| "ws_step (RenameTab i t) s = renameTab i t s"
| "ws_step (OpenConnection c allow) s = openConnection c allow s"
| "ws_step (OpenConnectionInNewTab c opts) s = openConnectionInNewTab c opts s"
| "ws_step (OpenUrlInNewTab c u t st) s = openUrlInNewTab c u t st s"
| "ws_step (OpenConnectionsInPanorama cs t) s = openConnectionsInPanorama cs t s"
| "ws_step (SplitTerminalPane i d) s = splitTerminalPaneDirected i d s"
| "ws_step (AddConnectionToTerminalPane i c d p opts) s = addConnectionToTerminalPane i c d p opts s"
| "ws_step (OpenTmuxSessionInPane i c sid d) s = openTmuxSessionInPane i c sid d s"
| "ws_step (ClosePane i p) s = closePane i p s"
| "ws_step (CloseChildConnection c) s = closeChildConnection c s"
| "ws_step (SetFocusedPane i p) s = setFocusedPane i p s"
| "ws_step (UpdatePaneCwd i p d) s = updatePaneCwd i p d s"
| "ws_step (MarkTmuxUnavailable i p) s = markOpenTerminalPaneTmuxUnavailable i p s"
| "ws_step (SaveTabLayout i) s = saveTabLayout i s"
| "ws_step (ResetTabLayout i) s = resetTabLayout i s"
| "ws_step ResetAllLayouts s = resetAllLayouts s"
| "ws_step (RefreshConnection c) s = refreshOpenConnectionMetadata c s"
| "ws_step (SessionStarted c) s = markConnectionSessionStarted c s"
| "ws_step (SessionEnded c) s = markConnectionSessionEnded c s"
| "ws_step (OpenUrl c) s = openUrlConnection c s"
| "ws_step (OpenRemoteDesktop c allow) s = openRemoteDesktopConnection c allow s"
| "ws_step (OpenSftp c) s = openSftpBrowser c s"
| "ws_step (OpenSftpInNewTab c) s = openSftpBrowserInNewTab c s"
| "ws_step (OpenFtp c) s = openFtpBrowser c s"
| "ws_step (OpenCloudStorage c) s = openCloudStorageBrowser c s"
| "ws_step (OpenLocalFiles c) s = openLocalFilesBrowser c s"
| "ws_step (OpenDocument c) s = openFileViewer c s"
| "ws_step (OpenPath names k path) s = openEphemeralPath names k path s"
| "ws_step (OpenDocumentPath fallback path source eph) s = open_document_tab fallback source eph path s"
| "ws_step (OpenPortForward c f) s = openSshPortForwardBrowser c f s"
| "ws_step (OpenTerminalHere c path) s = openTerminalHere c path s"
| "ws_step (ShowChildren c children) s = snd (openChildConnectionLayout c children s)"
| "ws_step (ShowChild c child stored) s = snd (openChildConnection c child stored s)"
| "ws_step (MaximizePane i p) s = maximizeChildConnectionPane i p s"
| "ws_step (SetCommandBar i b) s = setQuickCommandBarVisible i b s"
| "ws_step (RenameTmux c old new) s = renameTmuxSessionInOpenPanes c old new s"
| "ws_step (X11Status i p st) s = updateOpenTerminalPaneX11ForwardingStatus i p st s"
| "ws_step (ForwardFailures i p fs) s = setOpenTerminalPaneSshForwardFailures i p fs s"
| "ws_step (WebviewMetadata i t st u) s = updateWebviewTabMetadata i t st u s"
| "ws_step (SaveConnectionLayout c) s = saveConnectionLayout c s"
| "ws_step (ResetConnectionLayout c) s = resetConnectionLayout c s"
| "ws_step (PaneFontSize i p f) s = updateOpenTerminalPaneFontSize i p f s"
| "ws_step (PaneTextEncoding i p enc) s = updateOpenTerminalPaneTextEncoding i p enc s"
| "ws_step (PaneBackground i p bg) s = updateOpenTerminalPaneBackground i p bg s"
| "ws_step (PaneAppearance i p opacity bg) s = updateOpenTerminalPaneAppearance i p opacity bg s"
| "ws_step (ConnectionAppearance c opacity bg) s = updateOpenConnectionTerminalAppearance c opacity bg s"
| "ws_step (ConnectionColorScheme c scheme) s = updateOpenConnectionTerminalColorScheme c scheme s"
| "ws_step (ConnectionSyntaxProfile c profile) s = updateOpenConnectionTerminalSyntaxHighlightProfile c profile s"
| "ws_step (ConnectionFileView c opts) s = updateOpenConnectionFileBrowserViewOptions c opts s"
| "ws_step (ChildMetadata child) s = updateOpenChildConnectionMetadata child s"
| "ws_step (ConsumeFullscreen p) s = snd (consumeRdpStartupFullscreen p s)"

text \<open>The children a click on one child shows (the first part of \<open>openChildConnection\<close>).\<close>

definition shown_children :: "connection \<Rightarrow> workspace_child_connection
    \<Rightarrow> workspace_child_connection list \<Rightarrow> workspace_state \<Rightarrow> workspace_child_connection list" where
  "shown_children c child stored s =
     (let wid = activeWorkspaceId s; loaded = loadStoredChildConnections stored;
          saved = filter (\<lambda>x. parentConnectionId x = conn_id c
                    \<and> nullish (child_workspaceId x) DEFAULT_WORKSPACE_ID = wid) loaded
      in if conn_type c = CLocalFiles then
           (if \<exists>x \<in> set saved. child_id x = child_id child then saved else [child])
         else open_children c (find_group_tab (conn_id c) wid (tabs s)) child loaded wid)"

lemma openChild_shown:
  "snd (openChildConnection c child stored s)
    = show_child (conn_id c) (activeWorkspaceId s) (child_id child)
        (snd (openChildConnectionLayout c (shown_children c child stored s) s))"
  by (simp add: openChildConnection_def shown_children_def Let_def split: prod.splits)

definition groups_children :: "connection \<Rightarrow> workspace_child_connection list \<Rightarrow> workspace_state \<Rightarrow> bool"
where
  "groups_children c children s = (conn_type c \<noteq> CUrl \<and> children \<noteq> [] \<and> panes_apart (tabs s)
     \<and> children_listed c (child_ids children) s)"

text \<open>A name the store gives a Tab without asking whether it is taken.\<close>

definition tab_name_free :: "string \<Rightarrow> workspace_state \<Rightarrow> bool" where
  "tab_name_free i s = (i \<notin> tab_id ` set (tabs s) \<and> (\<forall>k. \<not> tab_serial (build s) k i))"

text \<open>
  The environment: a Connection's own id (or the hash of a path) does not end in a generated
  id; a forwarded port and the clock (\<open>openTerminalHere\<close>) give a Tab a name that is not taken;
  the view that focuses or maximizes a Pane is the view of a Pane of that Tab; and the children
  of a Connection are shown when no two Panes share an id and the group holds Panes of the
  children to be shown only, one for each.
\<close>

fun ws_allowed :: "ws_event \<Rightarrow> workspace_state \<Rightarrow> bool" where
  "ws_allowed (OpenConnection c allow) s = names_apart (build s) c"
| "ws_allowed (OpenUrl c) s = names_apart (build s) c"
| "ws_allowed (OpenRemoteDesktop c allow) s = names_apart (build s) c"
| "ws_allowed (OpenSftp c) s = names_apart (build s) c"
| "ws_allowed (OpenFtp c) s = names_apart (build s) c"
| "ws_allowed (OpenCloudStorage c) s = names_apart (build s) c"
| "ws_allowed (OpenLocalFiles c) s = names_apart (build s) c"
| "ws_allowed (OpenDocument c) s = names_apart (build s) c"
| "ws_allowed (OpenPath names kind path) s =
     (\<forall>k. \<not> suffix (uuid (build s) k) (case kind of
         LaunchFile \<Rightarrow> ''inline-file-view-'' @ stableIdFromPath (trim path) @ ''-fileView''
       | LaunchFolder \<Rightarrow> ''launch-folder-'' @ stableIdFromPath (trim path) @ ''-localFiles''))"
| "ws_allowed (OpenDocumentPath fallback path source eph) s =
     (\<forall>k. \<not> suffix (uuid (build s) k) (''inline-file-view-'' @ stableIdFromPath path @ ''-fileView''))"
| "ws_allowed (OpenPortForward c f) s = tab_name_free (''tab-'' @ forwardId f) s"
| "ws_allowed (OpenTerminalHere c path) s =
     tab_name_free (terminal_tab_prefix c @ nat_string (date_now (be_tmux (build s)))) s"
| "ws_allowed (ShowChildren c children) s = groups_children c children s"
| "ws_allowed (ShowChild c child stored) s = groups_children c (shown_children c child stored s) s"
| "ws_allowed (SetFocusedPane i p) s =
     (\<forall>t \<in> set (tabs s). tab_id t = i \<longrightarrow> p \<in> pane_id ` set (panes t))"
| "ws_allowed (MaximizePane i p) s =
     (\<forall>t \<in> set (tabs s). tab_id t = i \<longrightarrow> p \<in> pane_id ` set (panes t))"
| "ws_allowed e s = True"

section \<open>The operations keep the Workspace well formed\<close>

text \<open>An update that leaves ids, layout, focus and kind of every Tab alone.\<close>

definition quiet :: "(workspace_tab \<Rightarrow> workspace_tab) \<Rightarrow> bool" where
  "quiet f = (\<forall>t. tab_id (f t) = tab_id t \<and> tab_workspaceId (f t) = tab_workspaceId t
     \<and> map pane_id (panes (f t)) = map pane_id (panes t) \<and> layout (f t) = layout t
     \<and> focusedPaneId (f t) = focusedPaneId t \<and> tab_kind (f t) = tab_kind t)"

lemma quiet_tab: "quiet f \<Longrightarrow> tab_ok t \<Longrightarrow> tab_old e t \<Longrightarrow> tab_ok (f t) \<and> tab_old e (f t)"
proof
  assume q: "quiet f" and ok: "tab_ok t" and old: "tab_old e t"
  have ids: "map pane_id (panes (f t)) = map pane_id (panes t)" using q by (simp add: quiet_def)
  then have s: "pane_id ` set (panes (f t)) = pane_id ` set (panes t)" by (metis set_map)
  have n: "panes (f t) = [] \<longleftrightarrow> panes t = []" using ids by (metis map_is_Nil_conv)
  show "tab_ok (f t)" unfolding tab_ok_def ids n s using q ok by (simp add: tab_ok_def quiet_def)
  have "\<not> pane_serial e k (pane_id p)" if "uuid_pos e \<le> k" "p \<in> set (panes (f t))" for k p
  proof -
    have "pane_id p \<in> pane_id ` set (panes t)" using that(2) s by blast
    then show ?thesis using old that(1) by (auto simp: tab_old_def)
  qed
  then show "tab_old e (f t)" using q old by (simp add: tab_old_def quiet_def)
qed

lemma quiet_inv:
  assumes "ws_inv s" "quiet f" "tabs s' = map f (tabs s)" "env_leq (build s) (build s')"
    and "storedLayouts s' = storedLayouts s"
  shows "ws_inv s'"
proof -
  have "tabs_inv (build s) (map f (tabs s))"
    using assms(1,2) quiet_tab by (intro tabs_inv_map_on) (auto simp: ws_inv_def quiet_def)
  then show ?thesis using assms tabs_inv_mono by (simp add: ws_inv_def)
qed

lemma quietI:
  assumes "\<And>p. pane_id (g p) = pane_id p"
  shows "quiet (\<lambda>t. t\<lparr>panes := map g (panes t)\<rparr>)"
  using assms by (simp add: quiet_def)

lemma quiet_if: "quiet f \<Longrightarrow> quiet (\<lambda>t. if P t then f t else t)"
  by (simp add: quiet_def)

lemma pane_id_map_connection [simp]: "pane_id (map_pane_connection f p) = pane_id p"
  by (cases p) simp_all

lemma pane_id_set_toolbar [simp]: "pane_id (set_pane_toolbarTitle t p) = pane_id p"
  by (cases p) simp_all

lemma pane_id_on_terminal: "(\<And>q. tp_id (f q) = tp_id q) \<Longrightarrow> pane_id (on_terminal f p) = pane_id p"
  by (cases p) simp_all

definition quiet_step :: "workspace_state \<Rightarrow> workspace_state \<Rightarrow> bool" where
  "quiet_step s s' = (\<exists>f. quiet f \<and> tabs s' = map f (tabs s) \<and> env_leq (build s) (build s')
     \<and> storedLayouts s' = storedLayouts s \<and> activeTabId s' = activeTabId s
     \<and> activeWorkspaceId s' = activeWorkspaceId s)"

lemma quiet_step_inv: "ws_inv s \<Longrightarrow> quiet_step s s' \<Longrightarrow> ws_inv s'"
  by (auto simp: quiet_step_def intro: quiet_inv)

lemma quiet_mapI:
  assumes "quiet f"
  shows "quiet_step s (s\<lparr>tabs := map f (tabs s)\<rparr>)"
  using assms unfolding quiet_step_def by (intro exI [of _ f]) simp

lemma quiet_update_terminal:
  assumes "\<And>p. tp_id (f p) = tp_id p"
  shows "quiet_step s (update_terminal i j f s)"
proof -
  have "quiet (\<lambda>t. if tab_id t = i then if tab_kind t = KTerminal then update_pane j f t else t else t)"
    using assms by (auto simp: quiet_def update_pane_def map_where_def pane_id_on_terminal)
  from quiet_mapI [OF this] show ?thesis
    by (simp add: update_terminal_def update_tab_def map_where_def)
qed

lemma quiet_webview: "quiet_step s (updateWebviewTabMetadata i t st u s)"
  unfolding updateWebviewTabMetadata_def Let_def
  by (rule quiet_mapI) (auto simp: quiet_def split: workspace_pane.splits)

lemma quiet_child_metadata: "quiet_step s (updateOpenChildConnectionMetadata child s)"
  unfolding updateOpenChildConnectionMetadata_def Let_def
  by (rule quiet_mapI) (auto simp: quiet_def)

lemma quiet_appearance: "quiet_step s (update_appearance c a s)"
  unfolding update_appearance_def
  by (rule quiet_mapI) (auto simp: quiet_def updateTabTerminalAppearance_def map_where_def)

lemma quiet_file_view: "quiet_step s (updateOpenConnectionFileBrowserViewOptions c opts s)"
  unfolding updateOpenConnectionFileBrowserViewOptions_def
  by (rule quiet_mapI) (auto simp: quiet_def)

lemma quiet_command_bar: "quiet_step s (setQuickCommandBarVisible i b s)"
proof -
  let ?f = "\<lambda>t. if tab_id t = i then t\<lparr>quickCommandBarVisible := Some b\<rparr> else t"
  have "quiet ?f" by (auto simp: quiet_def)
  then show ?thesis unfolding quiet_step_def
    by (intro exI [of _ ?f]) (auto simp: setQuickCommandBarVisible_def update_tab_def map_where_def
        persistQuickCommandBarVisible_def split: option.splits)
qed

lemma quiet_rename_tmux: "quiet_step s (renameTmuxSessionInOpenPanes c old new s)"
proof -
  let ?f = "\<lambda>t. if tab_kind t = KTerminal
      then t\<lparr>panes := map (on_terminal (rename_tmux_pane c old (trim new))) (panes t)\<rparr> else t"
  have i: "tp_id (rename_tmux_pane c old n q) = tp_id q" for n q by (simp add: rename_tmux_pane_def)
  have "quiet ?f" by (auto simp: quiet_def pane_id_on_terminal i)
  moreover have "quiet_step s s" unfolding quiet_step_def
    by (intro exI [of _ "\<lambda>t. t"]) (simp add: quiet_def)
  ultimately show ?thesis
    by (auto simp: renameTmuxSessionInOpenPanes_def Let_def map_where_def quiet_step_def
        intro!: exI [of _ ?f])
qed

text \<open>Updates that are saved with the layout of the Tab.\<close>

lemma persist_tab_same:
  "tabs (persist_tab_layout t s) = tabs s" "build (persist_tab_layout t s) = build s"
  "activeTabId (persist_tab_layout t s) = activeTabId s"
  "activeWorkspaceId (persist_tab_layout t s) = activeWorkspaceId s"
  by (simp_all add: persist_tab_layout_def persistLayout_def split: option.splits)

lemma persist_tab_inv:
  assumes "ws_inv s" "tab_ok t"
  shows "ws_inv (persist_tab_layout t s)"
proof (cases "\<exists>c l. tab_connection t = Some c \<and> ensureLayout (layout t) (panes t) = Some l")
  case False
  then show ?thesis using assms(1) by (auto simp: persist_tab_layout_def split: option.splits)
next
  case True
  then obtain c l where c: "tab_connection t = Some c" and l: "ensureLayout (layout t) (panes t) = Some l"
    by blast
  have "mset (leaf_ids l) = mset (map pane_id (panes t))"
    using ensure_mset [OF tab_okD(1,2) [OF assms(2)]] l by simp
  then have "stored_ok st" if "serializeLayout l (panes t) = Some st" for st
    using serialize_ok [OF tab_okD(1) [OF assms(2)] _ that] by simp
  then show ?thesis using assms(1) c l by (auto simp: persist_tab_layout_def ws_inv_def persistLayout_def)
qed

lemma fold_persist:
  "ws_inv s \<Longrightarrow> \<forall>t \<in> set ts. tab_ok t \<Longrightarrow> ws_inv (fold persist_tab_layout ts s)"
  "tabs (fold persist_tab_layout ts s) = tabs s"
  "activeTabId (fold persist_tab_layout ts s) = activeTabId s"
  "activeWorkspaceId (fold persist_tab_layout ts s) = activeWorkspaceId s"
  by (induction ts arbitrary: s) (auto simp: persist_tab_same intro: persist_tab_inv)

lemma update_and_persist_inv:
  assumes "ws_inv s" "\<And>p. tp_id (f p) = tp_id p"
  shows "ws_inv (update_and_persist i j f s)"
proof -
  have "ws_inv (update_terminal i j f s)" by (rule update_terminal_inv [OF assms])
  then show ?thesis unfolding update_and_persist_def Let_def
    by (intro fold_persist(1)) (auto simp: ws_inv_def tabs_inv_def)
qed

text \<open>Tabs under a name that is not asked for.\<close>

lemma free_push_inv:
  assumes "ws_inv s" "tab_name_free (tab_id t) s" "tab_ok t" "env_leq (build s) (build s')"
    and "tabs s' = tabs s @ [t]" "storedLayouts s' = storedLayouts s"
    and "\<forall>p \<in> set (panes t). \<forall>k \<ge> uuid_pos (build s'). \<not> pane_serial (build s') k (pane_id p)"
  shows "ws_inv s'"
proof (rule push_inv [OF assms(1,4,5,6,3)])
  show "tab_old (build s') t" using assms(2,4,7) serial_env(1) [of "build s'" "build s"]
    by (simp add: tab_old_def tab_name_free_def env_leq_def)
  show "tab_id t \<notin> set (map tab_id (tabs s))" using assms(2) by (simp add: tab_name_free_def)
qed

lemma port_forward_inv:
  assumes "ws_inv s" "tab_name_free (''tab-'' @ forwardId f) s"
  shows "ws_inv (openSshPortForwardBrowser c f s)"
proof -
  have "\<not> pane_serial e k (''tab-'' @ x)" for e k x
    by (rule not_pane_serial_tab) simp
  then have no: "\<forall>k \<ge> uuid_pos e. \<not> pane_serial e k (''tab-'' @ x)" for e x by blast
  show ?thesis
  proof (cases "conn_type c = CSsh")
    case False
    then show ?thesis using assms(1) by (simp add: openSshPortForwardBrowser_def)
  next
    case True
    then obtain p t where t: "openSshPortForwardBrowser c f s = push_tab t s" "tab_id t = ''tab-'' @ forwardId f"
        "panes t = [p]" "pane_id p = ''tab-'' @ forwardId f" "layout t = Some (Leaf (pane_id p))"
        "focusedPaneId t = Some (pane_id p)" "tab_kind t = KTerminal"
      by (simp add: openSshPortForwardBrowser_def Let_def single_pane_tab_def mk_tab_def defaultLayoutFor_def)
    have "tab_ok t" using t by (simp add: tab_ok_def)
    then show ?thesis unfolding t(1) using assms(2) t no
      by (intro free_push_inv [OF assms(1), of t]) simp_all
  qed
qed

lemma terminal_here_inv:
  assumes "ws_inv s"
    and "tab_name_free (terminal_tab_prefix c @ nat_string (date_now (be_tmux (build s)))) s"
  shows "ws_inv (openTerminalHere c path s)"
proof -
  let ?i = "terminal_tab_prefix c @ nat_string (date_now (be_tmux (build s)))"
  obtain i s1 where p: "with_build (createPaneId (conn_id c @ ''-terminal'')) s = (i, s1)" by fastforce
  obtain sid s2 where a: "with_build (append_tmux c (defaultUseTmuxSessions s)) s1 = (sid, s2)" by fastforce
  have P: "env_leq (build s) (build s1)" "pane_new (build s) (build s1) i"
    using createPaneId_new with_build_spec [OF p] by blast+
  have A: "uuid (build s2) = uuid (build s1)" "uuid_pos (build s2) = uuid_pos (build s1)"
    using append_tmux_env with_build_spec [OF a] by blast+
  have sup: "uuid_supply (build s)" using assms(1) by (simp add: ws_inv_def tabs_inv_def)
  have fresh: "\<not> pane_serial (build s2) k i" if "uuid_pos (build s2) \<le> k" for k
    using pane_new_old [OF P(2) sup P(1)] that A serial_env(2) [of "build s2" "build s1"] by simp
  have same: "tabs s2 = tabs s" "storedLayouts s2 = storedLayouts s"
    using with_build_same [OF p] with_build_same [OF a] by simp_all
  have st: "starts_with ?i ''tab-''" by (simp add: terminal_tab_prefix_def)
  obtain x t where t: "openTerminalHere c path s = push_tab t s2" "tab_id t = ?i"
      "panes t = [TerminalPane x]" "tp_id x = i" "layout t = None" "focusedPaneId t = None" "tab_kind t = KTerminal"
    unfolding openTerminalHere_def Let_def p prod.case a by (simp add: mk_tab_def)
  have "tab_ok t" using t st by (simp add: tab_ok_def)
  moreover have "env_leq (build s) (build s2)" using P(1) A by (simp add: env_leq_def)
  ultimately show ?thesis
    unfolding t(1) using assms(2) t same fresh
    by (intro free_push_inv [OF assms(1), of t]) simp_all
qed

text \<open>Paths.\<close>

lemma open_folder_inv:
  assumes "ws_inv s" "\<forall>k. \<not> suffix (uuid (build s) k) (''launch-folder-'' @ stableIdFromPath path @ ''-localFiles'')"
  shows "ws_inv (open_launch_folder fallback path s)"
  unfolding open_launch_folder_def Let_def
  by (rule focus_or_inv [OF assms(1)], rule open_surface_inv [OF assms])
    (simp_all add: mk_tab_def tab_ok_def)

lemma open_document_inv:
  assumes "ws_inv s" "\<forall>k. \<not> suffix (uuid (build s) k) (''inline-file-view-'' @ stableIdFromPath path @ ''-fileView'')"
  shows "ws_inv (open_document_tab fallback source eph path s)"
  unfolding open_document_tab_def Let_def
  by (rule focus_or_inv [OF assms(1)], rule open_surface_inv [OF assms])
    (simp_all add: surface_tab_ok)

lemma open_path_inv:
  assumes "ws_inv s" "ws_allowed (OpenPath names kind path) s"
  shows "ws_inv (openEphemeralPath names kind path s)"
  using assms by (cases kind)
    (simp_all add: openEphemeralPath_def Let_def open_folder_inv open_document_inv)

text \<open>Children.\<close>

lemma show_children_inv:
  assumes "ws_inv s" "groups_children c children s"
  shows "ws_inv (snd (openChildConnectionLayout c children s))"
proof -
  have h: "conn_type c \<noteq> CUrl" "children \<noteq> []" "panes_apart (tabs s)" "children_listed c (child_ids children) s"
    using assms(2) by (simp_all add: groups_children_def)
  obtain g where "opens_group c children s g (snd (openChildConnectionLayout c children s))"
    using layout_opens_group [OF h(1,2)] by blast
  from opens_group_inv [OF assms(1) h(3) this h(4,2)] show ?thesis .
qed

lemma maximize_inv:
  assumes "ws_inv s" "\<forall>t \<in> set (tabs s). tab_id t = i \<longrightarrow> p \<in> pane_id ` set (panes t)"
  shows "ws_inv (maximizeChildConnectionPane i p s)"
proof -
  have "ws_inv (update_tab i (\<lambda>t. if truthy_str (childConnectionGroupParentId t)
      then t\<lparr>focusedPaneId := Some p, maximizedPaneId := Some p\<rparr> else t\<lparr>focusedPaneId := Some p\<rparr>) s)"
    by (rule update_tab_inv [OF assms(1)]) (use assms(2) in \<open>auto simp: tab_ok_def tab_old_def\<close>)
  then show ?thesis by (simp add: maximizeChildConnectionPane_def ws_inv_def)
qed

lemma show_child_inv:
  assumes "ws_inv s"
  shows "ws_inv (show_child parent wid i s)"
proof -
  have "\<forall>u \<in> set (tabs s). tab_id u = tab_id t \<longrightarrow> pane_id p \<in> pane_id ` set (panes u)"
    if "find_group_tab parent wid (tabs s) = Some t" "p \<in> set (panes t)" for t p
  proof (intro ballI impI)
    fix u assume u: "u \<in> set (tabs s)" "tab_id u = tab_id t"
    have "t \<in> set (tabs s)" using that(1) find_group_tabD by blast
    then have "u = t" using u assms by (auto simp: ws_inv_def tabs_inv_def) (metis find_tab_unique option.inject)
    then show "pane_id p \<in> pane_id ` set (panes u)" using that(2) by simp
  qed
  then have "ws_inv (maximizeChildConnectionPane (tab_id t) (pane_id p) s)"
    if "find_group_tab parent wid (tabs s) = Some t" "find (\<lambda>p. pane_childConnectionId p = Some i) (panes t) = Some p"
    for t p
    using that find_SomeD [OF that(2)] by (intro maximize_inv [OF assms]) blast
  then show ?thesis using assms by (simp add: show_child_def split: option.splits)
qed

lemma panes_self: "t\<lparr>panes := panes t\<rparr> = t"
  by (cases t) simp

lemma map_first_none: "\<forall>x \<in> set xs. \<not> P x \<Longrightarrow> map_first P f xs = xs"
  by (induction xs) auto

lemma map_first_tab:
  assumes "distinct (map tab_id ts)" "\<exists>t \<in> set ts. P t" "\<And>t. \<not> P t \<Longrightarrow> f t = t"
  shows "\<exists>j. map_first P f ts = map (\<lambda>t. if tab_id t = j then f t else t) ts"
  using assms(1,2)
proof (induction ts)
  case (Cons t ts)
  have same: "map (\<lambda>u. if tab_id u = tab_id t then f u else u) ts = ts"
    using Cons.prems(1) by (intro map_idI) (auto simp: image_iff)
  show ?case
  proof (cases "P t")
    case True
    then show ?thesis using same by (intro exI [of _ "tab_id t"]) simp
  next
    case False
    then obtain j where j: "map_first P f ts = map (\<lambda>t. if tab_id t = j then f t else t) ts"
      using Cons by auto
    show ?thesis using False j assms(3) [OF False] by (intro exI [of _ j]) simp
  qed
qed simp

lemma map_first_on: "(\<And>x. x \<in> set xs \<Longrightarrow> h (f x) = h x) \<Longrightarrow> map h (map_first P f xs) = map h xs"
  by (induction xs) auto

lemma consume_quiet:
  assumes "ws_inv s"
  shows "quiet_step s (snd (consumeRdpStartupFullscreen i s))"
proof -
  let ?P = "\<lambda>t. \<exists>p \<in> set (panes t). pane_id p = i"
  let ?f = "\<lambda>t. t\<lparr>panes := map_first (\<lambda>p. pane_id p = i) disarm (panes t)\<rparr>"
  have dis: "pane_id (disarm p) = pane_id p" for p
    by (simp add: disarm_def split: workspace_pane.split)
  have ids: "map pane_id (map_first Q disarm ps) = map pane_id ps" for Q ps
    by (rule map_first_on) (rule dis)
  have q: "quiet ?f" by (simp add: quiet_def ids)
  have idle: "?f t = t" if "\<not> ?P t" for t
    using map_first_none [of "panes t" "\<lambda>p. pane_id p = i" disarm] that by (simp add: panes_self)
  show ?thesis
  proof (cases "Option.bind (owner_of i (tabs s)) (\<lambda>t. pane_in t (Some i))")
    case None
    then show ?thesis by (auto simp: consumeRdpStartupFullscreen_def quiet_step_def quiet_def
        intro: exI [of _ "\<lambda>t. t"])
  next
    case (Some p)
    then obtain t where "owner_of i (tabs s) = Some t" by (auto split: bind_splits)
    then have "find ?P (tabs s) = Some t" by (simp only: owner_of_def)
    from find_SomeD [OF this] have "\<exists>t \<in> set (tabs s). ?P t" by (intro bexI [of _ t]) (rule conjunct2 conjunct1, assumption)+
    moreover have "distinct (map tab_id (tabs s))" using assms by (simp add: ws_inv_def tabs_inv_def)
    ultimately have "\<exists>j. map_first ?P ?f (tabs s) = map (\<lambda>t. if tab_id t = j then ?f t else t) (tabs s)"
      using idle by (intro map_first_tab)
    then obtain j where j: "map_first ?P ?f (tabs s) = map (\<lambda>t. if tab_id t = j then ?f t else t) (tabs s)" ..
    have q2: "quiet (\<lambda>t. if tab_id t = j then ?f t else t)" by (rule quiet_if [OF q])
    have same: "quiet_step s s" unfolding quiet_step_def
      by (intro exI [of _ "\<lambda>t. t"]) (simp add: quiet_def)
    show ?thesis
    proof (cases "armed p")
      case False
      then show ?thesis using Some same by (simp add: consumeRdpStartupFullscreen_def)
    next
      case True
      have "snd (consumeRdpStartupFullscreen i s) = s\<lparr>tabs := map_first ?P ?f (tabs s)\<rparr>"
        using Some True by (simp add: consumeRdpStartupFullscreen_def)
      then show ?thesis unfolding j by (simp only: quiet_mapI [OF q2])
    qed
  qed
qed

lemma persist_simps2 [simp]:
  "tabs (persistActiveWorkspaceId w s) = tabs s" "build (persistActiveWorkspaceId w s) = build s"
  "storedLayouts (persistActiveWorkspaceId w s) = storedLayouts s"
  "tabs (persistLayout c st s) = tabs s" "build (persistLayout c st s) = build s"
  "tabs (clearStoredLayouts s) = tabs s" "build (clearStoredLayouts s) = build s"
  "storedLayouts (clearStoredLayouts s) = Map.empty"
  by (simp_all add: persistActiveWorkspaceId_def persistLayout_def clearStoredLayouts_def)

lemma same_tabs_inv:
  "ws_inv s \<Longrightarrow> tabs s' = tabs s \<Longrightarrow> build s' = build s \<Longrightarrow> storedLayouts s' = storedLayouts s \<Longrightarrow> ws_inv s'"
  by (simp add: ws_inv_def)

lemma reorder_inv: "tabs_inv e ts \<Longrightarrow> tabs_inv e (reorderWorkspaceTabs ts d t)"
  using tab_order.rearrange_set [where i = "(d, t)" and xs = ts]
    tab_order.rearrange_distinct_keys [where k = tab_id and i = "(d, t)" and xs = ts]
  by (auto simp: tabs_inv_def)

lemma ws_step_inv:
  assumes "ws_inv s" "ws_allowed e s"
  shows "ws_inv (ws_step e s)"
proof (cases e)
  case (ActivateTab i)
  show ?thesis unfolding ActivateTab using assms(1)
    by (auto intro: same_tabs_inv simp: activateTab_def Let_def)
next
  case (SetWorkspaces ws)
  show ?thesis unfolding SetWorkspaces using assms(1)
    by (auto intro: same_tabs_inv simp: setWorkspaces_def Let_def)
next
  case (SetActiveWorkspace w)
  show ?thesis unfolding SetActiveWorkspace using assms(1)
    by (auto intro: same_tabs_inv simp: setActiveWorkspace_def Let_def)
next
  case (CloseWorkspaceTabs w f)
  show ?thesis unfolding CloseWorkspaceTabs using assms(1)
    by (simp add: closeWorkspaceTabs_def Let_def ws_inv_def tabs_inv_filter)
next
  case CloseAllTabs
  show ?thesis unfolding CloseAllTabs using assms(1)
    by (simp add: closeAllTabs_def ws_inv_def tabs_inv_def)
next
  case (CloseTab i)
  show ?thesis unfolding CloseTab using closeTab_inv [OF assms(1)] by simp
next
  case (MoveTab i j)
  show ?thesis unfolding MoveTab using assms(1) by (simp add: moveTab_def ws_inv_def reorder_inv)
next
  case (RenameTab i t)
  have "tabs_inv (build s) (map_where (\<lambda>x. tab_id x = i) (\<lambda>x. x\<lparr>displayTitle := Some (Some (trim t))\<rparr>) (tabs s))"
    using assms(1) by (intro tabs_inv_map_where) (auto simp: ws_inv_def tab_update_def tab_ok_def tab_old_def)
  then show ?thesis unfolding RenameTab using assms(1) by (simp add: renameTab_def Let_def ws_inv_def)
next
  case (OpenConnection c allow)
  show ?thesis unfolding OpenConnection using openConnection_inv assms OpenConnection by simp
next
  case (OpenConnectionInNewTab c opts)
  show ?thesis unfolding OpenConnectionInNewTab using openConnectionInNewTab_inv assms(1) by simp
next
  case (OpenUrlInNewTab c u t st)
  show ?thesis unfolding OpenUrlInNewTab using openUrlInNewTab_inv assms(1) by simp
next
  case (OpenConnectionsInPanorama cs t)
  show ?thesis unfolding OpenConnectionsInPanorama using panorama_inv assms(1) by simp
next
  case (SplitTerminalPane i d)
  show ?thesis unfolding SplitTerminalPane
    using apply_to_tabs_inv [OF assms(1) split_tab_step] by (simp add: splitTerminalPaneDirected_def)
next
  case (AddConnectionToTerminalPane i c d p opts)
  show ?thesis unfolding AddConnectionToTerminalPane
    using apply_to_tabs_inv [OF assms(1) dock_tab_step] by (simp add: addConnectionToTerminalPane_def)
next
  case (OpenTmuxSessionInPane i c sid d)
  show ?thesis unfolding OpenTmuxSessionInPane
    using apply_to_tabs_inv [OF assms(1) tmux_pane_tab_step] by (simp add: openTmuxSessionInPane_def)
next
  case (ClosePane i p)
  show ?thesis unfolding ClosePane using closePane_inv [OF assms(1)] by simp
next
  case (CloseChildConnection c)
  show ?thesis unfolding CloseChildConnection using closeChildConnection_inv [OF assms(1)] by simp
next
  case (SetFocusedPane i p)
  have "ws_inv (setFocusedPane i p s)"
    unfolding setFocusedPane_def
    by (rule update_tab_inv [OF assms(1)])
      (use assms(2) SetFocusedPane in \<open>auto simp: tab_ok_def tab_old_def\<close>)
  then show ?thesis unfolding SetFocusedPane by simp
next
  case (UpdatePaneCwd i p d)
  have "ws_inv (update_tab i (update_pane p (\<lambda>x. x\<lparr>cwd := trim d\<rparr>)) s)"
    by (rule update_tab_inv [OF assms(1)])
      (use update_pane_update [of "\<lambda>x. x\<lparr>cwd := trim d\<rparr>" "build s" p] in \<open>auto simp: tab_update_def\<close>)
  then show ?thesis unfolding UpdatePaneCwd using assms(1) by (simp add: updatePaneCwd_def)
next
  case (MarkTmuxUnavailable i p)
  show ?thesis unfolding MarkTmuxUnavailable
    using assms(1) by (simp add: markOpenTerminalPaneTmuxUnavailable_def update_terminal_inv)
next
  case (SaveTabLayout i)
  show ?thesis unfolding SaveTabLayout using saveTabLayout_inv [OF assms(1)] by simp
next
  case (ResetTabLayout i)
  show ?thesis unfolding ResetTabLayout using assms(1)
    by (auto simp: resetTabLayout_def ws_inv_def persistLayout_def split: option.splits)
next
  case ResetAllLayouts
  have "tabs_inv (build s) (map (\<lambda>t. if tab_kind t = KTerminal then t\<lparr>layout := defaultLayoutFor (panes t),
      focusedPaneId := map_option pane_id (js_nth (panes t) 0)\<rparr> else t) (tabs s))"
    using assms(1) by (intro tabs_inv_map_on) (auto simp: ws_inv_def reset_layout_ok)
  then show ?thesis unfolding ResetAllLayouts
    by (simp add: resetAllLayouts_def ws_inv_def map_where_def)
next
  case (RefreshConnection c)
  show ?thesis unfolding RefreshConnection using refreshOpenConnectionMetadata_inv [OF assms(1)] by simp
next
  case (SessionStarted c)
  show ?thesis unfolding SessionStarted using assms(1)
    by (auto intro: same_tabs_inv simp: markConnectionSessionStarted_def)
next
  case (SessionEnded c)
  show ?thesis unfolding SessionEnded using assms(1)
    by (auto intro: same_tabs_inv simp: markConnectionSessionEnded_def)
next
  case (OpenUrl c)
  show ?thesis unfolding OpenUrl using openUrlConnection_inv assms OpenUrl by (simp)
next
  case (OpenRemoteDesktop c allow)
  show ?thesis unfolding OpenRemoteDesktop using openRemoteDesktopConnection_inv assms OpenRemoteDesktop by (simp)
next
  case (OpenSftp c)
  show ?thesis unfolding OpenSftp using openSftpBrowser_inv assms OpenSftp by (simp)
next
  case (OpenSftpInNewTab c)
  show ?thesis unfolding OpenSftpInNewTab using openSftpBrowserInNewTab_inv assms(1) by (simp)
next
  case (OpenFtp c)
  show ?thesis unfolding OpenFtp using openFtpBrowser_inv assms OpenFtp by (simp)
next
  case (OpenCloudStorage c)
  show ?thesis unfolding OpenCloudStorage using openCloudStorageBrowser_inv assms OpenCloudStorage by (simp)
next
  case (OpenLocalFiles c)
  show ?thesis unfolding OpenLocalFiles using openLocalFilesBrowser_inv assms OpenLocalFiles by (simp)
next
  case (OpenDocument c)
  show ?thesis unfolding OpenDocument using openFileViewer_inv assms OpenDocument by (simp)
next
  case (OpenPath names k path)
  show ?thesis unfolding OpenPath using open_path_inv assms OpenPath by (simp)
next
  case (OpenDocumentPath fallback path source eph)
  show ?thesis unfolding OpenDocumentPath using open_document_inv assms OpenDocumentPath by (simp)
next
  case (OpenPortForward c f)
  show ?thesis unfolding OpenPortForward using port_forward_inv assms OpenPortForward by (simp)
next
  case (OpenTerminalHere c path)
  show ?thesis unfolding OpenTerminalHere using terminal_here_inv assms OpenTerminalHere by (simp)
next
  case (ShowChildren c children)
  show ?thesis unfolding ShowChildren using show_children_inv assms ShowChildren by (simp)
next
  case (ShowChild c child stored)
  show ?thesis unfolding ShowChild using show_child_inv show_children_inv assms ShowChild openChild_shown by (simp)
next
  case (MaximizePane i p)
  show ?thesis unfolding MaximizePane using maximize_inv assms MaximizePane by (simp)
next
  case (SetCommandBar i b)
  show ?thesis unfolding SetCommandBar using quiet_step_inv [OF assms(1) quiet_command_bar] by (simp)
next
  case (RenameTmux c old new)
  show ?thesis unfolding RenameTmux using quiet_step_inv [OF assms(1) quiet_rename_tmux] by (simp)
next
  case (X11Status i p st)
  show ?thesis unfolding X11Status using update_terminal_inv [OF assms(1)] by (simp add: updateOpenTerminalPaneX11ForwardingStatus_def)
next
  case (ForwardFailures i p fs)
  show ?thesis unfolding ForwardFailures using update_terminal_inv [OF assms(1)] by (simp add: setOpenTerminalPaneSshForwardFailures_def)
next
  case (WebviewMetadata i t st u)
  show ?thesis unfolding WebviewMetadata using quiet_step_inv [OF assms(1) quiet_webview] by (simp)
next
  case (SaveConnectionLayout c)
  show ?thesis unfolding SaveConnectionLayout using saveTabLayout_inv [OF assms(1)] assms(1) by (simp add: saveConnectionLayout_def Let_def split: option.splits)
next
  case (ResetConnectionLayout c)
  show ?thesis unfolding ResetConnectionLayout using assms(1) by (simp add: resetConnectionLayout_def ws_inv_def persistLayout_def)
next
  case (PaneFontSize i p f)
  show ?thesis unfolding PaneFontSize using update_and_persist_inv [OF assms(1)] by (simp add: updateOpenTerminalPaneFontSize_def)
next
  case (PaneTextEncoding i p enc)
  show ?thesis unfolding PaneTextEncoding using update_and_persist_inv [OF assms(1)] by (simp add: updateOpenTerminalPaneTextEncoding_def)
next
  case (PaneBackground i p bg)
  show ?thesis unfolding PaneBackground using update_and_persist_inv [OF assms(1)] by (simp add: updateOpenTerminalPaneBackground_def)
next
  case (PaneAppearance i p opacity bg)
  show ?thesis unfolding PaneAppearance using update_terminal_inv [OF assms(1)] by (simp add: updateOpenTerminalPaneAppearance_def split: option.split)
next
  case (ConnectionAppearance c opacity bg)
  show ?thesis unfolding ConnectionAppearance using quiet_step_inv [OF assms(1) quiet_appearance] by (simp add: updateOpenConnectionTerminalAppearance_def)
next
  case (ConnectionColorScheme c scheme)
  show ?thesis unfolding ConnectionColorScheme using quiet_step_inv [OF assms(1) quiet_appearance] by (simp add: updateOpenConnectionTerminalColorScheme_def)
next
  case (ConnectionSyntaxProfile c profile)
  show ?thesis unfolding ConnectionSyntaxProfile using quiet_step_inv [OF assms(1) quiet_appearance] by (simp add: updateOpenConnectionTerminalSyntaxHighlightProfile_def)
next
  case (ConnectionFileView c opts)
  show ?thesis unfolding ConnectionFileView using quiet_step_inv [OF assms(1) quiet_file_view] by (simp)
next
  case (ChildMetadata child)
  show ?thesis unfolding ChildMetadata using quiet_step_inv [OF assms(1) quiet_child_metadata] by (simp)
next
  case (ConsumeFullscreen p)
  show ?thesis unfolding ConsumeFullscreen using quiet_step_inv [OF assms(1) consume_quiet [OF assms(1)]] by (simp)
qed

interpretation ws: machine ws_step ws_inv ws_allowed
  by unfold_locales (rule ws_step_inv)

section \<open>The Tab on screen\<close>

definition on_screen_ok :: "workspace_state \<Rightarrow> bool" where
  "on_screen_ok s = shows_tab (tabs s) (activeWorkspaceId s) (activeTabId s)"

text \<open>Where a Tab lives; the Tab on screen depends only on this.\<close>

definition where_of :: "workspace_tab \<Rightarrow> string \<times> string option" where
  "where_of t = (tab_id t, tab_workspaceId t)"

lemma shows_tab_where:
  "shows_tab ts w i = (i = [] \<or> (\<exists>x \<in> set (map where_of ts). fst x = i \<and> nullish (snd x) DEFAULT_WORKSPACE_ID = w))"
  by (auto simp: shows_tab_def where_of_def tabWorkspaceId_def)

lemma same_where:
  assumes "on_screen_ok s" "map where_of (tabs s') = map where_of (tabs s)"
    and "activeTabId s' = activeTabId s" "activeWorkspaceId s' = activeWorkspaceId s"
  shows "on_screen_ok s'"
  using assms unfolding on_screen_ok_def shows_tab_where by simp

lemma push_shows:
  "tab_workspaceId t = Some (activeWorkspaceId s) \<Longrightarrow> activeWorkspaceId s' = activeWorkspaceId s
    \<Longrightarrow> tabs s' = ts @ [t] \<Longrightarrow> activeTabId s' = tab_id t \<Longrightarrow> on_screen_ok s'"
  by (simp add: on_screen_ok_def shows_tab_def tabWorkspaceId_def)

lemma push_simps [simp]:
  "activeTabId (push_tab t s) = tab_id t" "activeWorkspaceId (push_tab t s) = activeWorkspaceId s"
  "activeTabId (count_urls us s) = activeTabId s" "activeWorkspaceId (count_urls us s) = activeWorkspaceId s"
  by (simp_all add: push_tab_def count_urls_def)

lemma tab_where_simps [simp]:
  "tab_workspaceId (surface_tab i title sub kind c s) = Some (activeWorkspaceId s)"
  "tab_workspaceId (mk_tab i w title tb sub kind ps) = Some w"
  "tab_workspaceId (single_pane_tab i title tb sub c p s) = Some (activeWorkspaceId s)"
  "tab_id (mk_tab i w title tb sub kind ps) = i"
  by (simp_all add: surface_tab_def mk_tab_def single_pane_tab_def)

text \<open>No Tab a Connection would be focused in is in another Workspace.\<close>

definition opens_here :: "connection \<Rightarrow> workspace_state \<Rightarrow> bool" where
  "opens_here c s = (\<forall>t \<in> set (tabs s). \<forall>x \<in> set tab_suffixes.
     tab_id t = ''tab-'' @ conn_id c @ x \<longrightarrow> tabWorkspaceId (Some t) = activeWorkspaceId s)"

lemma focus_or_shows:
  assumes "\<forall>t \<in> set (tabs s). tab_id t = i \<longrightarrow> tabWorkspaceId (Some t) = activeWorkspaceId s"
    and "find_tab i (tabs s) = None \<Longrightarrow> on_screen_ok (f s)"
  shows "on_screen_ok (focus_or i f s)"
  using assms by (auto simp: focus_or_def on_screen_ok_def shows_tab_def split: option.splits
      dest!: find_tab_SomeD)

lemma opens_hereD:
  "opens_here c s \<Longrightarrow> x \<in> set tab_suffixes \<Longrightarrow>
    \<forall>t \<in> set (tabs s). tab_id t = ''tab-'' @ conn_id c @ x \<longrightarrow> tabWorkspaceId (Some t) = activeWorkspaceId s"
  by (simp add: opens_here_def)

lemma focus_suffix_shows:
  assumes "opens_here c s" "x \<in> set tab_suffixes" "i = ''tab-'' @ conn_id c @ x"
    and "find_tab i (tabs s) = None \<Longrightarrow> on_screen_ok (f s)"
  shows "on_screen_ok (focus_or i f s)"
  using focus_or_shows [of s i f] opens_hereD [OF assms(1,2)] assms(3,4) by simp

lemma surface_shows: "on_screen_ok (push_tab (surface_tab i title sub kind c s) s)"
  by (rule push_shows [where s = s and t = "surface_tab i title sub kind c s"]) simp_all

lemma with_build_active: "with_build f s = (r, s') \<Longrightarrow> activeTabId s' = activeTabId s"
  by (auto simp: with_build_def split: prod.splits)

lemma with_build_all:
  "with_build f s = (r, s') \<Longrightarrow> activeTabId s' = activeTabId s \<and> tabs s' = tabs s
    \<and> activeWorkspaceId s' = activeWorkspaceId s"
  by (simp add: with_build_same with_build_active)

lemma remote_shows:
  assumes "opens_here c s" "on_screen_ok s"
  shows "on_screen_ok (openRemoteDesktopConnection c allow s)"
  unfolding openRemoteDesktopConnection_def
proof (simp only: if_split, intro conjI impI)
  show "on_screen_ok s" by (rule assms(2))
next
  show "on_screen_ok (focus_or (''tab-'' @ conn_id c)
      (\<lambda>s. case with_build (buildPaneForConnection c None None True) s of (None, s1) \<Rightarrow> s1
        | (Some p, s1) \<Rightarrow> (let pane = if allow \<noteq> Some False
              then set_startup_fullscreen (shouldOpenRemoteDesktopInFullscreen c s) p else p
            in push_tab (single_pane_tab (''tab-'' @ conn_id c) (conn_name c)
                 (toolbarTitleForConnection c) (remoteDesktopSubtitle c) c pane s) s1)) s)"
  proof (rule focus_suffix_shows [OF assms(1) suffix_mem(1)])
    show "on_screen_ok (case with_build (buildPaneForConnection c None None True) s of (None, s1) \<Rightarrow> s1
        | (Some p, s1) \<Rightarrow> (let pane = if allow \<noteq> Some False
              then set_startup_fullscreen (shouldOpenRemoteDesktopInFullscreen c s) p else p
            in push_tab (single_pane_tab (''tab-'' @ conn_id c) (conn_name c)
                 (toolbarTitleForConnection c) (remoteDesktopSubtitle c) c pane s) s1))"
    proof (cases "with_build (buildPaneForConnection c None None True) s")
      case (Pair r s1)
      note same = with_build_same [OF Pair]
      show ?thesis
      proof (cases r)
        case None
        show ?thesis using None Pair same assms(2) with_build_active [OF Pair]
          by (simp add: on_screen_ok_def)
      next
        case (Some p)
        let ?q = "if allow \<noteq> Some False
          then set_startup_fullscreen (shouldOpenRemoteDesktopInFullscreen c s) p else p"
        have "on_screen_ok (push_tab (single_pane_tab (''tab-'' @ conn_id c) (conn_name c)
            (toolbarTitleForConnection c) (remoteDesktopSubtitle c) c ?q s) s1)"
          by (rule push_shows [where s = s and t = "single_pane_tab (''tab-'' @ conn_id c) (conn_name c)
            (toolbarTitleForConnection c) (remoteDesktopSubtitle c) c ?q s"]) (simp_all add: same)
        then show ?thesis using Some Pair by (simp add: Let_def)
      qed
    qed
  qed simp
qed

lemma count_urls_shows [simp]: "on_screen_ok (count_urls us s) = on_screen_ok s"
  by (simp add: on_screen_ok_def)

lemma url_surface_shows:
  "on_screen_ok (push_tab ((surface_tab i title sub kind c s)\<lparr>tab_url := u, tab_dataPartition := d\<rparr>) s)"
  by (rule push_shows [where s = s
        and t = "(surface_tab i title sub kind c s)\<lparr>tab_url := u, tab_dataPartition := d\<rparr>"]) simp_all

lemma url_shows: "opens_here c s \<Longrightarrow> on_screen_ok s \<Longrightarrow> on_screen_ok (openUrlConnection c s)"
  unfolding openUrlConnection_def Let_def
  by (auto intro!: focus_suffix_shows [OF _ suffix_mem(1)] url_surface_shows)

lemma sftp_shows: "opens_here c s \<Longrightarrow> on_screen_ok s \<Longrightarrow> on_screen_ok (openSftpBrowser c s)"
  unfolding openSftpBrowser_def Let_def
  by (auto intro!: focus_suffix_shows [OF _ suffix_mem(2)] surface_shows)

lemma ftp_shows: "opens_here c s \<Longrightarrow> on_screen_ok s \<Longrightarrow> on_screen_ok (openFtpBrowser c s)"
  unfolding openFtpBrowser_def Let_def
  by (auto intro!: focus_suffix_shows [OF _ suffix_mem(3)] surface_shows sftp_shows simp: opens_here_def)

lemma cloud_shows: "opens_here c s \<Longrightarrow> on_screen_ok s \<Longrightarrow> on_screen_ok (openCloudStorageBrowser c s)"
  unfolding openCloudStorageBrowser_def Let_def
  by (auto intro!: focus_suffix_shows [OF _ suffix_mem(4)] surface_shows)

lemma local_shows: "opens_here c s \<Longrightarrow> on_screen_ok s \<Longrightarrow> on_screen_ok (openLocalFilesBrowser c s)"
  unfolding openLocalFilesBrowser_def Let_def
  by (auto intro!: focus_suffix_shows [OF _ suffix_mem(5)] surface_shows)

lemma viewer_shows: "opens_here c s \<Longrightarrow> on_screen_ok s \<Longrightarrow> on_screen_ok (openFileViewer c s)"
  unfolding openFileViewer_def Let_def
  by (auto intro!: focus_suffix_shows [OF _ suffix_mem(6)] surface_shows)

lemma refresh_where: "where_of (fst (refreshTabConnectionMetadata ll c d t e)) = where_of t"
  using refresh_tab_ok [of ll c d t e] by (cases "refreshTabConnectionMetadata ll c d t e") (simp add: where_of_def)

lemma refresh_all_where:
  "map_env (refreshTabConnectionMetadata ll c d) ts e = (us, e') \<Longrightarrow> map where_of us = map where_of ts"
  by (rule map_env_map [where h = where_of]) (rule refresh_where)

lemma openConnection_shows:
  assumes "opens_here c s" "on_screen_ok s"
  shows "on_screen_ok (openConnection c allow s)"
proof (cases "is_single_surface c \<or> conn_type c = CCloudStorage")
  case True
  then show ?thesis
    using url_shows [OF assms] remote_shows [OF assms] ftp_shows [OF assms] cloud_shows [OF assms]
      local_shows [OF assms] viewer_shows [OF assms]
    by (auto simp: openConnection_def is_single_surface_def isRemoteDesktopConnection_def)
next
  case False
  let ?id = "''tab-'' @ conn_id c" and ?d = "defaultUseTmuxSessions s"
  have F: "conn_type c \<noteq> CUrl" "\<not> isRemoteDesktopConnection c" "conn_type c \<noteq> CFtp"
    "conn_type c \<noteq> CCloudStorage" "conn_type c \<noteq> CLocalFiles" "conn_type c \<noteq> CFileView"
    using False by (auto simp: is_single_surface_def)
  show ?thesis
  proof (cases "find_tab ?id (tabs s)")
    case (Some t)
    obtain ts b where m: "map_env (refreshTabConnectionMetadata (local_label s) c ?d) (tabs s) (build s) = (ts, b)"
      by fastforce
    have "openConnection c allow s = s\<lparr>tabs := ts, build := b, activeTabId := tab_id t\<rparr>"
      using F Some m unfolding openConnection_def by (simp only: Let_def if_False option.case prod.case)
    moreover have "shows_tab (tabs s) (activeWorkspaceId s) (tab_id t)"
      using find_tab_SomeD [OF Some] opens_hereD [OF assms(1) suffix_mem(1)] by (auto simp: shows_tab_def)
    ultimately show ?thesis using refresh_all_where [OF m] by (simp add: on_screen_ok_def shows_tab_where)
  next
    case None
    let ?st = "loadStoredLayout (conn_id c) s"
    obtain ps s1 where b: "with_build (buildPanesFromStoredLayout c ?st ?d) s = (ps, s1)" by fastforce
    let ?h = "Option.bind ?st (\<lambda>st. hydrateLayout (stored_layout st) (map pane_id ps))"
    let ?t = "(mk_tab ?id (activeWorkspaceId s) (conn_name c) (toolbarTitleForConnection c)
        (terminalConnectionSubtitle (local_label s) c) KTerminal ps)
        \<lparr>layout := nullish_opt ?h (defaultLayoutFor ps), focusedPaneId := map_option pane_id (js_nth ps 0),
         quickCommandBarVisible := Some (loadStoredQuickCommandBarVisible (Some (conn_id c)) s),
         tab_connection := Some c\<rparr>"
    have e: "openConnection c allow s = push_tab ?t s1"
      using F None b unfolding openConnection_def by (simp add: Let_def)
    show ?thesis unfolding e
      by (rule push_shows [where s = s and t = ?t]) (simp_all add: with_build_same [OF b])
  qed
qed

lemma urlNewTab_shows: "on_screen_ok s \<Longrightarrow> on_screen_ok (openUrlInNewTab c url title sub s)"
  by (auto simp: openUrlInNewTab_def Let_def on_screen_ok_def shows_tab_def tabWorkspaceId_def
      split: prod.splits dest!: with_build_same)

lemma newSurface_shows:
  "with_build f s = (i, s1) \<Longrightarrow> on_screen_ok (push_tab (surface_tab i title sub kind c s) s1)"
  by (rule push_shows [where s = s and t = "surface_tab i title sub kind c s"])
    (simp_all add: with_build_same)

lemma inNewTab_shows:
  assumes "on_screen_ok s"
  shows "on_screen_ok (openConnectionInNewTab c opts s)"
proof -
  have same: "on_screen_ok s1" if "with_build f s = (r, s1)" for f :: "build_env \<Rightarrow> 'x \<times> build_env" and r s1
    using assms with_build_same [OF that] with_build_active [OF that] by (simp add: on_screen_ok_def)
  show ?thesis
    using assms urlNewTab_shows [OF assms]
    by (auto simp: openConnectionInNewTab_def openSftpBrowserInNewTab_def Let_def
        intro: newSurface_shows same split: prod.splits option.splits)
      (auto dest!: with_build_same simp: on_screen_ok_def shows_tab_def tabWorkspaceId_def)
qed

lemma panorama_shows:
  assumes "on_screen_ok s"
  shows "on_screen_ok (openConnectionsInPanorama cs title s)"
  using assms
  by (auto simp: openConnectionsInPanorama_def Let_def on_screen_ok_def shows_tab_def tabWorkspaceId_def
      split: prod.splits list.splits dest!: with_build_all)

text \<open>Updates in place keep every Tab where it is.\<close>

lemma apply_where:
  assumes "on_screen_ok s" "\<And>t e. where_of (fst (fst (f t e))) = where_of t"
  shows "on_screen_ok (apply_to_tabs f s)"
proof -
  obtain rs s1 where b: "with_build (map_env f (tabs s)) s = (rs, s1)" by fastforce
  have "map (\<lambda>r. where_of (fst r)) rs = map where_of (tabs s)"
    using with_build_spec [OF b] map_env_map [of "\<lambda>r. where_of (fst r)" f where_of "tabs s" "build s" rs "build s1"]
      assms(2) by simp
  then show ?thesis using assms(1) b with_build_all [OF b]
    by (simp add: apply_to_tabs_def on_screen_ok_def shows_tab_where o_def)
qed

lemma add_pane_where [simp]: "where_of (add_pane cur lay target dir pane t) = where_of t"
  by (simp add: add_pane_def where_of_def)

lemma split_where: "where_of (fst (fst (split_tab i dir d t e))) = where_of t"
  by (auto simp: split_tab_def Let_def split: option.splits prod.splits)

lemma dock_where: "where_of (fst (fst (dock_tab i c dir tp opts s t e))) = where_of t"
proof -
  have "where_of (x\<lparr>tab_kind := k, quickCommandBarVisible := q\<rparr>) = where_of x" for x k q
    by (simp add: where_of_def)
  then show ?thesis by (auto simp: dock_tab_def Let_def split: option.splits prod.splits)
qed

lemma tmux_where: "where_of (fst (fst (tmux_pane_tab i c sid dir t e))) = where_of t"
  by (auto simp: tmux_pane_tab_def Let_def split: option.splits prod.splits workspace_pane.splits)

lemma update_tab_where:
  assumes "on_screen_ok s" "\<And>t. where_of (f t) = where_of t"
  shows "on_screen_ok (update_tab i f s)"
  by (rule same_where [OF assms(1)])
    (simp_all add: update_tab_def map_map_where [where g = where_of] assms(2))

lemma update_terminal_where: "on_screen_ok s \<Longrightarrow> on_screen_ok (update_terminal i j f s)"
  unfolding update_terminal_def
  by (rule update_tab_where) (auto simp: where_of_def update_pane_def)

lemma close_tab_shows:
  assumes "on_screen_ok s"
  shows "on_screen_ok (closeTab i s)"
  using assms firstTab_shows [of "filter (\<lambda>t. tab_id t \<noteq> i) (tabs s)" "activeWorkspaceId s"]
  by (auto simp: closeTab_def Let_def on_screen_ok_def shows_tab_def)

lemma close_child_where:
  assumes "tabs_inv e ts" "t' \<in> set (js_compact (map (close_child_tab c) ts))"
  shows "where_of t' \<in> where_of ` set ts"
proof -
  obtain t where "t \<in> set ts" "close_child_tab c t = Some t'" using assms(2) by (auto simp: set_js_compact_map)
  then show ?thesis using close_child_ok [of c t t' e] assms(1) by (auto simp: tabs_inv_def where_of_def)
qed

text \<open>Closing a child keeps the right Tab on screen when the Tab on screen survives it.\<close>

definition survives :: "string \<Rightarrow> workspace_state \<Rightarrow> bool" where
  "survives c s = (\<exists>t \<in> set (tabs (closeChildConnection c s)). tab_id t = activeTabId s)"

lemma close_child_shows:
  assumes "ws_inv s" "on_screen_ok s" "activeTabId s \<noteq> []" "survives c s"
  shows "on_screen_ok (closeChildConnection c s)"
proof -
  let ?ts = "js_compact (map (close_child_tab c) (tabs s))"
  have ts: "tabs (closeChildConnection c s) = ?ts" "activeWorkspaceId (closeChildConnection c s) = activeWorkspaceId s"
    "activeTabId (closeChildConnection c s) = activeTabId s"
    using assms(4) by (simp_all add: survives_def closeChildConnection_def Let_def)
  obtain t' where t': "t' \<in> set ?ts" "tab_id t' = activeTabId s" using assms(4) ts by (auto simp: survives_def)
  obtain t where t: "t \<in> set (tabs s)" "tab_id t = activeTabId s" "tabWorkspaceId (Some t) = activeWorkspaceId s"
    using assms(2,3) by (auto simp: on_screen_ok_def shows_tab_def)
  obtain x where x: "x \<in> set (tabs s)" "where_of t' = where_of x"
  proof -
    have "tabs_inv (build s) (tabs s)" using assms(1) by (simp add: ws_inv_def)
    from close_child_where [OF this t'(1)] show ?thesis using that by blast
  qed
  have "x = t" using x t t'(2) assms(1)
    by (auto simp: where_of_def ws_inv_def tabs_inv_def) (metis find_tab_unique option.inject)
  then show ?thesis using t t' x ts
    by (auto simp: on_screen_ok_def shows_tab_def tabWorkspaceId_def where_of_def)
qed

text \<open>The Tab of a path is not open in another Workspace.\<close>

definition path_tab :: "launch_kind \<Rightarrow> string \<Rightarrow> string" where
  "path_tab kind path = (case kind of
       LaunchFile \<Rightarrow> ''tab-inline-file-view-'' @ stableIdFromPath path @ ''-fileView''
     | LaunchFolder \<Rightarrow> ''tab-launch-folder-'' @ stableIdFromPath path @ ''-localFiles'')"

definition named_here :: "string \<Rightarrow> workspace_state \<Rightarrow> bool" where
  "named_here i s = (\<forall>t \<in> set (tabs s). tab_id t = i \<longrightarrow> tabWorkspaceId (Some t) = activeWorkspaceId s)"

lemma document_path_shows:
  assumes "named_here (path_tab LaunchFile path) s"
  shows "on_screen_ok (open_document_tab fallback source eph path s)"
  unfolding open_document_tab_def Let_def
proof (rule focus_or_shows, goal_cases)
  case 1
  show ?case using assms by (simp add: named_here_def path_tab_def)
next
  case 2
  show ?case by (simp add: on_screen_ok_def shows_tab_def push_tab_def surface_tab_def mk_tab_def tabWorkspaceId_def)
qed

lemma path_shows:
  assumes "on_screen_ok s" "named_here (path_tab kind (trim path)) s"
  shows "on_screen_ok (openEphemeralPath names kind path s)"
proof (cases kind)
  case LaunchFile
  then show ?thesis using assms document_path_shows by (simp add: openEphemeralPath_def Let_def)
next
  case LaunchFolder
  have "on_screen_ok (open_launch_folder (fst names) (trim path) s)"
    unfolding open_launch_folder_def Let_def
  proof (rule focus_or_shows, goal_cases)
    case 1
    show ?case using assms(2) LaunchFolder by (simp add: named_here_def path_tab_def)
  next
    case 2
    show ?case by (simp add: on_screen_ok_def shows_tab_def push_tab_def mk_tab_def tabWorkspaceId_def)
  qed
  then show ?thesis using assms(1) LaunchFolder by (simp add: openEphemeralPath_def Let_def)
qed

lemma port_forward_shows: "on_screen_ok s \<Longrightarrow> on_screen_ok (openSshPortForwardBrowser c f s)"
  by (simp add: openSshPortForwardBrowser_def Let_def on_screen_ok_def shows_tab_def push_tab_def
      single_pane_tab_def mk_tab_def tabWorkspaceId_def)

lemma terminal_here_shows: "on_screen_ok (openTerminalHere c path s)"
proof -
  obtain i s1 where p: "with_build (createPaneId (conn_id c @ ''-terminal'')) s = (i, s1)" by fastforce
  obtain sid s2 where a: "with_build (append_tmux c (defaultUseTmuxSessions s)) s1 = (sid, s2)" by fastforce
  have "activeWorkspaceId s2 = activeWorkspaceId s" using with_build_same [OF p] with_build_same [OF a] by simp
  then show ?thesis unfolding openTerminalHere_def Let_def p prod.case a
    by (simp add: on_screen_ok_def shows_tab_def push_tab_def mk_tab_def tabWorkspaceId_def)
qed

lemma show_children_shows:
  assumes "ws_inv s" "groups_children c children s"
  shows "on_screen_ok (snd (openChildConnectionLayout c children s))"
    and "activeWorkspaceId (snd (openChildConnectionLayout c children s)) = activeWorkspaceId s"
proof -
  let ?s = "snd (openChildConnectionLayout c children s)"
  have h: "conn_type c \<noteq> CUrl" "children \<noteq> []" "distinct (pane_ids (tabs s))"
    using assms(2) by (simp_all add: groups_children_def panes_apart_def)
  obtain g where g: "opens_group c children s g ?s" using layout_opens_group [OF h(1,2)] by blast
  then show w: "activeWorkspaceId ?s = activeWorkspaceId s" by (simp add: opens_group_def)
  have "tabWorkspaceId (Some (og_tab g)) = activeWorkspaceId s" "activeTabId ?s = tab_id (og_tab g)"
    using g by (auto simp: opens_group_def group_tab_def tabWorkspaceId_def)
  then show "on_screen_ok ?s" using og_tab_placed [OF assms(1) h(3) g] w
    by (auto simp: on_screen_ok_def shows_tab_def)
qed

lemma maximize_shows:
  assumes "t \<in> set (tabs s)" "tab_id t = i" "tabWorkspaceId (Some t) = activeWorkspaceId s"
  shows "on_screen_ok (maximizeChildConnectionPane i p s)"
proof -
  let ?f = "\<lambda>t. if truthy_str (childConnectionGroupParentId t)
      then t\<lparr>focusedPaneId := Some p, maximizedPaneId := Some p\<rparr> else t\<lparr>focusedPaneId := Some p\<rparr>"
  have "map where_of (tabs (maximizeChildConnectionPane i p s)) = map where_of (tabs s)"
    unfolding maximizeChildConnectionPane_def update_tab_def
    by (simp add: map_map_where [where g = where_of] where_of_def)
  moreover have "where_of t \<in> set (map where_of (tabs s))" using assms(1) by simp
  ultimately have "where_of t \<in> set (map where_of (tabs (maximizeChildConnectionPane i p s)))" by simp
  moreover have "fst (where_of t) = i" "nullish (snd (where_of t)) DEFAULT_WORKSPACE_ID = activeWorkspaceId s"
    using assms(2,3) by (simp_all add: where_of_def tabWorkspaceId_def)
  moreover have "activeTabId (maximizeChildConnectionPane i p s) = i"
      "activeWorkspaceId (maximizeChildConnectionPane i p s) = activeWorkspaceId s"
    by (simp_all add: maximizeChildConnectionPane_def update_tab_def)
  ultimately show ?thesis unfolding on_screen_ok_def shows_tab_where by metis
qed

lemma show_child_shows:
  "on_screen_ok s \<Longrightarrow> wid = activeWorkspaceId s \<Longrightarrow> on_screen_ok (show_child parent wid i s)"
  by (auto simp: show_child_def dest: find_group_tabD intro: maximize_shows split: option.splits)

lemma quiet_step_shows:
  assumes "on_screen_ok s" "quiet_step s s'"
  shows "on_screen_ok s'"
proof -
  from assms(2) obtain f where f: "quiet f" "tabs s' = map f (tabs s)" "activeTabId s' = activeTabId s"
      "activeWorkspaceId s' = activeWorkspaceId s" by (auto simp: quiet_step_def)
  then have "map where_of (tabs s') = map where_of (tabs s)" by (simp add: quiet_def where_of_def)
  then show ?thesis using same_where [OF assms(1) _ f(3,4)] by blast
qed

lemma update_and_persist_shows: "on_screen_ok s \<Longrightarrow> on_screen_ok (update_and_persist i j f s)"
  using update_terminal_where [of s i j f]
  by (simp add: update_and_persist_def Let_def on_screen_ok_def fold_persist)

lemma save_layout_same:
  "tabs (saveTabLayout i s) = tabs s \<and> activeTabId (saveTabLayout i s) = activeTabId s
    \<and> activeWorkspaceId (saveTabLayout i s) = activeWorkspaceId s"
  by (auto simp: saveTabLayout_def Let_def persistLayout_def split: option.splits)

text \<open>The runs of the operations that respect the Workspace on screen.\<close>

fun ws_respects :: "ws_event \<Rightarrow> workspace_state \<Rightarrow> bool" where
  "ws_respects (ActivateTab i) s = (\<exists>t \<in> set (tabs s). tab_id t = i)"
| "ws_respects (OpenConnection c allow) s = (names_apart (build s) c \<and> opens_here c s)"
| "ws_respects (ClosePane i p) s =
     (\<forall>t q. find_tab i (tabs s) = Some t \<longrightarrow> pane_in t (Some p) = Some q \<longrightarrow> \<not> truthy_str (pane_childConnectionId q))"
| "ws_respects (CloseChildConnection c) s = (activeTabId s \<noteq> [] \<and> survives c s)"
| "ws_respects (OpenUrl c) s = (names_apart (build s) c \<and> opens_here c s)"
| "ws_respects (OpenRemoteDesktop c allow) s = (names_apart (build s) c \<and> opens_here c s)"
| "ws_respects (OpenSftp c) s = (names_apart (build s) c \<and> opens_here c s)"
| "ws_respects (OpenFtp c) s = (names_apart (build s) c \<and> opens_here c s)"
| "ws_respects (OpenCloudStorage c) s = (names_apart (build s) c \<and> opens_here c s)"
| "ws_respects (OpenLocalFiles c) s = (names_apart (build s) c \<and> opens_here c s)"
| "ws_respects (OpenDocument c) s = (names_apart (build s) c \<and> opens_here c s)"
| "ws_respects (OpenPath names kind path) s = (ws_allowed (OpenPath names kind path) s
     \<and> named_here (path_tab kind (trim path)) s)"
| "ws_respects (OpenDocumentPath fallback path source eph) s =
     (ws_allowed (OpenDocumentPath fallback path source eph) s \<and> named_here (path_tab LaunchFile path) s)"
| "ws_respects (MaximizePane i p) s = (ws_allowed (MaximizePane i p) s
     \<and> (\<exists>t \<in> set (tabs s). tab_id t = i \<and> tabWorkspaceId (Some t) = activeWorkspaceId s))"
| "ws_respects e s = ws_allowed e s"

definition ws_good :: "workspace_state \<Rightarrow> bool" where
  "ws_good s = (ws_inv s \<and> on_screen_ok s)"

lemma activate_shows:
  assumes "ws_inv s" "t \<in> set (tabs s)" "tab_id t = i"
  shows "on_screen_ok (activateTab i s)"
proof -
  have "find_tab i (tabs s) = Some t" using assms by (auto simp: ws_inv_def tabs_inv_def find_tab_unique)
  then show ?thesis using assms(2,3)
    by (auto simp: activateTab_def Let_def on_screen_ok_def shows_tab_def persistActiveWorkspaceId_def)
qed

lemma close_workspace_shows:
  assumes "ws_inv s" "on_screen_ok s"
  shows "on_screen_ok (closeWorkspaceTabs w f s)"
proof -
  let ?rem = "filter (\<lambda>t. tabWorkspaceId (Some t) \<noteq> w) (tabs s)"
  have uniq: "t = u" if "t \<in> set (tabs s)" "u \<in> set (tabs s)" "tab_id t = tab_id u" for t u
    using that assms(1) by (metis find_tab_unique option.inject tabs_inv_def ws_inv_def)
  have "shows_tab ?rem (if activeWorkspaceId s = w then f else activeWorkspaceId s) (activeTabId s)"
    if "\<exists>t \<in> set ?rem. tab_id t = activeTabId s"
  proof -
    from that obtain t where t: "t \<in> set (tabs s)" "tabWorkspaceId (Some t) \<noteq> w" "tab_id t = activeTabId s"
      by auto
    show ?thesis
    proof (cases "activeTabId s = []")
      case True
      then show ?thesis by (simp add: shows_tab_def)
    next
      case False
      then have "tabWorkspaceId (Some t) = activeWorkspaceId s"
        using assms(2) uniq [OF t(1)] t(3) by (auto simp: on_screen_ok_def shows_tab_def)
      then show ?thesis using t by (auto simp: shows_tab_def)
    qed
  qed
  then show ?thesis using assms(2) tabIdForWorkspace_shows
    by (auto simp: closeWorkspaceTabs_def Let_def on_screen_ok_def)
qed

lemma close_pane_shows:
  assumes "ws_inv s" "on_screen_ok s" "ws_respects (ClosePane i p) s"
  shows "on_screen_ok (closePane i p s)"
proof (cases "find_tab i (tabs s)")
  case None
  then show ?thesis using assms(2) by (simp add: closePane_def)
next
  case (Some t)
  let ?ps = "filter (\<lambda>x. pane_id x \<noteq> p) (panes t)"
  let ?lay = "ensureLayout (layout t) ?ps"
  let ?f = "\<lambda>x. x\<lparr>panes := ?ps, layout := ?lay,
      focusedPaneId := if focusedPaneId t = Some p then focus_after ?lay ?ps else focusedPaneId t\<rparr>"
  have n: "\<not> truthy_str (Option.bind (pane_in t (Some p)) pane_childConnectionId)"
    using assms(3) Some by (cases "pane_in t (Some p)") auto
  have "on_screen_ok (update_tab i ?f s)" by (rule update_tab_where [OF assms(2)]) (simp add: where_of_def)
  then have "on_screen_ok ((update_tab i ?f s)\<lparr>activeSessionCounts := m, syncInputEnabled := b\<rparr>)" for m b
    by (simp add: on_screen_ok_def)
  then show ?thesis using Some assms(2) n close_tab_shows [OF assms(2)]
    by (simp add: closePane_def Let_def)
qed

lemma ws_step_shows:
  assumes "ws_inv s" "on_screen_ok s" "ws_respects e s"
  shows "on_screen_ok (ws_step e s)"
proof (cases e)
  case (ActivateTab i)
  show ?thesis unfolding ActivateTab using activate_shows [OF assms(1)] assms(3) ActivateTab by auto
next
  case (SetWorkspaces ws)
  show ?thesis unfolding SetWorkspaces using assms(2) tabIdForWorkspace_shows
    by (simp add: setWorkspaces_def Let_def on_screen_ok_def)
next
  case (SetActiveWorkspace w)
  show ?thesis unfolding SetActiveWorkspace using assms(2) tabIdForWorkspace_shows
    by (auto simp: setActiveWorkspace_def Let_def on_screen_ok_def)
next
  case (CloseWorkspaceTabs w f)
  show ?thesis unfolding CloseWorkspaceTabs using close_workspace_shows [OF assms(1,2)] by simp
next
  case CloseAllTabs
  show ?thesis unfolding CloseAllTabs by (simp add: closeAllTabs_def on_screen_ok_def shows_tab_def)
next
  case (CloseTab i)
  show ?thesis unfolding CloseTab using close_tab_shows [OF assms(2)] by simp
next
  case (MoveTab i j)
  show ?thesis unfolding MoveTab
    using assms(2) tab_order.rearrange_set [where i = "(i, j)" and xs = "tabs s"]
    by (simp add: moveTab_def on_screen_ok_def shows_tab_def)
next
  case (RenameTab i t)
  have "on_screen_ok (update_tab i (\<lambda>x. x\<lparr>displayTitle := Some (Some (trim t))\<rparr>) s)"
    by (rule update_tab_where [OF assms(2)]) (simp add: where_of_def)
  then show ?thesis unfolding RenameTab using assms(2) by (simp add: renameTab_def Let_def update_tab_def)
next
  case (OpenConnection c allow)
  show ?thesis unfolding OpenConnection using openConnection_shows assms(2,3) OpenConnection by simp
next
  case (OpenConnectionInNewTab c opts)
  show ?thesis unfolding OpenConnectionInNewTab using inNewTab_shows assms(2) by simp
next
  case (OpenUrlInNewTab c u t st)
  show ?thesis unfolding OpenUrlInNewTab using urlNewTab_shows assms(2) by simp
next
  case (OpenConnectionsInPanorama cs t)
  show ?thesis unfolding OpenConnectionsInPanorama using panorama_shows assms(2) by simp
next
  case (SplitTerminalPane i d)
  show ?thesis unfolding SplitTerminalPane
    using apply_where [OF assms(2) split_where] by (simp add: splitTerminalPaneDirected_def)
next
  case (AddConnectionToTerminalPane i c d p opts)
  show ?thesis unfolding AddConnectionToTerminalPane
    using apply_where [OF assms(2) dock_where] by (simp add: addConnectionToTerminalPane_def)
next
  case (OpenTmuxSessionInPane i c sid d)
  show ?thesis unfolding OpenTmuxSessionInPane
    using apply_where [OF assms(2) tmux_where] by (simp add: openTmuxSessionInPane_def)
next
  case (ClosePane i p)
  show ?thesis unfolding ClosePane using close_pane_shows assms ClosePane by simp
next
  case (CloseChildConnection c)
  show ?thesis unfolding CloseChildConnection using close_child_shows assms CloseChildConnection by simp
next
  case (SetFocusedPane i p)
  have "on_screen_ok (setFocusedPane i p s)"
    unfolding setFocusedPane_def by (rule update_tab_where [OF assms(2)]) (simp add: where_of_def)
  then show ?thesis unfolding SetFocusedPane by simp
next
  case (UpdatePaneCwd i p d)
  have "on_screen_ok (update_tab i (update_pane p (\<lambda>x. x\<lparr>cwd := trim d\<rparr>)) s)"
    by (rule update_tab_where [OF assms(2)]) (simp add: where_of_def update_pane_def)
  then show ?thesis unfolding UpdatePaneCwd using assms(2) by (simp add: updatePaneCwd_def)
next
  case (MarkTmuxUnavailable i p)
  show ?thesis unfolding MarkTmuxUnavailable
    using assms(2) by (simp add: markOpenTerminalPaneTmuxUnavailable_def update_terminal_where)
next
  case (SaveTabLayout i)
  show ?thesis unfolding SaveTabLayout using assms(2) save_layout_same by (simp add: on_screen_ok_def)
next
  case (ResetTabLayout i)
  have "tabs (resetTabLayout i s) = tabs s \<and> activeTabId (resetTabLayout i s) = activeTabId s
      \<and> activeWorkspaceId (resetTabLayout i s) = activeWorkspaceId s"
    by (auto simp: resetTabLayout_def persistLayout_def split: option.splits)
  then show ?thesis unfolding ResetTabLayout using assms(2) by (simp add: on_screen_ok_def)
next
  case ResetAllLayouts
  have "on_screen_ok (resetAllLayouts s)"
    by (rule same_where [OF assms(2)])
      (simp_all add: resetAllLayouts_def clearStoredLayouts_def map_map_where [where g = where_of] where_of_def)
  then show ?thesis unfolding ResetAllLayouts by simp
next
  case (RefreshConnection c)
  obtain ts b where m: "map_env (refreshTabConnectionMetadata (local_label s) c (defaultUseTmuxSessions s))
      (tabs s) (build s) = (ts, b)" by fastforce
  show ?thesis unfolding RefreshConnection
    using assms(2) m refresh_all_where [OF m]
    by (simp add: refreshOpenConnectionMetadata_def on_screen_ok_def shows_tab_where)
next
  case (SessionStarted c)
  show ?thesis unfolding SessionStarted using assms(2) by (simp add: markConnectionSessionStarted_def on_screen_ok_def)
next
  case (SessionEnded c)
  show ?thesis unfolding SessionEnded using assms(2) by (simp add: markConnectionSessionEnded_def on_screen_ok_def)
next
  case (OpenUrl c)
  show ?thesis unfolding OpenUrl using url_shows assms OpenUrl by (simp)
next
  case (OpenRemoteDesktop c allow)
  show ?thesis unfolding OpenRemoteDesktop using remote_shows assms OpenRemoteDesktop by (simp)
next
  case (OpenSftp c)
  show ?thesis unfolding OpenSftp using sftp_shows assms OpenSftp by (simp)
next
  case (OpenSftpInNewTab c)
  show ?thesis unfolding OpenSftpInNewTab using assms(2) by (simp add: openSftpBrowserInNewTab_def newSurface_shows split: prod.splits)
next
  case (OpenFtp c)
  show ?thesis unfolding OpenFtp using ftp_shows assms OpenFtp by (simp)
next
  case (OpenCloudStorage c)
  show ?thesis unfolding OpenCloudStorage using cloud_shows assms OpenCloudStorage by (simp)
next
  case (OpenLocalFiles c)
  show ?thesis unfolding OpenLocalFiles using local_shows assms OpenLocalFiles by (simp)
next
  case (OpenDocument c)
  show ?thesis unfolding OpenDocument using viewer_shows assms OpenDocument by (simp)
next
  case (OpenPath names k path)
  show ?thesis unfolding OpenPath using path_shows assms OpenPath by (simp)
next
  case (OpenDocumentPath fallback path source eph)
  show ?thesis unfolding OpenDocumentPath using document_path_shows assms OpenDocumentPath by (simp)
next
  case (OpenPortForward c f)
  show ?thesis unfolding OpenPortForward using port_forward_shows assms(2) by (simp)
next
  case (OpenTerminalHere c path)
  show ?thesis unfolding OpenTerminalHere using terminal_here_shows by (simp)
next
  case (ShowChildren c children)
  show ?thesis unfolding ShowChildren using show_children_shows(1) assms ShowChildren by (simp)
next
  case (ShowChild c child stored)
  let ?s = "snd (openChildConnectionLayout c (shown_children c child stored s) s)"
  have "groups_children c (shown_children c child stored s) s" using assms(3) ShowChild by simp
  note S = show_children_shows [OF assms(1) this]
  show ?thesis unfolding ShowChild using show_child_shows [OF S(1) S(2) [symmetric]]
    by (simp add: openChild_shown)
next
  case (MaximizePane i p)
  show ?thesis unfolding MaximizePane using maximize_shows assms(3) MaximizePane by auto
next
  case (SetCommandBar i b)
  show ?thesis unfolding SetCommandBar using quiet_step_shows [OF assms(2) quiet_command_bar] by (simp)
next
  case (RenameTmux c old new)
  show ?thesis unfolding RenameTmux using quiet_step_shows [OF assms(2) quiet_rename_tmux] by (simp)
next
  case (X11Status i p st)
  show ?thesis unfolding X11Status using update_terminal_where [OF assms(2)] by (simp add: updateOpenTerminalPaneX11ForwardingStatus_def)
next
  case (ForwardFailures i p fs)
  show ?thesis unfolding ForwardFailures using update_terminal_where [OF assms(2)] by (simp add: setOpenTerminalPaneSshForwardFailures_def)
next
  case (WebviewMetadata i t st u)
  show ?thesis unfolding WebviewMetadata using quiet_step_shows [OF assms(2) quiet_webview] by (simp)
next
  case (SaveConnectionLayout c)
  show ?thesis unfolding SaveConnectionLayout using save_layout_same assms(2) by (simp add: saveConnectionLayout_def Let_def on_screen_ok_def split: option.splits)
next
  case (ResetConnectionLayout c)
  show ?thesis unfolding ResetConnectionLayout using assms(2) by (simp add: resetConnectionLayout_def on_screen_ok_def persistLayout_def)
next
  case (PaneFontSize i p f)
  show ?thesis unfolding PaneFontSize using update_and_persist_shows [OF assms(2)] by (simp add: updateOpenTerminalPaneFontSize_def)
next
  case (PaneTextEncoding i p enc)
  show ?thesis unfolding PaneTextEncoding using update_and_persist_shows [OF assms(2)] by (simp add: updateOpenTerminalPaneTextEncoding_def)
next
  case (PaneBackground i p bg)
  show ?thesis unfolding PaneBackground using update_and_persist_shows [OF assms(2)] by (simp add: updateOpenTerminalPaneBackground_def)
next
  case (PaneAppearance i p opacity bg)
  show ?thesis unfolding PaneAppearance using update_terminal_where [OF assms(2)] by (simp add: updateOpenTerminalPaneAppearance_def)
next
  case (ConnectionAppearance c opacity bg)
  show ?thesis unfolding ConnectionAppearance using quiet_step_shows [OF assms(2) quiet_appearance] by (simp add: updateOpenConnectionTerminalAppearance_def)
next
  case (ConnectionColorScheme c scheme)
  show ?thesis unfolding ConnectionColorScheme using quiet_step_shows [OF assms(2) quiet_appearance] by (simp add: updateOpenConnectionTerminalColorScheme_def)
next
  case (ConnectionSyntaxProfile c profile)
  show ?thesis unfolding ConnectionSyntaxProfile using quiet_step_shows [OF assms(2) quiet_appearance] by (simp add: updateOpenConnectionTerminalSyntaxHighlightProfile_def)
next
  case (ConnectionFileView c opts)
  show ?thesis unfolding ConnectionFileView using quiet_step_shows [OF assms(2) quiet_file_view] by (simp)
next
  case (ChildMetadata child)
  show ?thesis unfolding ChildMetadata using quiet_step_shows [OF assms(2) quiet_child_metadata] by (simp)
next
  case (ConsumeFullscreen p)
  show ?thesis unfolding ConsumeFullscreen using quiet_step_shows [OF assms(2) consume_quiet [OF assms(1)]] by (simp)
qed

lemma respects_allowed: "ws_respects e s \<Longrightarrow> ws_allowed e s"
  by (cases e) auto

interpretation ws_screen: machine ws_step ws_good ws_respects
  by unfold_locales (auto simp: ws_good_def intro: ws_step_inv ws_step_shows respects_allowed)

section \<open>Properties\<close>

lemma initial_good: "ws_good initial_state"
  using sample_supply(1)
  by (simp add: ws_good_def ws_inv_def tabs_inv_def on_screen_ok_def shows_tab_def initial_state_def)


definition demo_events :: "ws_event list" where
  "demo_events = [OpenConnection sample_ssh None, SplitTerminalPane ''tab-c1'' DirDown,
     SaveTabLayout ''tab-c1'', ClosePane ''tab-c1'' ''pane-c1'', SetActiveWorkspace ''w2'']"

lemma sample_names_apart:
  assumes "uuid e = uuid sample_build_env"
  shows "names_apart e sample_ssh"
  unfolding names_apart_def
proof (intro ballI allI notI)
  fix x k assume x: "x \<in> set tab_suffixes" and "suffix (uuid e k) (conn_id sample_ssh @ x)"
  then obtain y where "conn_id sample_ssh @ x = y @ uuid e k" by (auto simp: suffix_def)
  then have "count_list (uuid e k) (CHR ''-'') \<le> count_list (conn_id sample_ssh @ x) (CHR ''-'')" by simp
  moreover have "count_list (uuid e k) (CHR ''-'') = 4"
    using sample_supply(1) assms by (simp add: uuid_supply_def)
  moreover have "count_list (conn_id sample_ssh @ x) (CHR ''-'') \<le> 2"
    using x by (auto simp: tab_suffixes_def sample_ssh_def)
  ultimately show False by simp
qed




text \<open>C12. Closing the child Connection whose Tab is on screen puts the first remaining Tab
  on screen whatever Workspace it belongs to (unlike closing a Tab, which picks one of the
  Workspace on screen): the canvas then shows no Tab of that Workspace.\<close>

theorem close_child_leaves_workspace:
  assumes "\<not> survives c s" "tabs (closeChildConnection c s) = t # ts"
    and "tabWorkspaceId (Some t) \<noteq> activeWorkspaceId s" "tab_id t \<noteq> []"
    and "distinct (map tab_id (t # ts))"
  shows "activeTabId (closeChildConnection c s) = tab_id t
    \<and> activeWorkspaceId (closeChildConnection c s) = activeWorkspaceId s
    \<and> \<not> on_screen_ok (closeChildConnection c s)"
proof -
  have a: "activeTabId (closeChildConnection c s) = tab_id t"
    "activeWorkspaceId (closeChildConnection c s) = activeWorkspaceId s"
    using assms(1,2) by (auto simp: survives_def closeChildConnection_def Let_def js_nth_def)
  have "u = t" if "u \<in> set (t # ts)" "tab_id u = tab_id t" for u
    using that assms(5) by (auto simp: image_iff)
  then show ?thesis using a assms(2,3,4) by (auto simp: on_screen_ok_def shows_tab_def)
qed

definition two_workspaces :: workspace_state where
  "two_workspaces = initial_state\<lparr>
     tabs := [sample_tab, sample_tab\<lparr>tab_id := ''tab-x'', tab_workspaceId := Some ''w2'',
                             tab_childConnectionId := Some ''child''\<rparr>],
     activeWorkspaceId := ''w2'', activeTabId := ''tab-x''\<rparr>"

theorem close_child_leaves_workspace_witness:
  "on_screen_ok two_workspaces \<and> activeTabId (closeChildConnection ''child'' two_workspaces) = ''tab-c1''
   \<and> \<not> on_screen_ok (closeChildConnection ''child'' two_workspaces)"
proof -
  have ok: "on_screen_ok two_workspaces"
    by (simp add: on_screen_ok_def shows_tab_def two_workspaces_def tabWorkspaceId_def)
  have ts: "tabs (closeChildConnection ''child'' two_workspaces) = [sample_tab]"
    by (simp add: closeChildConnection_def Let_def two_workspaces_def close_child_tab_def sample_tab_def
        closes_child_def viewer_pane_def)
  have n: "\<not> survives ''child'' two_workspaces"
    by (simp add: survives_def ts) (simp add: two_workspaces_def sample_tab_def)
  have w: "tabWorkspaceId (Some sample_tab) \<noteq> activeWorkspaceId two_workspaces" "tab_id sample_tab = ''tab-c1''"
    by (simp_all add: two_workspaces_def sample_tab_def tabWorkspaceId_def)
  show ?thesis using close_child_leaves_workspace [OF n ts w(1)] ok w(2) by simp
qed

section \<open>The full screen intent\<close>

lemma find_map_first:
  "(\<And>x. P x \<Longrightarrow> P (f x)) \<Longrightarrow> find P (map_first P f xs) = map_option f (find P xs)"
  by (induction xs) auto

lemma pane_id_disarm [simp]: "pane_id (disarm p) = pane_id p"
  by (simp add: disarm_def split: workspace_pane.split)

lemma map_first_ids: "map pane_id (map_first P disarm ps) = map pane_id ps"
  by (induction ps) auto

lemma not_armed_disarm [simp]: "\<not> armed (disarm p)"
  by (simp add: armed_def disarm_def split: workspace_pane.split)

text \<open>The Pane the store finds under an id.\<close>

definition lookup_pane :: "string \<Rightarrow> workspace_state \<Rightarrow> workspace_pane option" where
  "lookup_pane i s = Option.bind (owner_of i (tabs s)) (\<lambda>t. pane_in t (Some i))"

definition pending_fullscreen :: "string \<Rightarrow> workspace_state \<Rightarrow> bool" where
  "pending_fullscreen i s = (\<exists>p. lookup_pane i s = Some p \<and> armed p)"

lemma has_pending: "hasRdpStartupFullscreen i s \<Longrightarrow> pending_fullscreen i s"
  by (auto simp: hasRdpStartupFullscreen_def pending_fullscreen_def lookup_pane_def split: option.splits)

lemma consume_clears: "\<not> pending_fullscreen i (snd (consumeRdpStartupFullscreen i s))"
proof (cases "pending_fullscreen i s")
  case False
  then show ?thesis
    by (auto simp: consumeRdpStartupFullscreen_def pending_fullscreen_def lookup_pane_def split: option.splits)
next
  case True
  then obtain t p where t: "owner_of i (tabs s) = Some t" "pane_in t (Some i) = Some p" "armed p"
    by (auto simp: pending_fullscreen_def lookup_pane_def split: Option.bind_splits)
  let ?P = "\<lambda>t. \<exists>p \<in> set (panes t). pane_id p = i"
  let ?f = "\<lambda>t. t\<lparr>panes := map_first (\<lambda>p. pane_id p = i) disarm (panes t)\<rparr>"
  have c: "snd (consumeRdpStartupFullscreen i s) = s\<lparr>tabs := map_first ?P ?f (tabs s)\<rparr>"
    using t by (simp add: consumeRdpStartupFullscreen_def)
  have keep: "?P (?f x)" if "?P x" for x
  proof -
    have "i \<in> set (map pane_id (panes x))" using that by auto
    then have "i \<in> set (map pane_id (panes (?f x)))" by (simp add: map_first_ids del: set_map)
    then show ?thesis by auto
  qed
  have "find ?P (map_first ?P ?f (tabs s)) = map_option ?f (find ?P (tabs s))"
    by (rule find_map_first) (rule keep)
  then have "owner_of i (map_first ?P ?f (tabs s)) = Some (?f t)"
    using t(1) by (simp add: owner_of_def)
  moreover have "pane_in (?f t) (Some i) = Some (disarm p)"
    using t(2) find_map_first [of "\<lambda>p. pane_id p = i" disarm "panes t"] by (simp add: pane_in_def)
  ultimately show ?thesis by (simp add: c pending_fullscreen_def lookup_pane_def)
qed

text \<open>The full screen request a remote desktop Pane carries when it is opened is one-shot:
  as soon as a change of Tab, Workspace or focus leaves the focused Pane, its request is
  cancelled for good (no later focus can fire it), and consuming it twice fires it at most
  once.\<close>

theorem navigation_cancels_fullscreen:
  assumes "find_tab (activeTabId before) (tabs before) = Some t" "focusedPaneId t = Some i" "i \<noteq> []"
    and "tabs s \<noteq> tabs before \<or> activeTabId s \<noteq> activeTabId before
      \<or> activeWorkspaceId s \<noteq> activeWorkspaceId before"
    and "activeWorkspaceId s \<noteq> activeWorkspaceId before \<or> activeTabId s \<noteq> activeTabId before
      \<or> Option.bind (find_tab (activeTabId s) (tabs s)) focusedPaneId \<noteq> Some i"
  shows "\<not> pending_fullscreen i (on_navigation before s)
    \<and> \<not> hasRdpStartupFullscreen i ((on_navigation before s)\<lparr>activeTabId := a, activeWorkspaceId := w\<rparr>)
    \<and> \<not> fst (consumeRdpStartupFullscreen i (snd (consumeRdpStartupFullscreen i s)))"
proof -
  have n: "on_navigation before s = snd (consumeRdpStartupFullscreen i s)"
    using assms by (auto simp: on_navigation_def)
  have p: "\<not> pending_fullscreen i (on_navigation before s)" unfolding n by (rule consume_clears)
  then have "\<not> pending_fullscreen i ((on_navigation before s)\<lparr>activeTabId := a, activeWorkspaceId := w\<rparr>)"
    by (simp add: pending_fullscreen_def lookup_pane_def)
  moreover have "\<not> fst (consumeRdpStartupFullscreen i x)" if "\<not> pending_fullscreen i x" for x
    using that by (auto simp: consumeRdpStartupFullscreen_def pending_fullscreen_def lookup_pane_def
        split: option.splits)
  ultimately show ?thesis using p n has_pending by metis
qed

definition rdp_tab :: workspace_tab where
  "rdp_tab = sample_tab\<lparr>panes := [RemoteDesktopPane \<lparr>rdpStartupFullscreen = Some True, rp_id = ''p'',
     rp_childConnectionId = None, rp_title = ''desk'', rp_toolbarTitle = None,
     rp_connection = mk_connection ''r'' ''desk'' ''h'' ''u'' CRdp\<rparr>],
     layout := Some (Leaf ''p''), focusedPaneId := Some ''p''\<rparr>"

definition rdp_state :: workspace_state where
  "rdp_state = initial_state\<lparr>tabs := [rdp_tab], activeTabId := ''tab-c1''\<rparr>"

theorem navigation_cancels_fullscreen_witness:
  "hasRdpStartupFullscreen ''p'' rdp_state
   \<and> \<not> pending_fullscreen ''p'' (on_navigation rdp_state (setActiveWorkspace ''w2'' rdp_state))"
proof -
  have t: "tabs rdp_state = [rdp_tab]" "activeTabId rdp_state = ''tab-c1''"
    "activeWorkspaceId rdp_state = ''default''" "tab_id rdp_tab = ''tab-c1''" "focusedPaneId rdp_tab = Some ''p''"
    "tab_workspaceId rdp_tab = Some ''default''"
    by (simp_all add: rdp_state_def initial_state_def rdp_tab_def sample_tab_def)
  have "hasRdpStartupFullscreen ''p'' rdp_state"
    using t by (simp add: hasRdpStartupFullscreen_def owner_of_def pane_in_def tabWorkspaceId_def)
      (simp add: rdp_tab_def armed_def tabWorkspaceId_def)
  moreover have "\<not> pending_fullscreen ''p'' (on_navigation rdp_state (setActiveWorkspace ''w2'' rdp_state))"
    using navigation_cancels_fullscreen [of rdp_state rdp_tab "''p''" "setActiveWorkspace ''w2'' rdp_state"] t
    by (simp add: find_tab_def setActiveWorkspace_def Let_def)
  ultimately show ?thesis by simp
qed

end
