(* ===== verification/Local_Terminals.thy ===== *)
theory Local_Terminals
  imports Workspace_Machine
begin

text \<open>
  Local terminals and the settings terminals start with: the appearance a new terminal gets
  (\<open>modules/workspace/connections/terminalAppearanceDefaults.ts\<close>), the naming and matching of
  Quick Connect (\<open>quickConnectMenuModel.ts\<close>), and the operations of \<open>src/store.ts\<close> that open a
  local terminal in a Tab, in the popup or with elevated rights, and that change the SSH
  settings under the open Panes.

  The catalog of dynamic backgrounds and the random draw are arguments; so is the
  localized word for \<open>admin\<close>.
\<close>

section \<open>Definitions\<close>

subsection \<open>Appearance\<close>

text \<open>What \<open>TerminalSettings\<close> and \<open>SshSettings\<close> share, and what else of them is read here.\<close>

record appearance_settings =
  defaultTransparency :: rat
  useRandomDynamicBackground :: bool

record terminal_settings = appearance_settings +
  defaultShell :: string

record ssh_settings = appearance_settings +
  ssh_useTmux :: bool

record default_appearance =
  ap_opacity :: rat
  ap_background :: "json option"

definition resolveVisibleTerminalBackground :: "json option option \<Rightarrow> json option option \<Rightarrow> json option option
    \<Rightarrow> bool \<Rightarrow> json option" where
  "resolveVisibleTerminalBackground connectionBackground paneBackground sharedBackground usePane =
     (case (if usePane then paneBackground else sharedBackground) of
        Some b \<Rightarrow> b
      | None \<Rightarrow> nullish connectionBackground None)"

definition terminalSettingsForConnection :: "connection_type \<Rightarrow> ssh_settings \<Rightarrow> terminal_settings
    \<Rightarrow> appearance_settings" where
  "terminalSettingsForConnection ty ssh ts =
     (if ty = CSsh then appearance_settings.truncate ssh else appearance_settings.truncate ts)"

definition supportsTerminalAppearanceDefaults :: "connection_type \<Rightarrow> bool" where
  "supportsTerminalAppearanceDefaults ty = (ty = CLocal \<or> ty = CSsh \<or> ty = CTelnet \<or> ty = CSerial)"

text \<open>\<open>Math.round\<close>.\<close>

definition js_round :: "rat \<Rightarrow> int" where
  "js_round x = \<lfloor>x + 1 / 2\<rfloor>"

definition dynamic_background :: "string \<Rightarrow> json" where
  "dynamic_background i = JObj [(''kind'', JStr ''dynamic''), (''dynamic'', JStr i)]"

definition resolveDefaultTerminalAppearance :: "string list \<Rightarrow> connection_type \<Rightarrow> ssh_settings
    \<Rightarrow> terminal_settings \<Rightarrow> rat \<Rightarrow> default_appearance" where
  "resolveDefaultTerminalAppearance catalog ty ssh ts random =
     (let settings = terminalSettingsForConnection ty ssh ts;
          transparency = min 100 (max 0 (js_round (defaultTransparency settings)));
          n = int (length catalog);
          bg = (if useRandomDynamicBackground settings \<and> catalog \<noteq> []
                then map_option dynamic_background
                  (js_nth catalog (min (n - 1) (max 0 \<lfloor>random * of_int n\<rfloor>)))
                else None)
      in \<lparr>ap_opacity = of_int (100 - transparency), ap_background = bg\<rparr>)"

subsection \<open>Quick Connect\<close>

definition truncateQuickConnectRecentLabel :: "string \<Rightarrow> string" where
  "truncateQuickConnectRecentLabel label =
     (if length label \<le> 40 then label else take (40 - 3) label @ ''...'')"

definition same_ssh_target :: "connection \<Rightarrow> connection \<Rightarrow> bool" where
  "same_ssh_target c d =
     (conn_type c = CSsh \<and> host c = host d \<and> user c = user d
      \<and> nullish (port c) 22 = nullish (port d) 22
      \<and> nullish (proxyJump c) [] = nullish (proxyJump d) []
      \<and> nullish (sshSocksProxy c) [] = nullish (sshSocksProxy d) []
      \<and> nullish (sshSocksProxyUsername c) [] = nullish (sshSocksProxyUsername d) []
      \<and> nullish (sshSocksProxyInheritDefaults c) True = nullish (sshSocksProxyInheritDefaults d) True)"

definition findMatchingConnection :: "connection list \<Rightarrow> connection \<Rightarrow> connection option" where
  "findMatchingConnection cs candidate =
     (if conn_type candidate = CSsh then find (\<lambda>c. same_ssh_target c candidate) cs else None)"

definition numbered_name :: "string \<Rightarrow> nat \<Rightarrow> string" where
  "numbered_name base k = base @ '' #'' @ nat_string k"

text \<open>The \<open>for\<close> loop without a bound: \<open>None\<close> would be a loop that never returns.\<close>

partial_function (option) next_suffix :: "string list \<Rightarrow> string \<Rightarrow> nat \<Rightarrow> string option" where
  [code]: "next_suffix used base k =
     (if numbered_name base k \<notin> set used then Some (numbered_name base k)
      else next_suffix used base (k + 1))"

definition nextQuickConnectName :: "connection list \<Rightarrow> string \<Rightarrow> string option" where
  "nextQuickConnectName cs preferred =
     (let base = trim preferred;
          fallback = (if base \<noteq> [] then base else ''Connection'');
          used = map conn_name cs
      in if fallback \<notin> set used then Some fallback else next_suffix used fallback 1)"

datatype elevated_action =
    Embedded (action_name: string) (action_shell: string)
  | External (action_shell: string)

record local_shell_option =
  canElevate :: "bool option"
  shell_label :: string
  shell_value :: "string option"

definition elevatedLocalShellAction :: "string \<Rightarrow> bool \<Rightarrow> local_shell_option \<Rightarrow> elevated_action" where
  "elevatedLocalShellAction adminLabel isAppElevated opt =
     (let shell = nullish (shell_value opt) ''powershell.exe'';
          sfx = '' ('' @ adminLabel @ '')''
      in if \<not> isAppElevated then External shell
         else Embedded (if suffix sfx (shell_label opt) then shell_label opt else shell_label opt @ sfx) shell)"

subsection \<open>The store\<close>

text \<open>The Workspace state with the slots its local terminals and viewers use.  The SSH setting
  \<open>defaultUseTmuxSessions\<close> is the field of that name of the Workspace state.\<close>

record shell_state =
  ss_workspace :: workspace_state
  macAppStoreBuild :: "bool option"
  ss_terminalSettings :: terminal_settings
  ss_sshAppearance :: appearance_settings
  backgroundCatalog :: "string list"
  localTerminalPopup :: "workspace_tab option"
  terminalRecordingsBrowser :: "(string option \<times> string option \<times> nat) option"
  gitBrowser :: "(string \<times> string) option"
  noteEditor :: "(string \<times> string) option"

definition ss_sshSettings :: "shell_state \<Rightarrow> ssh_settings" where
  "ss_sshSettings s = appearance_settings.extend (ss_sshAppearance s)
     \<lparr>ssh_useTmux = defaultUseTmuxSessions (ss_workspace s)\<rparr>"

definition clock :: "shell_state \<Rightarrow> nat" where
  "clock s = date_now (be_tmux (build (ss_workspace s)))"

text \<open>The Connection of a local terminal: id, name, shell, start directory.\<close>

definition local_connection :: "string \<Rightarrow> string \<Rightarrow> string \<Rightarrow> string option \<Rightarrow> default_appearance \<Rightarrow> connection"
where
  "local_connection i name shell dir ap =
     (mk_connection i name ''localhost'' ''local'' CLocal)
       \<lparr> localShell := Some shell, localStartupDirectory := dir,
         terminalOpacity := Some (Some (ap_opacity ap)), conn_terminalBackground := Some (ap_background ap) \<rparr>"

definition new_local_connection :: "string \<Rightarrow> string option \<Rightarrow> string option \<Rightarrow> string option \<Rightarrow> rat \<Rightarrow> shell_state
    \<Rightarrow> connection" where
  "new_local_connection i name shell dir random s =
     (let sh = nullish shell (defaultShell (ss_terminalSettings s));
          ap = resolveDefaultTerminalAppearance (backgroundCatalog s) CLocal (ss_sshSettings s)
                 (ss_terminalSettings s) random
      in local_connection i (nullish name sh) sh dir ap)"

definition openLocalTerminal :: "string option \<Rightarrow> string option \<Rightarrow> rat \<Rightarrow> shell_state \<Rightarrow> shell_state" where
  "openLocalTerminal name shell random s =
     (if macAppStoreBuild s = Some True then s
      else let i = ''local-'' @ nat_string (clock s)
           in s\<lparr>ss_workspace := openConnection (new_local_connection i name shell None random s) None
                  (ss_workspace s)\<rparr>)"

definition popup_pane :: "string \<Rightarrow> connection \<Rightarrow> string \<Rightarrow> workspace_pane" where
  "popup_pane i c dir = TerminalPane \<lparr>tp_kind = False, tp_id = i, tp_childConnectionId = None,
     tp_title = conn_name c, tp_toolbarTitle = Some (conn_name c), cwd = dir, buffer = [],
     tp_connection = Some c, fontSize = None, textEncoding = None, tp_terminalBackground = None,
     tmuxSessionId = None, tmuxUnavailable = None, x11ForwardingStatus = None,
     sshPortForwardFailures = None\<rparr>"

definition openLocalTerminalHere :: "string \<Rightarrow> string option \<Rightarrow> string option \<Rightarrow> rat \<Rightarrow> shell_state \<Rightarrow> shell_state"
where
  "openLocalTerminalHere dir name shell random s =
     (if macAppStoreBuild s = Some True then s
      else let d = trim_or (Some dir) ''.'';
               i = ''local-popup-'' @ nat_string (clock s);
               c = new_local_connection i name shell (Some d) random s;
               (paneId, w) = with_build (createPaneId i) (ss_workspace s);
               tab = (mk_tab (''popup-'' @ i) (activeWorkspaceId w) (conn_name c) (conn_name c) d KTerminal
                        [popup_pane paneId c d])
                     \<lparr>focusedPaneId := Some paneId, tab_connection := Some c\<rparr>
           in s\<lparr>ss_workspace := w, localTerminalPopup := Some tab\<rparr>)"

definition closeLocalTerminalPopup :: "shell_state \<Rightarrow> shell_state" where
  "closeLocalTerminalPopup s = s\<lparr>localTerminalPopup := None\<rparr>"

definition openTerminalRecordingsBrowser :: "string option \<Rightarrow> string option \<Rightarrow> shell_state \<Rightarrow> shell_state" where
  "openTerminalRecordingsBrowser cid path s = s\<lparr>terminalRecordingsBrowser := Some (cid, path, clock s)\<rparr>"

definition closeTerminalRecordingsBrowser :: "shell_state \<Rightarrow> shell_state" where
  "closeTerminalRecordingsBrowser s = s\<lparr>terminalRecordingsBrowser := None\<rparr>"

definition openGitBrowser :: "string \<Rightarrow> string \<Rightarrow> shell_state \<Rightarrow> shell_state" where
  "openGitBrowser repoRoot label s = s\<lparr>gitBrowser := Some (repoRoot, label)\<rparr>"

definition closeGitBrowser :: "shell_state \<Rightarrow> shell_state" where
  "closeGitBrowser s = s\<lparr>gitBrowser := None\<rparr>"

definition openNoteEditor :: "string \<Rightarrow> string \<Rightarrow> shell_state \<Rightarrow> shell_state" where
  "openNoteEditor cid name s = s\<lparr>noteEditor := Some (cid, name)\<rparr>"

definition closeNoteEditor :: "shell_state \<Rightarrow> shell_state" where
  "closeNoteEditor s = s\<lparr>noteEditor := None\<rparr>"

text \<open>\<open>openElevatedLocalTerminal\<close> up to its question to the backend (whether it asks), and
  what the answer does; \<open>None\<close> is a question that failed.  An external terminal is a request
  to the backend: the shell and the start directory.\<close>

definition openElevatedLocalTerminal :: "shell_state \<Rightarrow> bool" where
  "openElevatedLocalTerminal s = (macAppStoreBuild s \<noteq> Some True)"

definition elevated_answers :: "string \<Rightarrow> bool option \<Rightarrow> local_shell_option \<Rightarrow> string option \<Rightarrow> rat \<Rightarrow> shell_state
    \<Rightarrow> (string \<times> string option) option \<times> shell_state" where
  "elevated_answers adminLabel answer opt dir random s =
     (case elevatedLocalShellAction adminLabel (nullish answer False) opt of
        Embedded name shell \<Rightarrow>
          (None, if truthy_str dir then openLocalTerminalHere (nullish dir []) (Some name) (Some shell) random s
                 else openLocalTerminal (Some name) (Some shell) random s)
      | External shell \<Rightarrow> (Some (shell, dir), s))"

subsection \<open>Changing the SSH settings\<close>

definition follows_ssh_default :: "terminal_pane \<Rightarrow> connection option" where
  "follows_ssh_default p =
     (case tp_connection p of
        None \<Rightarrow> None
      | Some c \<Rightarrow> (if conn_type c = CSsh \<and> sshSocksProxyInheritDefaults c \<noteq> Some False then Some c else None))"

definition reset_default_pane :: "bool \<Rightarrow> workspace_pane \<Rightarrow> build_env \<Rightarrow> workspace_pane \<times> build_env" where
  "reset_default_pane d pane e =
     (case pane of
        TerminalPane p \<Rightarrow>
          (case follows_ssh_default p of
             None \<Rightarrow> (pane, e)
           | Some c \<Rightarrow> (let (q, e') = refreshTerminalPaneConnection p c (tp_toolbarTitle p) d e
                        in (TerminalPane q, e')))
      | _ \<Rightarrow> (pane, e))"

definition reset_default_tab :: "bool \<Rightarrow> workspace_tab \<Rightarrow> build_env \<Rightarrow> workspace_tab \<times> build_env" where
  "reset_default_tab d t e =
     (let (ps, e') = map_env (reset_default_pane d) (panes t) e in (t\<lparr>panes := ps\<rparr>, e'))"

definition setSshSettings :: "ssh_settings \<Rightarrow> shell_state \<Rightarrow> shell_state" where
  "setSshSettings ssh s =
     (let w = ss_workspace s; d = ssh_useTmux ssh;
          s1 = s\<lparr>ss_sshAppearance := appearance_settings.truncate ssh\<rparr>
      in if defaultUseTmuxSessions w = d then s1
         else let (ts, b) = map_env (reset_default_tab d) (tabs w) (build w)
              in s1\<lparr>ss_workspace := w\<lparr>defaultUseTmuxSessions := d, tabs := ts, build := b\<rparr>\<rparr>)"

definition setTerminalSettings :: "terminal_settings \<Rightarrow> shell_state \<Rightarrow> shell_state" where
  "setTerminalSettings ts s = s\<lparr>ss_terminalSettings := ts\<rparr>"

section \<open>Appearance\<close>

lemma round_bounds: "0 \<le> min 100 (max 0 (js_round x)) \<and> min 100 (max 0 (js_round x)) \<le> 100"
  by simp

lemma random_index:
  assumes "catalog \<noteq> []"
  shows "\<exists>i \<in> set catalog. js_nth catalog (min (int (length catalog) - 1) (max 0 k)) = Some i"
proof -
  have n: "0 < int (length catalog)" using assms by simp
  define j where "j = min (int (length catalog) - 1) (max 0 k)"
  have "0 \<le> j" "j < int (length catalog)" using n unfolding j_def by linarith+
  then have "js_nth catalog j = Some (catalog ! nat j)" "catalog ! nat j \<in> set catalog"
    by (simp_all add: js_nth_def)
  then show ?thesis unfolding j_def by blast
qed

text \<open>Every draw gives a background of the catalog, and the opacity is a percentage.\<close>

lemma default_appearance_spec:
  defines "ap c t s u r \<equiv> resolveDefaultTerminalAppearance c t s u r"
  shows "0 \<le> ap_opacity (ap c t s u r) \<and> ap_opacity (ap c t s u r) \<le> 100
    \<and> (if useRandomDynamicBackground (terminalSettingsForConnection t s u) \<and> c \<noteq> []
       then \<exists>i \<in> set c. ap_background (ap c t s u r) = Some (dynamic_background i)
       else ap_background (ap c t s u r) = None)"
proof -
  let ?k = "min 100 (max 0 (js_round (defaultTransparency (terminalSettingsForConnection t s u))))"
  have o: "ap_opacity (ap c t s u r) = of_int (100 - ?k)"
    by (simp add: ap_def resolveDefaultTerminalAppearance_def Let_def)
  have "0 \<le> 100 - ?k" "100 - ?k \<le> 100" using round_bounds by simp_all
  then have "0 \<le> ap_opacity (ap c t s u r)" "ap_opacity (ap c t s u r) \<le> 100"
    unfolding o by (metis of_int_0_le_iff, metis of_int_le_iff of_int_numeral)
  moreover have "if useRandomDynamicBackground (terminalSettingsForConnection t s u) \<and> c \<noteq> []
       then \<exists>i \<in> set c. ap_background (ap c t s u r) = Some (dynamic_background i)
       else ap_background (ap c t s u r) = None"
    using random_index [of c "\<lfloor>r * of_int (int (length c))\<rfloor>"]
    by (auto simp: ap_def resolveDefaultTerminalAppearance_def Let_def)
  ultimately show ?thesis by blast
qed

section \<open>Quick Connect\<close>

lemma numbered_name_inj: "numbered_name b j = numbered_name b k \<longleftrightarrow> j = k"
  by (simp add: numbered_name_def nat_string_inj)

lemma numbered_name_base: "numbered_name b k \<noteq> b"
  by (simp add: numbered_name_def)

lemma next_suffix_finds:
  "\<forall>j. k \<le> j \<and> j < m \<longrightarrow> numbered_name b j \<in> set used \<Longrightarrow> numbered_name b m \<notin> set used \<Longrightarrow> k \<le> m
    \<Longrightarrow> next_suffix used b k = Some (numbered_name b m)"
proof (induction "m - k" arbitrary: k)
  case 0
  then show ?case by (subst next_suffix.simps) simp
next
  case (Suc n)
  then have "k < m" "n = m - (k + 1)" by simp_all
  then have "next_suffix used b (k + 1) = Some (numbered_name b m)" using Suc by simp
  then show ?case using Suc.prems(1) \<open>k < m\<close> by (subst next_suffix.simps) simp
qed

text \<open>A free number exists among the first as many as there are names, once the plain name is
  taken too.\<close>

lemma free_number:
  assumes "b \<in> set used"
  shows "\<exists>k \<in> {1..length used}. numbered_name b k \<notin> set used"
proof (rule ccontr)
  assume "\<not> ?thesis"
  then have "numbered_name b ` {1..length used} \<subseteq> set used - {b}" by (auto simp: numbered_name_base)
  then have "card (numbered_name b ` {1..length used}) \<le> card (set used - {b})"
    by (rule card_mono [rotated]) simp
  moreover have "card (numbered_name b ` {1..length used}) = length used"
    by (subst card_image) (auto simp: inj_on_def numbered_name_inj)
  moreover have "card (set used - {b}) < card (set used)" using assms by (intro card_Diff1_less) simp_all
  ultimately show False using card_length [of used] by linarith
qed

text \<open>C29. The loop that looks for a free Quick Connect name always returns: the name is not
  used by any Connection, it is the trimmed name asked for (\<open>Connection\<close> when that is empty)
  or that name with the smallest free number, which is at most the number of Connections.\<close>

theorem quick_connect_name_is_found:
  "\<exists>name. nextQuickConnectName cs preferred = Some name \<and> name \<notin> conn_name ` set cs
    \<and> (let base = (if trim preferred \<noteq> [] then trim preferred else ''Connection'')
       in name = base
          \<or> (\<exists>k. 1 \<le> k \<and> k \<le> length cs \<and> name = numbered_name base k
               \<and> insert base (numbered_name base ` {1..<k}) \<subseteq> conn_name ` set cs))"
proof -
  let ?b = "if trim preferred \<noteq> [] then trim preferred else ''Connection''"
  let ?used = "map conn_name cs"
  show ?thesis
  proof (cases "?b \<in> set ?used")
    case False
    then have "nextQuickConnectName cs preferred = Some ?b" by (simp add: nextQuickConnectName_def Let_def)
    then show ?thesis using False by (simp add: Let_def)
  next
    case True
    define m where "m = (LEAST k. 1 \<le> k \<and> numbered_name ?b k \<notin> set ?used)"
    obtain k where k: "1 \<le> k" "k \<le> length cs" "numbered_name ?b k \<notin> set ?used"
      using free_number [OF True] by auto
    have m: "1 \<le> m \<and> numbered_name ?b m \<notin> set ?used" "m \<le> k"
      using LeastI [of "\<lambda>k. 1 \<le> k \<and> numbered_name ?b k \<notin> set ?used" k]
        Least_le [of "\<lambda>k. 1 \<le> k \<and> numbered_name ?b k \<notin> set ?used" k] k
      by (simp_all add: m_def)
    have below: "\<forall>j. 1 \<le> j \<and> j < m \<longrightarrow> numbered_name ?b j \<in> set ?used"
      unfolding m_def using not_less_Least by blast
    have "next_suffix ?used ?b 1 = Some (numbered_name ?b m)"
      by (rule next_suffix_finds [OF below]) (use m in simp_all)
    then have r: "nextQuickConnectName cs preferred = Some (numbered_name ?b m)"
      using True by (simp add: nextQuickConnectName_def Let_def)
    have "insert ?b (numbered_name ?b ` {1..<m}) \<subseteq> conn_name ` set cs" using True below by auto
    then show ?thesis using r m k(2) unfolding Let_def
      by (intro exI [of _ "numbered_name ?b m"] conjI disjI2 exI [of _ m]) simp_all
  qed
qed

text \<open>A saved Connection is found again, by itself or by an earlier one with the same target.\<close>

lemma matching_finds_saved:
  "c \<in> set cs \<Longrightarrow> conn_type c = CSsh \<Longrightarrow>
     \<exists>d. findMatchingConnection cs c = Some d \<and> d \<in> set cs \<and> same_ssh_target d c"
proof -
  assume c: "c \<in> set cs" "conn_type c = CSsh"
  then have "find (\<lambda>d. same_ssh_target d c) cs \<noteq> None" by (auto simp: find_None_iff same_ssh_target_def)
  then show ?thesis using c by (auto simp: findMatchingConnection_def dest: find_SomeD)
qed

lemma truncated_label_fits: "length (truncateQuickConnectRecentLabel l) \<le> 40"
  by (simp add: truncateQuickConnectRecentLabel_def)

section \<open>Opening local terminals\<close>

text \<open>The id of a local terminal never ends in a UUID: it has too few hyphens.\<close>

lemma nat_string_no_hyphen: "CHR ''-'' \<notin> set (nat_string n)"
proof
  assume "CHR ''-'' \<in> set (nat_string n)"
  then have "is_digit (CHR ''-'')" by (rule nat_string_digits)
  then show False by (simp add: is_digit_def)
qed

lemma count_nat_string [simp]: "count_list (nat_string n) (CHR ''-'') = 0"
  using nat_string_no_hyphen by (simp add: count_notin)

lemma count_suffix: "suffix u x \<Longrightarrow> count_list u h \<le> count_list x h"
  by (auto simp: suffix_def)

lemma local_names_apart:
  assumes "uuid_supply e" "conn_id c = ''local-'' @ nat_string n"
  shows "names_apart e c"
proof -
  have "count_list (conn_id c @ x) (CHR ''-'') < 4" if "x \<in> set tab_suffixes" for x
    using that assms(2) by (auto simp: tab_suffixes_def)
  moreover have "count_list (uuid e k) (CHR ''-'') = 4" for k using assms(1) by (simp add: uuid_supply_def)
  ultimately show ?thesis unfolding names_apart_def using count_suffix by (metis not_less)
qed

lemma local_connection_simps [simp]:
  "conn_id (local_connection i n sh d ap) = i" "conn_type (local_connection i n sh d ap) = CLocal"
  "conn_name (local_connection i n sh d ap) = n" "localShell (local_connection i n sh d ap) = Some sh"
  "localStartupDirectory (local_connection i n sh d ap) = d"
  "terminalOpacity (local_connection i n sh d ap) = Some (Some (ap_opacity ap))"
  "usePsmuxSessions (local_connection i n sh d ap) = None"
  by (simp_all add: local_connection_def mk_connection_def)

lemma new_local_simps [simp]:
  "conn_id (new_local_connection i name shell d r s) = i"
  "conn_type (new_local_connection i name shell d r s) = CLocal"
  "localShell (new_local_connection i name shell d r s)
     = Some (nullish shell (defaultShell (ss_terminalSettings s)))"
  "localStartupDirectory (new_local_connection i name shell d r s) = d"
  "usePsmuxSessions (new_local_connection i name shell d r s) = None"
  by (simp_all add: new_local_connection_def Let_def)

lemma new_local_opacity:
  "\<exists>p. terminalOpacity (new_local_connection i name shell d r s) = Some (Some p) \<and> 0 \<le> p \<and> p \<le> 100"
  using default_appearance_spec [of "backgroundCatalog s" CLocal "ss_sshSettings s" "ss_terminalSettings s" r]
  by (simp add: new_local_connection_def Let_def)

lemma no_multiplexer: "conn_type c = CLocal \<Longrightarrow> usePsmuxSessions c = None \<Longrightarrow> \<not> connectionUsesMultiplexer c d"
  by (simp add: connectionUsesMultiplexer_def connectionUsesTmux_def connectionUsesPsmux_def)

lemma plain_local_panes:
  assumes "conn_type c = CLocal" "usePsmuxSessions c = None"
  shows "\<exists>p. buildPanesFromStoredLayout c None d e = ([p], e) \<and> pane_connection p = Some c"
  using no_multiplexer [OF assms, of d] assms(1)
  by (simp add: buildPanesFromStoredLayout_def stored_pane_count_def fallback_panes_def is_single_surface_def
      isRemoteDesktopConnection_def buildPanesForConnection_def tmuxSessionIdsForConnection_def
      build_indexed_pane_def Let_def)

lemma open_local_new_tab:
  assumes "conn_type c = CLocal" "usePsmuxSessions c = None"
    and "find_tab (''tab-'' @ conn_id c) (tabs w) = None" "storedLayouts w (conn_id c) = None"
  shows "\<exists>t. tabs (openConnection c None w) = tabs w @ [t] \<and> tab_id t = ''tab-'' @ conn_id c
    \<and> tab_workspaceId t = Some (activeWorkspaceId w) \<and> map pane_connection (panes t) = [Some c]"
proof -
  obtain p where p: "buildPanesFromStoredLayout c None (defaultUseTmuxSessions w) (build w) = ([p], build w)"
    "pane_connection p = Some c"
    using plain_local_panes [OF assms(1,2)] by blast
  show ?thesis using assms p
    by (simp add: openConnection_def isRemoteDesktopConnection_def loadStoredLayout_def with_build_def
        Let_def push_tab_def mk_tab_def)
qed

lemma open_terminal_active:
  assumes "conn_type c = CLocal" "ws_inv w" "names_apart (build w) c"
  shows "activeTabId (openConnection c None w) = ''tab-'' @ conn_id c
    \<and> ''tab-'' @ conn_id c \<in> tab_id ` set (tabs (openConnection c None w))"
proof (cases "find_tab (''tab-'' @ conn_id c) (tabs w)")
  case None
  then show ?thesis using assms(1)
    by (simp add: openConnection_def isRemoteDesktopConnection_def Let_def push_tab_def mk_tab_def split: prod.splits)
next
  case (Some t)
  obtain ts b where m: "map_env (refreshTabConnectionMetadata (local_label w) c (defaultUseTmuxSessions w))
      (tabs w) (build w) = (ts, b)" by fastforce
  have "map tab_id ts = map tab_id (tabs w)" using refresh_all_inv [OF _ m] assms(2) by (simp add: ws_inv_def)
  then have "tab_id ` set ts = tab_id ` set (tabs w)" by (metis set_map)
  moreover have "tab_id t = ''tab-'' @ conn_id c" "tab_id t \<in> tab_id ` set (tabs w)"
    using find_tab_SomeD [OF Some] by (blast, blast)
  moreover have "openConnection c None w = w\<lparr>tabs := ts, build := b, activeTabId := tab_id t\<rparr>"
    using assms(1) Some m by (simp add: openConnection_def isRemoteDesktopConnection_def Let_def)
  ultimately show ?thesis by simp
qed

text \<open>Except in a Mac App Store build, where nothing happens, opening a local terminal
  keeps the Workspace well formed and puts the terminal's Tab on screen, a new Tab of the
  Workspace on screen with one Pane running the shell asked for (or the default one), with an
  opacity between 0 and 100; the id cannot collide with a generated one because it has too few
  hyphens.\<close>

theorem local_terminal_opens:
  assumes "ws_inv (ss_workspace s)" "macAppStoreBuild s \<noteq> Some True"
  defines "i \<equiv> ''local-'' @ nat_string (clock s)"
  shows "let w = ss_workspace s; w' = ss_workspace (openLocalTerminal name shell r s) in
    ws_inv w' \<and> activeTabId w' = ''tab-'' @ i \<and> ''tab-'' @ i \<in> tab_id ` set (tabs w')
    \<and> (''tab-'' @ i \<in> tab_id ` set (tabs w) \<or> storedLayouts w i \<noteq> None
       \<or> (\<exists>t c p. tabs w' = tabs w @ [t] \<and> tab_workspaceId t = Some (activeWorkspaceId w)
            \<and> map pane_connection (panes t) = [Some c]
            \<and> localShell c = Some (nullish shell (defaultShell (ss_terminalSettings s)))
            \<and> terminalOpacity c = Some (Some p) \<and> 0 \<le> p \<and> p \<le> 100))"
proof -
  let ?w = "ss_workspace s" and ?c = "new_local_connection i name shell None r s"
  have w': "ss_workspace (openLocalTerminal name shell r s) = openConnection ?c None ?w"
    using assms(2) by (simp add: openLocalTerminal_def i_def Let_def)
  have "uuid_supply (build ?w)" using assms(1) by (simp add: ws_inv_def tabs_inv_def)
  then have apart: "names_apart (build ?w) ?c" by (rule local_names_apart) (simp add: i_def)
  have new: "\<exists>t. tabs (openConnection ?c None ?w) = tabs ?w @ [t]
      \<and> tab_workspaceId t = Some (activeWorkspaceId ?w) \<and> map pane_connection (panes t) = [Some ?c]"
    if "''tab-'' @ i \<notin> tab_id ` set (tabs ?w)" "storedLayouts ?w i = None"
  proof -
    have "find_tab (''tab-'' @ conn_id ?c) (tabs ?w) = None"
      using that(1) by (simp add: find_tab_def find_None_iff image_iff) metis
    then show ?thesis using open_local_new_tab [of ?c ?w] that(2) by auto
  qed
  obtain p where p: "terminalOpacity ?c = Some (Some p)" "0 \<le> p" "p \<le> 100" using new_local_opacity by blast
  have sh: "localShell ?c = Some (nullish shell (defaultShell (ss_terminalSettings s)))" by simp
  have "''tab-'' @ i \<in> tab_id ` set (tabs ?w) \<or> storedLayouts ?w i \<noteq> None
      \<or> (\<exists>t c p. tabs (openConnection ?c None ?w) = tabs ?w @ [t]
           \<and> tab_workspaceId t = Some (activeWorkspaceId ?w) \<and> map pane_connection (panes t) = [Some c]
           \<and> localShell c = Some (nullish shell (defaultShell (ss_terminalSettings s)))
           \<and> terminalOpacity c = Some (Some p) \<and> 0 \<le> p \<and> p \<le> 100)"
  proof (cases "''tab-'' @ i \<in> tab_id ` set (tabs ?w) \<or> storedLayouts ?w i \<noteq> None")
    case False
    then have f: "''tab-'' @ i \<notin> tab_id ` set (tabs ?w)" "storedLayouts ?w i = None" by simp_all
    obtain t where t: "tabs (openConnection ?c None ?w) = tabs ?w @ [t]"
      "tab_workspaceId t = Some (activeWorkspaceId ?w)" "map pane_connection (panes t) = [Some ?c]"
      using new [OF f] by (elim exE conjE)
    show ?thesis
      by (intro disjI2 exI [of _ t] exI [of _ ?c] exI [of _ p] conjI) (rule t p sh)+
  qed blast
  moreover have "activeTabId (openConnection ?c None ?w) = ''tab-'' @ i"
    "''tab-'' @ i \<in> tab_id ` set (tabs (openConnection ?c None ?w))"
    using open_terminal_active [OF _ assms(1) apart] by simp_all
  ultimately show ?thesis unfolding Let_def w' using openConnection_inv [OF assms(1) apart] by blast
qed

text \<open>The popup terminal leaves every Tab alone: its Pane and its Tab have ids no open Tab
  or Pane has, it starts in the trimmed directory (\<open>.\<close> when that is empty), and closing it
  gives back the Workspace as it was but for the ids used up.\<close>

theorem popup_terminal_stays_apart:
  assumes "ws_inv (ss_workspace s)" "macAppStoreBuild s \<noteq> Some True"
  shows "let s' = openLocalTerminalHere dir name shell r s; w = ss_workspace s; w' = ss_workspace s' in
    ws_inv w' \<and> w' = w\<lparr>build := build w'\<rparr>
    \<and> ss_workspace (closeLocalTerminalPopup s') = w' \<and> localTerminalPopup (closeLocalTerminalPopup s') = None
    \<and> (\<exists>t p. localTerminalPopup s' = Some t \<and> panes t = [TerminalPane p] \<and> focusedPaneId t = Some (tp_id p)
         \<and> tab_id t \<notin> tab_id ` set (tabs w') \<and> tp_id p \<notin> pane_id ` (\<Union>u \<in> set (tabs w'). set (panes u))
         \<and> cwd p = (if trim dir = [] then ''.'' else trim dir)
         \<and> Option.bind (tp_connection p) localStartupDirectory = Some (cwd p))"
proof -
  let ?w = "ss_workspace s" and ?d = "trim_or (Some dir) ''.''"
  let ?i = "''local-popup-'' @ nat_string (clock s)"
  let ?c = "new_local_connection ?i name shell (Some ?d) r s"
  obtain k e' where k: "createPaneId ?i (build ?w) = (k, e')" by fastforce
  let ?t = "(mk_tab (''popup-'' @ ?i) (activeWorkspaceId ?w) (conn_name ?c) (conn_name ?c) ?d KTerminal
      [popup_pane k ?c ?d])\<lparr>focusedPaneId := Some k, tab_connection := Some ?c\<rparr>"
  have s': "openLocalTerminalHere dir name shell r s
      = s\<lparr>ss_workspace := ?w\<lparr>build := e'\<rparr>, localTerminalPopup := Some ?t\<rparr>"
    using assms(2) k by (simp add: openLocalTerminalHere_def Let_def with_build_def)
  have new: "env_leq (build ?w) e'" "pane_new (build ?w) e' k" using createPaneId_new [OF k] by simp_all
  have inv: "ws_inv (?w\<lparr>build := e'\<rparr>)"
    using assms(1) tabs_inv_mono [OF new(1)] by (simp add: ws_inv_def)
  have tabid: "tab_id ?t \<notin> tab_id ` set (tabs ?w)"
  proof
    assume "tab_id ?t \<in> tab_id ` set (tabs ?w)"
    then obtain u where u: "u \<in> set (tabs ?w)" "tab_id ?t = tab_id u" by blast
    then have "starts_with (tab_id ?t) ''tab-''" using assms(1) by (simp add: ws_inv_def tabs_inv_def tab_ok_def)
    then show False by (simp add: starts_with_def mk_tab_def)
  qed
  have paneid: "k \<notin> pane_id ` (\<Union>u \<in> set (tabs ?w). set (panes u))"
    using assms(1) pane_new_notin [OF new(2)] by (fastforce simp: ws_inv_def tabs_inv_def)
  have "\<exists>t p. Some ?t = Some t \<and> panes t = [TerminalPane p] \<and> focusedPaneId t = Some (tp_id p)
         \<and> tab_id t \<notin> tab_id ` set (tabs ?w) \<and> tp_id p \<notin> pane_id ` (\<Union>u \<in> set (tabs ?w). set (panes u))
         \<and> cwd p = (if trim dir = [] then ''.'' else trim dir)
         \<and> Option.bind (tp_connection p) localStartupDirectory = Some (cwd p)"
    using tabid paneid by (simp add: mk_tab_def popup_pane_def trim_or_def)
  then show ?thesis unfolding Let_def s' using inv by (simp add: closeLocalTerminalPopup_def)
qed

text \<open>An elevated terminal is a popup or a Tab of its own when the application itself runs
  elevated, named so that the name ends in the label once; otherwise, and when the question to
  the backend failed, it is only a request to the backend.\<close>

lemma elevated_terminal_spec:
  "elevated_answers admin (Some True) opt dir r s =
     (None, if truthy_str dir
            then openLocalTerminalHere (nullish dir []) (Some (action_name (elevatedLocalShellAction admin True opt)))
                   (Some (nullish (shell_value opt) ''powershell.exe'')) r s
            else openLocalTerminal (Some (action_name (elevatedLocalShellAction admin True opt)))
                   (Some (nullish (shell_value opt) ''powershell.exe'')) r s)"
  "answer \<noteq> Some True \<Longrightarrow>
     elevated_answers admin answer opt dir r s = (Some (nullish (shell_value opt) ''powershell.exe'', dir), s)"
  "suffix ('' ('' @ admin @ '')'') (action_name (elevatedLocalShellAction admin True opt))"
proof -
  show "elevated_answers admin (Some True) opt dir r s =
     (None, if truthy_str dir
            then openLocalTerminalHere (nullish dir []) (Some (action_name (elevatedLocalShellAction admin True opt)))
                   (Some (nullish (shell_value opt) ''powershell.exe'')) r s
            else openLocalTerminal (Some (action_name (elevatedLocalShellAction admin True opt)))
                   (Some (nullish (shell_value opt) ''powershell.exe'')) r s)"
    by (simp add: elevated_answers_def elevatedLocalShellAction_def Let_def)
  show "answer \<noteq> Some True \<Longrightarrow>
     elevated_answers admin answer opt dir r s = (Some (nullish (shell_value opt) ''powershell.exe'', dir), s)"
    by (cases answer) (simp_all add: elevated_answers_def elevatedLocalShellAction_def Let_def)
  show "suffix ('' ('' @ admin @ '')'') (action_name (elevatedLocalShellAction admin True opt))"
    by (cases "suffix ('' ('' @ admin @ '')'') (shell_label opt)")
      (simp_all only: elevatedLocalShellAction_def Let_def simp_thms if_True if_False elevated_action.sel suffixI)
qed

text \<open>A store with no Tab.\<close>

definition sample_shell :: shell_state where
  "sample_shell = \<lparr>ss_workspace = initial_state, macAppStoreBuild = None,
     ss_terminalSettings = \<lparr>defaultTransparency = 130, useRandomDynamicBackground = True, defaultShell = ''pwsh''\<rparr>,
     ss_sshAppearance = \<lparr>defaultTransparency = 0, useRandomDynamicBackground = False\<rparr>,
     backgroundCatalog = [''rain'', ''stars''], localTerminalPopup = None, terminalRecordingsBrowser = None,
     gitBrowser = None, noteEditor = None\<rparr>"

lemma sample_shell_simps [simp]:
  "ss_workspace sample_shell = initial_state" "macAppStoreBuild sample_shell = None"
  by (simp_all add: sample_shell_def)

lemma initial_inv: "ws_inv initial_state"
  using initial_good by (simp add: ws_good_def)

theorem local_terminal_opens_witness:
  "activeTabId (ss_workspace (openLocalTerminal None None (1 / 2) sample_shell))
     = ''tab-local-'' @ nat_string (clock sample_shell)
   \<and> tabs (ss_workspace (openLocalTerminal None None (1 / 2) sample_shell)) \<noteq> []"
  using local_terminal_opens [of sample_shell None None "1 / 2"] initial_inv by (auto simp: Let_def)

theorem popup_terminal_stays_apart_witness:
  "tabs (ss_workspace (openLocalTerminalHere '' C: '' None None 0 sample_shell)) = []
   \<and> localTerminalPopup (openLocalTerminalHere '' C: '' None None 0 sample_shell) \<noteq> None"
proof -
  from popup_terminal_stays_apart [of sample_shell "'' C: ''" None None 0]
  obtain w' where "ss_workspace (openLocalTerminalHere '' C: '' None None 0 sample_shell)
      = initial_state\<lparr>build := w'\<rparr>"
    "localTerminalPopup (openLocalTerminalHere '' C: '' None None 0 sample_shell) \<noteq> None"
    using initial_inv by (auto simp: Let_def)
  then show ?thesis by (simp add: initial_state_def)
qed

section \<open>Changing the SSH settings\<close>

text \<open>What a change of the default to \<open>d\<close> does to one Pane.\<close>

definition inherits_default :: "connection option \<Rightarrow> bool" where
  "inherits_default c = (map_option conn_type c = Some CSsh
     \<and> Option.bind c sshSocksProxyInheritDefaults \<noteq> Some False)"

lemma follows_ssh_default_iff: "(follows_ssh_default p = None) = (\<not> inherits_default (tp_connection p))"
  by (auto simp: follows_ssh_default_def inherits_default_def split: option.splits)

definition follows_default :: "bool \<Rightarrow> workspace_pane \<Rightarrow> workspace_pane \<Rightarrow> bool" where
  "follows_default d p q =
     (case p of
        TerminalPane x \<Rightarrow>
          (if \<not> inherits_default (tp_connection x) then q = p
           else pane_id q = pane_id p \<and> pane_title q = pane_title p \<and> pane_connection q = pane_connection p
             \<and> pane_childConnectionId q = pane_childConnectionId p
             \<and> (if \<not> d then pane_tmux q = None
                else if pane_tmux p \<noteq> None then pane_tmux q = pane_tmux p
                else (pane_tmux q = None) = (tmuxUnavailable x = Some True)))
      | _ \<Rightarrow> q = p)"

lemma follows_multiplexer: "follows_ssh_default p = Some c \<Longrightarrow> connectionUsesMultiplexer c d = d \<and> tp_connection p = Some c"
  by (auto simp: follows_ssh_default_def connectionUsesMultiplexer_def connectionUsesTmux_def connectionUsesPsmux_def
      split: option.splits if_splits)

lemma append_tmux_Some: "connectionUsesMultiplexer c d \<Longrightarrow> append_tmux c d e = (sid, e') \<Longrightarrow> sid \<noteq> None"
  by (auto simp: append_tmux_def appendTmuxSessionId_def Let_def split: prod.splits)

lemma reset_default_pane_follows: "follows_default d p (fst (reset_default_pane d p e))"
proof (cases p)
  case (TerminalPane x)
  show ?thesis
  proof (cases "follows_ssh_default x")
    case None
    then show ?thesis using TerminalPane
      by (simp add: reset_default_pane_def follows_default_def follows_ssh_default_iff [symmetric])
  next
    case (Some c)
    note m = follows_multiplexer [OF Some, of d]
    have a: "fst (append_tmux c True e) \<noteq> None" if "d"
      using m that append_tmux_Some [of c True e] by (cases "append_tmux c True e") simp
    have "inherits_default (Some c)" using follows_ssh_default_iff [of x] Some m by simp
    then show ?thesis using TerminalPane Some m a
      by (auto simp: reset_default_pane_def follows_default_def refreshTerminalPaneConnection_def Let_def
          pane_tmux_def refreshedPaneTitle_def split: prod.splits option.splits if_splits)
  qed
qed (simp_all add: reset_default_pane_def follows_default_def)

lemma follows_default_id: "follows_default d p q \<Longrightarrow> pane_id q = pane_id p"
  by (auto simp: follows_default_def split: workspace_pane.splits if_splits)

lemma reset_default_pane_id: "pane_id (fst (reset_default_pane d p e)) = pane_id p"
  by (rule follows_default_id [OF reset_default_pane_follows])

lemma reset_default_pane_env:
  "(uuid (snd (reset_default_pane d p e)), uuid_pos (snd (reset_default_pane d p e))) = (uuid e, uuid_pos e)"
  by (cases p) (auto simp: reset_default_pane_def Let_def refreshTerminalPaneConnection_def
      split: prod.splits option.splits if_splits dest: append_tmux_env)

definition tab_follows :: "bool \<Rightarrow> workspace_tab \<Rightarrow> workspace_tab \<Rightarrow> bool" where
  "tab_follows d t u = (u = t\<lparr>panes := panes u\<rparr> \<and> list_all2 (follows_default d) (panes t) (panes u))"

lemma reset_default_tab_spec:
  assumes "reset_default_tab d t e = (u, e')"
  shows "tab_follows d t u \<and> env_leq e e' \<and> map pane_id (panes u) = map pane_id (panes t)"
proof -
  obtain ps e1 where m: "map_env (reset_default_pane d) (panes t) e = (ps, e1)" by fastforce
  then have u: "u = t\<lparr>panes := ps\<rparr>" "e' = e1" using assms by (simp_all add: reset_default_tab_def)
  have "list_all2 (follows_default d) (panes t) ps"
    using m by (rule map_env_list_all2 [rotated]) (rule reset_default_pane_follows)
  moreover have "map pane_id ps = map pane_id (panes t)"
    using m by (rule map_env_map [rotated]) (rule reset_default_pane_id)
  moreover have "(uuid e1, uuid_pos e1) = (uuid e, uuid_pos e)"
    using m by (rule map_env_env [where k = "\<lambda>e. (uuid e, uuid_pos e)", rotated]) (rule reset_default_pane_env)
  ultimately show ?thesis using u by (simp add: tab_follows_def env_leq_def)
qed

lemma reset_default_step: "tab_step (\<lambda>t e. let (t', e') = reset_default_tab d t e in ((t', []), e'))"
proof (rule tab_stepI)
  fix t e t' u e'
  assume "(let (t', e') = reset_default_tab d t e in ((t', []), e')) = ((t', u), e')"
  then have r: "reset_default_tab d t e = (t', e')" by (auto split: prod.splits)
  note S = reset_default_tab_spec [OF r]
  have t': "t' = t\<lparr>panes := panes t'\<rparr>" and ids: "map pane_id (panes t') = map pane_id (panes t)"
    using S by (simp_all add: tab_follows_def)
  have "tab_ok (t\<lparr>panes := panes t'\<rparr>) = tab_ok t"
    "tab_old e (t\<lparr>panes := panes t'\<rparr>) = tab_old e t"
    by (rule same_ids_ok [OF ids])+
  then have "tab_ok t' = tab_ok t" "tab_old e t' = tab_old e t" using t' by simp_all
  moreover have "tab_id t' = tab_id t" by (subst t') simp
  ultimately show "env_leq e e' \<and> tab_id t' = tab_id t \<and> (tab_ok t \<longrightarrow> tab_old e t \<longrightarrow> tab_ok t' \<and> tab_old e' t')"
    using S tab_old_mono by blast
qed

lemma reset_default_all:
  assumes "tabs_inv e ts" "map_env (reset_default_tab d) ts e = (us, e')"
  shows "tabs_inv e' us \<and> list_all2 (tab_follows d) ts us"
proof
  have "map_env (\<lambda>t e. let (t', e') = reset_default_tab d t e in ((t', []), e')) ts e
      = (map (\<lambda>u. (u, [])) us, e')"
    unfolding map_env_pair assms(2) by simp
  from map_env_tabs [OF reset_default_step assms(1) this] show "tabs_inv e' us" by (simp add: o_def)
  show "list_all2 (tab_follows d) ts us"
    using assms(2)
    by (rule map_env_list_all2 [rotated]) (metis prod.collapse reset_default_tab_spec)
qed

text \<open>C9. Changing whether SSH Connections use tmux by default reaches the open Panes at once:
  every terminal Pane of an SSH Connection that follows the default loses its session name when
  the default is off, and has one when it is on, keeping the one it had (except where tmux
  was found missing); its id, title and Connection stay, every other Pane and everything else
  of every Tab is untouched, and the Workspace stays well formed.\<close>

theorem ssh_default_reaches_open_panes:
  assumes "ws_inv (ss_workspace s)"
  shows "let w = ss_workspace s; s' = setSshSettings ssh s; w' = ss_workspace s' in
    ws_inv w' \<and> ss_sshSettings s' = ssh
    \<and> (if ssh_useTmux ssh = defaultUseTmuxSessions w then w' = w
       else list_all2 (tab_follows (ssh_useTmux ssh)) (tabs w) (tabs w')
         \<and> w' = w\<lparr>defaultUseTmuxSessions := ssh_useTmux ssh, tabs := tabs w', build := build w'\<rparr>)"
proof -
  let ?w = "ss_workspace s" and ?d = "ssh_useTmux ssh"
  have same: "appearance_settings.extend (appearance_settings.truncate ssh) \<lparr>ssh_useTmux = ssh_useTmux ssh\<rparr> = ssh"
    by (cases ssh) (simp add: appearance_settings.defs)
  show ?thesis
  proof (cases "defaultUseTmuxSessions ?w = ?d")
    case True
    then show ?thesis using assms same by (simp add: setSshSettings_def Let_def ss_sshSettings_def)
  next
    case False
    obtain ts b where m: "map_env (reset_default_tab ?d) (tabs ?w) (build ?w) = (ts, b)" by fastforce
    have "tabs_inv b ts \<and> list_all2 (tab_follows ?d) (tabs ?w) ts"
      by (rule reset_default_all [OF _ m]) (use assms in \<open>simp add: ws_inv_def\<close>)
    then show ?thesis using False m assms same
      by (simp add: setSshSettings_def Let_def ss_sshSettings_def ws_inv_def)
  qed
qed

text \<open>A Tab with one SSH terminal whose session has a name.\<close>

definition ssh_shell :: shell_state where
  "ssh_shell = sample_shell\<lparr>ss_workspace := openConnection sample_ssh None initial_state\<rparr>"

theorem ssh_default_reaches_open_panes_witness:
  "ws_inv (ss_workspace (setSshSettings \<lparr>defaultTransparency = 0, useRandomDynamicBackground = False,
      ssh_useTmux = False\<rparr> ssh_shell))
   \<and> list_all2 (tab_follows False) (tabs (ss_workspace ssh_shell))
       (tabs (ss_workspace (setSshSettings \<lparr>defaultTransparency = 0, useRandomDynamicBackground = False,
          ssh_useTmux = False\<rparr> ssh_shell)))"
proof -
  have "ws_inv (ss_workspace ssh_shell)"
    unfolding ssh_shell_def
    using openConnection_inv [OF initial_inv, of sample_ssh None] sample_names_apart by (simp add: initial_state_def)
  note P = ssh_default_reaches_open_panes [OF this, of "\<lparr>defaultTransparency = 0,
    useRandomDynamicBackground = False, ssh_useTmux = False\<rparr>"]
  have "defaultUseTmuxSessions (ss_workspace ssh_shell)" by code_simp
  then show ?thesis using P by (simp add: Let_def)
qed

end
