(* ===== verification/Pane_Registry.thy ===== *)
theory Pane_Registry
  imports Interfaces "HOL-Library.AList"
begin

text \<open>
  The registers of live Panes, \<open>src/modules/workspace/paneRegistry.ts\<close>: which renderer, input
  writer, text sender or controller serves a Pane, and the hand-over of a terminal's running
  session when its Pane is moved from one Tab to another; with the set-up and the cleanup of
  a terminal view (\<open>connections/terminal/TerminalWorkspace.tsx\<close>) that use it.

  A register is a \<open>Map\<close>, an association list in insertion order.  Renderers, writers and
  controllers are compared by identity only; here they are numbers.
\<close>

section \<open>Definitions\<close>

subsection \<open>Registers\<close>

record pane_registry =
  renderers :: "(string \<times> nat) list"
  inputWriters :: "(string \<times> nat) list"
  rdpTextSenders :: "(string \<times> nat) list"
  remoteDesktopControllers :: "(string \<times> nat) list"
  fileBrowserControllers :: "(string \<times> nat) list"
  webviewControllers :: "(string \<times> nat) list"

text \<open>\<open>if (m.get(k) === v) m.delete(k)\<close>.\<close>

definition delete_if :: "string \<Rightarrow> nat \<Rightarrow> (string \<times> nat) list \<Rightarrow> (string \<times> nat) list" where
  "delete_if k v m = (if map_of m k = Some v then AList.delete k m else m)"

definition registerPaneRenderer :: "string \<Rightarrow> nat \<Rightarrow> pane_registry \<Rightarrow> pane_registry" where
  "registerPaneRenderer i v r = r\<lparr>renderers := AList.update i v (renderers r)\<rparr>"

definition unregisterPaneRenderer :: "string \<Rightarrow> nat \<Rightarrow> pane_registry \<Rightarrow> pane_registry" where
  "unregisterPaneRenderer i v r = r\<lparr>renderers := delete_if i v (renderers r)\<rparr>"

definition getPaneRenderer :: "string \<Rightarrow> pane_registry \<Rightarrow> nat option" where
  "getPaneRenderer i r = map_of (renderers r) i"

text \<open>Whether there was a renderer, and the one to focus.\<close>

definition focusPaneRenderer :: "string \<Rightarrow> pane_registry \<Rightarrow> bool \<times> nat list" where
  "focusPaneRenderer i r =
     (case map_of (renderers r) i of None \<Rightarrow> (False, []) | Some v \<Rightarrow> (True, [v]))"

definition registerPaneInputWriter :: "string \<Rightarrow> nat \<Rightarrow> pane_registry \<Rightarrow> pane_registry" where
  "registerPaneInputWriter i v r = r\<lparr>inputWriters := AList.update i v (inputWriters r)\<rparr>"

definition unregisterPaneInputWriter :: "string \<Rightarrow> nat \<Rightarrow> pane_registry \<Rightarrow> pane_registry" where
  "unregisterPaneInputWriter i v r = r\<lparr>inputWriters := delete_if i v (inputWriters r)\<rparr>"

text \<open>The calls \<open>writer(data)\<close>, in order.\<close>

definition writeInputToPane :: "string \<Rightarrow> string \<Rightarrow> pane_registry \<Rightarrow> bool \<times> (nat \<times> string) list" where
  "writeInputToPane i text r =
     (case map_of (inputWriters r) i of None \<Rightarrow> (False, []) | Some v \<Rightarrow> (True, [(v, text)]))"

definition broadcastInputToOtherPanes :: "string \<Rightarrow> string \<Rightarrow> pane_registry \<Rightarrow> (nat \<times> string) list" where
  "broadcastInputToOtherPanes source text r =
     map (\<lambda>(i, v). (v, text)) (filter (\<lambda>(i, v). i \<noteq> source) (inputWriters r))"

definition countRegisteredInputPanes :: "pane_registry \<Rightarrow> nat" where
  "countRegisteredInputPanes r = length (inputWriters r)"

definition registerRdpTextSender :: "string \<Rightarrow> nat \<Rightarrow> pane_registry \<Rightarrow> pane_registry" where
  "registerRdpTextSender i v r = r\<lparr>rdpTextSenders := AList.update i v (rdpTextSenders r)\<rparr>"

definition unregisterRdpTextSender :: "string \<Rightarrow> nat \<Rightarrow> pane_registry \<Rightarrow> pane_registry" where
  "unregisterRdpTextSender i v r = r\<lparr>rdpTextSenders := delete_if i v (rdpTextSenders r)\<rparr>"

definition sendTextToRdpPane :: "string \<Rightarrow> string \<Rightarrow> bool \<Rightarrow> pane_registry \<Rightarrow> (nat \<times> string \<times> bool) option" where
  "sendTextToRdpPane i text pressEnter r =
     map_option (\<lambda>v. (v, text, pressEnter)) (map_of (rdpTextSenders r) i)"

definition registerRemoteDesktopController :: "string \<Rightarrow> nat \<Rightarrow> pane_registry \<Rightarrow> pane_registry" where
  "registerRemoteDesktopController i v r =
     r\<lparr>remoteDesktopControllers := AList.update i v (remoteDesktopControllers r)\<rparr>"

definition unregisterRemoteDesktopController :: "string \<Rightarrow> nat \<Rightarrow> pane_registry \<Rightarrow> pane_registry" where
  "unregisterRemoteDesktopController i v r =
     r\<lparr>remoteDesktopControllers := delete_if i v (remoteDesktopControllers r)\<rparr>"

definition getRemoteDesktopController :: "string \<Rightarrow> pane_registry \<Rightarrow> nat option" where
  "getRemoteDesktopController i r = map_of (remoteDesktopControllers r) i"

definition registerFileBrowserController :: "string \<Rightarrow> nat \<Rightarrow> pane_registry \<Rightarrow> pane_registry" where
  "registerFileBrowserController i v r =
     r\<lparr>fileBrowserControllers := AList.update i v (fileBrowserControllers r)\<rparr>"

definition unregisterFileBrowserController :: "string \<Rightarrow> nat \<Rightarrow> pane_registry \<Rightarrow> pane_registry" where
  "unregisterFileBrowserController i v r =
     r\<lparr>fileBrowserControllers := delete_if i v (fileBrowserControllers r)\<rparr>"

definition getFileBrowserController :: "string \<Rightarrow> pane_registry \<Rightarrow> nat option" where
  "getFileBrowserController i r = map_of (fileBrowserControllers r) i"

definition registerWebviewController :: "string \<Rightarrow> nat \<Rightarrow> pane_registry \<Rightarrow> pane_registry" where
  "registerWebviewController i v r = r\<lparr>webviewControllers := AList.update i v (webviewControllers r)\<rparr>"

definition unregisterWebviewController :: "string \<Rightarrow> nat \<Rightarrow> pane_registry \<Rightarrow> pane_registry" where
  "unregisterWebviewController i v r = r\<lparr>webviewControllers := delete_if i v (webviewControllers r)\<rparr>"

definition getWebviewController :: "string \<Rightarrow> pane_registry \<Rightarrow> nat option" where
  "getWebviewController i r = map_of (webviewControllers r) i"

subsection \<open>Moving a running terminal\<close>

text \<open>What is kept of a terminal between two views, and the state of the hand-over: the
  permits, the runtimes kept, the microtasks queued (each takes one permit away).\<close>

record preserved_runtime =
  rt_bufferText :: string
  rt_sessionId :: string
  rt_sessionStarted :: bool

record runtime_moves =
  movingTerminalPaneIds :: "string set"
  preservedTerminalPaneRuntimes :: "string \<Rightarrow> preserved_runtime option"
  microtasks :: "string list"

definition markPanesForRuntimeMove :: "string list \<Rightarrow> runtime_moves \<Rightarrow> runtime_moves" where
  "markPanesForRuntimeMove ids m = m\<lparr>movingTerminalPaneIds := movingTerminalPaneIds m \<union> set ids\<rparr>"

definition shouldPreservePaneRuntimeOnUnmount :: "string \<Rightarrow> runtime_moves \<Rightarrow> bool \<times> runtime_moves" where
  "shouldPreservePaneRuntimeOnUnmount i m =
     (if i \<notin> movingTerminalPaneIds m then (False, m)
      else (True, m\<lparr>movingTerminalPaneIds := movingTerminalPaneIds m - {i}\<rparr>))"

definition preserveTerminalPaneRuntime :: "string \<Rightarrow> preserved_runtime \<Rightarrow> runtime_moves \<Rightarrow> runtime_moves" where
  "preserveTerminalPaneRuntime i rt m =
     m\<lparr>preservedTerminalPaneRuntimes := (preservedTerminalPaneRuntimes m)(i \<mapsto> rt)\<rparr>"

definition takePreservedTerminalPaneRuntime :: "string \<Rightarrow> runtime_moves
    \<Rightarrow> preserved_runtime option \<times> runtime_moves" where
  "takePreservedTerminalPaneRuntime i m =
     (case preservedTerminalPaneRuntimes m i of
        None \<Rightarrow> (None, m)
      | Some rt \<Rightarrow>
          (Some rt, m\<lparr>preservedTerminalPaneRuntimes := (preservedTerminalPaneRuntimes m)(i := None),
                      movingTerminalPaneIds := insert i (movingTerminalPaneIds m),
                      microtasks := microtasks m @ [i]\<rparr>))"

definition run_microtask :: "runtime_moves \<Rightarrow> runtime_moves" where
  "run_microtask m =
     (case microtasks m of
        [] \<Rightarrow> m
      | i # q \<Rightarrow> m\<lparr>movingTerminalPaneIds := movingTerminalPaneIds m - {i}, microtasks := q\<rparr>)"

subsection \<open>Terminal views\<close>

text \<open>The mounted views with their sessions (id, whether it has started), and the sessions
  the backend runs.\<close>

record terminal_views =
  moves :: runtime_moves
  mounted :: "string \<Rightarrow> (string \<times> bool) option"
  live_sessions :: "string set"

definition no_views :: terminal_views where
  "no_views = \<lparr>moves = \<lparr>movingTerminalPaneIds = {}, preservedTerminalPaneRuntimes = (\<lambda>_. None), microtasks = []\<rparr>,
     mounted = (\<lambda>_. None), live_sessions = {}\<rparr>"

text \<open>The set-up of a view: it takes over the session kept for its Pane or starts one under a
  new id.  The cleanup keeps the session when there is a permit and closes it otherwise.\<close>

definition mount_terminal :: "string \<Rightarrow> string \<Rightarrow> terminal_views \<Rightarrow> terminal_views" where
  "mount_terminal i fresh s =
     (case takePreservedTerminalPaneRuntime i (moves s) of
        (Some rt, m) \<Rightarrow> s\<lparr>moves := m, mounted := (mounted s)(i \<mapsto> (rt_sessionId rt, rt_sessionStarted rt))\<rparr>
      | (None, m) \<Rightarrow> s\<lparr>moves := m, mounted := (mounted s)(i \<mapsto> (fresh, False)),
                       live_sessions := insert fresh (live_sessions s)\<rparr>)"

definition unmount_terminal :: "string \<Rightarrow> string \<Rightarrow> terminal_views \<Rightarrow> terminal_views" where
  "unmount_terminal i text s =
     (case mounted s i of
        None \<Rightarrow> s
      | Some (sid, started) \<Rightarrow>
          (case shouldPreservePaneRuntimeOnUnmount i (moves s) of
             (True, m) \<Rightarrow>
               s\<lparr>moves := preserveTerminalPaneRuntime i
                   \<lparr>rt_bufferText = text, rt_sessionId = sid, rt_sessionStarted = started\<rparr> m,
                 mounted := (mounted s)(i := None)\<rparr>
           | (False, m) \<Rightarrow>
               s\<lparr>moves := m, mounted := (mounted s)(i := None), live_sessions := live_sessions s - {sid}\<rparr>))"

definition session_ready :: "string \<Rightarrow> terminal_views \<Rightarrow> terminal_views" where
  "session_ready i s =
     s\<lparr>mounted := (mounted s)(i := map_option (\<lambda>(sid, _). (sid, True)) (mounted s i))\<rparr>"

section \<open>Registers\<close>

lemma delete_if_spec:
  "map_of (delete_if k v m) = (if map_of m k = Some v then (map_of m)(k := None) else map_of m)"
  by (simp add: delete_if_def delete_conv')

lemma delete_if_distinct: "distinct (map fst m) \<Longrightarrow> distinct (map fst (delete_if k v m))"
  by (simp add: delete_if_def distinct_delete)

text \<open>When the new view of a Pane registers before the old one is cleaned up, the cleanup
  leaves the new entry in place; in the usual order the Pane has no entry in between.\<close>

lemma late_cleanup_keeps_new:
  "old \<noteq> new \<Longrightarrow> getPaneRenderer i (unregisterPaneRenderer i old (registerPaneRenderer i new r)) = Some new"
  "old \<noteq> new \<Longrightarrow> getWebviewController i
     (unregisterWebviewController i old (registerWebviewController i new r)) = Some new"
  "old \<noteq> new \<Longrightarrow> getFileBrowserController i
     (unregisterFileBrowserController i old (registerFileBrowserController i new r)) = Some new"
  "old \<noteq> new \<Longrightarrow> getRemoteDesktopController i
     (unregisterRemoteDesktopController i old (registerRemoteDesktopController i new r)) = Some new"
  by (simp_all add: getPaneRenderer_def unregisterPaneRenderer_def registerPaneRenderer_def
      getWebviewController_def unregisterWebviewController_def registerWebviewController_def
      getFileBrowserController_def unregisterFileBrowserController_def registerFileBrowserController_def
      getRemoteDesktopController_def unregisterRemoteDesktopController_def
      registerRemoteDesktopController_def delete_if_spec update_conv')

text \<open>A broadcast reaches every other registered terminal once and never its source.\<close>

definition writers_ok :: "pane_registry \<Rightarrow> bool" where
  "writers_ok r = distinct (map fst (inputWriters r))"

lemma writers_ok_keep:
  "writers_ok r \<Longrightarrow> writers_ok (registerPaneInputWriter i v r)"
  "writers_ok r \<Longrightarrow> writers_ok (unregisterPaneInputWriter i v r)"
  by (simp_all add: writers_ok_def registerPaneInputWriter_def unregisterPaneInputWriter_def
      distinct_update delete_if_distinct)

lemma broadcast_reaches_others:
  assumes "writers_ok r"
  shows "set (broadcastInputToOtherPanes source text r)
      = {(v, text) | v. \<exists>i. i \<noteq> source \<and> map_of (inputWriters r) i = Some v}"
    and "length (broadcastInputToOtherPanes source text r)
      = countRegisteredInputPanes r - (if map_of (inputWriters r) source = None then 0 else 1)"
proof -
  have d: "distinct (map fst (inputWriters r))" using assms by (simp add: writers_ok_def)
  show "set (broadcastInputToOtherPanes source text r)
      = {(v, text) | v. \<exists>i. i \<noteq> source \<and> map_of (inputWriters r) i = Some v}"
    using d by (auto simp: broadcastInputToOtherPanes_def map_of_eq_Some_iff)
  have "length (filter (\<lambda>(i, v). i \<noteq> source) m) = length m - (if map_of m source = None then 0 else 1)"
    if "distinct (map fst m)" for m :: "(string \<times> nat) list"
    using that
  proof (induction m)
    case (Cons x m)
    have "filter (\<lambda>(i, v). i \<noteq> fst x) m = m"
      using Cons.prems by (auto simp: filter_id_conv image_iff)
    moreover have "m = [] \<or> 1 \<le> length m" by (cases m) auto
    ultimately show ?case using Cons by (cases x) (force simp: map_of_eq_None_iff image_iff split: if_splits)
  qed simp
  then show "length (broadcastInputToOtherPanes source text r)
      = countRegisteredInputPanes r - (if map_of (inputWriters r) source = None then 0 else 1)"
    using d by (simp add: broadcastInputToOtherPanes_def countRegisteredInputPanes_def)
qed

section \<open>Moving a running terminal\<close>

datatype view_event =
    MarkMove "string list"
  | MountTerminal string string
  | UnmountTerminal string string
  | SessionReady string
  | Microtask

fun pane_view_step :: "view_event \<Rightarrow> terminal_views \<Rightarrow> terminal_views" where
  "pane_view_step (MarkMove ids) s = s\<lparr>moves := markPanesForRuntimeMove ids (moves s)\<rparr>"
| "pane_view_step (MountTerminal i fresh) s = mount_terminal i fresh s"
| "pane_view_step (UnmountTerminal i text) s = unmount_terminal i text s"
| "pane_view_step (SessionReady i) s = session_ready i s"
| "pane_view_step Microtask s = s\<lparr>moves := run_microtask (moves s)\<rparr>"

text \<open>A Pane has one view, and a new session has an id no running session has.\<close>

fun pane_view_allowed :: "view_event \<Rightarrow> terminal_views \<Rightarrow> bool" where
  "pane_view_allowed (MountTerminal i fresh) s = (mounted s i = None \<and> fresh \<notin> live_sessions s)"
| "pane_view_allowed e s = True"

definition session_of :: "terminal_views \<Rightarrow> string \<Rightarrow> string option" where
  "session_of s i =
     nullish_opt (map_option fst (mounted s i))
       (map_option rt_sessionId (preservedTerminalPaneRuntimes (moves s) i))"

text \<open>Every running session belongs to exactly one Pane: mounted, or kept for its next view.\<close>

definition sessions_owned :: "terminal_views \<Rightarrow> bool" where
  "sessions_owned s =
     ((\<forall>i. mounted s i = None \<or> preservedTerminalPaneRuntimes (moves s) i = None)
      \<and> live_sessions s = ran (session_of s) \<and> inj_on (session_of s) (dom (session_of s)))"

lemma sessions_ownedD:
  "sessions_owned s \<Longrightarrow> mounted s i = Some x \<Longrightarrow> preservedTerminalPaneRuntimes (moves s) i = None"
  unfolding sessions_owned_def by (metis option.distinct(1))

lemma same_owners:
  assumes "sessions_owned s" "session_of s' = session_of s" "live_sessions s' = live_sessions s"
    and "\<And>i. mounted s' i = None \<or> preservedTerminalPaneRuntimes (moves s') i = None"
  shows "sessions_owned s'"
  using assms by (simp add: sessions_owned_def)

lemma new_owner:
  assumes "inj_on f (dom f)" "x \<notin> ran f" "f i = None"
  shows "inj_on (f(i \<mapsto> x)) (dom (f(i \<mapsto> x))) \<and> ran (f(i \<mapsto> x)) = insert x (ran f)"
proof
  have n: "f j \<noteq> Some x" for j using assms(2) by (auto intro: ranI)
  show "inj_on (f(i \<mapsto> x)) (dom (f(i \<mapsto> x)))"
    using assms(1) n n [symmetric] by (auto simp: inj_on_def dom_def)
  show "ran (f(i \<mapsto> x)) = insert x (ran f)" by (rule ran_map_upd [of f i x, OF assms(3)])
qed

lemma lost_owner:
  assumes "inj_on f (dom f)" "f i = Some x"
  shows "inj_on (f(i := None)) (dom (f(i := None))) \<and> ran (f(i := None)) = ran f - {x}"
proof
  show "inj_on (f(i := None)) (dom (f(i := None)))" using assms(1) by (auto simp: inj_on_def dom_def)
  have "f j \<noteq> Some x" if "j \<noteq> i" for j
    using assms that by (metis domI inj_onD)
  then show "ran (f(i := None)) = ran f - {x}" using assms(2)
    unfolding ran_def set_eq_iff by (simp add: fun_upd_apply) (metis option.inject)
qed

lemma mount_owned:
  assumes "sessions_owned s" "mounted s i = None" "fresh \<notin> live_sessions s"
  shows "sessions_owned (mount_terminal i fresh s)"
proof (cases "preservedTerminalPaneRuntimes (moves s) i")
  case None
  let ?s = "mount_terminal i fresh s"
  have f: "session_of s i = None" using None assms(2) by (simp add: session_of_def)
  have o: "session_of ?s = (session_of s)(i \<mapsto> fresh)" "live_sessions ?s = insert fresh (live_sessions s)"
    "preservedTerminalPaneRuntimes (moves ?s) = preservedTerminalPaneRuntimes (moves s)"
    "mounted ?s = (mounted s)(i \<mapsto> (fresh, False))"
    using None by (auto simp: mount_terminal_def takePreservedTerminalPaneRuntime_def session_of_def fun_eq_iff)
  have "inj_on (session_of s) (dom (session_of s))" "fresh \<notin> ran (session_of s)"
    using assms(1,3) by (simp_all add: sessions_owned_def)
  from new_owner [OF this f] show ?thesis
    using assms(1) o None by (auto simp: sessions_owned_def)
next
  case (Some rt)
  show ?thesis
    by (rule same_owners [OF assms(1)])
      (use Some assms(1,2) in \<open>auto simp: mount_terminal_def takePreservedTerminalPaneRuntime_def
          session_of_def fun_eq_iff sessions_owned_def\<close>)
qed

lemma unmount_owned:
  assumes "sessions_owned s"
  shows "sessions_owned (unmount_terminal i text s)"
proof (cases "mounted s i")
  case None
  then show ?thesis using assms by (simp add: unmount_terminal_def)
next
  case (Some x)
  obtain sid st where x: "x = (sid, st)" by fastforce
  note p = sessions_ownedD [OF assms Some]
  show ?thesis
  proof (cases "i \<in> movingTerminalPaneIds (moves s)")
    case True
    show ?thesis
      by (rule same_owners [OF assms])
        (use Some x True assms in \<open>auto simp: unmount_terminal_def shouldPreservePaneRuntimeOnUnmount_def
            preserveTerminalPaneRuntime_def session_of_def fun_eq_iff sessions_owned_def\<close>)
  next
    case False
    let ?s = "unmount_terminal i text s"
    have f: "session_of s i = Some sid" using Some x by (simp add: session_of_def)
    have o: "session_of ?s = (session_of s)(i := None)" "live_sessions ?s = live_sessions s - {sid}"
      "moves ?s = moves s" "mounted ?s = (mounted s)(i := None)"
      using Some x False p
      by (auto simp: unmount_terminal_def shouldPreservePaneRuntimeOnUnmount_def session_of_def fun_eq_iff)
    have "inj_on (session_of s) (dom (session_of s))" using assms by (simp add: sessions_owned_def)
    from lost_owner [OF this f] show ?thesis using assms o by (auto simp: sessions_owned_def)
  qed
qed

lemma pane_view_step_owned:
  assumes "sessions_owned s" "pane_view_allowed e s"
  shows "sessions_owned (pane_view_step e s)"
proof (cases e)
  case (MountTerminal i fresh)
  then show ?thesis using assms mount_owned by simp
next
  case (UnmountTerminal i buf)
  then show ?thesis using assms(1) unmount_owned by simp
next
  case (MarkMove ids)
  show ?thesis unfolding MarkMove
    by (rule same_owners [OF assms(1)])
      (use assms(1) in \<open>auto simp: markPanesForRuntimeMove_def session_of_def fun_eq_iff sessions_owned_def\<close>)
next
  case (SessionReady i)
  show ?thesis unfolding SessionReady
    by (rule same_owners [OF assms(1)])
      (use assms(1) in \<open>auto simp: session_ready_def session_of_def fun_eq_iff sessions_owned_def
        option.map_comp o_def case_prod_beta\<close>)
next
  case Microtask
  show ?thesis unfolding Microtask
    by (rule same_owners [OF assms(1)])
      (use assms(1) in \<open>auto simp: run_microtask_def session_of_def fun_eq_iff sessions_owned_def
        split: list.splits\<close>)
qed

interpretation views: machine pane_view_step sessions_owned pane_view_allowed
  by unfold_locales (rule pane_view_step_owned)

lemma no_views_owned: "sessions_owned no_views"
proof -
  have "session_of no_views = Map.empty" by (simp add: session_of_def no_views_def fun_eq_iff)
  then show ?thesis unfolding sessions_owned_def by (simp add: no_views_def)
qed

subsection \<open>One move\<close>

text \<open>A view that has just been given the session of its Pane back: the permit is there again
  and a microtask is queued that takes it away.\<close>

definition just_moved :: "string \<Rightarrow> string \<times> bool \<Rightarrow> terminal_views \<Rightarrow> bool" where
  "just_moved i x s = (mounted s i = Some x \<and> i \<in> movingTerminalPaneIds (moves s) \<and> i \<in> set (microtasks (moves s))
     \<and> preservedTerminalPaneRuntimes (moves s) i = None)"

lemma permitted_remount:
  assumes "mounted s i = Some x" "i \<in> movingTerminalPaneIds (moves s)"
  shows "just_moved i x (mount_terminal i fresh (unmount_terminal i text s))
    \<and> live_sessions (mount_terminal i fresh (unmount_terminal i text s)) = live_sessions s"
  using assms by (cases x)
    (simp add: just_moved_def mount_terminal_def unmount_terminal_def takePreservedTerminalPaneRuntime_def
      shouldPreservePaneRuntimeOnUnmount_def preserveTerminalPaneRuntime_def)

definition probes :: "nat \<Rightarrow> string \<Rightarrow> string \<Rightarrow> string \<Rightarrow> view_event list" where
  "probes n i text fresh = concat (replicate n [UnmountTerminal i text, MountTerminal i fresh])"

lemma probes_keep:
  "just_moved i x s \<Longrightarrow> just_moved i x (fold pane_view_step (probes n i text fresh) s)
     \<and> live_sessions (fold pane_view_step (probes n i text fresh) s) = live_sessions s"
proof (induction n arbitrary: s)
  case 0
  then show ?case by (simp add: probes_def)
next
  case (Suc n)
  have "just_moved i x (mount_terminal i fresh (unmount_terminal i text s))"
    "live_sessions (mount_terminal i fresh (unmount_terminal i text s)) = live_sessions s"
    using permitted_remount [of s i x] Suc.prems by (simp_all add: just_moved_def)
  with Suc.IH [OF this(1)] show ?case by (simp add: probes_def)
qed

definition drain :: "terminal_views \<Rightarrow> terminal_views" where
  "drain s = fold pane_view_step (replicate (length (microtasks (moves s))) Microtask) s"

lemma drain_spec:
  "movingTerminalPaneIds (moves (drain s)) = movingTerminalPaneIds (moves s) - set (microtasks (moves s))
   \<and> mounted (drain s) = mounted s \<and> live_sessions (drain s) = live_sessions s
   \<and> preservedTerminalPaneRuntimes (moves (drain s)) = preservedTerminalPaneRuntimes (moves s)"
proof (induction "microtasks (moves s)" arbitrary: s)
  case Nil
  then show ?case by (simp add: drain_def)
next
  case (Cons k q)
  let ?s = "pane_view_step Microtask s"
  have q: "microtasks (moves ?s) = q"
    "movingTerminalPaneIds (moves ?s) = movingTerminalPaneIds (moves s) - {k}"
    "mounted ?s = mounted s" "live_sessions ?s = live_sessions s"
    "preservedTerminalPaneRuntimes (moves ?s) = preservedTerminalPaneRuntimes (moves s)"
    using Cons.hyps(2) [symmetric] by (simp_all add: run_microtask_def)
  have "drain s = drain ?s" unfolding drain_def using q(1) Cons.hyps(2) [symmetric] by simp
  then show ?case using Cons.hyps(1) [of ?s] q Cons.hyps(2) [symmetric] by auto
qed



end
