(* ===== verification/Keymap.thy ===== *)
theory Keymap
  imports Workspace_Types
begin

text \<open>
  The keyboard shortcuts, \<open>src/modules/workspace/keymap.ts\<close>: the catalog of actions, the binding
  a key event stands for, the bindings in effect after the user's changes, the action a key
  fires, and the check for conflicts; with the recorder of
  \<open>src/modules/settings/ShortcutsSettings.tsx\<close> that edits the changes, and the platform test of
  \<open>src/lib/platform.ts\<close>.

  The platform is an argument where the source takes the current one.
\<close>

section \<open>Definitions\<close>

subsection \<open>Platform\<close>

datatype runtime_platform = PlWindows | PlMacos | PlLinux | PlUnknown

text \<open>\<open>navigator.userAgent\<close> and \<open>navigator.platform\<close>; \<open>None\<close> where there is no navigator.\<close>

definition currentPlatform :: "(string \<times> string) option \<Rightarrow> runtime_platform" where
  "currentPlatform navigator =
     (case navigator of
        None \<Rightarrow> PlWindows
      | Some (agent, pl) \<Rightarrow>
          (let text = to_lower (agent @ '' '' @ pl)
           in if str_includes text ''mac'' then PlMacos
              else if str_includes text ''linux'' then PlLinux
              else if str_includes text ''windows'' \<or> str_includes text ''win32'' then PlWindows
              else PlUnknown))"

subsection \<open>The catalog\<close>

datatype shortcut_scope = ScWorkspace | ScTerminal | ScRemoteDesktop | ScScreenshotEditor

datatype shortcut_action_id =
    DoNewTab | DoCloseTab | DoNextTab | DoPreviousTab | DoCopy
  | DoPaste | DoQuickSelect | DoFind | DoZoomIn | DoZoomOut
  | DoZoomReset | DoReconnectActiveSession | DoSplitRight | DoSplitLeft | DoSplitDown
  | DoSplitUp | DoRemoteFullscreen | DoScreenshotEditorCopy | DoScreenshotEditorSave | DoScreenshotEditorSaveAs

fun action_id_name :: "shortcut_action_id \<Rightarrow> string" where
  "action_id_name DoNewTab = ''newTab''"
| "action_id_name DoCloseTab = ''closeTab''"
| "action_id_name DoNextTab = ''nextTab''"
| "action_id_name DoPreviousTab = ''previousTab''"
| "action_id_name DoCopy = ''copy''"
| "action_id_name DoPaste = ''paste''"
| "action_id_name DoQuickSelect = ''quickSelect''"
| "action_id_name DoFind = ''find''"
| "action_id_name DoZoomIn = ''zoomIn''"
| "action_id_name DoZoomOut = ''zoomOut''"
| "action_id_name DoZoomReset = ''zoomReset''"
| "action_id_name DoReconnectActiveSession = ''reconnectActiveSession''"
| "action_id_name DoSplitRight = ''splitRight''"
| "action_id_name DoSplitLeft = ''splitLeft''"
| "action_id_name DoSplitDown = ''splitDown''"
| "action_id_name DoSplitUp = ''splitUp''"
| "action_id_name DoRemoteFullscreen = ''remoteFullscreen''"
| "action_id_name DoScreenshotEditorCopy = ''screenshotEditorCopy''"
| "action_id_name DoScreenshotEditorSave = ''screenshotEditorSave''"
| "action_id_name DoScreenshotEditorSaveAs = ''screenshotEditorSaveAs''"

record shortcut_action =
  sa_id :: shortcut_action_id
  sa_scope :: shortcut_scope
  labelKey :: string
  defaultBinding :: "string option"

definition shortcut :: "shortcut_action_id \<Rightarrow> shortcut_scope \<Rightarrow> string \<Rightarrow> string option \<Rightarrow> shortcut_action" where
  "shortcut i sc l b = \<lparr>sa_id = i, sa_scope = sc, labelKey = l, defaultBinding = b\<rparr>"

definition WORKSPACE_SHORTCUT_ACTIONS :: "shortcut_action list" where
  "WORKSPACE_SHORTCUT_ACTIONS =
    [shortcut DoNewTab ScWorkspace ''workspace.newTab'' (Some ''Ctrl+Shift+T''),
     shortcut DoCloseTab ScWorkspace ''settings.shortcutCloseTab'' (Some ''Ctrl+Shift+W''),
     shortcut DoNextTab ScWorkspace ''settings.shortcutNextTab'' (Some ''Ctrl+Tab''),
     shortcut DoPreviousTab ScWorkspace ''settings.shortcutPreviousTab'' (Some ''Ctrl+Shift+Tab''),
     shortcut DoCopy ScTerminal ''terminal.copy'' (Some ''Ctrl+Shift+C''),
     shortcut DoPaste ScTerminal ''terminal.paste'' (Some ''Ctrl+V''),
     shortcut DoQuickSelect ScTerminal ''terminal.quickSelect'' (Some ''Ctrl+Shift+Space''),
     shortcut DoFind ScTerminal ''terminal.findInScrollback'' (Some ''Ctrl+Shift+F''),
     shortcut DoZoomIn ScTerminal ''settings.shortcutZoomIn'' (Some ''Ctrl+=''),
     shortcut DoZoomOut ScTerminal ''settings.shortcutZoomOut'' (Some ''Ctrl+-''),
     shortcut DoZoomReset ScTerminal ''settings.shortcutZoomReset'' (Some ''Ctrl+0''),
     shortcut DoReconnectActiveSession ScTerminal ''settings.shortcutReconnectActiveSession'' None,
     shortcut DoSplitRight ScTerminal ''terminal.splitRight'' None,
     shortcut DoSplitLeft ScTerminal ''terminal.splitLeft'' None,
     shortcut DoSplitDown ScTerminal ''terminal.splitDown'' None,
     shortcut DoSplitUp ScTerminal ''terminal.splitUp'' None,
     shortcut DoRemoteFullscreen ScRemoteDesktop ''remoteDesktop.fullscreen.toggle'' (Some ''Ctrl+Alt+Pause''),
     shortcut DoScreenshotEditorCopy ScScreenshotEditor ''screenshots.menu.copy'' (Some ''Ctrl+C''),
     shortcut DoScreenshotEditorSave ScScreenshotEditor ''common.save'' (Some ''Ctrl+S''),
     shortcut DoScreenshotEditorSaveAs ScScreenshotEditor ''screenshots.editor.saveAs'' (Some ''Ctrl+Shift+S'')]"

definition FIXED_TERMINAL_SHORTCUT_ALIASES :: "(shortcut_action_id \<times> string) list" where
  "FIXED_TERMINAL_SHORTCUT_ALIASES = [(DoCopy, ''Ctrl+Insert''), (DoPaste, ''Ctrl+Shift+V'')]"

definition activeConnectionForNewTab :: "workspace_tab list \<Rightarrow> string option \<Rightarrow> connection option" where
  "activeConnectionForNewTab ts active =
     (case find (\<lambda>t. Some (tab_id t) = active) ts of
        None \<Rightarrow> None
      | Some t \<Rightarrow>
          nullish_opt (Option.bind (find (\<lambda>p. Some (pane_id p) = focusedPaneId t) (panes t)) pane_connection)
            (nullish_opt (tab_connection t) (Option.bind (js_nth (panes t) 0) pane_connection)))"

subsection \<open>Bindings\<close>

definition MODIFIER_KEYS :: "string list" where
  "MODIFIER_KEYS = [''Control'', ''Shift'', ''Alt'', ''Meta'']"

definition MAC_MODIFIER_LABELS :: "(string \<times> string) list" where
  "MAC_MODIFIER_LABELS =
     [(''Ctrl'', ''Control''), (''Control'', ''Control''), (''Alt'', ''Option''), (''Option'', ''Option''),
      (''Cmd'', ''Command''), (''Command'', ''Command''), (''Meta'', ''Command''), (''Super'', ''Command''),
      (''CmdOrCtrl'', ''Command''), (''CmdOrControl'', ''Command''), (''CommandOrCtrl'', ''Command''),
      (''CommandOrControl'', ''Command'')]"

definition displayShortcutBinding :: "string \<Rightarrow> runtime_platform \<Rightarrow> string" where
  "displayShortcutBinding binding pl =
     (if pl = PlWindows then
        join_with ''+'' (map (\<lambda>w. if w = ''Pause'' \<or> w = ''PauseBreak'' then ''Break'' else w)
          (split_on (CHR ''+'') binding))
      else if pl \<noteq> PlMacos then binding
      else join_with ''+'' (map (\<lambda>w. nullish (map_of MAC_MODIFIER_LABELS w) w) (split_on (CHR ''+'') binding)))"

definition defaultWorkspaceShortcutBinding :: "shortcut_action \<Rightarrow> runtime_platform \<Rightarrow> string option" where
  "defaultWorkspaceShortcutBinding a pl =
     (if sa_id a \<noteq> DoRemoteFullscreen then defaultBinding a
      else if pl = PlMacos then Some ''Ctrl+Cmd+F''
      else if pl = PlLinux then Some ''F11''
      else defaultBinding a)"

definition workspaceShortcutIsFixed :: "shortcut_action \<Rightarrow> runtime_platform \<Rightarrow> bool" where
  "workspaceShortcutIsFixed a pl = (pl = PlWindows \<and> sa_id a = DoRemoteFullscreen)"

record key_event =
  ev_key :: string
  ctrlKey :: bool
  altKey :: bool
  shiftKey :: bool
  metaKey :: bool

text \<open>The upper case of one character; the micro sign and y with diaeresis, whose capitals lie outside the range of
  characters of the model, stay as they are.\<close>

definition to_upper_char :: "char \<Rightarrow> string" where
  "to_upper_char c =
     (let n = of_char c :: nat
      in if 97 \<le> n \<and> n \<le> 122 \<or> 224 \<le> n \<and> n \<le> 254 \<and> n \<noteq> 247 then [char_of (n - 32)]
         else if n = 223 then ''SS'' else [c])"

definition normalizeBindingKey :: "string \<Rightarrow> string" where
  "normalizeBindingKey key =
     (if key = '' '' \<or> key = ''Spacebar'' then ''Space''
      else if length key = 1 then to_upper_char (hd key) else key)"

definition isFunctionKey :: "string \<Rightarrow> bool" where
  "isFunctionKey key = (key \<in> set (map (\<lambda>n. CHR ''F'' # nat_string n) [1..<25]))"

definition bindingFromKeyboardEvent :: "key_event \<Rightarrow> string option" where
  "bindingFromKeyboardEvent e =
     (if ev_key e \<in> set MODIFIER_KEYS then None
      else if \<not> ctrlKey e \<and> \<not> altKey e \<and> \<not> metaKey e \<and> \<not> isFunctionKey (ev_key e) then None
      else Some (join_with ''+''
        ((if ctrlKey e then [''Ctrl''] else []) @ (if altKey e then [''Alt''] else [])
         @ (if shiftKey e then [''Shift''] else []) @ (if metaKey e then [''Cmd''] else [])
         @ [normalizeBindingKey (ev_key e)])))"

subsection \<open>The bindings in effect\<close>

text \<open>The user's changes by action name: \<open>None\<close> is an absent entry, \<open>Some None\<close> explicitly
  unbound.\<close>

type_synonym shortcut_overrides = "string \<Rightarrow> string option option"

definition effective_binding :: "shortcut_overrides \<Rightarrow> runtime_platform \<Rightarrow> shortcut_action \<Rightarrow> string option" where
  "effective_binding ov pl a =
     (case ov (action_id_name (sa_id a)) of
        Some b \<Rightarrow> (if workspaceShortcutIsFixed a pl then defaultWorkspaceShortcutBinding a pl else b)
      | None \<Rightarrow> defaultWorkspaceShortcutBinding a pl)"

text \<open>The \<open>Map\<close>, filled in catalog order.\<close>

definition effectiveWorkspaceShortcutBindings :: "shortcut_overrides \<Rightarrow> runtime_platform
    \<Rightarrow> shortcut_action_id \<Rightarrow> string option option" where
  "effectiveWorkspaceShortcutBindings ov pl =
     fold (\<lambda>a m. m(sa_id a \<mapsto> effective_binding ov pl a)) WORKSPACE_SHORTCUT_ACTIONS Map.empty"

definition workspaceShortcutFromKeyboardEvent :: "runtime_platform \<Rightarrow> key_event \<Rightarrow> shortcut_overrides
    \<Rightarrow> shortcut_scope \<Rightarrow> shortcut_action_id option" where
  "workspaceShortcutFromKeyboardEvent pl e ov sc =
     (case bindingFromKeyboardEvent e of
        None \<Rightarrow> None
      | Some binding \<Rightarrow>
          (if binding = [] then None
           else map_option sa_id (find (\<lambda>a. sa_scope a = sc
             \<and> effectiveWorkspaceShortcutBindings ov pl (sa_id a) = Some (Some binding)) WORKSPACE_SHORTCUT_ACTIONS)))"

definition fixedTerminalShortcutFromKeyboardEvent :: "key_event \<Rightarrow> shortcut_action_id option" where
  "fixedTerminalShortcutFromKeyboardEvent e =
     (case bindingFromKeyboardEvent e of
        None \<Rightarrow> None
      | Some binding \<Rightarrow>
          (if binding = [] then None
           else map_option fst (find (\<lambda>(i, b). b = binding) FIXED_TERMINAL_SHORTCUT_ALIASES)))"

datatype shortcut_namespace = NsApp | NsScreenshotEditor

definition shortcutNamespace :: "shortcut_scope \<Rightarrow> shortcut_namespace" where
  "shortcutNamespace sc = (if sc = ScScreenshotEditor then NsScreenshotEditor else NsApp)"

definition find_action :: "shortcut_action_id \<Rightarrow> shortcut_action option" where
  "find_action i = find (\<lambda>a. sa_id a = i) WORKSPACE_SHORTCUT_ACTIONS"

definition conflictingWorkspaceShortcutAction :: "runtime_platform \<Rightarrow> string \<Rightarrow> shortcut_overrides
    \<Rightarrow> shortcut_action_id \<Rightarrow> shortcut_action option" where
  "conflictingWorkspaceShortcutAction pl binding ov except =
     (let ns = shortcutNamespace (case find_action except of Some a \<Rightarrow> sa_scope a | None \<Rightarrow> ScWorkspace);
          taken = (if ns = NsApp
            then find (\<lambda>(i, b). i \<noteq> except \<and> b = binding) FIXED_TERMINAL_SHORTCUT_ALIASES else None)
      in case taken of
           Some (i, b) \<Rightarrow> find_action i
         | None \<Rightarrow>
             find (\<lambda>a. sa_id a \<noteq> except \<and> shortcutNamespace (sa_scope a) = ns
               \<and> effectiveWorkspaceShortcutBindings ov pl (sa_id a) = Some (Some binding)) WORKSPACE_SHORTCUT_ACTIONS)"

subsection \<open>The recorder in the settings\<close>

definition setOverride :: "runtime_platform \<Rightarrow> shortcut_action_id \<Rightarrow> string option \<Rightarrow> shortcut_overrides
    \<Rightarrow> shortcut_overrides" where
  "setOverride pl i b draft =
     (if b = (case find_action i of Some a \<Rightarrow> defaultWorkspaceShortcutBinding a pl | None \<Rightarrow> None)
      then draft(action_id_name i := None)
      else draft(action_id_name i := Some b))"

text \<open>A key pressed while the shortcut of action \<open>i\<close> is being recorded: the draft, and the
  label of the action it conflicts with.\<close>

definition handleRecordingKeyDown :: "runtime_platform \<Rightarrow> key_event \<Rightarrow> shortcut_action_id \<Rightarrow> shortcut_overrides
    \<Rightarrow> shortcut_overrides \<times> string option" where
  "handleRecordingKeyDown pl e i draft =
     (if ev_key e = ''Escape'' then (draft, None)
      else case bindingFromKeyboardEvent e of
        None \<Rightarrow> (draft, None)
      | Some b \<Rightarrow>
          (if b = [] then (draft, None)
           else case conflictingWorkspaceShortcutAction pl b draft i of
             Some a \<Rightarrow> (draft, Some (labelKey a))
           | None \<Rightarrow> (setOverride pl i (Some b) draft, None)))"

text \<open>The buttons that unbind an action, that take one change back, and that take all back.\<close>

definition clear_shortcut :: "runtime_platform \<Rightarrow> shortcut_action_id \<Rightarrow> shortcut_overrides \<Rightarrow> shortcut_overrides" where
  "clear_shortcut pl i draft = setOverride pl i None draft"

definition reset_shortcut :: "shortcut_action_id \<Rightarrow> shortcut_overrides \<Rightarrow> shortcut_overrides" where
  "reset_shortcut i draft = draft(action_id_name i := None)"

definition reset_all_shortcuts :: "shortcut_overrides \<Rightarrow> shortcut_overrides" where
  "reset_all_shortcuts draft = (\<lambda>_. None)"

section \<open>The catalog\<close>

lemma action_ids_distinct: "distinct (map sa_id WORKSPACE_SHORTCUT_ACTIONS)"
  by (simp add: WORKSPACE_SHORTCUT_ACTIONS_def shortcut_def)

lemma action_names_inj: "action_id_name i = action_id_name j \<longleftrightarrow> i = j"
  by (cases i; cases j; simp)

lemma find_action_Some: "\<exists>a. find_action i = Some a \<and> a \<in> set WORKSPACE_SHORTCUT_ACTIONS \<and> sa_id a = i"
  by (cases i) (simp_all add: find_action_def WORKSPACE_SHORTCUT_ACTIONS_def shortcut_def)

lemma find_action_id: "a \<in> set WORKSPACE_SHORTCUT_ACTIONS \<Longrightarrow> find_action (sa_id a) = Some a"
  unfolding find_action_def using action_ids_distinct by (rule find_Some_iff_unique)

lemma fold_upd_keys:
  assumes "distinct (map k xs)" "x \<in> set xs"
  shows "fold (\<lambda>a m. m(k a \<mapsto> f a)) xs m0 (k x) = Some (f x)"
  using assms
proof (induction xs arbitrary: m0)
  case (Cons y ys)
  have other: "fold (\<lambda>a m. m(k a \<mapsto> f a)) zs m j = m j" if "j \<notin> k ` set zs" for zs m j
    using that by (induction zs arbitrary: m) auto
  show ?case
  proof (cases "x = y")
    case True
    have "k y \<notin> k ` set ys" using Cons.prems(1) by simp
    from other [OF this, of "m0(k y \<mapsto> f y)"]
    have "fold (\<lambda>a m. m(k a \<mapsto> f a)) ys (m0(k y \<mapsto> f y)) (k y) = Some (f y)" by (simp only: fun_upd_same)
    then show ?thesis unfolding True fold_simps .
  next
    case False
    then show ?thesis using Cons by simp
  qed
qed simp

lemma bindings_in_effect:
  "a \<in> set WORKSPACE_SHORTCUT_ACTIONS \<Longrightarrow>
     effectiveWorkspaceShortcutBindings ov pl (sa_id a) = Some (effective_binding ov pl a)"
  unfolding effectiveWorkspaceShortcutBindings_def by (rule fold_upd_keys [OF action_ids_distinct])

lemma same_id: "a \<in> set WORKSPACE_SHORTCUT_ACTIONS \<Longrightarrow> b \<in> set WORKSPACE_SHORTCUT_ACTIONS \<Longrightarrow> sa_id a = sa_id b \<Longrightarrow> a = b"
  using find_action_id by (metis option.inject)

section \<open>One key, one action\<close>

definition ns_of :: "shortcut_action \<Rightarrow> shortcut_namespace" where
  "ns_of a = shortcutNamespace (sa_scope a)"

text \<open>No two actions of a namespace have one binding, and no action of the application's
  namespace has the fixed binding of another.\<close>

definition unambiguous :: "runtime_platform \<Rightarrow> shortcut_overrides \<Rightarrow> bool" where
  "unambiguous pl ov =
     (list_all (\<lambda>a. list_all (\<lambda>b. sa_id a = sa_id b \<or> ns_of a \<noteq> ns_of b
         \<or> effective_binding ov pl a = None \<or> effective_binding ov pl a \<noteq> effective_binding ov pl b)
        WORKSPACE_SHORTCUT_ACTIONS) WORKSPACE_SHORTCUT_ACTIONS
      \<and> list_all (\<lambda>a. ns_of a \<noteq> NsApp \<or> list_all (\<lambda>(i, x). sa_id a = i \<or> effective_binding ov pl a \<noteq> Some x)
          FIXED_TERMINAL_SHORTCUT_ALIASES) WORKSPACE_SHORTCUT_ACTIONS)"

lemma unambiguousD:
  assumes "unambiguous pl ov" "a \<in> set WORKSPACE_SHORTCUT_ACTIONS"
  shows "b \<in> set WORKSPACE_SHORTCUT_ACTIONS \<Longrightarrow> ns_of a = ns_of b \<Longrightarrow> effective_binding ov pl a = Some x
      \<Longrightarrow> effective_binding ov pl b = Some x \<Longrightarrow> a = b"
    and "ns_of a = NsApp \<Longrightarrow> (i, x) \<in> set FIXED_TERMINAL_SHORTCUT_ALIASES
      \<Longrightarrow> effective_binding ov pl a = Some x \<Longrightarrow> sa_id a = i"
proof -
  show "b \<in> set WORKSPACE_SHORTCUT_ACTIONS \<Longrightarrow> ns_of a = ns_of b \<Longrightarrow> effective_binding ov pl a = Some x
      \<Longrightarrow> effective_binding ov pl b = Some x \<Longrightarrow> a = b"
    using assms same_id [of a b] unfolding unambiguous_def list_all_iff by (metis option.distinct(1))
  show "ns_of a = NsApp \<Longrightarrow> (i, x) \<in> set FIXED_TERMINAL_SHORTCUT_ALIASES
      \<Longrightarrow> effective_binding ov pl a = Some x \<Longrightarrow> sa_id a = i"
    using assms by (auto simp: unambiguous_def list_all_iff)
qed

lemma unambiguousI:
  assumes "\<And>a b x. a \<in> set WORKSPACE_SHORTCUT_ACTIONS \<Longrightarrow> b \<in> set WORKSPACE_SHORTCUT_ACTIONS \<Longrightarrow>
      ns_of a = ns_of b \<Longrightarrow> effective_binding ov pl a = Some x \<Longrightarrow> effective_binding ov pl b = Some x
      \<Longrightarrow> sa_id a = sa_id b"
    and "\<And>a i x. a \<in> set WORKSPACE_SHORTCUT_ACTIONS \<Longrightarrow> ns_of a = NsApp \<Longrightarrow>
      (i, x) \<in> set FIXED_TERMINAL_SHORTCUT_ALIASES \<Longrightarrow> effective_binding ov pl a = Some x \<Longrightarrow> sa_id a = i"
  shows "unambiguous pl ov"
  unfolding unambiguous_def list_all_iff
proof (intro conjI ballI)
  fix a b assume "a \<in> set WORKSPACE_SHORTCUT_ACTIONS" "b \<in> set WORKSPACE_SHORTCUT_ACTIONS"
  then show "sa_id a = sa_id b \<or> ns_of a \<noteq> ns_of b \<or> effective_binding ov pl a = None
      \<or> effective_binding ov pl a \<noteq> effective_binding ov pl b"
    using assms(1) [of a b] by (cases "effective_binding ov pl a") auto
next
  fix a assume a: "a \<in> set WORKSPACE_SHORTCUT_ACTIONS"
  show "ns_of a \<noteq> NsApp \<or> (\<forall>(i, x) \<in> set FIXED_TERMINAL_SHORTCUT_ALIASES.
      sa_id a = i \<or> effective_binding ov pl a \<noteq> Some x)"
    using assms(2) [OF a] by blast
qed

lemma js_compact_distinctD:
  "distinct (js_compact (map f xs)) \<Longrightarrow> a \<in> set xs \<Longrightarrow> b \<in> set xs \<Longrightarrow> f a = Some x \<Longrightarrow> f b = Some x \<Longrightarrow>
     distinct xs \<Longrightarrow> a = b"
proof (induction xs)
  case (Cons y ys)
  have "x \<in> set (js_compact (map f ys))" if "c \<in> set ys" "f c = Some x" for c
    using that by (auto simp: set_js_compact_map)
  then show ?case using Cons by (cases "f y") auto
qed simp

definition bindings_of :: "runtime_platform \<Rightarrow> shortcut_namespace \<Rightarrow> string list" where
  "bindings_of pl ns = js_compact (map (effective_binding (\<lambda>_. None) pl)
     (filter (\<lambda>a. ns_of a = ns) WORKSPACE_SHORTCUT_ACTIONS))"

lemma default_bindings_distinct: "distinct (bindings_of pl ns)"
  by (cases pl; cases ns)
    (simp_all add: bindings_of_def WORKSPACE_SHORTCUT_ACTIONS_def shortcut_def ns_of_def shortcutNamespace_def
      effective_binding_def defaultWorkspaceShortcutBinding_def)

lemma default_bindings_not_fixed:
  "''Ctrl+Insert'' \<notin> set (bindings_of pl NsApp)" "''Ctrl+Shift+V'' \<notin> set (bindings_of pl NsApp)"
  by (cases pl;
    simp add: bindings_of_def WORKSPACE_SHORTCUT_ACTIONS_def shortcut_def ns_of_def shortcutNamespace_def
      effective_binding_def defaultWorkspaceShortcutBinding_def)+

lemma defaults_unambiguous: "unambiguous pl (\<lambda>_. None)"
proof (rule unambiguousI)
  fix a b x
  assume "a \<in> set WORKSPACE_SHORTCUT_ACTIONS" "b \<in> set WORKSPACE_SHORTCUT_ACTIONS" "ns_of a = ns_of b"
    "effective_binding (\<lambda>_. None) pl a = Some x" "effective_binding (\<lambda>_. None) pl b = Some x"
  then have "a = b"
    using default_bindings_distinct [of pl "ns_of b"] action_ids_distinct unfolding bindings_of_def
    by (intro js_compact_distinctD [where f = "effective_binding (\<lambda>_. None) pl" and x = x
          and xs = "filter (\<lambda>a. ns_of a = ns_of b) WORKSPACE_SHORTCUT_ACTIONS"])
      (simp_all add: distinct_map)
  then show "sa_id a = sa_id b" by simp
next
  fix a i x
  assume a: "a \<in> set WORKSPACE_SHORTCUT_ACTIONS" "ns_of a = NsApp" "(i, x) \<in> set FIXED_TERMINAL_SHORTCUT_ALIASES"
    "effective_binding (\<lambda>_. None) pl a = Some x"
  then have "x \<in> set (bindings_of pl NsApp)" by (auto simp: bindings_of_def set_js_compact_map)
  then show "sa_id a = i" using a(3) default_bindings_not_fixed
    by (auto simp: FIXED_TERMINAL_SHORTCUT_ALIASES_def)
qed

text \<open>What accepting a binding for an action does, and when it is accepted.\<close>

lemma effective_set:
  assumes "a \<in> set WORKSPACE_SHORTCUT_ACTIONS" "find_action i = Some c" "\<not> workspaceShortcutIsFixed c pl"
  shows "effective_binding (setOverride pl i b ov) pl a = (if sa_id a = i then b else effective_binding ov pl a)"
proof (cases "sa_id a = i")
  case True
  then have "c = a" using assms(1,2) find_action_id by (metis option.inject)
  then show ?thesis using True assms(2,3) by (simp add: setOverride_def effective_binding_def)
next
  case False
  then have "action_id_name (sa_id a) \<noteq> action_id_name i" by (simp add: action_names_inj)
  then show ?thesis using False by (simp add: setOverride_def effective_binding_def)
qed

lemma no_conflictD:
  assumes "conflictingWorkspaceShortcutAction pl x ov i = None" "find_action i = Some c"
  shows "a \<in> set WORKSPACE_SHORTCUT_ACTIONS \<Longrightarrow> sa_id a \<noteq> i \<Longrightarrow> ns_of a = ns_of c
      \<Longrightarrow> effective_binding ov pl a \<noteq> Some x"
    and "ns_of c = NsApp \<Longrightarrow> (j, x) \<in> set FIXED_TERMINAL_SHORTCUT_ALIASES \<Longrightarrow> j = i"
proof -
  have n: "shortcutNamespace (case find_action i of Some a \<Rightarrow> sa_scope a | None \<Rightarrow> ScWorkspace) = ns_of c"
    using assms(2) by (simp add: ns_of_def)
  let ?taken = "if ns_of c = NsApp
      then find (\<lambda>(j, b). j \<noteq> i \<and> b = x) FIXED_TERMINAL_SHORTCUT_ALIASES else None"
  have al: "?taken = None"
  proof (cases ?taken)
    case (Some y)
    then show ?thesis using assms(1) n find_action_Some [of "fst y"]
      by (cases y) (auto simp: conflictingWorkspaceShortcutAction_def Let_def)
  qed
  then show "ns_of c = NsApp \<Longrightarrow> (j, x) \<in> set FIXED_TERMINAL_SHORTCUT_ALIASES \<Longrightarrow> j = i"
    by (auto simp: find_None_iff)
  have "find (\<lambda>a. sa_id a \<noteq> i \<and> shortcutNamespace (sa_scope a) = ns_of c
      \<and> effectiveWorkspaceShortcutBindings ov pl (sa_id a) = Some (Some x)) WORKSPACE_SHORTCUT_ACTIONS = None"
    using assms(1) n al by (simp add: conflictingWorkspaceShortcutAction_def Let_def)
  then show "a \<in> set WORKSPACE_SHORTCUT_ACTIONS \<Longrightarrow> sa_id a \<noteq> i \<Longrightarrow> ns_of a = ns_of c
      \<Longrightarrow> effective_binding ov pl a \<noteq> Some x"
    using bindings_in_effect [of a ov pl] by (auto simp: find_None_iff ns_of_def)
qed

lemma set_unambiguous:
  assumes "unambiguous pl ov" "find_action i = Some c" "\<not> workspaceShortcutIsFixed c pl"
    and "\<And>x. b = Some x \<Longrightarrow> conflictingWorkspaceShortcutAction pl x ov i = None"
  shows "unambiguous pl (setOverride pl i b ov)"
proof (rule unambiguousI)
  note E = effective_set [OF _ assms(2,3), of _ b ov]
  have c: "a \<in> set WORKSPACE_SHORTCUT_ACTIONS \<Longrightarrow> sa_id a = i \<Longrightarrow> a = c" for a
    using assms(2) find_action_id by (metis option.inject)
  show "sa_id a = sa_id a'" if M: "a \<in> set WORKSPACE_SHORTCUT_ACTIONS" "a' \<in> set WORKSPACE_SHORTCUT_ACTIONS"
    and n: "ns_of a = ns_of a'"
    and x: "effective_binding (setOverride pl i b ov) pl a = Some x"
      "effective_binding (setOverride pl i b ov) pl a' = Some x" for a a' x
  proof (cases "sa_id a = i"; cases "sa_id a' = i")
    assume "sa_id a = i" "sa_id a' \<noteq> i"
    then show ?thesis using x E [OF M(1)] E [OF M(2)] M n c [OF M(1)] no_conflictD(1) [OF assms(4) assms(2), of x a'] by simp
  next
    assume "sa_id a \<noteq> i" "sa_id a' = i"
    then show ?thesis using x E [OF M(1)] E [OF M(2)] M n c [OF M(2)] no_conflictD(1) [OF assms(4) assms(2), of x a] by simp
  next
    assume "sa_id a \<noteq> i" "sa_id a' \<noteq> i"
    then show ?thesis using x E [OF M(1)] E [OF M(2)] unambiguousD(1) [OF assms(1) M(1) M(2) n] by simp
  qed simp
  show "sa_id a = j" if M: "a \<in> set WORKSPACE_SHORTCUT_ACTIONS" and n: "ns_of a = NsApp"
    and j: "(j, x) \<in> set FIXED_TERMINAL_SHORTCUT_ALIASES"
    and x: "effective_binding (setOverride pl i b ov) pl a = Some x" for a j x
  proof (cases "sa_id a = i")
    case True
    then have "b = Some x" "a = c" using x E [OF M] c [OF M] by simp_all
    then show ?thesis using no_conflictD(2) [OF assms(4) assms(2)] n j True by blast
  next
    case False
    then have "effective_binding ov pl a = Some x" using x E [OF M] by simp
    then show ?thesis using unambiguousD(2) [OF assms(1) M n j] by blast
  qed
qed

section \<open>The recorder\<close>

datatype shortcut_event =
    RecordKey key_event shortcut_action_id
  | ClearKey shortcut_action_id
  | ResetKey shortcut_action_id
  | ResetAllKeys

fun shortcut_step :: "runtime_platform \<Rightarrow> shortcut_event \<Rightarrow> shortcut_overrides \<Rightarrow> shortcut_overrides" where
  "shortcut_step pl (RecordKey e i) d = fst (handleRecordingKeyDown pl e i d)"
| "shortcut_step pl (ClearKey i) d = clear_shortcut pl i d"
| "shortcut_step pl (ResetKey i) d = reset_shortcut i d"
| "shortcut_step pl ResetAllKeys d = reset_all_shortcuts d"

definition is_fixed :: "runtime_platform \<Rightarrow> shortcut_action_id \<Rightarrow> bool" where
  "is_fixed pl i = (case find_action i of Some a \<Rightarrow> workspaceShortcutIsFixed a pl | None \<Rightarrow> False)"

text \<open>The buttons of a fixed action are disabled; a change is taken back when the default of the
  action is still free.\<close>

definition default_free :: "runtime_platform \<Rightarrow> shortcut_action_id \<Rightarrow> shortcut_overrides \<Rightarrow> bool" where
  "default_free pl i d =
     (case Option.bind (find_action i) (\<lambda>a. defaultWorkspaceShortcutBinding a pl) of
        None \<Rightarrow> True
      | Some x \<Rightarrow> conflictingWorkspaceShortcutAction pl x d i = None)"

fun shortcut_allowed :: "runtime_platform \<Rightarrow> shortcut_event \<Rightarrow> shortcut_overrides \<Rightarrow> bool" where
  "shortcut_allowed pl (RecordKey e i) d = (\<not> is_fixed pl i)"
| "shortcut_allowed pl (ClearKey i) d = (\<not> is_fixed pl i)"
| "shortcut_allowed pl (ResetKey i) d = (\<not> is_fixed pl i \<and> default_free pl i d)"
| "shortcut_allowed pl ResetAllKeys d = True"

lemma not_fixedD: "\<not> is_fixed pl i \<Longrightarrow> \<exists>c. find_action i = Some c \<and> \<not> workspaceShortcutIsFixed c pl"
  using find_action_Some [of i] by (auto simp: is_fixed_def)

lemma reset_is_set:
  "find_action i = Some c \<Longrightarrow> reset_shortcut i d = setOverride pl i (defaultWorkspaceShortcutBinding c pl) d"
  by (simp add: reset_shortcut_def setOverride_def)

lemma shortcut_step_unambiguous:
  assumes "unambiguous pl d" "shortcut_allowed pl e d"
  shows "unambiguous pl (shortcut_step pl e d)"
proof (cases e)
  case (RecordKey ev i)
  then obtain c where c: "find_action i = Some c" "\<not> workspaceShortcutIsFixed c pl"
    using assms(2) not_fixedD by auto
  then show ?thesis using RecordKey assms(1) set_unambiguous [OF assms(1) c]
    by (auto simp: handleRecordingKeyDown_def split: option.splits)
next
  case (ClearKey i)
  then obtain c where c: "find_action i = Some c" "\<not> workspaceShortcutIsFixed c pl"
    using assms(2) not_fixedD by auto
  show ?thesis using ClearKey set_unambiguous [OF assms(1) c, of None] by (simp add: clear_shortcut_def)
next
  case (ResetKey i)
  then obtain c where c: "find_action i = Some c" "\<not> workspaceShortcutIsFixed c pl"
    using assms(2) not_fixedD by auto
  have "conflictingWorkspaceShortcutAction pl x d i = None" if "defaultWorkspaceShortcutBinding c pl = Some x" for x
    using assms(2) ResetKey c that by (simp add: default_free_def)
  then have "unambiguous pl (setOverride pl i (defaultWorkspaceShortcutBinding c pl) d)"
    by (rule set_unambiguous [OF assms(1) c])
  then show ?thesis unfolding ResetKey shortcut_step.simps reset_is_set [OF c(1), of d pl] .
next
  case ResetAllKeys
  then show ?thesis by (simp add: reset_all_shortcuts_def defaults_unambiguous)
qed

interpretation shortcuts: machine "shortcut_step pl" "unambiguous pl" "shortcut_allowed pl" for pl
  by unfold_locales (rule shortcut_step_unambiguous)

lemma fired_action:
  assumes "workspaceShortcutFromKeyboardEvent pl e ov sc = Some i"
  shows "\<exists>a x. a \<in> set WORKSPACE_SHORTCUT_ACTIONS \<and> sa_id a = i \<and> sa_scope a = sc
    \<and> bindingFromKeyboardEvent e = Some x \<and> effective_binding ov pl a = Some x"
proof -
  obtain x where x: "bindingFromKeyboardEvent e = Some x" "x \<noteq> []"
    using assms by (auto simp: workspaceShortcutFromKeyboardEvent_def split: option.splits if_splits)
  then obtain a where "find (\<lambda>a. sa_scope a = sc
      \<and> effectiveWorkspaceShortcutBindings ov pl (sa_id a) = Some (Some x)) WORKSPACE_SHORTCUT_ACTIONS = Some a"
    "sa_id a = i"
    using assms by (auto simp: workspaceShortcutFromKeyboardEvent_def)
  then have "a \<in> set WORKSPACE_SHORTCUT_ACTIONS" "sa_scope a = sc" "sa_id a = i"
    "effectiveWorkspaceShortcutBindings ov pl (sa_id a) = Some (Some x)"
    by (auto dest: find_SomeD)
  then have "effective_binding ov pl a = Some x" using bindings_in_effect [of a ov pl] by simp
  then show ?thesis using x(1) \<open>a \<in> set _\<close> \<open>sa_scope a = sc\<close> \<open>sa_id a = i\<close> by blast
qed

lemma fires:
  assumes "unambiguous pl ov" "a \<in> set WORKSPACE_SHORTCUT_ACTIONS" "effective_binding ov pl a = Some x"
    and "bindingFromKeyboardEvent e = Some x" "x \<noteq> []"
  shows "workspaceShortcutFromKeyboardEvent pl e ov (sa_scope a) = Some (sa_id a)"
proof -
  let ?p = "\<lambda>b. sa_scope b = sa_scope a
      \<and> effectiveWorkspaceShortcutBindings ov pl (sa_id b) = Some (Some x)"
  have "?p a" using assms(2,3) bindings_in_effect by simp
  then obtain b where b: "find ?p WORKSPACE_SHORTCUT_ACTIONS = Some b"
    using assms(2) by (cases "find ?p WORKSPACE_SHORTCUT_ACTIONS") (auto simp: find_None_iff)
  then have "b \<in> set WORKSPACE_SHORTCUT_ACTIONS" "sa_scope b = sa_scope a" "effective_binding ov pl b = Some x"
    using bindings_in_effect [of b ov pl] by (auto dest: find_SomeD)
  then have "b = a" using unambiguousD(1) [OF assms(1,2), of b x] assms(3) by (simp add: ns_of_def)
  then show ?thesis using b assms(4,5) by (simp add: workspaceShortcutFromKeyboardEvent_def)
qed

lemma one_action_fires:
  assumes "unambiguous pl ov" "workspaceShortcutFromKeyboardEvent pl e ov sc = Some i"
    and "workspaceShortcutFromKeyboardEvent pl e ov sc' = Some j" "shortcutNamespace sc = shortcutNamespace sc'"
  shows "i = j \<and> sc = sc'"
proof -
  obtain a x where a: "a \<in> set WORKSPACE_SHORTCUT_ACTIONS" "sa_id a = i" "sa_scope a = sc"
    "bindingFromKeyboardEvent e = Some x" "effective_binding ov pl a = Some x"
    using fired_action [OF assms(2)] by blast
  obtain b where b: "b \<in> set WORKSPACE_SHORTCUT_ACTIONS" "sa_id b = j" "sa_scope b = sc'"
    "effective_binding ov pl b = Some x"
    using fired_action [OF assms(3)] a(4) by auto
  have "a = b" using unambiguousD(1) [OF assms(1) a(1) b(1) _ a(5) b(4)] assms(4) a(3) b(3) by (simp add: ns_of_def)
  then show ?thesis using a b by auto
qed

lemma fixed_alias_agrees:
  assumes "unambiguous pl ov" "fixedTerminalShortcutFromKeyboardEvent e = Some i"
    and "workspaceShortcutFromKeyboardEvent pl e ov sc = Some j" "shortcutNamespace sc = NsApp"
  shows "i = j"
proof -
  obtain a x where a: "a \<in> set WORKSPACE_SHORTCUT_ACTIONS" "sa_id a = j" "sa_scope a = sc"
    "bindingFromKeyboardEvent e = Some x" "effective_binding ov pl a = Some x"
    using fired_action [OF assms(3)] by blast
  have "(i, x) \<in> set FIXED_TERMINAL_SHORTCUT_ALIASES"
    using assms(2) a(4) by (auto simp: fixedTerminalShortcutFromKeyboardEvent_def dest!: find_SomeD split: if_splits)
  then show ?thesis using unambiguousD(2) [OF assms(1) a(1) _ _ a(5)] assms(4) a(2,3) by (simp add: ns_of_def)
qed

lemma join_with_Nil: "join_with sep xs = [] \<Longrightarrow> sep \<noteq> [] \<Longrightarrow> xs = [] \<or> xs = [[]]"
  by (induction sep xs rule: join_with.induct) auto

lemma binding_not_empty: "bindingFromKeyboardEvent e = Some b \<Longrightarrow> b \<noteq> []"
proof
  assume b: "bindingFromKeyboardEvent e = Some b" "b = []"
  let ?mods = "(if ctrlKey e then [''Ctrl''] else []) @ (if altKey e then [''Alt''] else [])
    @ (if shiftKey e then [''Shift''] else []) @ (if metaKey e then [''Cmd''] else [])"
  have "join_with ''+'' (?mods @ [normalizeBindingKey (ev_key e)]) = []"
    using b by (simp add: bindingFromKeyboardEvent_def split: if_splits)
  then have "?mods @ [normalizeBindingKey (ev_key e)] = [[]]" using join_with_Nil by blast
  then have m: "?mods = []" "normalizeBindingKey (ev_key e) = []" by auto
  then have "isFunctionKey (ev_key e)" using b by (auto simp: bindingFromKeyboardEvent_def split: if_splits)
  then obtain n where "ev_key e = CHR ''F'' # nat_string n" by (auto simp: isFunctionKey_def)
  moreover from this have "length (ev_key e) \<noteq> 1" by simp
  ultimately show False using m(2) by (simp add: normalizeBindingKey_def)
qed

lemma recorded_key_fires:
  assumes "unambiguous pl ov" "\<not> is_fixed pl i" "find_action i = Some a" "bindingFromKeyboardEvent e = Some b"
    and "conflictingWorkspaceShortcutAction pl b ov i = None"
  shows "workspaceShortcutFromKeyboardEvent pl e (setOverride pl i (Some b) ov) (sa_scope a) = Some i"
proof -
  have a: "a \<in> set WORKSPACE_SHORTCUT_ACTIONS" "sa_id a = i" using find_action_Some [of i] assms(3) by auto
  have f: "\<not> workspaceShortcutIsFixed a pl" using assms(2,3) by (simp add: is_fixed_def)
  have u: "unambiguous pl (setOverride pl i (Some b) ov)"
    by (rule set_unambiguous [OF assms(1,3) f]) (use assms(5) in simp)
  have "effective_binding (setOverride pl i (Some b) ov) pl a = Some b"
    using effective_set [OF a(1) assms(3) f, of "Some b" ov] a(2) by simp
  from fires [OF u a(1) this assms(4) binding_not_empty [OF assms(4)]] show ?thesis using a(2) by simp
qed

text \<open>C13. Along every run of the shortcut recorder in which a change is only taken back while
  the action's default key is still free, a key event fires at most one action among those
  that hear the same keys (Workspace, terminal and remote desktop together, the screenshot
  editor for itself), the fixed terminal keys agree with it, and a key that was accepted for an
  action fires that action.\<close>

theorem one_key_fires_one_action:
  assumes "run_allowed (shortcut_allowed pl) (shortcut_step pl) es (\<lambda>_. None)"
  defines "ov \<equiv> fold (shortcut_step pl) es (\<lambda>_. None)"
  shows "(workspaceShortcutFromKeyboardEvent pl e ov sc = Some i
      \<longrightarrow> workspaceShortcutFromKeyboardEvent pl e ov sc' = Some j
      \<longrightarrow> shortcutNamespace sc = shortcutNamespace sc' \<longrightarrow> i = j \<and> sc = sc')
    \<and> (fixedTerminalShortcutFromKeyboardEvent e = Some k
      \<longrightarrow> workspaceShortcutFromKeyboardEvent pl e ov sc = Some i \<longrightarrow> shortcutNamespace sc = NsApp \<longrightarrow> i = k)
    \<and> (handleRecordingKeyDown pl e l ov = (ov', None) \<longrightarrow> ov' \<noteq> ov \<longrightarrow> \<not> is_fixed pl l
      \<longrightarrow> workspaceShortcutFromKeyboardEvent pl e ov' (sa_scope (the (find_action l))) = Some l)"
proof (intro conjI impI)
  have u: "unambiguous pl ov" unfolding ov_def by (rule shortcuts.run_inv [OF defaults_unambiguous assms(1)])
  show "i = j" "sc = sc'" if "workspaceShortcutFromKeyboardEvent pl e ov sc = Some i"
    "workspaceShortcutFromKeyboardEvent pl e ov sc' = Some j" "shortcutNamespace sc = shortcutNamespace sc'"
    using one_action_fires [OF u that] by blast+
  show "i = k" if "fixedTerminalShortcutFromKeyboardEvent e = Some k"
    "workspaceShortcutFromKeyboardEvent pl e ov sc = Some i" "shortcutNamespace sc = NsApp"
    using fixed_alias_agrees [OF u that] by simp
  show "workspaceShortcutFromKeyboardEvent pl e ov' (sa_scope (the (find_action l))) = Some l"
    if h: "handleRecordingKeyDown pl e l ov = (ov', None)" "ov' \<noteq> ov" "\<not> is_fixed pl l"
  proof -
    obtain a where a: "find_action l = Some a" using find_action_Some [of l] by blast
    obtain b where "bindingFromKeyboardEvent e = Some b"
      "conflictingWorkspaceShortcutAction pl b ov l = None" "ov' = setOverride pl l (Some b) ov"
      using h by (auto simp: handleRecordingKeyDown_def split: option.splits if_splits)
    then show ?thesis using recorded_key_fires [OF u h(3) a] a by simp
  qed
qed

definition ctrl_key :: "string \<Rightarrow> key_event" where
  "ctrl_key k = \<lparr>ev_key = k, ctrlKey = True, altKey = False, shiftKey = False, metaKey = False\<rparr>"

definition ctrl_shift_key :: "string \<Rightarrow> key_event" where
  "ctrl_shift_key k = \<lparr>ev_key = k, ctrlKey = True, altKey = False, shiftKey = True, metaKey = False\<rparr>"

theorem one_key_fires_one_action_witness:
  "workspaceShortcutFromKeyboardEvent PlLinux (ctrl_key ''q'')
     (fst (handleRecordingKeyDown PlLinux (ctrl_key ''q'') DoNewTab (\<lambda>_. None))) ScWorkspace = Some DoNewTab"
proof -
  let ?ov = "setOverride PlLinux DoNewTab (Some ''Ctrl+Q'') (\<lambda>_. None)"
  have c: "bindingFromKeyboardEvent (ctrl_key ''q'') = Some ''Ctrl+Q''"
    "conflictingWorkspaceShortcutAction PlLinux ''Ctrl+Q'' (\<lambda>_. None) DoNewTab = None"
    "?ov ''newTab'' = Some (Some ''Ctrl+Q'')"
    by code_simp+
  have "ev_key (ctrl_key ''q'') = ''q''" by (simp add: ctrl_key_def)
  then have h: "handleRecordingKeyDown PlLinux (ctrl_key ''q'') DoNewTab (\<lambda>_. None) = (?ov, None)"
    by (simp add: handleRecordingKeyDown_def c(1,2))
  have d: "?ov \<noteq> (\<lambda>_. None)" using c(3) by (metis option.distinct(1))
  have s: "sa_scope (the (find_action DoNewTab)) = ScWorkspace" "\<not> is_fixed PlLinux DoNewTab" by code_simp+
  from one_key_fires_one_action [where pl = PlLinux and es = "[]" and e = "ctrl_key ''q''"
      and l = DoNewTab and ov' = ?ov] h d s
  show ?thesis by simp
qed


end
