(* ===== verification/Status_Bar.thy ===== *)
theory Status_Bar
  imports Interfaces
begin

text \<open>
  The status bar's part of \<open>src/store.ts\<close>: notices and progress jobs share one slot and one
  sequence of ids, inline progress has a slot and a sequence of its own; the timer of
  \<open>src/modules/workspace/StatusBar.tsx\<close> that takes a notice away; the performance metrics
  shown beside them; and the pending requests to the assistant.

  Times and percentages are rationals.  A cancel callback is represented by a number that
  identifies it.
\<close>

section \<open>Definitions\<close>

subsection \<open>Notices and progress\<close>

datatype notice_tone = ToneSuccess | ToneInfo | ToneWarning | ToneError

record status_notice =
  sn_id :: nat
  sn_message :: string
  sn_tone :: notice_tone
  sn_durationMs :: rat
  sn_expiresAt :: "rat option"
  sn_progress :: "rat option"
  sn_cancelLabel :: "string option"
  sn_onCancel :: "nat option"

record inline_progress =
  ip_id :: nat
  ip_message :: string
  ip_progress :: rat

record status_bar =
  statusBarNotice :: "status_notice option"
  statusBarNoticeSequence :: nat
  statusBarInlineProgress :: "inline_progress option"
  statusBarInlineProgressSequence :: nat

definition status_bar_initial :: status_bar where
  "status_bar_initial = \<lparr>statusBarNotice = None, statusBarNoticeSequence = 0,
     statusBarInlineProgress = None, statusBarInlineProgressSequence = 0\<rparr>"

fun DEFAULT_STATUS_BAR_NOTICE_DURATION_MS :: "notice_tone \<Rightarrow> rat" where
  "DEFAULT_STATUS_BAR_NOTICE_DURATION_MS ToneSuccess = 2000"
| "DEFAULT_STATUS_BAR_NOTICE_DURATION_MS ToneInfo = 5000"
| "DEFAULT_STATUS_BAR_NOTICE_DURATION_MS ToneWarning = 5000"
| "DEFAULT_STATUS_BAR_NOTICE_DURATION_MS ToneError = 5000"

definition clamp_percent :: "rat \<Rightarrow> rat" where
  "clamp_percent p = max 0 (min 100 p)"

definition new_notice :: "nat \<Rightarrow> string \<Rightarrow> notice_tone option \<Rightarrow> rat option \<Rightarrow> rat \<Rightarrow> status_notice" where
  "new_notice i message tone duration now =
     (let t = nullish tone ToneInfo;
          d = nullish duration (DEFAULT_STATUS_BAR_NOTICE_DURATION_MS t)
      in \<lparr>sn_id = i, sn_message = message, sn_tone = t, sn_durationMs = d,
          sn_expiresAt = (if t = ToneError then None else Some (now + d)),
          sn_progress = None, sn_cancelLabel = None, sn_onCancel = None\<rparr>)"

definition showStatusBarNotice :: "string \<Rightarrow> notice_tone option \<Rightarrow> rat option \<Rightarrow> rat \<Rightarrow> status_bar
    \<Rightarrow> status_bar" where
  "showStatusBarNotice message tone duration now s =
     (let i = statusBarNoticeSequence s + 1
      in s\<lparr>statusBarNoticeSequence := i, statusBarNotice := Some (new_notice i message tone duration now)\<rparr>)"

definition new_progress :: "nat \<Rightarrow> string \<Rightarrow> rat option \<Rightarrow> string option \<Rightarrow> nat option \<Rightarrow> status_notice" where
  "new_progress i message p label onCancel =
     \<lparr>sn_id = i, sn_message = message, sn_tone = ToneInfo, sn_durationMs = 0, sn_expiresAt = None,
      sn_progress = Some (clamp_percent (nullish p 0)), sn_cancelLabel = label, sn_onCancel = onCancel\<rparr>"

definition showStatusBarProgress :: "string \<Rightarrow> rat option \<Rightarrow> string option \<Rightarrow> nat option \<Rightarrow> status_bar
    \<Rightarrow> nat \<times> status_bar" where
  "showStatusBarProgress message p label onCancel s =
     (let i = statusBarNoticeSequence s + 1
      in (i, s\<lparr>statusBarNoticeSequence := i,
               statusBarNotice := Some (new_progress i message p label onCancel)\<rparr>))"

definition advance_notice :: "rat \<Rightarrow> status_notice \<Rightarrow> status_notice" where
  "advance_notice p n =
     (let next = clamp_percent p; n1 = n\<lparr>sn_progress := Some next\<rparr>
      in if next = 100 then n1\<lparr>sn_cancelLabel := None, sn_onCancel := None\<rparr> else n1)"

definition updateStatusBarProgress :: "nat \<Rightarrow> rat \<Rightarrow> status_bar \<Rightarrow> status_bar" where
  "updateStatusBarProgress i p s =
     (case statusBarNotice s of
        None \<Rightarrow> s
      | Some n \<Rightarrow>
          (if sn_id n = i \<and> sn_progress n \<noteq> None then s\<lparr>statusBarNotice := Some (advance_notice p n)\<rparr> else s))"

definition clearStatusBarNotice :: "nat \<Rightarrow> status_bar \<Rightarrow> status_bar" where
  "clearStatusBarNotice i s =
     (if map_option sn_id (statusBarNotice s) = Some i then s\<lparr>statusBarNotice := None\<rparr> else s)"

definition showStatusBarInlineProgress :: "string \<Rightarrow> rat option \<Rightarrow> status_bar \<Rightarrow> nat \<times> status_bar" where
  "showStatusBarInlineProgress message p s =
     (let i = statusBarInlineProgressSequence s + 1
      in (i, s\<lparr>statusBarInlineProgressSequence := i,
               statusBarInlineProgress := Some \<lparr>ip_id = i, ip_message = message,
                 ip_progress = clamp_percent (nullish p 0)\<rparr>\<rparr>))"

definition updateStatusBarInlineProgress :: "nat \<Rightarrow> rat \<Rightarrow> status_bar \<Rightarrow> status_bar" where
  "updateStatusBarInlineProgress i p s =
     (case statusBarInlineProgress s of
        None \<Rightarrow> s
      | Some n \<Rightarrow>
          (if ip_id n = i then s\<lparr>statusBarInlineProgress := Some (n\<lparr>ip_progress := clamp_percent p\<rparr>)\<rparr> else s))"

definition clearStatusBarInlineProgress :: "nat \<Rightarrow> status_bar \<Rightarrow> status_bar" where
  "clearStatusBarInlineProgress i s =
     (if map_option ip_id (statusBarInlineProgress s) = Some i then s\<lparr>statusBarInlineProgress := None\<rparr> else s)"

text \<open>The delay after which the status bar clears the notice it shows, and when it starts to
  fade it; \<open>None\<close>: no timer.\<close>

definition NOTIFICATION_FADE_MS :: rat where
  "NOTIFICATION_FADE_MS = 220"

definition notice_timers :: "rat \<Rightarrow> status_notice \<Rightarrow> (rat \<times> rat) option" where
  "notice_timers now n =
     (case sn_expiresAt n of
        None \<Rightarrow> None
      | Some t \<Rightarrow> (let remaining = max 0 (t - now) in Some (max 0 (remaining - NOTIFICATION_FADE_MS), remaining)))"

subsection \<open>Performance metrics\<close>

text \<open>\<open>new Date(ms).toISOString()\<close>: the civil date of a day number, and the text; \<open>None\<close> is the
  \<open>RangeError\<close> of a time outside the range of dates.\<close>

definition civil_date :: "int \<Rightarrow> int \<times> int \<times> int" where
  "civil_date days =
     (let z = days + 719468; era = z div 146097; doe = z mod 146097;
          yoe = (doe - doe div 1460 + doe div 36524 - doe div 146096) div 365;
          doy = doe - (365 * yoe + yoe div 4 - yoe div 100);
          mp = (5 * doy + 2) div 153;
          d = doy - (153 * mp + 2) div 5 + 1;
          m = (if mp < 10 then mp + 3 else mp - 9);
          y = yoe + era * 400 + (if m \<le> 2 then 1 else 0)
      in (y, m, d))"

definition pad_number :: "nat \<Rightarrow> int \<Rightarrow> string" where
  "pad_number w n = pad_start w (CHR ''0'') (nat_string (nat n))"

definition year_text :: "int \<Rightarrow> string" where
  "year_text y = (if 0 \<le> y \<and> y \<le> 9999 then pad_number 4 y
     else (if y < 0 then ''-'' else ''+'') @ pad_number 6 \<bar>y\<bar>)"

definition toISOString :: "int \<Rightarrow> string option" where
  "toISOString ms =
     (if \<bar>ms\<bar> > 8640000000000000 then None
      else let (y, m, d) = civil_date (ms div 86400000); r = ms mod 86400000
        in Some (year_text y @ ''-'' @ pad_number 2 m @ ''-'' @ pad_number 2 d @ ''T''
             @ pad_number 2 (r div 3600000) @ '':'' @ pad_number 2 (r div 60000 mod 60) @ '':''
             @ pad_number 2 (r div 1000 mod 60) @ ''.'' @ pad_number 3 (r mod 1000) @ ''Z''))"

datatype start_kind = StartLocal | StartSsh | StartTelnet | StartSerial

record terminal_start_metric =
  tm_kind :: start_kind
  tm_title :: string
  tm_durationMs :: rat
  tm_recordedAt :: string

record performance_snapshot =
  uptimeMs :: rat
  snap_workingSetBytes :: "rat option"
  snap_memorySource :: string
  lastSshTerminalReadyMs :: "rat option"
  lastSshTerminalReadyAtUnixSeconds :: "int option"

record host_usage =
  cpuPercent :: "rat option"
  ramPercent :: "rat option"
  networkDownstreamBytesPerSecond :: "rat option"
  networkUpstreamBytesPerSecond :: "rat option"
  sampledAtUnixSeconds :: int
  usage_source :: string

record performance_metrics =
  frontendLaunchMs :: "rat option"
  backendUptimeMs :: "rat option"
  workingSetBytes :: "rat option"
  memorySource :: "string option"
  hostUsage :: "host_usage option"
  lastTerminalStart :: "terminal_start_metric option"
  lastLocalTerminalStart :: "terminal_start_metric option"
  lastSshTerminalStart :: "terminal_start_metric option"

definition setFrontendLaunchMs :: "rat \<Rightarrow> performance_metrics \<Rightarrow> performance_metrics" where
  "setFrontendLaunchMs ms m = m\<lparr>frontendLaunchMs := Some ms\<rparr>"

text \<open>\<open>None\<close> is the exception of \<open>toISOString\<close>, which leaves the store as it was; \<open>now\<close> is
  the clock in milliseconds.\<close>

definition ssh_ready_metric :: "performance_snapshot \<Rightarrow> rat \<Rightarrow> int \<Rightarrow> terminal_start_metric option" where
  "ssh_ready_metric snap ms now =
     (let t = (case lastSshTerminalReadyAtUnixSeconds snap of
                 None \<Rightarrow> now | Some u \<Rightarrow> (if u = 0 then now else u * 1000))
      in map_option (\<lambda>text. \<lparr>tm_kind = StartSsh, tm_title = ''Native SSH terminal'', tm_durationMs = ms,
           tm_recordedAt = text\<rparr>) (toISOString t))"

definition setPerformanceSnapshot :: "performance_snapshot \<Rightarrow> int \<Rightarrow> performance_metrics
    \<Rightarrow> performance_metrics option" where
  "setPerformanceSnapshot snap now m =
     (let m1 = m\<lparr>backendUptimeMs := Some (uptimeMs snap), workingSetBytes := snap_workingSetBytes snap,
                 memorySource := Some (snap_memorySource snap)\<rparr>
      in case lastSshTerminalReadyMs snap of
           None \<Rightarrow> Some m1
         | Some ms \<Rightarrow> map_option (\<lambda>x. m1\<lparr>lastSshTerminalStart := Some x\<rparr>) (ssh_ready_metric snap ms now))"

definition setHostUsageSnapshot :: "host_usage \<Rightarrow> performance_metrics \<Rightarrow> performance_metrics" where
  "setHostUsageSnapshot u m = m\<lparr>hostUsage := Some u\<rparr>"

definition recordTerminalStartMetric :: "terminal_start_metric \<Rightarrow> performance_metrics \<Rightarrow> performance_metrics"
where
  "recordTerminalStartMetric x m =
     m\<lparr> lastTerminalStart := Some x,
        lastLocalTerminalStart := (if tm_kind x = StartLocal then Some x else lastLocalTerminalStart m),
        lastSshTerminalStart := (if tm_kind x = StartSsh then Some x else lastSshTerminalStart m) \<rparr>"

definition clearTerminalStartMetric :: "start_kind \<Rightarrow> performance_metrics \<Rightarrow> performance_metrics" where
  "clearTerminalStartMetric k m =
     m\<lparr> lastLocalTerminalStart := (if k = StartLocal then None else lastLocalTerminalStart m),
        lastSshTerminalStart := (if k = StartSsh then None else lastSshTerminalStart m) \<rparr>"

subsection \<open>Requests to the assistant\<close>

record 'snippet direct_request =
  dr_id :: string
  dr_prompt :: string
  dr_snippet :: 'snippet

record 'snippet assistant_requests =
  assistantContextSnippet :: "'snippet option"
  assistantDirectSubmitRequest :: "'snippet direct_request option"

definition setAssistantContextSnippet :: "'s option \<Rightarrow> 's assistant_requests \<Rightarrow> 's assistant_requests" where
  "setAssistantContextSnippet x s = s\<lparr>assistantContextSnippet := x\<rparr>"

text \<open>\<open>now\<close> is the clock, \<open>r\<close> the six digits of a random number in base 36.\<close>

definition submitAssistantContextSnippet :: "'s \<Rightarrow> string \<Rightarrow> nat \<Rightarrow> string \<Rightarrow> 's assistant_requests
    \<Rightarrow> 's assistant_requests" where
  "submitAssistantContextSnippet snippet prompt now r s =
     s\<lparr>assistantDirectSubmitRequest := Some \<lparr>dr_id = ''assistant-direct-'' @ nat_string now @ ''-'' @ r,
        dr_prompt = prompt, dr_snippet = snippet\<rparr>\<rparr>"

definition clearAssistantContextSnippet :: "'s assistant_requests \<Rightarrow> 's assistant_requests" where
  "clearAssistantContextSnippet s = s\<lparr>assistantContextSnippet := None\<rparr>"

definition clearAssistantDirectSubmitRequest :: "string \<Rightarrow> 's assistant_requests \<Rightarrow> 's assistant_requests"
where
  "clearAssistantDirectSubmitRequest i s =
     (if map_option dr_id (assistantDirectSubmitRequest s) = Some i
      then s\<lparr>assistantDirectSubmitRequest := None\<rparr> else s)"

section \<open>Jobs\<close>

text \<open>
  What the status bar promises: every notice and every progress job is a job with an id of its
  own and a life of its own; the bar shows the latest job until that one is cleared.  An
  update or a clear that names an older job changes nothing on the bar, whenever it comes.
\<close>

datatype bar_event =
    ShowNotice string "notice_tone option" "rat option" rat
  | ShowProgress string "rat option" "string option" "nat option"
  | UpdateProgress nat rat
  | ClearNotice nat
  | ShowInline string "rat option"
  | UpdateInline nat rat
  | ClearInline nat

fun bar_step :: "bar_event \<Rightarrow> status_bar \<Rightarrow> status_bar" where
  "bar_step (ShowNotice m t d now) s = showStatusBarNotice m t d now s"
| "bar_step (ShowProgress m p l f) s = snd (showStatusBarProgress m p l f s)"
| "bar_step (UpdateProgress i p) s = updateStatusBarProgress i p s"
| "bar_step (ClearNotice i) s = clearStatusBarNotice i s"
| "bar_step (ShowInline m p) s = snd (showStatusBarInlineProgress m p s)"
| "bar_step (UpdateInline i p) s = updateStatusBarInlineProgress i p s"
| "bar_step (ClearInline i) s = clearStatusBarInlineProgress i s"

text \<open>A job and whether it has been cleared; the board keeps every job, number \<open>i\<close> at position
  \<open>i - 1\<close>.\<close>

record job_board =
  notice_jobs :: "(status_notice \<times> bool) list"
  inline_jobs :: "(inline_progress \<times> bool) list"

definition edit_job :: "nat \<Rightarrow> ('a \<Rightarrow> 'a) \<Rightarrow> 'a list \<Rightarrow> 'a list" where
  "edit_job i f js = (if 0 < i \<and> i \<le> length js then js[i - 1 := f (js ! (i - 1))] else js)"

definition latest_job :: "('a \<times> bool) list \<Rightarrow> 'a option" where
  "latest_job js = (if js = [] \<or> snd (last js) then None else Some (fst (last js)))"

fun board_step :: "bar_event \<Rightarrow> job_board \<Rightarrow> job_board" where
  "board_step (ShowNotice m t d now) b =
     b\<lparr>notice_jobs := notice_jobs b @ [(new_notice (length (notice_jobs b) + 1) m t d now, False)]\<rparr>"
| "board_step (ShowProgress m p l f) b =
     b\<lparr>notice_jobs := notice_jobs b @ [(new_progress (length (notice_jobs b) + 1) m p l f, False)]\<rparr>"
| "board_step (UpdateProgress i p) b =
     b\<lparr>notice_jobs := edit_job i (\<lambda>(n, c). (if sn_progress n \<noteq> None then advance_notice p n else n, c))
        (notice_jobs b)\<rparr>"
| "board_step (ClearNotice i) b = b\<lparr>notice_jobs := edit_job i (\<lambda>(n, c). (n, True)) (notice_jobs b)\<rparr>"
| "board_step (ShowInline m p) b =
     b\<lparr>inline_jobs := inline_jobs b @ [(\<lparr>ip_id = length (inline_jobs b) + 1, ip_message = m,
        ip_progress = clamp_percent (nullish p 0)\<rparr>, False)]\<rparr>"
| "board_step (UpdateInline i p) b =
     b\<lparr>inline_jobs := edit_job i (\<lambda>(n, c). (n\<lparr>ip_progress := clamp_percent p\<rparr>, c)) (inline_jobs b)\<rparr>"
| "board_step (ClearInline i) b = b\<lparr>inline_jobs := edit_job i (\<lambda>(n, c). (n, True)) (inline_jobs b)\<rparr>"

definition job_board_initial :: job_board where
  "job_board_initial = \<lparr>notice_jobs = [], inline_jobs = []\<rparr>"

definition percent_ok :: "rat \<Rightarrow> bool" where
  "percent_ok p = (0 \<le> p \<and> p \<le> 100)"

text \<open>A notice that names its time of expiry is neither an error nor a job, and a finished job
  cannot be cancelled once it has been told so.\<close>

definition notice_ok :: "status_notice \<Rightarrow> bool" where
  "notice_ok n =
     ((case sn_progress n of
         None \<Rightarrow> (sn_expiresAt n = None) = (sn_tone n = ToneError) \<and> sn_onCancel n = None
       | Some p \<Rightarrow> percent_ok p \<and> sn_expiresAt n = None \<and> sn_tone n = ToneInfo))"

definition jobs_ok :: "('a \<Rightarrow> nat) \<Rightarrow> ('a \<Rightarrow> bool) \<Rightarrow> ('a \<times> bool) list \<Rightarrow> bool" where
  "jobs_ok key ok js = (map (key \<circ> fst) js = [1..<Suc (length js)] \<and> list_all (ok \<circ> fst) js)"

lemma percent_ok_clamp [simp]: "percent_ok (clamp_percent p)" "percent_ok 100"
  by (simp_all add: percent_ok_def clamp_percent_def)

lemma notice_ok_new [simp]: "notice_ok (new_notice i m t d now)" "notice_ok (new_progress i m p l f)"
  by (simp_all add: notice_ok_def new_notice_def new_progress_def Let_def)

lemma notice_ids [simp]:
  "sn_id (new_notice i m t d now) = i" "sn_id (new_progress i m p l f) = i"
  "sn_id (advance_notice q n) = sn_id n"
  by (simp_all add: new_notice_def new_progress_def advance_notice_def Let_def)

lemma notice_ok_advance [simp]: "notice_ok n \<Longrightarrow> sn_progress n \<noteq> None \<Longrightarrow> notice_ok (advance_notice p n)"
  by (auto simp: notice_ok_def advance_notice_def Let_def)

subsection \<open>Lists of jobs\<close>

lemma jobs_ok_Nil [simp]: "jobs_ok key ok []"
  by (simp add: jobs_ok_def)

lemma jobs_ok_snoc:
  "jobs_ok key ok js \<Longrightarrow> key n = length js + 1 \<Longrightarrow> ok n \<Longrightarrow> jobs_ok key ok (js @ [(n, c)])"
  by (simp add: jobs_ok_def)

lemma jobs_ok_edit:
  assumes "jobs_ok key ok js"
    and "\<And>n c. ok n \<Longrightarrow> ok (fst (f (n, c))) \<and> key (fst (f (n, c))) = key n"
  shows "jobs_ok key ok (edit_job i f js)"
proof (cases "0 < i \<and> i \<le> length js")
  case True
  then have l: "i - 1 < length js" by linarith
  have o: "ok (fst (js ! (i - 1)))" using assms(1) l by (simp add: jobs_ok_def list_all_length)
  obtain n c where nc: "js ! (i - 1) = (n, c)" by fastforce
  then have "ok n" using o by simp
  from assms(2) [OF this, of c] have F: "ok (fst (f (n, c)))" "key (fst (f (n, c))) = key n" by simp_all
  have "map (key \<circ> fst) (js[i - 1 := f (js ! (i - 1))]) = map (key \<circ> fst) js"
    using F(2) nc l
    by (simp add: map_update list_update_same_conv)
  moreover have "list_all (ok \<circ> fst) (js[i - 1 := f (js ! (i - 1))])"
    using assms(1) F(1) nc l by (simp add: jobs_ok_def list_all_length nth_list_update)
  ultimately show ?thesis using True assms(1) by (simp add: jobs_ok_def edit_job_def)
next
  case False
  then show ?thesis using assms(1) by (auto simp: edit_job_def)
qed

lemma jobs_ok_last: "jobs_ok key ok js \<Longrightarrow> js \<noteq> [] \<Longrightarrow> key (fst (last js)) = length js"
proof -
  assume j: "jobs_ok key ok js" and n: "js \<noteq> []"
  have "key (fst (last js)) = last (map (key \<circ> fst) js)" using n by (simp add: last_map)
  moreover have "1 \<le> length js" using n by (cases js) auto
  ultimately show "key (fst (last js)) = length js" using j by (simp add: jobs_ok_def)
qed

text \<open>An edit of job \<open>i\<close> is seen only when \<open>i\<close> is the latest one.\<close>

lemma latest_edit:
  assumes "jobs_ok key ok js" "latest_job js = shown"
  shows "latest_job (edit_job i f js) =
    (if js \<noteq> [] \<and> key (fst (last js)) = i
     then (let (n, c) = f (last js) in if c then None else Some n) else shown)"
proof (cases "js = []")
  case True
  then show ?thesis using assms(2) by (auto simp: edit_job_def)
next
  case False
  note k = jobs_ok_last [OF assms(1) False]
  show ?thesis
  proof (cases "i = length js")
    case True
    have j: "js = butlast js @ [last js]" using False by simp
    have "edit_job i f js = js[length js - 1 := f (last js)]"
      using True False by (simp add: edit_job_def last_conv_nth Suc_le_eq)
    also have "\<dots> = butlast js @ [f (last js)]"
      by (subst j) (simp add: list_update_append)
    finally have "edit_job i f js = butlast js @ [f (last js)]" .
    then show ?thesis using True k False by (simp add: latest_job_def split: prod.splits)
  next
    case ne: False
    then have "last (edit_job i f js) = last js" "edit_job i f js \<noteq> []"
      using False by (auto simp: edit_job_def last_conv_nth nth_list_update)
    then show ?thesis using ne k False assms(2) by (auto simp: latest_job_def)
  qed
qed

lemma latest_snoc [simp]: "latest_job (js @ [(n, c)]) = (if c then None else Some n)"
  by (simp add: latest_job_def)

lemma latest_SomeD: "latest_job js = Some n \<Longrightarrow> js \<noteq> [] \<and> last js = (n, False)"
  by (auto simp: latest_job_def prod_eq_iff split: if_splits)

lemma latest_NoneD: "latest_job js = None \<Longrightarrow> js \<noteq> [] \<Longrightarrow> snd (last js)"
  by (auto simp: latest_job_def split: if_splits)

section \<open>The status bar shows the latest job\<close>

definition bar_related :: "status_bar \<Rightarrow> job_board \<Rightarrow> bool" where
  "bar_related s b =
     (statusBarNotice s = latest_job (notice_jobs b) \<and> statusBarNoticeSequence s = length (notice_jobs b)
      \<and> statusBarInlineProgress s = latest_job (inline_jobs b)
      \<and> statusBarInlineProgressSequence s = length (inline_jobs b)
      \<and> jobs_ok sn_id notice_ok (notice_jobs b)
      \<and> jobs_ok ip_id (\<lambda>n. percent_ok (ip_progress n)) (inline_jobs b))"

lemma edit_job_length [simp]: "length (edit_job i f js) = length js"
  by (simp add: edit_job_def)

lemma bar_step_related: "bar_related s b \<Longrightarrow> bar_related (bar_step e s) (board_step e b)"
proof -
  assume R: "bar_related s b"
  then have N: "jobs_ok sn_id notice_ok (notice_jobs b)"
    and I: "jobs_ok ip_id (\<lambda>n. percent_ok (ip_progress n)) (inline_jobs b)"
    and n: "latest_job (notice_jobs b) = statusBarNotice s"
    and i: "latest_job (inline_jobs b) = statusBarInlineProgress s"
    by (simp_all add: bar_related_def)
  show "bar_related (bar_step e s) (board_step e b)"
  proof (cases e)
    case (ShowNotice m t d now)
    then show ?thesis using R
      by (simp add: bar_related_def showStatusBarNotice_def Let_def jobs_ok_snoc)
  next
    case (ShowProgress m p l f)
    then show ?thesis using R
      by (simp add: bar_related_def showStatusBarProgress_def Let_def jobs_ok_snoc)
  next
    case (UpdateProgress k p)
    let ?f = "\<lambda>(n, c). (if sn_progress n \<noteq> None then advance_notice p n else n, c :: bool)"
    have ok: "jobs_ok sn_id notice_ok (edit_job k ?f (notice_jobs b))"
      by (rule jobs_ok_edit [OF N]) auto
    have "statusBarNotice (updateStatusBarProgress k p s) = latest_job (edit_job k ?f (notice_jobs b))"
      unfolding latest_edit [OF N n]
      by (cases "statusBarNotice s")
        (use n in \<open>auto simp: updateStatusBarProgress_def dest!: latest_SomeD latest_NoneD split: prod.splits\<close>)
    then show ?thesis using R ok UpdateProgress
      by (auto simp: bar_related_def updateStatusBarProgress_def split: option.splits)
  next
    case (ClearNotice k)
    let ?f = "\<lambda>(n, c). (n :: status_notice, True)"
    have ok: "jobs_ok sn_id notice_ok (edit_job k ?f (notice_jobs b))"
      by (rule jobs_ok_edit [OF N]) auto
    have "statusBarNotice (clearStatusBarNotice k s) = latest_job (edit_job k ?f (notice_jobs b))"
      unfolding latest_edit [OF N n]
      by (cases "statusBarNotice s")
        (use n in \<open>auto simp: clearStatusBarNotice_def dest!: latest_SomeD latest_NoneD split: prod.splits\<close>)
    then show ?thesis using R ok ClearNotice
      by (auto simp: bar_related_def clearStatusBarNotice_def)
  next
    case (ShowInline m p)
    then show ?thesis using R
      by (simp add: bar_related_def showStatusBarInlineProgress_def Let_def jobs_ok_snoc)
  next
    case (UpdateInline k p)
    let ?f = "\<lambda>(n, c). (n\<lparr>ip_progress := clamp_percent p\<rparr>, c :: bool)"
    have ok: "jobs_ok ip_id (\<lambda>n. percent_ok (ip_progress n)) (edit_job k ?f (inline_jobs b))"
      by (rule jobs_ok_edit [OF I]) auto
    have "statusBarInlineProgress (updateStatusBarInlineProgress k p s)
        = latest_job (edit_job k ?f (inline_jobs b))"
      unfolding latest_edit [OF I i]
      by (cases "statusBarInlineProgress s")
        (use i in \<open>auto simp: updateStatusBarInlineProgress_def dest!: latest_SomeD latest_NoneD split: prod.splits\<close>)
    then show ?thesis using R ok UpdateInline
      by (auto simp: bar_related_def updateStatusBarInlineProgress_def split: option.splits)
  next
    case (ClearInline k)
    let ?f = "\<lambda>(n, c). (n :: inline_progress, True)"
    have ok: "jobs_ok ip_id (\<lambda>n. percent_ok (ip_progress n)) (edit_job k ?f (inline_jobs b))"
      by (rule jobs_ok_edit [OF I]) auto
    have "statusBarInlineProgress (clearStatusBarInlineProgress k s)
        = latest_job (edit_job k ?f (inline_jobs b))"
      unfolding latest_edit [OF I i]
      by (cases "statusBarInlineProgress s")
        (use i in \<open>auto simp: clearStatusBarInlineProgress_def dest!: latest_SomeD latest_NoneD split: prod.splits\<close>)
    then show ?thesis using R ok ClearInline
      by (auto simp: bar_related_def clearStatusBarInlineProgress_def)
  qed
qed

interpretation bar: simulation bar_step board_step bar_related "\<lambda>e s. True"
  by unfold_locales (rule bar_step_related)

lemma always_allowed [simp]: "run_allowed (\<lambda>e s. True) step es s"
  by (induction es arbitrary: s) auto

lemma bar_initial_related: "bar_related status_bar_initial job_board_initial"
  by (simp add: bar_related_def status_bar_initial_def job_board_initial_def latest_job_def)

text \<open>C22. Along every run of notices, progress jobs, updates and clears, in whatever order the
  callbacks come, the status bar shows exactly the latest job with the progress last reported
  for it, until that job is cleared; ids are given out once each, so an older job can neither
  change nor clear a newer one; percentages stay within 0 and 100, and only notices that are
  neither errors nor jobs have a time at which they go away.\<close>

theorem status_bar_shows_latest_job:
  "let s = fold bar_step es status_bar_initial; b = fold board_step es job_board_initial in
     statusBarNotice s = latest_job (notice_jobs b)
     \<and> statusBarInlineProgress s = latest_job (inline_jobs b)
     \<and> statusBarNoticeSequence s = length (notice_jobs b)
     \<and> statusBarInlineProgressSequence s = length (inline_jobs b)
     \<and> jobs_ok sn_id notice_ok (notice_jobs b)
     \<and> jobs_ok ip_id (\<lambda>n. percent_ok (ip_progress n)) (inline_jobs b)"
  using bar.run_related [OF bar_initial_related, of es] by (simp add: Let_def bar_related_def)

text \<open>A timer runs only for a notice that expires.\<close>

lemma notice_timers_spec:
  "notice_ok n \<Longrightarrow> (notice_timers now n \<noteq> None) = (sn_progress n = None \<and> sn_tone n \<noteq> ToneError)"
  by (auto simp: notice_ok_def notice_timers_def Let_def split: option.splits)

section \<open>Metrics\<close>

lemma metrics_record_then_clear:
  "tm_kind x = k \<Longrightarrow> k = StartLocal \<Longrightarrow>
     lastLocalTerminalStart (clearTerminalStartMetric k (recordTerminalStartMetric x m)) = None
     \<and> lastTerminalStart (clearTerminalStartMetric k (recordTerminalStartMetric x m)) = Some x
     \<and> lastSshTerminalStart (clearTerminalStartMetric k (recordTerminalStartMetric x m)) = lastSshTerminalStart m"
  by (simp add: clearTerminalStartMetric_def recordTerminalStartMetric_def)

lemma iso_example: "toISOString 951868799999 = Some ''2000-02-29T23:59:59.999Z''"
  by code_simp

end
