(* ===== verification/Quick_Commands.thy ===== *)
theory Quick_Commands
  imports Workspace_Types
begin

text \<open>
  Quick Commands, the part of \<open>src/store.ts\<close> behind the Quick Command Bar: lists of commands
  kept per Connection, global bundles a Connection can select instead, all loaded lazily from
  durable storage and written through on every edit.

  Storage holds what \<open>JSON.parse\<close> returns (\<open>None\<close>: missing or not parseable).  A falsy
  Connection id, undefined or empty, is the empty string.  A stored object is read as the record
  of the properties the program knows.
\<close>

section \<open>Definitions\<close>

subsection \<open>State and storage\<close>

record quick_storage =
  q_commands :: "string \<Rightarrow> json option"
  q_bundles :: "json option"
  q_selection :: "string \<Rightarrow> string option"

record quick_state =
  quickCommandsByConnection :: "string \<Rightarrow> quick_command list option"
  quickCommandBundles :: "quick_command_bundle list"
  quickCommandBundlesLoaded :: bool
  quickCommandBundleByConnection :: "string \<Rightarrow> string option"
  q_store :: quick_storage
  q_uuid :: "nat \<Rightarrow> string"
  q_pos :: nat

definition isQuickCommand :: "json \<Rightarrow> bool" where
  "isQuickCommand v =
     (is_jstr (json_get v ''id'') \<and> is_jstr (json_get v ''label'') \<and> is_jstr (json_get v ''command'')
      \<and> is_jstr (json_get v ''iconName'') \<and> is_jstr (json_get v ''accentName'')
      \<and> is_jbool (json_get v ''sendEnter'') \<and> is_jbool (json_get v ''confirm''))"

definition quick_command_of :: "json \<Rightarrow> quick_command" where
  "quick_command_of v =
     \<lparr>qc_id = the_jstr (json_get v ''id''), qc_label = the_jstr (json_get v ''label''),
      qc_command = the_jstr (json_get v ''command''), qc_iconName = the_jstr (json_get v ''iconName''),
      qc_accentName = the_jstr (json_get v ''accentName''),
      qc_sendEnter = the_jbool (json_get v ''sendEnter''), qc_confirm = the_jbool (json_get v ''confirm'')\<rparr>"

definition json_of_command :: "quick_command \<Rightarrow> json" where
  "json_of_command c =
     JObj [(''id'', JStr (qc_id c)), (''label'', JStr (qc_label c)), (''command'', JStr (qc_command c)),
       (''iconName'', JStr (qc_iconName c)), (''accentName'', JStr (qc_accentName c)),
       (''sendEnter'', JBool (qc_sendEnter c)), (''confirm'', JBool (qc_confirm c))]"

definition isQuickCommandBundle :: "json \<Rightarrow> bool" where
  "isQuickCommandBundle v =
     (is_jstr (json_get v ''id'') \<and> is_jstr (json_get v ''name'')
      \<and> (case json_get v ''commands'' of Some (JArr vs) \<Rightarrow> list_all isQuickCommand vs | _ \<Rightarrow> False))"

definition bundle_of :: "json \<Rightarrow> quick_command_bundle" where
  "bundle_of v =
     \<lparr>bundle_id = the_jstr (json_get v ''id''), bundle_name = the_jstr (json_get v ''name''),
      bundle_commands = (case json_get v ''commands'' of Some (JArr vs) \<Rightarrow> map quick_command_of vs | _ \<Rightarrow> [])\<rparr>"

definition json_of_bundle :: "quick_command_bundle \<Rightarrow> json" where
  "json_of_bundle b =
     JObj [(''id'', JStr (bundle_id b)), (''name'', JStr (bundle_name b)),
       (''commands'', JArr (map json_of_command (bundle_commands b)))]"

definition loadStoredQuickCommands :: "string \<Rightarrow> quick_storage \<Rightarrow> quick_command list" where
  "loadStoredQuickCommands cid st =
     (if cid = [] then []
      else case q_commands st cid of
        Some (JArr vs) \<Rightarrow> map quick_command_of (filter isQuickCommand vs) | _ \<Rightarrow> [])"

definition persistQuickCommands :: "string \<Rightarrow> quick_command list \<Rightarrow> quick_state \<Rightarrow> quick_state" where
  "persistQuickCommands cid cs s =
     (if cid = [] then s
      else s\<lparr>q_store := (q_store s)\<lparr>q_commands :=
             (q_commands (q_store s))(cid := Some (JArr (map json_of_command cs)))\<rparr>\<rparr>)"

definition loadStoredQuickCommandBundles :: "quick_storage \<Rightarrow> quick_command_bundle list" where
  "loadStoredQuickCommandBundles st =
     (case q_bundles st of
        Some (JArr vs) \<Rightarrow> map bundle_of (filter isQuickCommandBundle vs) | _ \<Rightarrow> [])"

definition persistQuickCommandBundles :: "quick_command_bundle list \<Rightarrow> quick_state \<Rightarrow> quick_state" where
  "persistQuickCommandBundles bs s =
     s\<lparr>q_store := (q_store s)\<lparr>q_bundles := Some (JArr (map json_of_bundle bs))\<rparr>\<rparr>"

definition loadStoredQuickCommandBundleSelection :: "string \<Rightarrow> quick_storage \<Rightarrow> string" where
  "loadStoredQuickCommandBundleSelection cid st = (if cid = [] then [] else nullish (q_selection st cid) [])"

definition persistQuickCommandBundleSelection :: "string \<Rightarrow> string \<Rightarrow> quick_state \<Rightarrow> quick_state" where
  "persistQuickCommandBundleSelection cid bid s =
     s\<lparr>q_store := (q_store s)\<lparr>q_selection :=
         (q_selection (q_store s))(cid := (if bid = [] then None else Some bid))\<rparr>\<rparr>"

text \<open>The Quick Command part of \<open>forgetConnectionLocalState\<close>.\<close>

definition forget_quick_commands :: "string \<Rightarrow> quick_state \<Rightarrow> quick_state" where
  "forget_quick_commands cid s =
     s\<lparr>q_store := (q_store s)\<lparr>q_commands := (q_commands (q_store s))(cid := None),
         q_selection := (q_selection (q_store s))(cid := None)\<rparr>\<rparr>"

definition quickCommandId :: "quick_state \<Rightarrow> string \<times> quick_state" where
  "quickCommandId s = (''quick-'' @ q_uuid s (q_pos s), s\<lparr>q_pos := Suc (q_pos s)\<rparr>)"

definition quickCommandBundleId :: "quick_state \<Rightarrow> string \<times> quick_state" where
  "quickCommandBundleId s = (''qcb-'' @ q_uuid s (q_pos s), s\<lparr>q_pos := Suc (q_pos s)\<rparr>)"

subsection \<open>Selectors\<close>

definition find_bundle :: "string \<Rightarrow> quick_command_bundle list \<Rightarrow> quick_command_bundle option" where
  "find_bundle bid bs = find (\<lambda>b. bundle_id b = bid) bs"

definition selectedQuickCommandBundle :: "quick_state \<Rightarrow> string \<Rightarrow> quick_command_bundle option" where
  "selectedQuickCommandBundle s cid =
     (if cid = [] \<or> \<not> truthy_str (quickCommandBundleByConnection s cid) then None
      else find_bundle (nullish (quickCommandBundleByConnection s cid) []) (quickCommandBundles s))"

definition quickCommandTargetForConnection :: "quick_state \<Rightarrow> string \<Rightarrow> quick_command_target option" where
  "quickCommandTargetForConnection s cid =
     (if cid = [] then None
      else Some (case selectedQuickCommandBundle s cid of
                   Some b \<Rightarrow> TargetBundle (bundle_id b) | None \<Rightarrow> TargetConnection cid))"

definition quickCommandsForConnectionState :: "quick_state \<Rightarrow> string \<Rightarrow> quick_command list" where
  "quickCommandsForConnectionState s cid =
     (if cid = [] then []
      else case selectedQuickCommandBundle s cid of
             Some b \<Rightarrow> bundle_commands b
           | None \<Rightarrow> nullish (quickCommandsByConnection s cid) [])"

fun quickCommandsForTarget :: "quick_state \<Rightarrow> quick_command_target option \<Rightarrow> quick_command list" where
  "quickCommandsForTarget s None = []"
| "quickCommandsForTarget s (Some (TargetBundle bid)) =
     (case find_bundle bid (quickCommandBundles s) of None \<Rightarrow> [] | Some b \<Rightarrow> bundle_commands b)"
| "quickCommandsForTarget s (Some (TargetConnection cid)) = nullish (quickCommandsByConnection s cid) []"

subsection \<open>Loading\<close>

definition ensureQuickCommandBundlesLoaded :: "quick_state \<Rightarrow> quick_state" where
  "ensureQuickCommandBundlesLoaded s =
     (if quickCommandBundlesLoaded s then s
      else s\<lparr>quickCommandBundles := loadStoredQuickCommandBundles (q_store s),
             quickCommandBundlesLoaded := True\<rparr>)"

definition ensureQuickCommandsLoaded :: "string \<Rightarrow> quick_state \<Rightarrow> quick_state" where
  "ensureQuickCommandsLoaded cid s0 =
     (let s = ensureQuickCommandBundlesLoaded s0
      in if cid = [] \<or> quickCommandsByConnection s cid \<noteq> None then s
         else let selected = loadStoredQuickCommandBundleSelection cid (q_store s);
                  resolved = (if find_bundle selected (quickCommandBundles s) \<noteq> None then selected else []);
                  s1 = (if selected \<noteq> [] \<and> resolved = [] then persistQuickCommandBundleSelection cid [] s else s)
              in s1\<lparr>quickCommandsByConnection :=
                      (quickCommandsByConnection s1)(cid \<mapsto> loadStoredQuickCommands cid (q_store s1)),
                    quickCommandBundleByConnection :=
                      (if resolved \<noteq> [] then (quickCommandBundleByConnection s1)(cid \<mapsto> resolved)
                       else quickCommandBundleByConnection s1)\<rparr>)"

definition resetQuickCommandState :: "quick_state \<Rightarrow> quick_state" where
  "resetQuickCommandState s =
     s\<lparr>quickCommandsByConnection := Map.empty, quickCommandBundles := [],
       quickCommandBundlesLoaded := True, quickCommandBundleByConnection := Map.empty\<rparr>"

subsection \<open>Editing a list\<close>

definition moveQuickCommandTo :: "quick_command list \<Rightarrow> int \<Rightarrow> int \<Rightarrow> quick_command list option" where
  "moveQuickCommandTo cs index nextIndex =
     (if index < 0 \<or> nextIndex < 0 \<or> nextIndex \<ge> int (length cs) then None
      else case js_nth cs index of
        None \<Rightarrow> None
      | Some c \<Rightarrow> Some (insert_at (nat nextIndex) c (remove_at (nat index) cs)))"

definition command_index :: "quick_command list \<Rightarrow> string \<Rightarrow> int" where
  "command_index cs i = (case find_index (\<lambda>c. qc_id c = i) cs of None \<Rightarrow> - 1 | Some n \<Rightarrow> int n)"

fun mutateQuickCommandsAtTarget :: "quick_command_target \<Rightarrow> (quick_command list \<Rightarrow> quick_command list option)
    \<Rightarrow> quick_state \<Rightarrow> quick_state" where
  "mutateQuickCommandsAtTarget (TargetBundle bid) f s =
     (case Option.bind (find_bundle bid (quickCommandBundles s)) (\<lambda>b. f (bundle_commands b)) of
        None \<Rightarrow> s
      | Some cs \<Rightarrow>
          (let bs = map_where (\<lambda>b. bundle_id b = bid) (\<lambda>b. b\<lparr>bundle_commands := cs\<rparr>) (quickCommandBundles s)
           in (persistQuickCommandBundles bs s)\<lparr>quickCommandBundles := bs\<rparr>))"
| "mutateQuickCommandsAtTarget (TargetConnection cid) f s =
     (case f (nullish (quickCommandsByConnection s cid) (loadStoredQuickCommands cid (q_store s))) of
        None \<Rightarrow> s
      | Some cs \<Rightarrow>
          (persistQuickCommands cid cs s)\<lparr>quickCommandsByConnection :=
             (quickCommandsByConnection s)(cid \<mapsto> cs)\<rparr>)"

text \<open>The five edits as functions of the list.\<close>

definition append_command :: "quick_command \<Rightarrow> quick_command list \<Rightarrow> quick_command list option" where
  "append_command c cs = Some (cs @ [c])"

definition replace_command :: "quick_command \<Rightarrow> quick_command list \<Rightarrow> quick_command list option" where
  "replace_command c cs = Some (map_where (\<lambda>x. qc_id x = qc_id c) (\<lambda>_. c) cs)"

definition shift_command :: "string \<Rightarrow> int \<Rightarrow> quick_command list \<Rightarrow> quick_command list option" where
  "shift_command i d cs = moveQuickCommandTo cs (command_index cs i) (command_index cs i + d)"

definition drop_on_command :: "string \<Rightarrow> string \<Rightarrow> quick_command list \<Rightarrow> quick_command list option" where
  "drop_on_command i j cs = moveQuickCommandTo cs (command_index cs i) (command_index cs j)"

definition delete_command :: "string \<Rightarrow> quick_command list \<Rightarrow> quick_command list option" where
  "delete_command i cs = Some (filter (\<lambda>x. qc_id x \<noteq> i) cs)"

definition edit_at :: "quick_command_target option \<Rightarrow> (quick_command list \<Rightarrow> quick_command list option)
    \<Rightarrow> quick_state \<Rightarrow> quick_state" where
  "edit_at target f s = (case target of None \<Rightarrow> s | Some t \<Rightarrow> mutateQuickCommandsAtTarget t f s)"

definition addQuickCommand :: "quick_command_target option \<Rightarrow> quick_command \<Rightarrow> quick_state \<Rightarrow> quick_state" where
  "addQuickCommand target c s = edit_at target (append_command c) s"

definition updateQuickCommand :: "quick_command_target option \<Rightarrow> quick_command \<Rightarrow> quick_state \<Rightarrow> quick_state" where
  "updateQuickCommand target c s = edit_at target (replace_command c) s"

definition moveQuickCommand :: "quick_command_target option \<Rightarrow> string \<Rightarrow> int \<Rightarrow> quick_state \<Rightarrow> quick_state" where
  "moveQuickCommand target i d s = edit_at target (shift_command i d) s"

definition reorderQuickCommand :: "quick_command_target option \<Rightarrow> string \<Rightarrow> string \<Rightarrow> quick_state \<Rightarrow> quick_state"
where
  "reorderQuickCommand target i j s = (if i = j then s else edit_at target (drop_on_command i j) s)"

definition removeQuickCommand :: "quick_command_target option \<Rightarrow> string \<Rightarrow> quick_state \<Rightarrow> quick_state" where
  "removeQuickCommand target i s = edit_at target (delete_command i) s"

subsection \<open>Bundles\<close>

fun copy_commands :: "quick_command list \<Rightarrow> quick_state \<Rightarrow> quick_command list \<times> quick_state" where
  "copy_commands [] s = ([], s)"
| "copy_commands (c # cs) s =
     (let (i, s1) = quickCommandId s; (ds, s2) = copy_commands cs s1 in (c\<lparr>qc_id := i\<rparr> # ds, s2))"

definition createQuickCommandBundle :: "string \<Rightarrow> quick_command list \<Rightarrow> quick_state \<Rightarrow> string \<times> quick_state"
where
  "createQuickCommandBundle name cs s0 =
     (let (bid, s1) = quickCommandBundleId (ensureQuickCommandBundlesLoaded s0);
          (ds, s2) = copy_commands cs s1;
          bs = quickCommandBundles s2 @ [\<lparr>bundle_id = bid, bundle_name = trim name, bundle_commands = ds\<rparr>]
      in (bid, (persistQuickCommandBundles bs s2)\<lparr>quickCommandBundles := bs\<rparr>))"

definition renameQuickCommandBundle :: "string \<Rightarrow> string \<Rightarrow> quick_state \<Rightarrow> quick_state" where
  "renameQuickCommandBundle bid name s =
     (if trim name = [] then s
      else let bs = map_where (\<lambda>b. bundle_id b = bid) (\<lambda>b. b\<lparr>bundle_name := trim name\<rparr>) (quickCommandBundles s)
           in (persistQuickCommandBundles bs s)\<lparr>quickCommandBundles := bs\<rparr>)"

definition deleteQuickCommandBundle :: "string \<Rightarrow> quick_state \<Rightarrow> quick_state" where
  "deleteQuickCommandBundle bid s =
     (let bs = filter (\<lambda>b. bundle_id b \<noteq> bid) (quickCommandBundles s);
          sel = quickCommandBundleByConnection s;
          s1 = persistQuickCommandBundles bs s
      in s1\<lparr>quickCommandBundles := bs,
            quickCommandBundleByConnection := (\<lambda>c. if sel c = Some bid then None else sel c),
            q_store := (q_store s1)\<lparr>q_selection :=
              (\<lambda>c. if sel c = Some bid then None else q_selection (q_store s1) c)\<rparr>\<rparr>)"

definition setConnectionQuickCommandBundle :: "string \<Rightarrow> string \<Rightarrow> quick_state \<Rightarrow> quick_state" where
  "setConnectionQuickCommandBundle cid bid s =
     (if cid = [] then s
      else (persistQuickCommandBundleSelection cid bid s)
             \<lparr>quickCommandBundleByConnection :=
               (quickCommandBundleByConnection s)(cid := (if bid = [] then None else Some bid))\<rparr>)"

section \<open>Stored values are typed\<close>

text \<open>The types of stored JSON values: what the two interfaces require of a parsed value.\<close>

datatype json_type = TStr | TBool | TList json_type | TRec "(string \<times> json_type) list"

inductive has_type :: "json \<Rightarrow> json_type \<Rightarrow> bool" where
  str: "has_type (JStr s) TStr"
| bool: "has_type (JBool b) TBool"
| list: "(\<And>v. v \<in> set vs \<Longrightarrow> has_type v t) \<Longrightarrow> has_type (JArr vs) (TList t)"
| rec: "(\<And>k t. (k, t) \<in> set fs \<Longrightarrow> \<exists>w. json_get v k = Some w \<and> has_type w t) \<Longrightarrow> has_type v (TRec fs)"

inductive_simps has_type_simps:
  "has_type v TStr" "has_type v TBool" "has_type v (TList t)" "has_type v (TRec fs)"

definition command_type :: json_type where
  "command_type = TRec [(''id'', TStr), (''label'', TStr), (''command'', TStr), (''iconName'', TStr),
     (''accentName'', TStr), (''sendEnter'', TBool), (''confirm'', TBool)]"

definition bundle_type :: json_type where
  "bundle_type = TRec [(''id'', TStr), (''name'', TStr), (''commands'', TList command_type)]"

lemma is_jstr_typed: "is_jstr (json_get v k) \<longleftrightarrow> (\<exists>w. json_get v k = Some w \<and> has_type w TStr)"
  by (auto simp: is_jstr_def has_type_simps split: option.splits json.splits)

lemma is_jbool_typed: "is_jbool (json_get v k) \<longleftrightarrow> (\<exists>w. json_get v k = Some w \<and> has_type w TBool)"
  by (auto simp: is_jbool_def has_type_simps split: option.splits json.splits)

lemma rec_typed: "has_type v (TRec fs) \<longleftrightarrow> list_all (\<lambda>(k, t). \<exists>w. json_get v k = Some w \<and> has_type w t) fs"
  by (auto simp: has_type_simps(4) list_all_iff)

lemma command_typed: "isQuickCommand v \<longleftrightarrow> has_type v command_type"
  by (simp add: isQuickCommand_def command_type_def rec_typed is_jstr_typed is_jbool_typed)

lemma list_typed: "has_type v (TList t) \<longleftrightarrow> (\<exists>vs. v = JArr vs \<and> (\<forall>w \<in> set vs. has_type w t))"
  by (auto simp: has_type_simps(3))

lemma bundle_typed: "isQuickCommandBundle v \<longleftrightarrow> has_type v bundle_type"
  by (auto simp: isQuickCommandBundle_def bundle_type_def rec_typed is_jstr_typed list_typed list_all_iff
      command_typed split: option.splits json.splits)

lemma json_of_command_typed: "has_type (json_of_command c) command_type"
  by (simp add: command_typed [symmetric] isQuickCommand_def json_of_command_def is_jstr_def is_jbool_def)

lemma json_of_bundle_typed: "has_type (json_of_bundle b) bundle_type"
  using json_of_command_typed
  by (simp add: bundle_typed [symmetric] isQuickCommandBundle_def json_of_bundle_def is_jstr_def list_all_iff
      command_typed)

lemma command_roundtrip: "quick_command_of (json_of_command c) = c"
  by (simp add: quick_command_of_def json_of_command_def the_jstr_def the_jbool_def)

lemma bundle_roundtrip: "bundle_of (json_of_bundle b) = b"
  by (simp add: bundle_of_def json_of_bundle_def the_jstr_def o_def command_roundtrip)

lemma commands_roundtrip: "map quick_command_of (filter isQuickCommand (map json_of_command cs)) = cs"
proof -
  have "filter isQuickCommand (map json_of_command cs) = map json_of_command cs"
    by (simp add: command_typed json_of_command_typed)
  then show ?thesis by (simp add: o_def command_roundtrip)
qed

lemma bundles_roundtrip: "map bundle_of (filter isQuickCommandBundle (map json_of_bundle bs)) = bs"
proof -
  have "filter isQuickCommandBundle (map json_of_bundle bs) = map json_of_bundle bs"
    by (simp add: bundle_typed json_of_bundle_typed)
  then show ?thesis by (simp add: o_def bundle_roundtrip)
qed

definition storage_typed :: "quick_storage \<Rightarrow> bool" where
  "storage_typed st =
     ((\<forall>cid v. q_commands st cid = Some v \<longrightarrow> has_type v (TList command_type))
      \<and> (\<forall>v. q_bundles st = Some v \<longrightarrow> has_type v (TList bundle_type)))"

section \<open>Events\<close>

datatype quick_event =
    QEnsure string
  | QEnsureBundles
  | QAdd "quick_command_target option" quick_command
  | QUpdate "quick_command_target option" quick_command
  | QMove "quick_command_target option" string int
  | QReorder "quick_command_target option" string string
  | QRemove "quick_command_target option" string
  | QCreate string "quick_command list"
  | QRename string string
  | QDelete string
  | QSelect string string

fun quick_step :: "quick_event \<Rightarrow> quick_state \<Rightarrow> quick_state" where
  "quick_step (QEnsure cid) s = ensureQuickCommandsLoaded cid s"
| "quick_step QEnsureBundles s = ensureQuickCommandBundlesLoaded s"
| "quick_step (QAdd t c) s = addQuickCommand t c s"
| "quick_step (QUpdate t c) s = updateQuickCommand t c s"
| "quick_step (QMove t i d) s = moveQuickCommand t i d s"
| "quick_step (QReorder t i j) s = reorderQuickCommand t i j s"
| "quick_step (QRemove t i) s = removeQuickCommand t i s"
| "quick_step (QCreate n cs) s = snd (createQuickCommandBundle n cs s)"
| "quick_step (QRename b n) s = renameQuickCommandBundle b n s"
| "quick_step (QDelete b) s = deleteQuickCommandBundle b s"
| "quick_step (QSelect c b) s = setConnectionQuickCommandBundle c b s"

text \<open>Every edit is one of the list functions at a target.\<close>

lemma store_simps [simp]:
  "q_store (quickCommandsByConnection_update f s) = q_store s"
  "q_bundles (q_store (persistQuickCommands cid cs s)) = q_bundles (q_store s)"
  "q_selection (q_store (persistQuickCommands cid cs s)) = q_selection (q_store s)"
  "q_commands (q_store (persistQuickCommandBundles bs s)) = q_commands (q_store s)"
  "q_bundles (q_store (persistQuickCommandBundles bs s)) = Some (JArr (map json_of_bundle bs))"
  "q_selection (q_store (persistQuickCommandBundles bs s)) = q_selection (q_store s)"
  "q_commands (q_store (persistQuickCommandBundleSelection cid b s)) = q_commands (q_store s)"
  "q_bundles (q_store (persistQuickCommandBundleSelection cid b s)) = q_bundles (q_store s)"
  "quickCommandBundles (persistQuickCommands cid cs s) = quickCommandBundles s"
  "quickCommandsByConnection (persistQuickCommands cid cs s) = quickCommandsByConnection s"
  "quickCommandBundleByConnection (persistQuickCommands cid cs s) = quickCommandBundleByConnection s"
  "quickCommandBundlesLoaded (persistQuickCommands cid cs s) = quickCommandBundlesLoaded s"
  "quickCommandBundles (persistQuickCommandBundles bs s) = quickCommandBundles s"
  "quickCommandsByConnection (persistQuickCommandBundles bs s) = quickCommandsByConnection s"
  "quickCommandBundleByConnection (persistQuickCommandBundles bs s) = quickCommandBundleByConnection s"
  "quickCommandBundlesLoaded (persistQuickCommandBundles bs s) = quickCommandBundlesLoaded s"
  "quickCommandBundles (persistQuickCommandBundleSelection cid b s) = quickCommandBundles s"
  "quickCommandsByConnection (persistQuickCommandBundleSelection cid b s) = quickCommandsByConnection s"
  "quickCommandBundleByConnection (persistQuickCommandBundleSelection cid b s) = quickCommandBundleByConnection s"
  "quickCommandBundlesLoaded (persistQuickCommandBundleSelection cid b s) = quickCommandBundlesLoaded s"
  "q_uuid (persistQuickCommands cid cs s) = q_uuid s"
  "q_pos (persistQuickCommands cid cs s) = q_pos s"
  "q_uuid (persistQuickCommandBundles bs s) = q_uuid s"
  "q_pos (persistQuickCommandBundles bs s) = q_pos s"
  "q_uuid (persistQuickCommandBundleSelection cid b s) = q_uuid s"
  "q_pos (persistQuickCommandBundleSelection cid b s) = q_pos s"
  by (simp_all add: persistQuickCommands_def persistQuickCommandBundles_def persistQuickCommandBundleSelection_def)

lemma typed_commands: "has_type (JArr (map json_of_command cs)) (TList command_type)"
  by (auto simp: list_typed json_of_command_typed)

lemma typed_bundles: "has_type (JArr (map json_of_bundle bs)) (TList bundle_type)"
  by (auto simp: list_typed json_of_bundle_typed)

lemma mutate_typed:
  "storage_typed (q_store s) \<Longrightarrow> storage_typed (q_store (mutateQuickCommandsAtTarget t f s))"
  by (cases t)
    (auto simp: storage_typed_def Let_def typed_bundles typed_commands persistQuickCommands_def
      split: option.splits)

lemma edit_typed: "storage_typed (q_store s) \<Longrightarrow> storage_typed (q_store (edit_at t f s))"
  by (simp add: edit_at_def mutate_typed split: option.splits)

lemma copy_commands_same:
  "copy_commands cs s = (ds, s') \<Longrightarrow> s' = s\<lparr>q_pos := q_pos s + length cs\<rparr>"
proof (induction cs arbitrary: s ds s')
  case Nil
  then show ?case by simp
next
  case (Cons c cs)
  obtain es s2 where c: "copy_commands cs (s\<lparr>q_pos := Suc (q_pos s)\<rparr>) = (es, s2)" by fastforce
  then have "s' = s2" using Cons.prems by (simp add: quickCommandId_def)
  then show ?case using Cons.IH [OF c] by simp
qed

lemma copy_commands_ids:
  "q_uuid s = q_uuid t \<Longrightarrow> q_pos s = q_pos t \<Longrightarrow> fst (copy_commands cs s) = fst (copy_commands cs t)"
proof (induction cs arbitrary: s t)
  case (Cons c cs)
  show ?case
    using Cons.IH [of "s\<lparr>q_pos := Suc (q_pos s)\<rparr>" "t\<lparr>q_pos := Suc (q_pos t)\<rparr>"] Cons.prems
    by (simp add: quickCommandId_def case_prod_beta Let_def)
qed simp

lemma storage_typed_parts:
  assumes "storage_typed st" "q_commands st' = q_commands st" "q_bundles st' = q_bundles st"
  shows "storage_typed st'"
  using assms by (simp add: storage_typed_def)

lemma storage_typed_bundles:
  assumes "storage_typed st" "q_commands st' = q_commands st" "q_bundles st' = Some (JArr (map json_of_bundle bs))"
  shows "storage_typed st'"
  using assms typed_bundles by (simp add: storage_typed_def)

lemma ensure_bundles_store [simp]: "q_store (ensureQuickCommandBundlesLoaded s) = q_store s"
  by (simp add: ensureQuickCommandBundlesLoaded_def)

lemma ensure_keeps_lists:
  "q_commands (q_store (ensureQuickCommandsLoaded cid s)) = q_commands (q_store s)"
  "q_bundles (q_store (ensureQuickCommandsLoaded cid s)) = q_bundles (q_store s)"
  by (simp_all add: ensureQuickCommandsLoaded_def Let_def)

lemma create_result:
  "createQuickCommandBundle n cs s =
     (let s1 = ensureQuickCommandBundlesLoaded s; i = ''qcb-'' @ q_uuid s (q_pos s);
          bs = quickCommandBundles s1 @ [\<lparr>bundle_id = i, bundle_name = trim n,
                 bundle_commands = fst (copy_commands cs (s\<lparr>q_pos := Suc (q_pos s)\<rparr>))\<rparr>]
      in (i, (persistQuickCommandBundles bs s1)\<lparr>quickCommandBundles := bs, q_pos := q_pos s + 1 + length cs\<rparr>))"
proof -
  let ?s1 = "ensureQuickCommandBundlesLoaded s"
  have u: "q_uuid ?s1 = q_uuid s" "q_pos ?s1 = q_pos s" by (simp_all add: ensureQuickCommandBundlesLoaded_def)
  obtain ds s2 where c: "copy_commands cs (?s1\<lparr>q_pos := Suc (q_pos ?s1)\<rparr>) = (ds, s2)" by fastforce
  from copy_commands_same [OF c] have s2: "s2 = ?s1\<lparr>q_pos := Suc (q_pos s) + length cs\<rparr>" by (simp add: u)
  have ds: "ds = fst (copy_commands cs (s\<lparr>q_pos := Suc (q_pos s)\<rparr>))"
    using copy_commands_ids [of "s\<lparr>q_pos := Suc (q_pos s)\<rparr>" "?s1\<lparr>q_pos := Suc (q_pos ?s1)\<rparr>" cs] c u by simp
  show ?thesis
    using c by (simp add: createQuickCommandBundle_def quickCommandBundleId_def s2 u Let_def ds [symmetric]
        persistQuickCommandBundles_def)
qed

lemma create_store:
  "\<exists>bs. q_store (snd (createQuickCommandBundle n cs s))
        = (q_store s)\<lparr>q_bundles := Some (JArr (map json_of_bundle bs))\<rparr>"
  by (rule exI [of _ "quickCommandBundles (snd (createQuickCommandBundle n cs s))"])
    (simp add: create_result Let_def persistQuickCommandBundles_def)

lemma typed_step: "storage_typed (q_store s) \<Longrightarrow> storage_typed (q_store (quick_step e s))"
proof (cases e)
  case (QCreate n cs)
  assume t: "storage_typed (q_store s)"
  obtain bs where "q_store (snd (createQuickCommandBundle n cs s))
        = (q_store s)\<lparr>q_bundles := Some (JArr (map json_of_bundle bs))\<rparr>" using create_store by blast
  then show ?thesis using QCreate storage_typed_bundles [OF t] by simp
next
  case (QEnsure cid)
  assume t: "storage_typed (q_store s)"
  show ?thesis using QEnsure storage_typed_parts [OF t] by (simp add: ensure_keeps_lists)
next
  case (QRename b n)
  assume t: "storage_typed (q_store s)"
  show ?thesis using QRename t storage_typed_bundles [OF t] by (simp add: renameQuickCommandBundle_def Let_def)
next
  case (QDelete b)
  assume t: "storage_typed (q_store s)"
  show ?thesis using QDelete storage_typed_bundles [OF t] by (simp add: deleteQuickCommandBundle_def Let_def)
next
  case (QSelect c b)
  assume t: "storage_typed (q_store s)"
  show ?thesis using QSelect t storage_typed_parts [OF t] by (simp add: setConnectionQuickCommandBundle_def)
qed (simp_all add: addQuickCommand_def updateQuickCommand_def moveQuickCommand_def reorderQuickCommand_def
  removeQuickCommand_def edit_typed)

section \<open>The durable lists, and the cache of them\<close>

text \<open>
  What storage says: every Connection's list, the bundles, and the bundle each Connection selects
  (none when the stored selection names no stored bundle).
\<close>

record quick_view =
  v_lists :: "string \<Rightarrow> quick_command list"
  v_bundles :: "quick_command_bundle list"
  v_choice :: "string \<Rightarrow> string option"
  v_uuid :: "nat \<Rightarrow> string"
  v_pos :: nat

definition choice_among :: "quick_command_bundle list \<Rightarrow> string option \<Rightarrow> string option" where
  "choice_among bs x = (case x of None \<Rightarrow> None
     | Some b \<Rightarrow> if b \<noteq> [] \<and> find_bundle b bs \<noteq> None then Some b else None)"

definition saved_view :: "quick_state \<Rightarrow> quick_view" where
  "saved_view s = \<lparr>v_lists = (\<lambda>c. loadStoredQuickCommands c (q_store s)),
     v_bundles = loadStoredQuickCommandBundles (q_store s),
     v_choice = (\<lambda>c. choice_among (loadStoredQuickCommandBundles (q_store s)) (q_selection (q_store s) c)),
     v_uuid = q_uuid s, v_pos = q_pos s\<rparr>"

definition view_commands :: "quick_view \<Rightarrow> string \<Rightarrow> quick_command list" where
  "view_commands v c = (case v_choice v c of
       Some b \<Rightarrow> (case find_bundle b (v_bundles v) of Some x \<Rightarrow> bundle_commands x | None \<Rightarrow> [])
     | None \<Rightarrow> v_lists v c)"

fun view_edit :: "quick_command_target option \<Rightarrow> (quick_command list \<Rightarrow> quick_command list option)
    \<Rightarrow> quick_view \<Rightarrow> quick_view" where
  "view_edit None f v = v"
| "view_edit (Some (TargetConnection c)) f v =
     (case f (v_lists v c) of None \<Rightarrow> v | Some cs \<Rightarrow> v\<lparr>v_lists := (v_lists v)(c := cs)\<rparr>)"
| "view_edit (Some (TargetBundle b)) f v =
     (case Option.bind (find_bundle b (v_bundles v)) (\<lambda>x. f (bundle_commands x)) of
        None \<Rightarrow> v
      | Some cs \<Rightarrow> v\<lparr>v_bundles :=
          map_where (\<lambda>x. bundle_id x = b) (\<lambda>x. x\<lparr>bundle_commands := cs\<rparr>) (v_bundles v)\<rparr>)"

definition view_copies :: "(nat \<Rightarrow> string) \<Rightarrow> nat \<Rightarrow> quick_command list \<Rightarrow> quick_command list" where
  "view_copies u n cs = map (\<lambda>(k, c). c\<lparr>qc_id := ''quick-'' @ u (n + k)\<rparr>) (enumerate 0 cs)"

fun view_step :: "quick_event \<Rightarrow> quick_view \<Rightarrow> quick_view" where
  "view_step (QEnsure c) v = v"
| "view_step QEnsureBundles v = v"
| "view_step (QAdd t c) v = view_edit t (append_command c) v"
| "view_step (QUpdate t c) v = view_edit t (replace_command c) v"
| "view_step (QMove t i d) v = view_edit t (shift_command i d) v"
| "view_step (QReorder t i j) v = (if i = j then v else view_edit t (drop_on_command i j) v)"
| "view_step (QRemove t i) v = view_edit t (delete_command i) v"
| "view_step (QCreate n cs) v =
     v\<lparr>v_bundles := v_bundles v @ [\<lparr>bundle_id = ''qcb-'' @ v_uuid v (v_pos v), bundle_name = trim n,
          bundle_commands = view_copies (v_uuid v) (Suc (v_pos v)) cs\<rparr>],
       v_pos := v_pos v + 1 + length cs\<rparr>"
| "view_step (QRename b n) v =
     (if trim n = [] then v
      else v\<lparr>v_bundles :=
        map_where (\<lambda>x. bundle_id x = b) (\<lambda>x. x\<lparr>bundle_name := trim n\<rparr>) (v_bundles v)\<rparr>)"
| "view_step (QDelete b) v =
     v\<lparr>v_bundles := filter (\<lambda>x. bundle_id x \<noteq> b) (v_bundles v),
       v_choice := (\<lambda>c. if v_choice v c = Some b then None else v_choice v c)\<rparr>"
| "view_step (QSelect c b) v =
     (if c = [] then v else v\<lparr>v_choice := (v_choice v)(c := choice_among (v_bundles v) (Some b))\<rparr>)"

text \<open>
  The three maps in memory are a cache of storage: a loaded list is the stored one, and for a loaded
  Connection the selections agree wherever they name a stored bundle.
\<close>

definition cache_coherent :: "quick_state \<Rightarrow> bool" where
  "cache_coherent s =
     ((\<forall>c cs. quickCommandsByConnection s c = Some cs
          \<longrightarrow> quickCommandBundlesLoaded s \<and> c \<noteq> [] \<and> cs = loadStoredQuickCommands c (q_store s))
      \<and> (quickCommandBundlesLoaded s \<longrightarrow> quickCommandBundles s = loadStoredQuickCommandBundles (q_store s))
      \<and> (\<forall>c b. quickCommandBundleByConnection s c = Some b
          \<longrightarrow> q_selection (q_store s) c = Some b
            \<or> q_selection (q_store s) c = None
              \<and> choice_among (loadStoredQuickCommandBundles (q_store s)) (Some b) = None)
      \<and> (\<forall>c b. quickCommandsByConnection s c \<noteq> None
          \<longrightarrow> choice_among (loadStoredQuickCommandBundles (q_store s)) (q_selection (q_store s) c) = Some b
          \<longrightarrow> quickCommandBundleByConnection s c = Some b))"

fun target_ready :: "quick_command_target option \<Rightarrow> quick_state \<Rightarrow> bool" where
  "target_ready None s = True"
| "target_ready (Some (TargetBundle b)) s = quickCommandBundlesLoaded s"
| "target_ready (Some (TargetConnection c)) s = (quickCommandsByConnection s c \<noteq> None)"

fun quick_allowed :: "quick_event \<Rightarrow> quick_state \<Rightarrow> bool" where
  "quick_allowed (QAdd t c) s = target_ready t s"
| "quick_allowed (QUpdate t c) s = target_ready t s"
| "quick_allowed (QMove t i d) s = target_ready t s"
| "quick_allowed (QReorder t i j) s = target_ready t s"
| "quick_allowed (QRemove t i) s = target_ready t s"
| "quick_allowed (QCreate n cs) s =
     (\<forall>c. q_selection (q_store s) c \<noteq> Some (''qcb-'' @ q_uuid s (q_pos s))
        \<and> quickCommandBundleByConnection s c \<noteq> Some (''qcb-'' @ q_uuid s (q_pos s)))"
| "quick_allowed (QRename b n) s = quickCommandBundlesLoaded s"
| "quick_allowed (QDelete b) s = quickCommandBundlesLoaded s"
| "quick_allowed e s = True"

lemma find_bundle_None: "find_bundle b bs = None \<longleftrightarrow> b \<notin> set (map bundle_id bs)"
  by (auto simp: find_bundle_def find_None_iff)

lemma choice_among_ids:
  "choice_among bs x = (case x of None \<Rightarrow> None
     | Some b \<Rightarrow> if b \<noteq> [] \<and> b \<in> set (map bundle_id bs) then Some b else None)"
  by (simp add: choice_among_def find_bundle_None del: not_None_eq set_map split: option.splits)

lemma choice_map_where [simp]:
  "(\<And>x. bundle_id (g x) = bundle_id x) \<Longrightarrow> choice_among (map_where P g bs) x = choice_among bs x"
  by (simp add: choice_among_ids map_map_where del: set_map split: option.splits)

lemma choice_filter:
  "choice_among (filter (\<lambda>y. bundle_id y \<noteq> b) bs) x
     = (if choice_among bs x = Some b then None else choice_among bs x)"
  by (auto simp: choice_among_ids split: option.splits)

lemma choice_append_other:
  "x \<noteq> Some (bundle_id b) \<Longrightarrow> choice_among (bs @ [b]) x = choice_among bs x"
  by (auto simp: choice_among_ids split: option.splits)

lemma choice_None [simp]: "choice_among bs None = None"
  by (simp add: choice_among_def)

lemma choice_Nil [simp]: "choice_among bs (Some []) = None"
  by (simp add: choice_among_def)

lemma choice_SomeD: "choice_among bs x = Some b \<Longrightarrow> x = Some b"
  by (auto simp: choice_among_def split: option.splits if_splits)

lemma load_after_persist [simp]:
  "c \<noteq> [] \<Longrightarrow> loadStoredQuickCommands d (q_store (persistQuickCommands c cs s))
     = (if d = c then cs else loadStoredQuickCommands d (q_store s))"
  by (simp add: loadStoredQuickCommands_def persistQuickCommands_def commands_roundtrip del: filter_map map_map)

lemma load_bundles_after_persist [simp]:
  "loadStoredQuickCommandBundles (q_store (persistQuickCommandBundles bs s)) = bs"
  by (simp add: loadStoredQuickCommandBundles_def bundles_roundtrip del: filter_map map_map)

lemma load_commands_cong:
  "q_commands st' = q_commands st \<Longrightarrow> loadStoredQuickCommands c st' = loadStoredQuickCommands c st"
  by (simp add: loadStoredQuickCommands_def)

lemma load_bundles_cong:
  "q_bundles st' = q_bundles st \<Longrightarrow> loadStoredQuickCommandBundles st' = loadStoredQuickCommandBundles st"
  by (simp add: loadStoredQuickCommandBundles_def)

lemma load_other [simp]:
  "loadStoredQuickCommands c (q_store (persistQuickCommandBundles bs s)) = loadStoredQuickCommands c (q_store s)"
  "loadStoredQuickCommands c (q_store (persistQuickCommandBundleSelection d b s)) = loadStoredQuickCommands c (q_store s)"
  "loadStoredQuickCommandBundles (q_store (persistQuickCommands d cs s)) = loadStoredQuickCommandBundles (q_store s)"
  "loadStoredQuickCommandBundles (q_store (persistQuickCommandBundleSelection d b s))
     = loadStoredQuickCommandBundles (q_store s)"
  by (rule load_commands_cong load_bundles_cong, simp)+

subsection \<open>Each operation on the cache and on the view\<close>

abbreviation saved_bundles :: "quick_state \<Rightarrow> quick_command_bundle list" where
  "saved_bundles s \<equiv> loadStoredQuickCommandBundles (q_store s)"

lemma coherent_lists:
  "cache_coherent s \<Longrightarrow> quickCommandsByConnection s c = Some cs
    \<Longrightarrow> quickCommandBundlesLoaded s \<and> c \<noteq> [] \<and> loadStoredQuickCommands c (q_store s) = cs"
  by (auto simp: cache_coherent_def)

lemma coherent_bundles:
  "cache_coherent s \<Longrightarrow> quickCommandBundlesLoaded s \<Longrightarrow> quickCommandBundles s = saved_bundles s"
  by (simp add: cache_coherent_def)

lemma coherent_choice:
  "cache_coherent s \<Longrightarrow> quickCommandBundleByConnection s c = Some b
    \<Longrightarrow> q_selection (q_store s) c = Some b
      \<or> q_selection (q_store s) c = None \<and> choice_among (saved_bundles s) (Some b) = None"
  by (auto simp: cache_coherent_def)

lemma coherent_loaded_choice:
  "cache_coherent s \<Longrightarrow> quickCommandsByConnection s c \<noteq> None
    \<Longrightarrow> choice_among (saved_bundles s) (q_selection (q_store s) c) = Some b
    \<Longrightarrow> quickCommandBundleByConnection s c = Some b"
  by (auto simp: cache_coherent_def)

lemma coherentI:
  assumes "\<And>c cs. quickCommandsByConnection s c = Some cs
      \<Longrightarrow> quickCommandBundlesLoaded s \<and> c \<noteq> [] \<and> loadStoredQuickCommands c (q_store s) = cs"
    and "quickCommandBundlesLoaded s \<Longrightarrow> quickCommandBundles s = saved_bundles s"
    and "\<And>c b. quickCommandBundleByConnection s c = Some b
      \<Longrightarrow> q_selection (q_store s) c = Some b
        \<or> q_selection (q_store s) c = None \<and> choice_among (saved_bundles s) (Some b) = None"
    and "\<And>c b. quickCommandsByConnection s c \<noteq> None
      \<Longrightarrow> choice_among (saved_bundles s) (q_selection (q_store s) c) = Some b
      \<Longrightarrow> quickCommandBundleByConnection s c = Some b"
  shows "cache_coherent s"
  unfolding cache_coherent_def
proof (intro conjI)
  show "\<forall>c cs. quickCommandsByConnection s c = Some cs
      \<longrightarrow> quickCommandBundlesLoaded s \<and> c \<noteq> [] \<and> cs = loadStoredQuickCommands c (q_store s)"
    using assms(1) by metis
qed (use assms(2-4) in blast)+

lemmas coherentD = coherent_lists coherent_bundles coherent_choice coherent_loaded_choice

text \<open>Replacing the bundles, in memory and in storage, by a list that resolves no more selections.\<close>

lemma coherent_new_bundles:
  assumes c: "cache_coherent s" and l: "quickCommandBundlesLoaded s"
    and r: "\<And>i. q_selection (q_store s) i \<noteq> None \<or> quickCommandBundleByConnection s i \<noteq> None
      \<Longrightarrow> choice_among bs (q_selection (q_store s) i) = choice_among (saved_bundles s) (q_selection (q_store s) i)
        \<and> choice_among bs (quickCommandBundleByConnection s i)
          = choice_among (saved_bundles s) (quickCommandBundleByConnection s i)"
  shows "cache_coherent ((persistQuickCommandBundles bs s)\<lparr>quickCommandBundles := bs\<rparr>)"
proof (rule coherentI; simp)
  fix d b
  assume m: "quickCommandBundleByConnection s d = Some b"
  then show "q_selection (q_store s) d = Some b
      \<or> q_selection (q_store s) d = None \<and> choice_among bs (Some b) = None"
    using coherent_choice [OF c m] r [of d] by auto
next
  fix d b
  assume "\<exists>y. quickCommandsByConnection s d = Some y" and x: "choice_among bs (q_selection (q_store s) d) = Some b"
  then show "quickCommandBundleByConnection s d = Some b"
    using coherent_loaded_choice [OF c, of d b] r [of d] choice_SomeD [OF x] by auto
qed (use l coherent_lists [OF c] in auto)

lemma saved_view_new_bundles:
  assumes "\<And>i. choice_among bs (q_selection (q_store s) i)
      = choice_among (saved_bundles s) (q_selection (q_store s) i)"
  shows "saved_view ((persistQuickCommandBundles bs s)\<lparr>quickCommandBundles := bs\<rparr>)
    = (saved_view s)\<lparr>v_bundles := bs\<rparr>"
  using assms by (simp add: saved_view_def)

lemma edit_bundle_simulates:
  assumes c: "cache_coherent s" and l: "quickCommandBundlesLoaded s"
  shows "cache_coherent (mutateQuickCommandsAtTarget (TargetBundle b) f s)
    \<and> saved_view (mutateQuickCommandsAtTarget (TargetBundle b) f s)
        = view_edit (Some (TargetBundle b)) f (saved_view s)"
proof (cases "Option.bind (find_bundle b (saved_bundles s)) (\<lambda>x. f (bundle_commands x))")
  case None
  then show ?thesis using c by (simp add: coherent_bundles [OF c l] saved_view_def)
next
  case (Some cs)
  let ?bs = "map_where (\<lambda>x. bundle_id x = b) (\<lambda>x. x\<lparr>bundle_commands := cs\<rparr>) (saved_bundles s)"
  have "cache_coherent ((persistQuickCommandBundles ?bs s)\<lparr>quickCommandBundles := ?bs\<rparr>)"
    by (rule coherent_new_bundles [OF c l]) simp
  moreover have "saved_view ((persistQuickCommandBundles ?bs s)\<lparr>quickCommandBundles := ?bs\<rparr>)
      = (saved_view s)\<lparr>v_bundles := ?bs\<rparr>"
    by (rule saved_view_new_bundles) simp
  ultimately show ?thesis using Some
    by (simp add: coherent_bundles [OF c l] Let_def) (simp add: saved_view_def)
qed

lemma edit_list_simulates:
  assumes c: "cache_coherent s" and ds: "quickCommandsByConnection s d = Some ds"
  shows "cache_coherent (mutateQuickCommandsAtTarget (TargetConnection d) f s)
    \<and> saved_view (mutateQuickCommandsAtTarget (TargetConnection d) f s)
        = view_edit (Some (TargetConnection d)) f (saved_view s)"
proof (cases "f ds")
  case None
  then show ?thesis using c coherent_lists [OF c ds] ds by (simp add: saved_view_def)
next
  case (Some cs)
  let ?s = "(persistQuickCommands d cs s)\<lparr>quickCommandsByConnection := (quickCommandsByConnection s)(d \<mapsto> cs)\<rparr>"
  have d: "d \<noteq> []" "quickCommandBundlesLoaded s" "loadStoredQuickCommands d (q_store s) = ds"
    using coherent_lists [OF c ds] by auto
  have "cache_coherent ?s"
    using d coherent_lists [OF c] coherent_bundles [OF c] coherent_choice [OF c] coherent_loaded_choice [OF c] ds
    by (intro coherentI) (auto split: if_splits)
  moreover have "saved_view ?s = view_edit (Some (TargetConnection d)) f (saved_view s)"
    using Some d by (simp add: saved_view_def fun_eq_iff)
  ultimately show ?thesis using Some ds by simp
qed

lemma edit_simulates:
  assumes c: "cache_coherent s" and r: "target_ready t s"
  shows "cache_coherent (edit_at t f s) \<and> saved_view (edit_at t f s) = view_edit t f (saved_view s)"
proof (cases t)
  case None
  then show ?thesis using c by (simp add: edit_at_def)
next
  case (Some u)
  then show ?thesis using edit_bundle_simulates [OF c] edit_list_simulates [OF c] r
    by (cases u) (auto simp: edit_at_def simp del: mutateQuickCommandsAtTarget.simps view_edit.simps)
qed

lemma load_bundles_simulates:
  assumes c: "cache_coherent s"
  shows "cache_coherent (ensureQuickCommandBundlesLoaded s)
    \<and> saved_view (ensureQuickCommandBundlesLoaded s) = saved_view s
    \<and> quickCommandBundlesLoaded (ensureQuickCommandBundlesLoaded s)"
proof (cases "quickCommandBundlesLoaded s")
  case True
  then show ?thesis using c by (simp add: ensureQuickCommandBundlesLoaded_def)
next
  case False
  let ?s = "s\<lparr>quickCommandBundles := saved_bundles s, quickCommandBundlesLoaded := True\<rparr>"
  have "cache_coherent ?s"
    using coherent_lists [OF c] coherent_choice [OF c] coherent_loaded_choice [OF c]
    by (intro coherentI) auto
  then show ?thesis using False by (simp add: ensureQuickCommandBundlesLoaded_def saved_view_def)
qed

lemma choice_eq: "choice_among bs (Some x) = (if x \<noteq> [] \<and> find_bundle x bs \<noteq> None then Some x else None)"
  by (simp add: choice_among_def)

definition fill_cache :: "string \<Rightarrow> quick_state \<Rightarrow> quick_state" where
  "fill_cache c s =
     (let x = choice_among (saved_bundles s) (q_selection (q_store s) c);
          s1 = (if x = None \<and> nullish (q_selection (q_store s) c) [] \<noteq> []
                then persistQuickCommandBundleSelection c [] s else s)
      in s1\<lparr>quickCommandsByConnection :=
              (quickCommandsByConnection s)(c \<mapsto> loadStoredQuickCommands c (q_store s)),
            quickCommandBundleByConnection :=
              (case x of None \<Rightarrow> quickCommandBundleByConnection s
               | Some b \<Rightarrow> (quickCommandBundleByConnection s)(c \<mapsto> b))\<rparr>)"

lemma selection_after_persist [simp]:
  "q_selection (q_store (persistQuickCommandBundleSelection c b s)) d
     = (if d = c then if b = [] then None else Some b else q_selection (q_store s) d)"
  by (simp add: persistQuickCommandBundleSelection_def)

lemma fill_cache_coherent:
  assumes c: "cache_coherent s" and l: "quickCommandBundlesLoaded s" and d: "d \<noteq> []"
  shows "cache_coherent (fill_cache d s) \<and> saved_view (fill_cache d s) = saved_view s"
proof
  show "cache_coherent (fill_cache d s)"
  proof (intro coherentI)
    fix i b
    assume m: "quickCommandBundleByConnection (fill_cache d s) i = Some b"
    show "q_selection (q_store (fill_cache d s)) i = Some b
        \<or> q_selection (q_store (fill_cache d s)) i = None
          \<and> choice_among (saved_bundles (fill_cache d s)) (Some b) = None"
    proof (cases "i = d")
      case True
      show ?thesis
        using m coherent_choice [OF c, of d b] True
        by (auto simp: fill_cache_def Let_def dest: choice_SomeD split: option.splits if_splits)
    next
      case False
      then show ?thesis
        using m coherent_choice [OF c, of i b] by (auto simp: fill_cache_def Let_def split: option.splits if_splits)
    qed
  qed (use l d coherent_lists [OF c] coherent_bundles [OF c] coherent_loaded_choice [OF c] in
      \<open>auto simp: fill_cache_def Let_def dest: choice_SomeD split: option.splits if_splits\<close>)
  show "saved_view (fill_cache d s) = saved_view s"
    by (auto simp: fill_cache_def Let_def saved_view_def fun_eq_iff)
qed

lemma ensure_fills:
  assumes b: "quickCommandBundles (ensureQuickCommandBundlesLoaded s) = saved_bundles s"
  shows "ensureQuickCommandsLoaded c s =
     (let s1 = ensureQuickCommandBundlesLoaded s
      in if c = [] \<or> quickCommandsByConnection s1 c \<noteq> None then s1 else fill_cache c s1)"
  by (cases "q_selection (q_store s) c")
    (auto simp: ensureQuickCommandsLoaded_def fill_cache_def Let_def b choice_eq
      loadStoredQuickCommandBundleSelection_def split: option.splits)

lemma ensure_simulates:
  assumes c: "cache_coherent s"
  shows "cache_coherent (ensureQuickCommandsLoaded d s) \<and> saved_view (ensureQuickCommandsLoaded d s) = saved_view s"
proof -
  let ?s = "ensureQuickCommandBundlesLoaded s"
  have l: "cache_coherent ?s" "saved_view ?s = saved_view s" "quickCommandBundlesLoaded ?s"
    using load_bundles_simulates [OF c] by auto
  then have b: "quickCommandBundles ?s = saved_bundles s" using coherent_bundles [of ?s] by simp
  show ?thesis using l fill_cache_coherent [OF l(1,3), of d] by (simp add: ensure_fills [OF b] Let_def)
qed

lemma copies_enumerate:
  "fst (copy_commands cs s) = map (\<lambda>(k, c). c\<lparr>qc_id := ''quick-'' @ q_uuid s k\<rparr>) (enumerate (q_pos s) cs)"
  by (induction cs arbitrary: s) (simp_all add: quickCommandId_def Let_def case_prod_beta)

lemma copies_view: "fst (copy_commands cs (s\<lparr>q_pos := n\<rparr>)) = view_copies (q_uuid s) n cs"
proof -
  have "enumerate n cs = map (\<lambda>(k, c). (n + k, c)) (enumerate 0 cs)"
    by (rule nth_equalityI) (simp_all add: nth_enumerate_eq)
  then show ?thesis by (simp add: copies_enumerate view_copies_def case_prod_beta)
qed

lemma coherent_pos: "cache_coherent (s\<lparr>q_pos := n\<rparr>) \<longleftrightarrow> cache_coherent s"
  by (simp add: cache_coherent_def)

lemma create_simulates:
  assumes c: "cache_coherent s" and a: "quick_allowed (QCreate n cs) s"
  shows "cache_coherent (quick_step (QCreate n cs) s)
    \<and> saved_view (quick_step (QCreate n cs) s) = view_step (QCreate n cs) (saved_view s)"
proof -
  let ?s = "ensureQuickCommandBundlesLoaded s"
  define b where "b = \<lparr>bundle_id = ''qcb-'' @ q_uuid s (q_pos s), bundle_name = trim n,
    bundle_commands = view_copies (q_uuid s) (Suc (q_pos s)) cs\<rparr>"
  let ?bs = "saved_bundles s @ [b]"
  let ?t = "(persistQuickCommandBundles ?bs ?s)\<lparr>quickCommandBundles := ?bs\<rparr>"
  have l: "cache_coherent ?s" "saved_view ?s = saved_view s" "quickCommandBundlesLoaded ?s"
    using load_bundles_simulates [OF c] by auto
  then have q: "quickCommandBundles ?s = saved_bundles s" using coherent_bundles [of ?s] by simp
  have sel: "quickCommandBundleByConnection ?s = quickCommandBundleByConnection s"
    by (simp add: ensureQuickCommandBundlesLoaded_def)
  have fresh: "q_selection (q_store s) i \<noteq> Some (bundle_id b)"
    "quickCommandBundleByConnection s i \<noteq> Some (bundle_id b)" for i
    using a by (simp_all add: b_def)
  have step: "quick_step (QCreate n cs) s = ?t\<lparr>q_pos := q_pos s + 1 + length cs\<rparr>"
    by (simp add: create_result Let_def q copies_view b_def)
  have "cache_coherent ?t"
    by (rule coherent_new_bundles [OF l(1,3)]) (simp add: sel choice_append_other fresh)
  moreover have "saved_view ?t = (saved_view s)\<lparr>v_bundles := ?bs\<rparr>"
    using saved_view_new_bundles [of ?bs ?s] by (simp add: choice_append_other fresh l(2))
  then have "saved_view (?t\<lparr>q_pos := q_pos s + 1 + length cs\<rparr>) = view_step (QCreate n cs) (saved_view s)"
    by (simp add: saved_view_def b_def)
  ultimately show ?thesis by (simp only: step coherent_pos simp_thms)
qed

lemma rename_simulates:
  assumes c: "cache_coherent s" and l: "quickCommandBundlesLoaded s"
  shows "cache_coherent (renameQuickCommandBundle b n s)
    \<and> saved_view (renameQuickCommandBundle b n s) = view_step (QRename b n) (saved_view s)"
proof (cases "trim n = []")
  case True
  then show ?thesis using c by (simp add: renameQuickCommandBundle_def)
next
  case False
  let ?bs = "map_where (\<lambda>x. bundle_id x = b) (\<lambda>x. x\<lparr>bundle_name := trim n\<rparr>) (saved_bundles s)"
  have "cache_coherent ((persistQuickCommandBundles ?bs s)\<lparr>quickCommandBundles := ?bs\<rparr>)"
    by (rule coherent_new_bundles [OF c l]) simp
  moreover have "saved_view ((persistQuickCommandBundles ?bs s)\<lparr>quickCommandBundles := ?bs\<rparr>)
      = (saved_view s)\<lparr>v_bundles := ?bs\<rparr>"
    by (rule saved_view_new_bundles) simp
  ultimately show ?thesis using False
    by (simp add: renameQuickCommandBundle_def coherent_bundles [OF c l] Let_def) (simp add: saved_view_def)
qed

lemma delete_simulates:
  assumes c: "cache_coherent s" and l: "quickCommandBundlesLoaded s"
  shows "cache_coherent (deleteQuickCommandBundle b s)
    \<and> saved_view (deleteQuickCommandBundle b s) = view_step (QDelete b) (saved_view s)"
proof
  let ?bs = "filter (\<lambda>x. bundle_id x \<noteq> b) (saved_bundles s)"
  let ?s = "deleteQuickCommandBundle b s"
  note q = coherent_bundles [OF c l]
  have f: "quickCommandBundles ?s = ?bs" "saved_bundles ?s = ?bs" "quickCommandBundlesLoaded ?s"
    "quickCommandsByConnection ?s = quickCommandsByConnection s"
    "quickCommandBundleByConnection ?s i = (if quickCommandBundleByConnection s i = Some b then None
       else quickCommandBundleByConnection s i)"
    "q_selection (q_store ?s) i = (if quickCommandBundleByConnection s i = Some b then None
       else q_selection (q_store s) i)"
    "loadStoredQuickCommands i (q_store ?s) = loadStoredQuickCommands i (q_store s)" for i
    by (simp_all add: deleteQuickCommandBundle_def Let_def q l loadStoredQuickCommandBundles_def
        bundles_roundtrip loadStoredQuickCommands_def del: filter_map map_map)
  show "cache_coherent ?s"
  proof (intro coherentI; unfold f)
    fix i a
    assume "(if quickCommandBundleByConnection s i = Some b then None else quickCommandBundleByConnection s i) = Some a"
    then show "(if quickCommandBundleByConnection s i = Some b then None else q_selection (q_store s) i) = Some a
        \<or> (if quickCommandBundleByConnection s i = Some b then None else q_selection (q_store s) i) = None
          \<and> choice_among ?bs (Some a) = None"
      using coherent_choice [OF c, of i a] by (auto simp: choice_filter split: if_splits)
  next
    fix i a
    assume "quickCommandsByConnection s i \<noteq> None"
      and "choice_among ?bs (if quickCommandBundleByConnection s i = Some b then None else q_selection (q_store s) i)
        = Some a"
    then show "(if quickCommandBundleByConnection s i = Some b then None else quickCommandBundleByConnection s i) = Some a"
      using coherent_loaded_choice [OF c, of i a] by (auto simp: choice_filter split: if_splits)
  qed (use coherent_lists [OF c] f(3) in auto)
  have "(if choice_among (saved_bundles s) (q_selection (q_store s) i) = Some b then None
      else choice_among (saved_bundles s) (q_selection (q_store s) i))
    = choice_among ?bs (if quickCommandBundleByConnection s i = Some b then None else q_selection (q_store s) i)" for i
    using coherent_choice [OF c, of i b] by (auto simp: choice_filter choice_eq split: if_splits)
  moreover have "q_uuid ?s = q_uuid s" "q_pos ?s = q_pos s" by (simp_all add: deleteQuickCommandBundle_def Let_def)
  ultimately show "saved_view ?s = view_step (QDelete b) (saved_view s)"
    by (simp add: saved_view_def f(2,7) f(6) [abs_def] cong: if_cong)
qed

lemma select_simulates:
  assumes c: "cache_coherent s"
  shows "cache_coherent (setConnectionQuickCommandBundle d b s)
    \<and> saved_view (setConnectionQuickCommandBundle d b s) = view_step (QSelect d b) (saved_view s)"
proof (cases "d = []")
  case True
  then show ?thesis using c by (simp add: setConnectionQuickCommandBundle_def)
next
  case False
  have "cache_coherent (setConnectionQuickCommandBundle d b s)"
    using False coherent_lists [OF c] coherent_bundles [OF c] coherent_choice [OF c] coherent_loaded_choice [OF c]
    by (intro coherentI) (auto simp: setConnectionQuickCommandBundle_def dest: choice_SomeD split: if_splits)
  then show ?thesis using False
    by (auto simp: setConnectionQuickCommandBundle_def saved_view_def fun_eq_iff)
qed

lemma quick_step_simulates:
  "cache_coherent s \<Longrightarrow> quick_allowed e s
    \<Longrightarrow> cache_coherent (quick_step e s) \<and> saved_view (quick_step e s) = view_step e (saved_view s)"
proof (cases e)
  case (QReorder t i j)
  assume "cache_coherent s" "quick_allowed e s"
  then show ?thesis using QReorder edit_simulates by (simp add: reorderQuickCommand_def)
qed (use create_simulates in \<open>simp_all add: addQuickCommand_def updateQuickCommand_def moveQuickCommand_def
  removeQuickCommand_def edit_simulates load_bundles_simulates ensure_simulates rename_simulates
  delete_simulates select_simulates del: quick_step.simps(8) quick_allowed.simps(6) view_step.simps(8)\<close>)

section \<open>Properties\<close>

lemma run_allowed_True [simp]: "run_allowed (\<lambda>e s. True) f es s"
  by (induction es arbitrary: s) simp_all

interpretation quick: simulation quick_step view_step "\<lambda>s v. cache_coherent s \<and> v = saved_view s" quick_allowed
  by unfold_locales (simp add: quick_step_simulates)

interpretation quick_typed: machine quick_step "\<lambda>s. storage_typed (q_store s)" "\<lambda>e s. True"
  by unfold_locales (rule typed_step)

interpretation quick_moves: rearrangement "\<lambda>(i, j) cs. nullish (moveQuickCommandTo cs i j) cs"
proof unfold_locales
  fix x :: "int \<times> int" and cs :: "quick_command list"
  obtain i j where x: "x = (i, j)" by fastforce
  show "mset ((case x of (i, j) \<Rightarrow> \<lambda>cs. nullish (moveQuickCommandTo cs i j) cs) cs) = mset cs"
  proof (cases "js_nth cs i")
    case None
    then show ?thesis by (simp add: x moveQuickCommandTo_def)
  next
    case (Some c)
    then have "0 \<le> i" "nat i < length cs" "cs ! nat i = c" by (auto simp: js_nth_def split: if_splits)
    then show ?thesis using mset_remove_at [of "nat i" cs] Some
      by (simp add: x moveQuickCommandTo_def mset_insert_at)
  qed
qed

lemma selected_choice:
  assumes c: "cache_coherent s" and l: "quickCommandsByConnection s c \<noteq> None"
  shows "selectedQuickCommandBundle s c
    = Option.bind (v_choice (saved_view s) c) (\<lambda>b. find_bundle b (v_bundles (saved_view s)))"
proof -
  obtain cs where cs: "quickCommandsByConnection s c = Some cs" using l by blast
  from coherent_lists [OF c cs] have d: "c \<noteq> []" "quickCommandBundlesLoaded s" by auto
  show ?thesis
  proof (cases "choice_among (saved_bundles s) (q_selection (q_store s) c)")
    case (Some b)
    then show ?thesis using coherent_loaded_choice [OF c l Some] d coherent_bundles [OF c d(2)] choice_SomeD [OF Some]
      by (auto simp: selectedQuickCommandBundle_def saved_view_def truthy_str_def choice_eq split: if_splits)
  next
    case None
    then have unchosen: "v_choice (saved_view s) c = None" "choice_among (saved_bundles s) (q_selection (q_store s) c) = None"
      by (simp_all add: saved_view_def)
    show ?thesis
    proof (cases "quickCommandBundleByConnection s c")
      case None
      then show ?thesis
        by (simp add: selectedQuickCommandBundle_def truthy_str_def unchosen(1))
    next
      case (Some b)
      then have "choice_among (saved_bundles s) (Some b) = None"
        using coherent_choice [OF c Some] unchosen(2) by auto
      then show ?thesis using Some coherent_bundles [OF c d(2)]
        by (auto simp: selectedQuickCommandBundle_def unchosen(1) truthy_str_def choice_eq split: if_splits)
    qed
  qed
qed

lemma shown_is_saved:
  assumes c: "cache_coherent s" and l: "quickCommandsByConnection s c \<noteq> None"
  shows "quickCommandsForConnectionState s c = view_commands (saved_view s) c"
proof -
  obtain cs where cs: "quickCommandsByConnection s c = Some cs" using l by blast
  have "c \<noteq> []" "loadStoredQuickCommands c (q_store s) = cs" using coherent_lists [OF c cs] by auto
  moreover have "v_choice (saved_view s) c = Some b \<Longrightarrow> find_bundle b (v_bundles (saved_view s)) \<noteq> None" for b
    by (auto simp: saved_view_def choice_among_def split: option.splits if_splits)
  ultimately show ?thesis
    by (auto simp: quickCommandsForConnectionState_def selected_choice [OF c l] view_commands_def cs
        split: option.splits) (simp add: saved_view_def)
qed

definition restart_quick :: "quick_state \<Rightarrow> quick_state" where
  "restart_quick s = s\<lparr>quickCommandsByConnection := Map.empty, quickCommandBundles := [],
     quickCommandBundlesLoaded := False, quickCommandBundleByConnection := Map.empty\<rparr>"

lemma restart_coherent: "cache_coherent (restart_quick s)"
  by (intro coherentI) (simp_all add: restart_quick_def)

lemma restart_saved: "saved_view (restart_quick s) = saved_view s"
  by (simp add: restart_quick_def saved_view_def)

lemma ensure_loads: "c \<noteq> [] \<Longrightarrow> quickCommandsByConnection (ensureQuickCommandsLoaded c s) c \<noteq> None"
  by (auto simp: ensureQuickCommandsLoaded_def Let_def)

text \<open>
  C19. Quick Commands live in storage and memory is only a cache of it: along every run that edits
  what it has loaded, storage holds what the abstract lists, bundles and choices say, every loaded
  Connection shows the commands of the bundle it chose or else its own list, and shows the same
  after a restart that loads it again.
\<close>

theorem quick_commands_refine_storage:
  assumes "run_allowed quick_allowed quick_step es (restart_quick s)"
  shows "let t = fold quick_step es (restart_quick s); v = fold view_step es (saved_view s)
    in saved_view t = v
      \<and> (\<forall>c. quickCommandsByConnection t c \<noteq> None
          \<longrightarrow> quickCommandsForConnectionState t c = view_commands v c
            \<and> quickCommandsForConnectionState (ensureQuickCommandsLoaded c (restart_quick t)) c = view_commands v c)"
proof -
  let ?t = "fold quick_step es (restart_quick s)"
  have t: "cache_coherent ?t" "saved_view ?t = fold view_step es (saved_view s)"
    using quick.run_related [of "restart_quick s" "saved_view s" es] assms
    by (auto simp: restart_coherent restart_saved)
  have "quickCommandsForConnectionState (ensureQuickCommandsLoaded c (restart_quick ?t)) c
      = view_commands (saved_view ?t) c" if "quickCommandsByConnection ?t c = Some cs" for c cs
    using ensure_simulates [OF restart_coherent [of ?t], of c] ensure_loads [of c] shown_is_saved
      coherent_lists [OF t(1) that] by (auto simp: restart_saved)
  then show ?thesis using shown_is_saved [OF t(1)] by (auto simp: Let_def t(2))
qed

definition demo_command :: "string \<Rightarrow> quick_command" where
  "demo_command i = \<lparr>qc_id = i, qc_label = i, qc_command = ''ls'', qc_iconName = ''play'', qc_accentName = ''blue'',
     qc_sendEnter = True, qc_confirm = False\<rparr>"

definition demo_quick :: quick_state where
  "demo_quick = \<lparr>quickCommandsByConnection = Map.empty, quickCommandBundles = [], quickCommandBundlesLoaded = False,
     quickCommandBundleByConnection = Map.empty,
     q_store = \<lparr>q_commands = [''a'' \<mapsto> JArr [JStr ''junk'', json_of_command (demo_command ''x'')]],
       q_bundles = None, q_selection = Map.empty\<rparr>,
     q_uuid = (\<lambda>n. replicate n (CHR ''u'')), q_pos = 0\<rparr>"

definition demo_quick_events :: "quick_event list" where
  "demo_quick_events =
     [QEnsure ''a'', QAdd (Some (TargetConnection ''a'')) (demo_command ''y''),
      QMove (Some (TargetConnection ''a'')) ''y'' (- 1), QCreate ''ops'' [demo_command ''z''],
      QSelect ''a'' ''qcb-'', QAdd (Some (TargetBundle ''qcb-'')) (demo_command ''w'')]"

lemma demo_loaded:
  "ensureQuickCommandsLoaded ''a'' (restart_quick demo_quick) =
     demo_quick\<lparr>quickCommandsByConnection := [''a'' \<mapsto> [demo_command ''x'']], quickCommandBundlesLoaded := True\<rparr>"
proof -
  have "isQuickCommand (json_of_command c)" for c by (simp add: command_typed json_of_command_typed)
  moreover have "\<not> isQuickCommand (JStr ''junk'')" by code_simp
  ultimately show ?thesis
    by (simp add: ensureQuickCommandsLoaded_def ensureQuickCommandBundlesLoaded_def restart_quick_def demo_quick_def
        loadStoredQuickCommands_def loadStoredQuickCommandBundles_def command_roundtrip
        loadStoredQuickCommandBundleSelection_def Let_def)
qed

lemma demo_quick_allowed: "run_allowed quick_allowed quick_step demo_quick_events (restart_quick demo_quick)"
  by (simp add: demo_quick_events_def demo_loaded)
    (simp add: demo_quick_def addQuickCommand_def edit_at_def append_command_def moveQuickCommand_def
      shift_command_def moveQuickCommandTo_def command_index_def js_nth_def persistQuickCommands_def
      create_result Let_def ensureQuickCommandBundlesLoaded_def setConnectionQuickCommandBundle_def
      split: option.splits)

theorem quick_commands_refine_storage_witness:
  "run_allowed quick_allowed quick_step demo_quick_events (restart_quick demo_quick)
    \<and> map qc_id (view_commands (fold view_step demo_quick_events (saved_view demo_quick)) ''a'') = [''quick-u'', ''w'']
    \<and> map qc_id (quickCommandsForConnectionState (ensureQuickCommandsLoaded ''a''
        (restart_quick (fold quick_step demo_quick_events (restart_quick demo_quick)))) ''a'') = [''quick-u'', ''w'']"
proof -
  have "map qc_id (view_commands (fold view_step demo_quick_events (saved_view demo_quick)) ''a'') = [''quick-u'', ''w'']"
    by code_simp
  moreover have "quickCommandsByConnection (fold quick_step demo_quick_events (restart_quick demo_quick)) ''a'' \<noteq> None"
    by code_simp
  ultimately show ?thesis
    using demo_quick_allowed quick_commands_refine_storage [OF demo_quick_allowed] by (simp add: Let_def)
qed



text \<open>
  Adding a command to a Connection whose list is not loaded yet hides the bundle it uses: the
  edit marks the Connection as loaded, so loading never reads its choice, and the bar shows the
  Connection's own list until the next start shows the bundle again.
\<close>

theorem edit_before_load_hides_bundle:
  assumes "c \<noteq> []" "quickCommandsByConnection s c = None" "quickCommandBundleByConnection s c = None"
    and "choice_among (loadStoredQuickCommandBundles (q_store s)) (q_selection (q_store s) c) = Some b"
    and "find_bundle b (loadStoredQuickCommandBundles (q_store s)) = Some x"
  shows "let t = ensureQuickCommandsLoaded c (addQuickCommand (Some (TargetConnection c)) q s)
    in quickCommandsForConnectionState t c = loadStoredQuickCommands c (q_store s) @ [q]
      \<and> quickCommandsForConnectionState (ensureQuickCommandsLoaded c (restart_quick t)) c = bundle_commands x"
proof -
  let ?a = "addQuickCommand (Some (TargetConnection c)) q s"
  let ?t = "ensureQuickCommandsLoaded c ?a"
  have a: "quickCommandsByConnection ?a c = Some (loadStoredQuickCommands c (q_store s) @ [q])"
    "quickCommandBundleByConnection ?a c = None" "saved_bundles ?a = saved_bundles s"
    "q_selection (q_store ?a) = q_selection (q_store s)"
    using assms by (simp_all add: addQuickCommand_def edit_at_def append_command_def)
  have t: "?t = ensureQuickCommandBundlesLoaded ?a"
    using a(1) by (simp add: ensureQuickCommandsLoaded_def Let_def ensureQuickCommandBundlesLoaded_def)
  have shown: "quickCommandsForConnectionState ?t c = loadStoredQuickCommands c (q_store s) @ [q]"
    using a assms(1) by (simp add: t quickCommandsForConnectionState_def selectedQuickCommandBundle_def
        ensureQuickCommandBundlesLoaded_def truthy_str_def)
  have v: "v_choice (saved_view ?t) c = Some b" "v_bundles (saved_view ?t) = saved_bundles s"
    using assms(4) by (simp_all add: t saved_view_def a)
  have "quickCommandsForConnectionState (ensureQuickCommandsLoaded c (restart_quick ?t)) c
      = view_commands (saved_view ?t) c"
    using ensure_simulates [OF restart_coherent [of ?t], of c] ensure_loads [OF assms(1)] shown_is_saved
    by (simp add: restart_saved)
  then show ?thesis using shown v assms(5) by (simp add: view_commands_def)
qed

theorem edit_before_load_hides_bundle_witness:
  "let b = \<lparr>bundle_id = ''b'', bundle_name = ''Ops'', bundle_commands = [demo_command ''o'']\<rparr>;
       s = demo_quick\<lparr>q_store := \<lparr>q_commands = Map.empty, q_bundles = Some (JArr [json_of_bundle b]),
             q_selection = [''a'' \<mapsto> ''b'']\<rparr>\<rparr>;
       t = ensureQuickCommandsLoaded ''a'' (addQuickCommand (Some (TargetConnection ''a'')) (demo_command ''n'') s)
   in quickCommandsForConnectionState t ''a'' = [demo_command ''n'']
    \<and> quickCommandsForConnectionState (ensureQuickCommandsLoaded ''a'' (restart_quick t)) ''a'' = [demo_command ''o'']"
proof -
  define b where "b = \<lparr>bundle_id = ''b'', bundle_name = ''Ops'', bundle_commands = [demo_command ''o'']\<rparr>"
  define s where "s = demo_quick\<lparr>q_store := \<lparr>q_commands = Map.empty, q_bundles = Some (JArr [json_of_bundle b]),
    q_selection = [''a'' \<mapsto> ''b'']\<rparr>\<rparr>"
  have bs: "loadStoredQuickCommandBundles (q_store s) = [b]"
    using bundles_roundtrip [of "[b]"] by (simp add: s_def loadStoredQuickCommandBundles_def)
  have f: "find_bundle ''b'' [b] = Some b" by (simp add: find_bundle_def b_def)
  have l: "loadStoredQuickCommands ''a'' (q_store s) = []" by (simp add: s_def loadStoredQuickCommands_def)
  have "quickCommandsByConnection s ''a'' = None" "quickCommandBundleByConnection s ''a'' = None"
    "choice_among (loadStoredQuickCommandBundles (q_store s)) (q_selection (q_store s) ''a'') = Some ''b''"
    by (simp_all add: bs choice_eq f) (simp_all add: s_def demo_quick_def choice_eq f)
  from edit_before_load_hides_bundle [of "''a''" s "''b''" b "demo_command ''n''", OF _ this] f
  show ?thesis unfolding b_def [symmetric] s_def [symmetric] Let_def by (simp add: bs l Let_def) (simp add: b_def)
qed

text \<open>Renaming or deleting a bundle before the bundles are loaded erases all of them from storage.\<close>

lemma rename_before_load_erases_bundles:
  assumes "trim n \<noteq> []"
  shows "saved_bundles (renameQuickCommandBundle b n (restart_quick s)) = []"
    "saved_bundles (deleteQuickCommandBundle b (restart_quick s)) = []"
  using assms by (simp_all add: renameQuickCommandBundle_def deleteQuickCommandBundle_def restart_quick_def
      Let_def map_where_def loadStoredQuickCommandBundles_def)

end
