(* ===== verification/Dashboard_Schema.thy ===== *)
theory Dashboard_Schema
  imports Js_Prelude Interfaces "HOL-Library.AList"
begin

text \<open>
  \<open>modules/dashboard/schema.ts\<close>: the checks on what a script widget of the Dashboard is made of.
  Its body (source, permissions, libraries, lifecycle), the schema of its settings, and the values
  of those settings.

  \<open>JSON.parse\<close> is a parameter (\<open>None\<close>: it throws); every statement holds for any such function.
  A result \<open>{ ok: false, reason }\<close> is \<open>Inl reason\<close>, \<open>{ ok: true, value }\<close> is \<open>Inr value\<close>.  A parsed
  object has its own properties only, and \<open>null\<close> is a value, distinct from a missing property.
\<close>

section \<open>Definitions\<close>

subsection \<open>Values\<close>

definition MAX_SCRIPT_SOURCE_BYTES :: nat where "MAX_SCRIPT_SOURCE_BYTES = 64 * 1024"
definition MAX_SETTINGS_SCHEMA_BYTES :: nat where "MAX_SETTINGS_SCHEMA_BYTES = 16 * 1024"
definition MAX_SETTINGS_VALUES_BYTES :: nat where "MAX_SETTINGS_VALUES_BYTES = 32 * 1024"
definition MAX_SETTINGS_FIELDS :: nat where "MAX_SETTINGS_FIELDS = 20"
definition MAX_SELECT_OPTIONS :: nat where "MAX_SELECT_OPTIONS = 40"
definition MAX_WIDGET_LIBRARIES :: nat where "MAX_WIDGET_LIBRARIES = 8"

definition isRecord :: "json option \<Rightarrow> bool" where
  "isRecord v = (case v of Some (JObj _) \<Rightarrow> True | _ \<Rightarrow> False)"

definition isNonEmptyString :: "json option \<Rightarrow> bool" where
  "isNonEmptyString v = (is_jstr v \<and> trim (the_jstr v) \<noteq> [])"

text \<open>The length in UTF-8 of a string of code units below 256.\<close>

definition encodedLength :: "string \<Rightarrow> nat" where
  "encodedLength s = sum_list (map (\<lambda>c. if (of_char c :: nat) < 128 then 1 else 2) s)"

definition parseJsonObject :: "(string \<Rightarrow> json option) \<Rightarrow> string \<Rightarrow> string + json" where
  "parseJsonObject parse s =
     (case parse s of None \<Rightarrow> Inl ''invalidJson''
      | Some v \<Rightarrow> if isRecord (Some v) then Inr v else Inl ''invalidObject'')"

definition is_lower :: "char \<Rightarrow> bool" where
  "is_lower c = (97 \<le> (of_char c :: nat) \<and> (of_char c :: nat) \<le> 122)"

definition is_upper :: "char \<Rightarrow> bool" where
  "is_upper c = (65 \<le> (of_char c :: nat) \<and> (of_char c :: nat) \<le> 90)"

text \<open>\<open>SETTINGS_KEY_PATTERN\<close> and \<open>LIBRARY_KEY_PATTERN\<close>.\<close>

fun settings_key_ok :: "string \<Rightarrow> bool" where
  "settings_key_ok [] = False"
| "settings_key_ok (c # cs) =
     ((is_lower c \<or> is_upper c) \<and> length cs \<le> 63
      \<and> list_all (\<lambda>x. is_lower x \<or> is_upper x \<or> is_digit x \<or> x = CHR ''_'') cs)"

fun library_key_ok :: "string \<Rightarrow> bool" where
  "library_key_ok [] = False"
| "library_key_ok (c # cs) =
     (is_lower c \<and> length cs \<le> 31
      \<and> list_all (\<lambda>x. is_lower x \<or> is_digit x \<or> x = CHR ''_'' \<or> x = CHR ''-'') cs)"

subsection \<open>The elements a script looks up\<close>

text \<open>The rest of a match of \<open>(.*?)\1\s*\)\<close> behind the opening quote: the id and what follows.\<close>

fun close_target :: "char \<Rightarrow> string \<Rightarrow> string \<Rightarrow> (string \<times> string) option" where
  "close_target q acc [] = None"
| "close_target q acc (c # cs) =
     (case (if c = q then dropWhile is_space cs else []) of
        x # rest \<Rightarrow>
          if x = CHR '')'' then Some (rev acc, rest)
          else if c = CHR 0x0A \<or> c = CHR 0x0D then None else close_target q (c # acc) cs
      | [] \<Rightarrow> if c = CHR 0x0A \<or> c = CHR 0x0D then None else close_target q (c # acc) cs)"

definition match_target :: "string \<Rightarrow> (string \<times> string) option" where
  "match_target s =
     (if starts_with s ''document.getElementById'' then
        (case dropWhile is_space (drop (length ''document.getElementById'') s) of
           p # r \<Rightarrow>
             if p = CHR ''('' then
               (case dropWhile is_space r of
                  q # t \<Rightarrow> if q = CHR 0x22 \<or> q = CHR 0x27 then close_target q [] t else None
                | [] \<Rightarrow> None)
             else None
         | [] \<Rightarrow> None)
      else None)"

lemma close_target_shorter: "close_target q acc s = Some (i, r) \<Longrightarrow> length r < length s"
proof (induction q acc s rule: close_target.induct)
  case (2 q acc c cs)
  show ?case
  proof (cases "if c = q then dropWhile is_space cs else []")
    case Nil
    then show ?thesis using 2 by (force split: if_splits)
  next
    case (Cons x rest)
    then have "length (x # rest) \<le> length cs" using length_dropWhile_le [of is_space cs] by (auto split: if_splits)
    then show ?thesis using 2 Cons by (force split: if_splits)
  qed
qed simp

lemma match_target_shorter: "match_target s = Some (i, r) \<Longrightarrow> length r < length s"
proof -
  assume m: "match_target s = Some (i, r)"
  let ?d = "drop (length ''document.getElementById'') s"
  obtain p u where u: "dropWhile is_space ?d = p # u"
    using m by (auto simp: match_target_def split: if_splits list.splits)
  obtain q t where t: "dropWhile is_space u = q # t" "close_target q [] t = Some (i, r)"
    using m u by (auto simp: match_target_def split: if_splits list.splits)
  have "length (p # u) \<le> length s"
    using length_dropWhile_le [of is_space ?d] u by simp
  moreover have "length (q # t) \<le> length u" using length_dropWhile_le [of is_space u] t by simp
  ultimately show ?thesis using close_target_shorter [OF t(2)] by simp
qed

function extractGetElementByIdTargets :: "string \<Rightarrow> string list" where
  "extractGetElementByIdTargets s =
     (case match_target s of
        Some (i, rest) \<Rightarrow> i # extractGetElementByIdTargets rest
      | None \<Rightarrow> (case s of [] \<Rightarrow> [] | c # cs \<Rightarrow> extractGetElementByIdTargets cs))"
  by pat_completeness auto
termination
  by (relation "measure length") (auto dest: match_target_shorter)

declare extractGetElementByIdTargets.simps [simp del]

definition dquote :: "string \<Rightarrow> string" where "dquote s = CHR 0x22 # s @ [CHR 0x22]"
definition squote :: "string \<Rightarrow> string" where "squote s = CHR 0x27 # s @ [CHR 0x27]"

definition htmlShimContainsId :: "string option \<Rightarrow> string \<Rightarrow> bool" where
  "htmlShimContainsId shim i =
     (truthy_str shim \<and> (str_includes (nullish shim []) (''id='' @ dquote i)
       \<or> str_includes (nullish shim []) (''id='' @ squote i)))"

definition sourceCreatesId :: "string \<Rightarrow> string \<Rightarrow> bool" where
  "sourceCreatesId source i =
     list_ex (str_includes source)
       [''.id = '' @ dquote i, ''.id = '' @ squote i, ''.id='' @ dquote i, ''.id='' @ squote i,
        ''setAttribute('' @ dquote ''id'' @ '', '' @ dquote i @ '')'',
        ''setAttribute('' @ squote ''id'' @ '', '' @ squote i @ '')'',
        ''setAttribute('' @ dquote ''id'' @ '','' @ dquote i @ '')'',
        ''setAttribute('' @ squote ''id'' @ '','' @ squote i @ '')'']"

definition validateScriptDomMounts :: "string \<Rightarrow> string option \<Rightarrow> string + unit" where
  "validateScriptDomMounts source shim =
     (if list_all (\<lambda>i. i = ''root'' \<or> htmlShimContainsId shim i \<or> sourceCreatesId source i)
           (extractGetElementByIdTargets source)
      then Inr () else Inl ''invalidScriptDomMount'')"

subsection \<open>The body of a script widget\<close>

record script_lifecycle =
  lc_kind :: string
  lc_minTickMs :: "rat option"

record script_body =
  sb_source :: string
  sb_network :: bool
  sb_networkTools :: bool
  sb_pollSeconds :: "rat option"
  sb_htmlShim :: "string option"
  sb_libraries :: "string list option"
  sb_lifecycle :: "script_lifecycle option"

text \<open>\<open>Number.isInteger\<close>, and a property that is missing or null.\<close>

definition is_integer :: "rat \<Rightarrow> bool" where
  "is_integer r = (of_int \<lfloor>r\<rfloor> = r)"

definition absent :: "json option \<Rightarrow> bool" where
  "absent v = (v = None \<or> v = Some JNull)"

definition optionalString :: "json option \<Rightarrow> string option" where
  "optionalString v = (if is_jstr v then Some (the_jstr v) else None)"

fun poll_seconds :: "json option \<Rightarrow> string + rat option" where
  "poll_seconds (Some (JNum r)) =
     (if is_integer r \<and> r \<ge> 1 then Inr (Some r) else Inl ''invalidPollSeconds'')"
| "poll_seconds v = (if absent v then Inr None else Inl ''invalidPollSeconds'')"

fun widget_libraries :: "json option \<Rightarrow> string + string list option" where
  "widget_libraries (Some (JArr vs)) =
     (if length vs > MAX_WIDGET_LIBRARIES then Inl ''invalidLibraries''
      else if list_all (\<lambda>v. is_jstr (Some v) \<and> library_key_ok (the_jstr (Some v))) vs
        then Inr (let ks = dedup (map (\<lambda>v. the_jstr (Some v)) vs) in if ks = [] then None else Some ks)
        else Inl ''invalidLibraries'')"
| "widget_libraries v = (if absent v then Inr None else Inl ''invalidLibraries'')"

definition lifecycle_kinds :: "string list" where
  "lifecycle_kinds = [''static'', ''periodic'', ''animation'', ''realtime'']"

fun min_tick :: "json option \<Rightarrow> string + rat option" where
  "min_tick (Some (JNum r)) =
     (if is_integer r \<and> 16 \<le> r \<and> r \<le> 60000 then Inr (Some r) else Inl ''invalidScriptBody'')"
| "min_tick v = (if absent v then Inr None else Inl ''invalidScriptBody'')"

definition widget_lifecycle :: "json option \<Rightarrow> string + script_lifecycle option" where
  "widget_lifecycle v =
     (if absent v then Inr None
      else case v of
        Some (JObj ps) \<Rightarrow>
          (let kind = json_get (JObj ps) ''kind'' in
           if \<not> is_jstr kind \<or> the_jstr kind \<notin> set lifecycle_kinds then Inl ''invalidScriptBody''
           else case min_tick (json_get (JObj ps) ''minTickMs'') of
             Inl e \<Rightarrow> Inl e
           | Inr t \<Rightarrow> Inr (Some \<lparr>lc_kind = the_jstr kind, lc_minTickMs = t\<rparr>))
      | _ \<Rightarrow> Inl ''invalidScriptBody'')"

definition validateScriptWidgetBody :: "json \<Rightarrow> string + script_body" where
  "validateScriptWidgetBody v =
     (let source = json_get v ''source''; perms = json_get v ''permissions'';
          src = the_jstr source; shim = optionalString (json_get v ''htmlShim'');
          perm = (\<lambda>k. case perms of Some p \<Rightarrow> json_get p k | None \<Rightarrow> None)
      in if \<not> isRecord (Some v) \<or> \<not> is_jstr source \<or> \<not> isRecord perms then Inl ''invalidScriptBody''
         else if trim src = [] then Inl ''invalidScriptBody''
         else if encodedLength src > MAX_SCRIPT_SOURCE_BYTES then Inl ''scriptTooLarge''
         else case validateScriptDomMounts src shim of Inl e \<Rightarrow> Inl e
         | Inr _ \<Rightarrow>
        (case poll_seconds (perm ''pollSeconds'') of Inl e \<Rightarrow> Inl e
         | Inr poll \<Rightarrow>
        (case widget_libraries (json_get v ''libraries'') of Inl e \<Rightarrow> Inl e
         | Inr libs \<Rightarrow>
        (case widget_lifecycle (json_get v ''lifecycle'') of Inl e \<Rightarrow> Inl e
         | Inr life \<Rightarrow>
           Inr \<lparr>sb_source = src, sb_network = (perm ''network'' = Some (JBool True)),
                sb_networkTools = (perm ''networkTools'' = Some (JBool True)), sb_pollSeconds = poll,
                sb_htmlShim = shim, sb_libraries = libs, sb_lifecycle = life\<rparr>))))"

definition validateCustomWidgetBodyJson :: "(string \<Rightarrow> json option) \<Rightarrow> string \<Rightarrow> string + script_body" where
  "validateCustomWidgetBodyJson parse s =
     (if encodedLength s > MAX_SCRIPT_SOURCE_BYTES + 4096 then Inl ''scriptTooLarge''
      else case parseJsonObject parse s of Inl e \<Rightarrow> Inl e | Inr v \<Rightarrow> validateScriptWidgetBody v)"

subsection \<open>The settings of a widget\<close>

datatype settings_field =
    TextField (field_key: string) (field_label: string) "string option" "string option"
  | NumberField (field_key: string) (field_label: string) "rat option" "rat option" "rat option" "rat option"
  | BooleanField (field_key: string) (field_label: string) "bool option"
  | SelectField (field_key: string) (field_label: string) "(string \<times> string) list" "string option"
  | SecretField (field_key: string) (field_label: string) "string option"

definition optional_num :: "json option \<Rightarrow> rat option" where
  "optional_num v = (case v of Some (JNum r) \<Rightarrow> Some r | _ \<Rightarrow> None)"

definition optional_bool :: "json option \<Rightarrow> bool option" where
  "optional_bool v = (case v of Some (JBool b) \<Rightarrow> Some b | _ \<Rightarrow> None)"

definition select_option :: "json \<Rightarrow> (string \<times> string) option" where
  "select_option v =
     (if isRecord (Some v) \<and> isNonEmptyString (json_get v ''label'') \<and> is_jstr (json_get v ''value'')
      then Some (the_jstr (json_get v ''label''), the_jstr (json_get v ''value'')) else None)"

definition select_options :: "json option \<Rightarrow> (string \<times> string) list option" where
  "select_options v =
     (case v of
        Some (JArr vs) \<Rightarrow>
          if vs = [] \<or> length vs > MAX_SELECT_OPTIONS then None
          else if list_all (\<lambda>x. select_option x \<noteq> None) vs then Some (js_compact (map select_option vs)) else None
      | _ \<Rightarrow> None)"

definition validateWidgetSettingsField :: "json \<Rightarrow> settings_field option" where
  "validateWidgetSettingsField v =
     (let kind = json_get v ''type''; key = json_get v ''key''; label = json_get v ''label'';
          k = the_jstr key; l = the_jstr label; t = the_jstr kind
      in if \<not> isRecord (Some v) \<or> \<not> is_jstr kind \<or> \<not> (is_jstr key \<and> settings_key_ok k)
            \<or> \<not> isNonEmptyString label then None
         else if t = ''text'' then
           Some (TextField k l (optionalString (json_get v ''placeholder''))
             (optionalString (json_get v ''defaultValue'')))
         else if t = ''number'' then
           Some (NumberField k l (optional_num (json_get v ''min'')) (optional_num (json_get v ''max''))
             (case optional_num (json_get v ''step'') of Some r \<Rightarrow> if r > 0 then Some r else None | None \<Rightarrow> None)
             (optional_num (json_get v ''defaultValue'')))
         else if t = ''boolean'' then Some (BooleanField k l (optional_bool (json_get v ''defaultValue'')))
         else if t = ''select'' then
           map_option (\<lambda>os. SelectField k l os (optionalString (json_get v ''defaultValue'')))
             (select_options (json_get v ''options''))
         else if t = ''secret'' then
           (if json_get v ''defaultValue'' \<noteq> None then None
            else Some (SecretField k l (optionalString (json_get v ''placeholder''))))
         else None)"

definition validateWidgetSettingsSchema :: "json \<Rightarrow> string + settings_field list" where
  "validateWidgetSettingsSchema v =
     (case json_get v ''fields'' of
        Some (JArr vs) \<Rightarrow>
          if length vs > MAX_SETTINGS_FIELDS then Inl ''invalidSettingsSchema''
          else if \<not> list_all (\<lambda>x. validateWidgetSettingsField x \<noteq> None) vs then Inl ''invalidSettingsField''
          else let fs = js_compact (map validateWidgetSettingsField vs)
               in if distinct (map field_key fs) then Inr fs else Inl ''duplicateSettingsKey''
      | _ \<Rightarrow> Inl ''invalidSettingsSchema'')"

definition validateWidgetSettingsSchemaJson :: "(string \<Rightarrow> json option) \<Rightarrow> string \<Rightarrow> string + settings_field list"
where
  "validateWidgetSettingsSchemaJson parse s =
     (if encodedLength s > MAX_SETTINGS_SCHEMA_BYTES then Inl ''settingsSchemaTooLarge''
      else case parseJsonObject parse s of Inl e \<Rightarrow> Inl e | Inr v \<Rightarrow> validateWidgetSettingsSchema v)"

definition parseWidgetSettingsValuesJson :: "(string \<Rightarrow> json option) \<Rightarrow> string \<Rightarrow> string + json" where
  "parseWidgetSettingsValuesJson parse s =
     (if encodedLength s > MAX_SETTINGS_VALUES_BYTES then Inl ''settingsValuesTooLarge''
      else parseJsonObject parse s)"

definition isWidgetSecretRef :: "json option \<Rightarrow> bool" where
  "isWidgetSecretRef v =
     (case v of
        Some (JObj ps) \<Rightarrow>
          (json_get (JObj ps) ''type'' = Some (JStr ''secretRef'')
           \<and> is_jstr (json_get (JObj ps) ''ownerId'') \<and> the_jstr (json_get (JObj ps) ''ownerId'') \<noteq> []
           \<and> json_get (JObj ps) ''hasSecret'' = Some (JBool True)
           \<and> (json_get (JObj ps) ''updatedAt'' = None \<or> is_jstr (json_get (JObj ps) ''updatedAt'')))
      | _ \<Rightarrow> False)"

definition dashboardWidgetSecretOwnerId :: "string \<Rightarrow> string \<Rightarrow> string" where
  "dashboardWidgetSecretOwnerId i key = ''dashboard-widget-secret:'' @ i @ '':'' @ key"

fun defaultSettingsValueForField :: "settings_field \<Rightarrow> json" where
  "defaultSettingsValueForField (SecretField _ _ _) = JNull"
| "defaultSettingsValueForField (TextField _ _ _ d) = JStr (nullish d [])"
| "defaultSettingsValueForField (NumberField _ _ _ _ _ d) = (case d of Some r \<Rightarrow> JNum r | None \<Rightarrow> JStr [])"
| "defaultSettingsValueForField (BooleanField _ _ d) = JBool (nullish d False)"
| "defaultSettingsValueForField (SelectField _ _ os d) =
     JStr (case d of Some x \<Rightarrow> x | None \<Rightarrow> (case os of [] \<Rightarrow> [] | (_, x) # _ \<Rightarrow> x))"

text \<open>Whether a given value is kept, by the kind of the field.\<close>

fun field_accepts :: "settings_field \<Rightarrow> json option \<Rightarrow> bool" where
  "field_accepts (TextField _ _ _ _) v = is_jstr v"
| "field_accepts (NumberField _ _ _ _ _ _) v = (optional_num v \<noteq> None \<or> v = Some (JStr []))"
| "field_accepts (BooleanField _ _ _) v = is_jbool v"
| "field_accepts (SelectField _ _ os _) v = (is_jstr v \<and> the_jstr v \<in> set (map snd os))"
| "field_accepts (SecretField _ _ _) v = isWidgetSecretRef v"

definition value_or_default :: "settings_field \<Rightarrow> json option \<Rightarrow> json" where
  "value_or_default f v = (case v of Some w \<Rightarrow> if field_accepts f v then w else defaultSettingsValueForField f
     | None \<Rightarrow> defaultSettingsValueForField f)"

definition settingsValuesWithDefaults :: "settings_field list \<Rightarrow> json \<Rightarrow> json" where
  "settingsValuesWithDefaults fs values =
     JObj (fold (\<lambda>f next. AList.update (field_key f) (value_or_default f (json_get values (field_key f))) next)
       fs [])"

fun secret_ok :: "json \<Rightarrow> string \<Rightarrow> settings_field \<Rightarrow> bool" where
  "secret_ok values i (SecretField k _ _) =
     (absent (json_get values k)
      \<or> isWidgetSecretRef (json_get values k)
        \<and> (case json_get values k of Some r \<Rightarrow> json_get r ''ownerId'' | None \<Rightarrow> None)
          = Some (JStr (dashboardWidgetSecretOwnerId i k)))"
| "secret_ok values i _ = True"

definition validateWidgetSettingsValuesForSchema :: "settings_field list \<Rightarrow> json \<Rightarrow> string \<Rightarrow> string + json" where
  "validateWidgetSettingsValuesForSchema fs values i =
     (if list_all (secret_ok values i) fs then Inr values else Inl ''invalidSecretReference'')"

section \<open>Accepted values are normal forms\<close>

text \<open>The validated values as \<open>JSON.stringify\<close> writes them: undefined properties are left out.\<close>

definition opt_prop :: "string \<Rightarrow> json option \<Rightarrow> (string \<times> json) list" where
  "opt_prop k v = (case v of None \<Rightarrow> [] | Some w \<Rightarrow> [(k, w)])"

lemma opt_prop_simps [simp]: "opt_prop k None = []" "opt_prop k (Some w) = [(k, w)]"
  by (simp_all add: opt_prop_def)

definition json_of_option :: "string \<times> string \<Rightarrow> json" where
  "json_of_option o' = JObj [(''label'', JStr (fst o')), (''value'', JStr (snd o'))]"

definition field_head :: "string \<Rightarrow> string \<Rightarrow> string \<Rightarrow> (string \<times> json) list" where
  "field_head t k l = [(''type'', JStr t), (''key'', JStr k), (''label'', JStr l)]"

fun json_of_field :: "settings_field \<Rightarrow> json" where
  "json_of_field (TextField k l p d) =
     JObj (field_head ''text'' k l @ opt_prop ''placeholder'' (map_option JStr p)
       @ opt_prop ''defaultValue'' (map_option JStr d))"
| "json_of_field (NumberField k l lo hi st d) =
     JObj (field_head ''number'' k l @ opt_prop ''min'' (map_option JNum lo) @ opt_prop ''max'' (map_option JNum hi)
       @ opt_prop ''step'' (map_option JNum st) @ opt_prop ''defaultValue'' (map_option JNum d))"
| "json_of_field (BooleanField k l d) =
     JObj (field_head ''boolean'' k l @ opt_prop ''defaultValue'' (map_option JBool d))"
| "json_of_field (SelectField k l os d) =
     JObj (field_head ''select'' k l @ [(''options'', JArr (map json_of_option os))]
       @ opt_prop ''defaultValue'' (map_option JStr d))"
| "json_of_field (SecretField k l p) =
     JObj (field_head ''secret'' k l @ opt_prop ''placeholder'' (map_option JStr p))"

definition json_of_schema :: "settings_field list \<Rightarrow> json" where
  "json_of_schema fs = JObj [(''fields'', JArr (map json_of_field fs))]"

fun field_wf :: "settings_field \<Rightarrow> bool" where
  "field_wf (NumberField k l lo hi st d) =
     (settings_key_ok k \<and> trim l \<noteq> [] \<and> (case st of Some r \<Rightarrow> r > 0 | None \<Rightarrow> True))"
| "field_wf (SelectField k l os d) =
     (settings_key_ok k \<and> trim l \<noteq> [] \<and> os \<noteq> [] \<and> length os \<le> MAX_SELECT_OPTIONS
      \<and> list_all (\<lambda>x. trim (fst x) \<noteq> []) os)"
| "field_wf f = (settings_key_ok (field_key f) \<and> trim (field_label f) \<noteq> [])"

definition schema_wf :: "settings_field list \<Rightarrow> bool" where
  "schema_wf fs = (length fs \<le> MAX_SETTINGS_FIELDS \<and> list_all field_wf fs \<and> distinct (map field_key fs))"

lemma jstr_simps [simp]:
  "is_jstr (Some (JStr x))" "the_jstr (Some (JStr x)) = x" "\<not> is_jstr None"
  "is_jbool (Some (JBool b))" "the_jbool (Some (JBool b)) = b" "isRecord (Some (JObj ps))"
  "optionalString None = None" "optionalString (Some (JStr x)) = Some x"
  "optional_num None = None" "optional_num (Some (JNum r)) = Some r"
  "optional_bool None = None" "optional_bool (Some (JBool b)) = Some b"
  by (simp_all add: is_jstr_def the_jstr_def is_jbool_def the_jbool_def isRecord_def optionalString_def
      optional_num_def optional_bool_def)

lemma select_option_of: "trim (fst x) \<noteq> [] \<Longrightarrow> select_option (json_of_option x) = Some x"
  by (simp add: select_option_def json_of_option_def isNonEmptyString_def)

lemma select_options_of:
  assumes "os \<noteq> []" "length os \<le> MAX_SELECT_OPTIONS" "list_all (\<lambda>x. trim (fst x) \<noteq> []) os"
  shows "select_options (Some (JArr (map json_of_option os))) = Some os"
proof -
  have "map select_option (map json_of_option os) = map Some os"
    using assms(3) by (auto simp: list_all_iff select_option_of)
  moreover have "list_all (\<lambda>x. select_option x \<noteq> None) (map json_of_option os)"
    using assms(3) by (auto simp: list_all_iff select_option_of)
  ultimately show ?thesis using assms by (simp add: select_options_def del: map_map)
qed

lemma field_of_json: "field_wf f \<Longrightarrow> validateWidgetSettingsField (json_of_field f) = Some f"
proof (cases f)
  case (TextField k l p d)
  assume "field_wf f"
  then show ?thesis unfolding TextField
    by (cases p; cases d) (simp_all add: validateWidgetSettingsField_def field_head_def isNonEmptyString_def Let_def)
next
  case (NumberField k l lo hi st d)
  assume "field_wf f"
  then show ?thesis unfolding NumberField
    by (cases lo; cases hi; cases st; cases d)
      (simp_all add: validateWidgetSettingsField_def field_head_def isNonEmptyString_def Let_def)
next
  case (BooleanField k l d)
  assume "field_wf f"
  then show ?thesis unfolding BooleanField
    by (cases d) (simp_all add: validateWidgetSettingsField_def field_head_def isNonEmptyString_def Let_def)
next
  case (SelectField k l os d)
  assume "field_wf f"
  then show ?thesis unfolding SelectField using select_options_of [of os]
    by (cases d) (simp_all add: validateWidgetSettingsField_def field_head_def isNonEmptyString_def Let_def)
next
  case (SecretField k l p)
  assume "field_wf f"
  then show ?thesis unfolding SecretField
    by (cases p) (simp_all add: validateWidgetSettingsField_def field_head_def isNonEmptyString_def Let_def)
qed

lemma js_compact_all: "list_all (\<lambda>x. g x \<noteq> None) xs \<Longrightarrow> map Some (js_compact (map g xs)) = map g xs"
  by (induction xs) auto

lemma select_options_wf:
  "select_options v = Some os
    \<Longrightarrow> os \<noteq> [] \<and> length os \<le> MAX_SELECT_OPTIONS \<and> list_all (\<lambda>x. trim (fst x) \<noteq> []) os"
proof -
  assume s: "select_options v = Some os"
  then obtain vs where v: "v = Some (JArr vs)" "vs \<noteq> []" "length vs \<le> MAX_SELECT_OPTIONS"
    "list_all (\<lambda>x. select_option x \<noteq> None) vs" "os = js_compact (map select_option vs)"
    by (auto simp: select_options_def split: option.splits json.splits if_splits)
  have m: "map Some os = map select_option vs" using js_compact_all [OF v(4)] v(5) by simp
  then have l: "length os = length vs" by (metis length_map)
  have "trim (fst x) \<noteq> []" if "x \<in> set os" for x
  proof -
    have "Some x \<in> set (map select_option vs)" using that m by (metis imageI set_map)
    then show ?thesis by (auto simp: select_option_def isNonEmptyString_def split: if_splits)
  qed
  then show ?thesis using l v by (auto simp: list_all_iff)
qed

lemma validated_field_wf: "validateWidgetSettingsField v = Some f \<Longrightarrow> field_wf f"
  by (auto simp: validateWidgetSettingsField_def isNonEmptyString_def Let_def dest: select_options_wf
      split: if_splits option.splits)

lemma schema_accepts: "schema_wf fs \<Longrightarrow> validateWidgetSettingsSchema (json_of_schema fs) = Inr fs"
proof -
  assume w: "schema_wf fs"
  have m: "map validateWidgetSettingsField (map json_of_field fs) = map Some fs"
    using w by (auto simp: schema_wf_def list_all_iff field_of_json)
  have "list_all (\<lambda>x. validateWidgetSettingsField x \<noteq> None) (map json_of_field fs)"
    using w by (auto simp: schema_wf_def list_all_iff field_of_json)
  then show ?thesis using w m
    by (simp add: validateWidgetSettingsSchema_def json_of_schema_def schema_wf_def Let_def del: map_map)
qed

lemma schema_accepted_wf: "validateWidgetSettingsSchema v = Inr fs \<Longrightarrow> schema_wf fs"
proof -
  assume s: "validateWidgetSettingsSchema v = Inr fs"
  then obtain vs where v: "json_get v ''fields'' = Some (JArr vs)" "length vs \<le> MAX_SETTINGS_FIELDS"
    "list_all (\<lambda>x. validateWidgetSettingsField x \<noteq> None) vs"
    "fs = js_compact (map validateWidgetSettingsField vs)" "distinct (map field_key fs)"
    by (auto simp: validateWidgetSettingsSchema_def Let_def split: option.splits json.splits if_splits)
  have m: "map Some fs = map validateWidgetSettingsField vs" using js_compact_all [OF v(3)] v(4) by simp
  then have "length fs = length vs" by (metis length_map)
  moreover have "field_wf f" if "f \<in> set fs" for f
  proof -
    have "Some f \<in> set (map validateWidgetSettingsField vs)" using that m by (metis imageI set_map)
    then show ?thesis by (auto dest!: sym [of "Some f"] intro: validated_field_wf)
  qed
  ultimately show ?thesis using v by (auto simp: schema_wf_def list_all_iff)
qed

definition json_of_lifecycle :: "script_lifecycle \<Rightarrow> json" where
  "json_of_lifecycle l = JObj ((''kind'', JStr (lc_kind l)) # opt_prop ''minTickMs'' (map_option JNum (lc_minTickMs l)))"

definition json_of_body :: "script_body \<Rightarrow> json" where
  "json_of_body b =
     JObj ([(''source'', JStr (sb_source b)),
            (''permissions'', JObj ([(''network'', JBool (sb_network b)), (''networkTools'', JBool (sb_networkTools b))]
               @ opt_prop ''pollSeconds'' (map_option JNum (sb_pollSeconds b))))]
           @ opt_prop ''htmlShim'' (map_option JStr (sb_htmlShim b))
           @ opt_prop ''libraries'' (map_option (\<lambda>ks. JArr (map JStr ks)) (sb_libraries b))
           @ opt_prop ''lifecycle'' (map_option json_of_lifecycle (sb_lifecycle b)))"

definition lifecycle_wf :: "script_lifecycle \<Rightarrow> bool" where
  "lifecycle_wf l = (lc_kind l \<in> set lifecycle_kinds
     \<and> (case lc_minTickMs l of Some r \<Rightarrow> is_integer r \<and> 16 \<le> r \<and> r \<le> 60000 | None \<Rightarrow> True))"

definition body_wf :: "script_body \<Rightarrow> bool" where
  "body_wf b =
     (trim (sb_source b) \<noteq> [] \<and> encodedLength (sb_source b) \<le> MAX_SCRIPT_SOURCE_BYTES
      \<and> validateScriptDomMounts (sb_source b) (sb_htmlShim b) = Inr ()
      \<and> (case sb_pollSeconds b of Some r \<Rightarrow> is_integer r \<and> 1 \<le> r | None \<Rightarrow> True)
      \<and> (case sb_libraries b of
           Some ks \<Rightarrow> ks \<noteq> [] \<and> distinct ks \<and> length ks \<le> MAX_WIDGET_LIBRARIES \<and> list_all library_key_ok ks
         | None \<Rightarrow> True)
      \<and> (case sb_lifecycle b of Some l \<Rightarrow> lifecycle_wf l | None \<Rightarrow> True))"

lemma absent_simps [simp]: "absent None" "absent (Some JNull)" "\<not> absent (Some (JObj ps))" "\<not> absent (Some (JStr x))"
  by (simp_all add: absent_def)

lemma libraries_of:
  assumes "ks \<noteq> []" "distinct ks" "length ks \<le> MAX_WIDGET_LIBRARIES" "list_all library_key_ok ks"
  shows "widget_libraries (Some (JArr (map JStr ks))) = Inr (Some ks)"
  using assms by (simp add: list_all_iff o_def dedup_distinct Let_def)

lemma length_dedup_from: "length (dedup_from seen xs) \<le> length xs"
  by (induction seen xs rule: dedup_from.induct) auto

lemma libraries_wf:
  "widget_libraries v = Inr (Some ks)
    \<Longrightarrow> ks \<noteq> [] \<and> distinct ks \<and> length ks \<le> MAX_WIDGET_LIBRARIES \<and> list_all library_key_ok ks"
proof (induction v rule: widget_libraries.induct)
  case (1 vs)
  then show ?case using length_dedup_from [of "[]" "map (\<lambda>v. the_jstr (Some v)) vs"]
    by (auto simp: Let_def list_all_iff dedup_def [symmetric] split: if_splits)
qed (auto split: if_splits)

lemma lifecycle_of: "lifecycle_wf l \<Longrightarrow> widget_lifecycle (Some (json_of_lifecycle l)) = Inr (Some l)"
  by (cases "lc_minTickMs l") (auto simp: widget_lifecycle_def json_of_lifecycle_def lifecycle_wf_def Let_def)

lemma min_tick_wf: "min_tick v = Inr (Some r) \<Longrightarrow> is_integer r \<and> 16 \<le> r \<and> r \<le> 60000"
  by (induction v rule: min_tick.induct) (auto split: if_splits)

lemma poll_wf: "poll_seconds v = Inr (Some r) \<Longrightarrow> is_integer r \<and> 1 \<le> r"
  by (induction v rule: poll_seconds.induct) (auto split: if_splits)

lemma lifecycle_accepted_wf: "widget_lifecycle v = Inr (Some l) \<Longrightarrow> lifecycle_wf l"
  by (auto simp: widget_lifecycle_def lifecycle_wf_def Let_def dest: min_tick_wf
      split: if_splits option.splits json.splits sum.splits)

lemma body_accepted_wf: "validateScriptWidgetBody v = Inr b \<Longrightarrow> body_wf b"
  by (auto simp: validateScriptWidgetBody_def body_wf_def Let_def
      dest: libraries_wf lifecycle_accepted_wf poll_wf split: if_splits sum.splits option.splits)

lemma permissions_get:
  "json_get (JObj ([(''network'', JBool n), (''networkTools'', JBool t)] @ opt_prop ''pollSeconds'' p)) ''network''
     = Some (JBool n)"
  "json_get (JObj ([(''network'', JBool n), (''networkTools'', JBool t)] @ opt_prop ''pollSeconds'' p)) ''networkTools''
     = Some (JBool t)"
  "json_get (JObj ([(''network'', JBool n), (''networkTools'', JBool t)] @ opt_prop ''pollSeconds'' p)) ''pollSeconds'' = p"
  by (cases p; simp)+

lemma body_get:
  "json_get (JObj ([(''source'', s), (''permissions'', p)] @ opt_prop ''htmlShim'' h @ opt_prop ''libraries'' l
     @ opt_prop ''lifecycle'' c)) ''source'' = Some s"
  "json_get (JObj ([(''source'', s), (''permissions'', p)] @ opt_prop ''htmlShim'' h @ opt_prop ''libraries'' l
     @ opt_prop ''lifecycle'' c)) ''permissions'' = Some p"
  "json_get (JObj ([(''source'', s), (''permissions'', p)] @ opt_prop ''htmlShim'' h @ opt_prop ''libraries'' l
     @ opt_prop ''lifecycle'' c)) ''htmlShim'' = h"
  "json_get (JObj ([(''source'', s), (''permissions'', p)] @ opt_prop ''htmlShim'' h @ opt_prop ''libraries'' l
     @ opt_prop ''lifecycle'' c)) ''libraries'' = l"
  "json_get (JObj ([(''source'', s), (''permissions'', p)] @ opt_prop ''htmlShim'' h @ opt_prop ''libraries'' l
     @ opt_prop ''lifecycle'' c)) ''lifecycle'' = c"
  by (cases h; cases l; cases c; simp)+

lemma body_of_json:
  assumes w: "body_wf b"
  shows "validateScriptWidgetBody (json_of_body b) = Inr b"
proof -
  have poll: "poll_seconds (map_option JNum (sb_pollSeconds b)) = Inr (sb_pollSeconds b)"
    using w by (cases "sb_pollSeconds b") (auto simp: body_wf_def)
  have libs: "widget_libraries (map_option (\<lambda>ks. JArr (map JStr ks)) (sb_libraries b)) = Inr (sb_libraries b)"
    using w libraries_of by (cases "sb_libraries b") (auto simp: body_wf_def simp del: widget_libraries.simps(1))
  have life: "widget_lifecycle (map_option json_of_lifecycle (sb_lifecycle b)) = Inr (sb_lifecycle b)"
    using w lifecycle_of by (cases "sb_lifecycle b") (auto simp: body_wf_def widget_lifecycle_def)
  have shim: "optionalString (map_option JStr (sb_htmlShim b)) = sb_htmlShim b" by (cases "sb_htmlShim b") simp_all
  show ?thesis using w
    by (simp add: validateScriptWidgetBody_def json_of_body_def Let_def body_get permissions_get poll libs life shim
        body_wf_def del: json_get.simps append.simps poll_seconds.simps)
qed

section \<open>Completing the values\<close>

lemma map_of_fold_update:
  "distinct (map key fs) \<Longrightarrow> set (map key fs) \<inter> fst ` set ps = {}
    \<Longrightarrow> fold (\<lambda>f. AList.update (key f) (h f)) fs ps = ps @ map (\<lambda>f. (key f, h f)) fs"
proof (induction fs arbitrary: ps)
  case (Cons f fs)
  have "AList.update (key f) (h f) ps = ps @ [(key f, h f)]"
    using Cons.prems(2) by (induction ps) auto
  then show ?case using Cons by auto
qed simp

lemma completed_values:
  "distinct (map field_key fs) \<Longrightarrow> settingsValuesWithDefaults fs vs
     = JObj (map (\<lambda>f. (field_key f, value_or_default f (json_get vs (field_key f)))) fs)"
  using map_of_fold_update [of field_key fs "[]" "\<lambda>f. value_or_default f (json_get vs (field_key f))"]
  by (simp add: settingsValuesWithDefaults_def)

lemma completed_get:
  assumes "distinct (map field_key fs)" "f \<in> set fs"
  shows "json_get (settingsValuesWithDefaults fs vs) (field_key f) = Some (value_or_default f (json_get vs (field_key f)))"
proof -
  let ?ps = "map (\<lambda>f. (field_key f, value_or_default f (json_get vs (field_key f)))) fs"
  have d: "distinct (map fst (rev ?ps))" using assms(1) by (simp add: rev_map [symmetric] o_def)
  have "(field_key f, value_or_default f (json_get vs (field_key f))) \<in> set (rev ?ps)" using assms(2) by auto
  then have "map_of (rev ?ps) (field_key f) = Some (value_or_default f (json_get vs (field_key f)))"
    using d by (simp only: map_of_eq_Some_iff)
  then show ?thesis by (simp add: completed_values [OF assms(1)])
qed

lemma value_or_default_idem:
  "value_or_default f (Some (value_or_default f v)) = value_or_default f v"
  by (cases v) (auto simp: value_or_default_def)

text \<open>A value a field holds after completion: one it accepts, or its default.\<close>

lemma value_or_default_cases:
  "value_or_default f v = defaultSettingsValueForField f \<or> v = Some (value_or_default f v) \<and> field_accepts f v"
  by (cases v) (auto simp: value_or_default_def)

lemma completed_idem:
  assumes d: "distinct (map field_key fs)"
  shows "settingsValuesWithDefaults fs (settingsValuesWithDefaults fs vs) = settingsValuesWithDefaults fs vs"
  using completed_get [OF d, of _ vs] value_or_default_idem
  by (simp add: completed_values [OF d, of "settingsValuesWithDefaults fs vs"])
    (simp add: completed_values [OF d])



text \<open>
  Completing the settings of a validated schema gives every field a value: the stored one where
  the field accepts it, else the default; nothing else is kept, and completing again changes nothing.
\<close>

theorem completion_settles:
  assumes "validateWidgetSettingsSchema v = Inr fs"
  shows "let w = settingsValuesWithDefaults fs vs
    in settingsValuesWithDefaults fs w = w
      \<and> w = JObj (map (\<lambda>f. (field_key f, the (json_get w (field_key f)))) fs)
      \<and> (\<forall>f \<in> set fs. field_accepts f (json_get vs (field_key f))
            \<longrightarrow> json_get w (field_key f) = json_get vs (field_key f))
      \<and> (\<forall>f \<in> set fs. \<not> field_accepts f (json_get vs (field_key f))
            \<longrightarrow> json_get w (field_key f) = Some (defaultSettingsValueForField f))"
proof -
  have d: "distinct (map field_key fs)" using schema_accepted_wf [OF assms] by (simp add: schema_wf_def)
  have "value_or_default f x = the x" "x \<noteq> None" if "field_accepts f x" for f x
    using that by (cases f; cases x; simp add: value_or_default_def isWidgetSecretRef_def optional_num_def is_jbool_def)+
  moreover have "value_or_default f x = defaultSettingsValueForField f" if "\<not> field_accepts f x" for f x
    using that by (cases x) (simp_all add: value_or_default_def)
  ultimately show ?thesis
    using completed_idem [OF d, of vs] completed_get [OF d, of _ vs]
    by (auto simp: Let_def completed_values [OF d, of vs])
qed

definition demo_schema :: json where
  "demo_schema = JObj [(''fields'', JArr
     [JObj [(''type'', JStr ''select''), (''key'', JStr ''unit''), (''label'', JStr ''Unit''),
        (''options'', JArr [JObj [(''label'', JStr ''Celsius''), (''value'', JStr ''c'')]]), (''defaultValue'', JStr ''k'')],
      JObj [(''type'', JStr ''boolean''), (''key'', JStr ''on''), (''label'', JStr ''On'')]])]"

definition demo_fields :: "settings_field list" where
  "demo_fields = [SelectField ''unit'' ''Unit'' [(''Celsius'', ''c'')] (Some ''k''), BooleanField ''on'' ''On'' None]"

lemma demo_schema_accepted: "validateWidgetSettingsSchema demo_schema = Inr demo_fields"
  by code_simp

theorem completion_settles_witness:
  "let w = settingsValuesWithDefaults demo_fields (JObj [(''on'', JBool True), (''other'', JNull)])
    in settingsValuesWithDefaults demo_fields w = w \<and> w = JObj [(''unit'', JStr ''k''), (''on'', JBool True)]"
  using completion_settles [OF demo_schema_accepted, of "JObj [(''on'', JBool True), (''other'', JNull)]"]
  by (simp add: Let_def) code_simp

text \<open>A select field may default to a value that is none of its options: the check lets it through.\<close>

lemma select_default_outside_options:
  "validateWidgetSettingsSchema demo_schema = Inr demo_fields
    \<and> \<not> field_accepts (hd demo_fields) (json_get (settingsValuesWithDefaults demo_fields (JObj [])) ''unit'')"
  by code_simp

end
