(* ===== verification/Dashboard_Store.thy ===== *)
theory Dashboard_Store
  imports Dashboard_Schema
begin

text \<open>
  The Dashboard: \<open>modules/dashboard/state/dashboardStore.ts\<close> with the storage it calls,
  \<open>state/persistence.ts\<close>, and the values of \<open>types.ts\<close>.

  In the browser preview \<open>persistence.ts\<close> keeps the Dashboard itself; its functions are modelled on
  that state, with the errors they throw as \<open>Inl\<close>.  In the application they ask the backend, which
  is not modelled: each action of the store is split into what it does at once and what it does with
  the answer, and the answer is an argument.  The preview's answers come back before the next event,
  so there an action is the two halves put together.

  A patch holds the properties that are present; \<open>JSON.parse\<close> and the clock are arguments; the
  catalog of dynamic backgrounds is the list of its ids.
\<close>

section \<open>Values\<close>

datatype widget_kind = BuiltInWidget | ScriptWidget
datatype widget_preset = PanelPreset | AmbientPreset | HeroPreset
datatype widget_creator = CreatedByUser | CreatedByAgent | CreatedByImport

record dash_view =
  dv_id :: string
  dv_title :: string
  dv_sortOrder :: int
  dv_gridDensity :: string
  dv_background :: json
  dv_tabColor :: "string option"

record dash_instance =
  di_id :: string
  di_viewId :: string
  di_kind :: widget_kind
  di_sourceId :: string
  di_preset :: widget_preset
  di_accentName :: string
  di_iconName :: string
  di_customTitle :: "string option"
  di_glass :: "bool option"
  di_hideTitle :: "bool option"
  di_bodyOpacity :: "rat option option"
  di_settingsValuesJson :: string
  di_gridX :: int
  di_gridY :: int
  di_gridW :: int
  di_gridH :: int
  di_sortOrder :: int

record dash_widget =
  cw_id :: string
  cw_title :: string
  cw_summary :: string
  cw_category :: string
  cw_bodyJson :: string
  cw_settingsSchemaJson :: string
  cw_createdBy :: widget_creator
  cw_createdAt :: string

record dash_load =
  dl_views :: "dash_view list"
  dl_instances :: "dash_instance list"
  dl_widgets :: "dash_widget list"

record view_patch =
  vp_title :: "string option"
  vp_gridDensity :: "string option"
  vp_sortOrder :: "int option"
  vp_background :: "json option"
  vp_tabColor :: "string option option"

record instance_patch =
  ip_preset :: "widget_preset option"
  ip_accentName :: "string option"
  ip_iconName :: "string option"
  ip_customTitle :: "string option option"
  ip_glass :: "bool option"
  ip_hideTitle :: "bool option"
  ip_bodyOpacity :: "rat option option"
  ip_settingsValuesJson :: "string option"
  ip_gridX :: "int option"
  ip_gridY :: "int option"
  ip_gridW :: "int option"
  ip_gridH :: "int option"

record widget_patch =
  wp_title :: "string option"
  wp_summary :: "string option"
  wp_category :: "string option"
  wp_bodyJson :: "string option"
  wp_settingsSchemaJson :: "string option"

record layout_entry =
  le_id :: string
  le_gridX :: int
  le_gridY :: int
  le_gridW :: int
  le_gridH :: int

record instance_input =
  ii_viewId :: string
  ii_kind :: widget_kind
  ii_sourceId :: string
  ii_preset :: widget_preset
  ii_accentName :: string
  ii_iconName :: string
  ii_gridX :: int
  ii_gridY :: int
  ii_gridW :: int
  ii_gridH :: int

record widget_input =
  wi_title :: string
  wi_summary :: string
  wi_category :: string
  wi_bodyJson :: string
  wi_settingsSchemaJson :: "string option"
  wi_createdBy :: widget_creator

fun defaultWidgetPresentationForPreset :: "widget_preset \<Rightarrow> bool" where
  "defaultWidgetPresentationForPreset PanelPreset = False"
| "defaultWidgetPresentationForPreset AmbientPreset = True"
| "defaultWidgetPresentationForPreset HeroPreset = False"

definition defaultBodyOpacityForInstance :: "dash_instance \<Rightarrow> rat" where
  "defaultBodyOpacityForInstance i =
     (if di_kind i = BuiltInWidget \<and> di_sourceId i \<in> {''appLauncher'', ''connectionPane''} then 70 else 100)"

definition effectiveBodyOpacity :: "dash_instance \<Rightarrow> rat" where
  "effectiveBodyOpacity i =
     (case di_bodyOpacity i of Some (Some r) \<Rightarrow> r | _ \<Rightarrow> defaultBodyOpacityForInstance i)"

text \<open>\<open>Object.assign(view, patch)\<close> and its like.\<close>

definition assign_view :: "view_patch \<Rightarrow> dash_view \<Rightarrow> dash_view" where
  "assign_view p v =
     v\<lparr>dv_title := nullish (vp_title p) (dv_title v),
       dv_gridDensity := nullish (vp_gridDensity p) (dv_gridDensity v),
       dv_sortOrder := nullish (vp_sortOrder p) (dv_sortOrder v),
       dv_background := nullish (vp_background p) (dv_background v),
       dv_tabColor := nullish (vp_tabColor p) (dv_tabColor v)\<rparr>"

definition assign_instance :: "instance_patch \<Rightarrow> dash_instance \<Rightarrow> dash_instance" where
  "assign_instance p i =
     i\<lparr>di_preset := nullish (ip_preset p) (di_preset i),
       di_accentName := nullish (ip_accentName p) (di_accentName i),
       di_iconName := nullish (ip_iconName p) (di_iconName i),
       di_customTitle := nullish (ip_customTitle p) (di_customTitle i),
       di_glass := nullish_opt (ip_glass p) (di_glass i),
       di_hideTitle := nullish_opt (ip_hideTitle p) (di_hideTitle i),
       di_bodyOpacity := nullish_opt (ip_bodyOpacity p) (di_bodyOpacity i),
       di_settingsValuesJson := nullish (ip_settingsValuesJson p) (di_settingsValuesJson i),
       di_gridX := nullish (ip_gridX p) (di_gridX i), di_gridY := nullish (ip_gridY p) (di_gridY i),
       di_gridW := nullish (ip_gridW p) (di_gridW i), di_gridH := nullish (ip_gridH p) (di_gridH i)\<rparr>"

definition assign_widget :: "widget_patch \<Rightarrow> dash_widget \<Rightarrow> dash_widget" where
  "assign_widget p w =
     w\<lparr>cw_title := nullish (wp_title p) (cw_title w), cw_summary := nullish (wp_summary p) (cw_summary w),
       cw_category := nullish (wp_category p) (cw_category w), cw_bodyJson := nullish (wp_bodyJson p) (cw_bodyJson w),
       cw_settingsSchemaJson := nullish (wp_settingsSchemaJson p) (cw_settingsSchemaJson w)\<rparr>"

definition set_grid :: "layout_entry \<Rightarrow> dash_instance \<Rightarrow> dash_instance" where
  "set_grid e i = i\<lparr>di_gridX := le_gridX e, di_gridY := le_gridY e, di_gridW := le_gridW e, di_gridH := le_gridH e\<rparr>"

text \<open>\<open>new Map(layout.map((l) => [l.id, l]))\<close>: the last entry of an id counts.\<close>

definition entry_of :: "layout_entry list \<Rightarrow> string \<Rightarrow> layout_entry option" where
  "entry_of l i = map_of (rev (map (\<lambda>e. (le_id e, e)) l)) i"

definition view_of :: "dash_view list \<Rightarrow> string \<Rightarrow> dash_view option" where
  "view_of vs i = map_of (rev (map (\<lambda>v. (dv_id v, v)) vs)) i"

section \<open>The browser preview\<close>

record preview =
  previewIdCounter :: nat
  previewState :: "dash_load option"

definition preview_initial :: preview where
  "preview_initial = \<lparr>previewIdCounter = 0, previewState = None\<rparr>"

definition createPreviewId :: "string \<Rightarrow> preview \<Rightarrow> string \<times> preview" where
  "createPreviewId kind p =
     (let n = previewIdCounter p + 1
      in (''preview-'' @ kind @ ''-'' @ nat_string n, p\<lparr>previewIdCounter := n\<rparr>))"

definition browserPreviewState :: "preview \<Rightarrow> dash_load \<times> preview" where
  "browserPreviewState p =
     (case previewState p of
        Some s \<Rightarrow> (s, p)
      | None \<Rightarrow>
          (let (v, p1) = createPreviewId ''view'' p; (i, p2) = createPreviewId ''inst'' p1;
               s = \<lparr>dl_views = [\<lparr>dv_id = v, dv_title = ''Default'', dv_sortOrder = 0, dv_gridDensity = ''default'',
                      dv_background = JNull, dv_tabColor = None\<rparr>],
                    dl_instances = [\<lparr>di_id = i, di_viewId = v, di_kind = BuiltInWidget, di_sourceId = ''appLauncher'',
                      di_preset = PanelPreset, di_accentName = ''blue'', di_iconName = ''Wrench'', di_customTitle = None,
                      di_glass = Some False, di_hideTitle = Some False, di_bodyOpacity = None,
                      di_settingsValuesJson = ''{}'', di_gridX = 0, di_gridY = 0, di_gridW = 4, di_gridH = 3,
                      di_sortOrder = 0\<rparr>],
                    dl_widgets = []\<rparr>
           in (s, p2\<lparr>previewState := Some s\<rparr>)))"

definition preview_loadDashboardState :: "preview \<Rightarrow> dash_load \<times> preview" where
  "preview_loadDashboardState p = browserPreviewState p"

definition preview_createView :: "string \<Rightarrow> string option \<Rightarrow> preview \<Rightarrow> dash_view \<times> preview" where
  "preview_createView title density p =
     (let (s, p1) = browserPreviewState p; (i, p2) = createPreviewId ''view'' p1;
          v = \<lparr>dv_id = i, dv_title = title, dv_sortOrder = int (length (dl_views s)),
               dv_gridDensity = nullish density ''default'', dv_background = JNull, dv_tabColor = None\<rparr>
      in (v, p2\<lparr>previewState := Some (s\<lparr>dl_views := dl_views s @ [v]\<rparr>)\<rparr>))"

text \<open>\<open>items.find((x) => x.id === id)\<close> changed in place: the first one with the id.\<close>

fun update_first :: "('a \<Rightarrow> bool) \<Rightarrow> ('a \<Rightarrow> 'a) \<Rightarrow> 'a list \<Rightarrow> 'a list" where
  "update_first p f [] = []"
| "update_first p f (x # xs) = (if p x then f x # xs else x # update_first p f xs)"

definition preview_updateView :: "string \<Rightarrow> view_patch \<Rightarrow> preview \<Rightarrow> (string + dash_view) \<times> preview" where
  "preview_updateView i patch p =
     (let (s, p1) = browserPreviewState p
      in case find (\<lambda>v. dv_id v = i) (dl_views s) of
        None \<Rightarrow> (Inl ''Error: Dashboard view not found.'', p1)
      | Some v \<Rightarrow> (Inr (assign_view patch v),
          p1\<lparr>previewState := Some (s\<lparr>dl_views := update_first (\<lambda>v. dv_id v = i) (assign_view patch) (dl_views s)\<rparr>)\<rparr>))"

definition preview_removeView :: "string \<Rightarrow> preview \<Rightarrow> preview" where
  "preview_removeView i p =
     (let (s, p1) = browserPreviewState p
      in p1\<lparr>previewState := Some (s\<lparr>dl_views := filter (\<lambda>v. dv_id v \<noteq> i) (dl_views s),
           dl_instances := filter (\<lambda>x. di_viewId x \<noteq> i) (dl_instances s)\<rparr>)\<rparr>)"

text \<open>The preview numbers the stored objects themselves: a repeated id leaves the last position.\<close>

definition renumbered :: "string list \<Rightarrow> dash_view list \<Rightarrow> dash_view list" where
  "renumbered ids vs =
     (let position = map_of (rev (map (\<lambda>(n, i). (i, n)) (enumerate 0 ids)))
      in js_compact (map (\<lambda>i. map_option (dv_sortOrder_update (\<lambda>_. int (nullish (position i) 0))) (view_of vs i)) ids))"

definition preview_reorderViews :: "string list \<Rightarrow> preview \<Rightarrow> preview" where
  "preview_reorderViews ids p =
     (let (s, p1) = browserPreviewState p in p1\<lparr>previewState := Some (s\<lparr>dl_views := renumbered ids (dl_views s)\<rparr>)\<rparr>)"

definition preview_addInstance :: "instance_input \<Rightarrow> preview \<Rightarrow> dash_instance \<times> preview" where
  "preview_addInstance x p =
     (let (s, p1) = browserPreviewState p; (i, p2) = createPreviewId ''inst'' p1;
          inst = \<lparr>di_id = i, di_viewId = ii_viewId x, di_kind = ii_kind x, di_sourceId = ii_sourceId x,
                  di_preset = ii_preset x, di_accentName = ii_accentName x, di_iconName = ii_iconName x,
                  di_customTitle = None, di_glass = Some False,
                  di_hideTitle = Some (defaultWidgetPresentationForPreset (ii_preset x)), di_bodyOpacity = None,
                  di_settingsValuesJson = ''{}'', di_gridX = ii_gridX x, di_gridY = ii_gridY x,
                  di_gridW = ii_gridW x, di_gridH = ii_gridH x,
                  di_sortOrder = int (length (filter (\<lambda>y. di_viewId y = ii_viewId x) (dl_instances s)))\<rparr>
      in (inst, p2\<lparr>previewState := Some (s\<lparr>dl_instances := dl_instances s @ [inst]\<rparr>)\<rparr>))"

text \<open>The check of new settings values against the schema of the instance's widget.\<close>

definition settings_error :: "(string \<Rightarrow> json option) \<Rightarrow> instance_patch \<Rightarrow> dash_instance \<Rightarrow> dash_load \<Rightarrow> string option"
where
  "settings_error parse patch i s =
     (case ip_settingsValuesJson patch of
        None \<Rightarrow> None
      | Some txt \<Rightarrow>
          if di_kind i = BuiltInWidget then None
          else case (case find (\<lambda>w. cw_id w = di_sourceId i) (dl_widgets s) of None \<Rightarrow> Inl []
                     | Some w \<Rightarrow> validateWidgetSettingsSchemaJson parse (cw_settingsSchemaJson w),
                     parseWidgetSettingsValuesJson parse txt) of
              (Inr fs, Inr vs) \<Rightarrow>
                (case validateWidgetSettingsValuesForSchema fs vs (di_id i) of
                   Inl reason \<Rightarrow> Some (''Error: Invalid Dashboard widget settings values: '' @ reason)
                 | Inr _ \<Rightarrow> None)
            | _ \<Rightarrow> Some ''Error: Invalid Dashboard widget settings values.'')"

definition present_preset :: "instance_patch \<Rightarrow> dash_instance \<Rightarrow> dash_instance" where
  "present_preset patch i =
     (if ip_preset patch = Some AmbientPreset \<and> ip_hideTitle patch = None
      then i\<lparr>di_hideTitle := Some (defaultWidgetPresentationForPreset AmbientPreset)\<rparr> else i)"

definition preview_updateInstance ::
  "(string \<Rightarrow> json option) \<Rightarrow> string \<Rightarrow> instance_patch \<Rightarrow> preview \<Rightarrow> (string + dash_instance) \<times> preview" where
  "preview_updateInstance parse i patch p =
     (let (s, p1) = browserPreviewState p
      in case find (\<lambda>x. di_id x = i) (dl_instances s) of
        None \<Rightarrow> (Inl ''Error: Dashboard widget instance not found.'', p1)
      | Some inst \<Rightarrow>
          (case settings_error parse patch inst s of
             Some e \<Rightarrow> (Inl e, p1)
           | None \<Rightarrow>
               (Inr (assign_instance patch (present_preset patch inst)),
                p1\<lparr>previewState := Some (s\<lparr>dl_instances :=
                  update_first (\<lambda>x. di_id x = i) (\<lambda>x. assign_instance patch (present_preset patch x))
                    (dl_instances s)\<rparr>)\<rparr>)))"

definition preview_removeInstance :: "string \<Rightarrow> preview \<Rightarrow> preview" where
  "preview_removeInstance i p =
     (let (s, p1) = browserPreviewState p
      in p1\<lparr>previewState := Some (s\<lparr>dl_instances := filter (\<lambda>x. di_id x \<noteq> i) (dl_instances s)\<rparr>)\<rparr>)"

definition place_layout :: "string \<Rightarrow> layout_entry list \<Rightarrow> dash_instance list \<Rightarrow> dash_instance list" where
  "place_layout vid l is =
     map (\<lambda>i. if di_viewId i \<noteq> vid then i
              else case entry_of l (di_id i) of None \<Rightarrow> i | Some e \<Rightarrow> set_grid e i) is"

definition preview_applyLayout :: "string \<Rightarrow> layout_entry list \<Rightarrow> preview \<Rightarrow> preview" where
  "preview_applyLayout vid l p =
     (let (s, p1) = browserPreviewState p
      in p1\<lparr>previewState := Some (s\<lparr>dl_instances := place_layout vid l (dl_instances s)\<rparr>)\<rparr>)"

definition preview_createCustomWidget ::
  "(string \<Rightarrow> json option) \<Rightarrow> string \<Rightarrow> widget_input \<Rightarrow> preview \<Rightarrow> (string + dash_widget) \<times> preview" where
  "preview_createCustomWidget parse now x p =
     (case validateCustomWidgetBodyJson parse (wi_bodyJson x) of
        Inl reason \<Rightarrow> (Inl (''Error: Invalid Dashboard AI Created Widget body: '' @ reason), p)
      | Inr _ \<Rightarrow>
          (case (case wi_settingsSchemaJson x of None \<Rightarrow> Inr [] | Some t \<Rightarrow> validateWidgetSettingsSchemaJson parse t) of
             Inl reason \<Rightarrow> (Inl (''Error: Invalid Dashboard AI Created Widget settings schema: '' @ reason), p)
           | Inr _ \<Rightarrow>
               (let (s, p1) = browserPreviewState p; (i, p2) = createPreviewId ''cw'' p1;
                    w = \<lparr>cw_id = i, cw_title = wi_title x, cw_summary = wi_summary x, cw_category = wi_category x,
                         cw_bodyJson = wi_bodyJson x,
                         cw_settingsSchemaJson = nullish (wi_settingsSchemaJson x)
                           (''{'' @ dquote ''fields'' @ '':[]}''),
                         cw_createdBy = wi_createdBy x, cw_createdAt = now\<rparr>
                in (Inr w, p2\<lparr>previewState := Some (s\<lparr>dl_widgets := dl_widgets s @ [w]\<rparr>)\<rparr>))))"

definition preview_updateCustomWidget ::
  "(string \<Rightarrow> json option) \<Rightarrow> string \<Rightarrow> widget_patch \<Rightarrow> preview \<Rightarrow> (string + dash_widget) \<times> preview" where
  "preview_updateCustomWidget parse i patch p =
     (let (s, p1) = browserPreviewState p
      in case find (\<lambda>w. cw_id w = i) (dl_widgets s) of
        None \<Rightarrow> (Inl ''Error: Dashboard AI Created Widget not found.'', p1)
      | Some w \<Rightarrow>
          (case (case wp_bodyJson patch of None \<Rightarrow> None
                 | Some t \<Rightarrow> (case validateCustomWidgetBodyJson parse t of Inl r \<Rightarrow> Some r | Inr _ \<Rightarrow> None)) of
             Some r \<Rightarrow> (Inl (''Error: Invalid Dashboard AI Created Widget body: '' @ r), p1)
           | None \<Rightarrow>
          (case (case wp_settingsSchemaJson patch of None \<Rightarrow> None
                 | Some t \<Rightarrow> (case validateWidgetSettingsSchemaJson parse t of Inl r \<Rightarrow> Some r | Inr _ \<Rightarrow> None)) of
             Some r \<Rightarrow> (Inl (''Error: Invalid Dashboard AI Created Widget settings schema: '' @ r), p1)
           | None \<Rightarrow>
               (Inr (assign_widget patch w),
                p1\<lparr>previewState := Some (s\<lparr>dl_widgets :=
                  update_first (\<lambda>w. cw_id w = i) (assign_widget patch) (dl_widgets s)\<rparr>)\<rparr>))))"

definition preview_removeCustomWidget :: "string \<Rightarrow> bool \<Rightarrow> preview \<Rightarrow> string option \<times> preview" where
  "preview_removeCustomWidget i force p =
     (let (s, p1) = browserPreviewState p
      in if list_ex (\<lambda>x. di_sourceId x = i) (dl_instances s) \<and> \<not> force
         then (Some ''Error: Dashboard AI Created Widget is still used by widget instances.'', p1)
         else (None, p1\<lparr>previewState := Some (s\<lparr>dl_widgets := filter (\<lambda>w. cw_id w \<noteq> i) (dl_widgets s),
                dl_instances := (if force then filter (\<lambda>x. di_sourceId x \<noteq> i) (dl_instances s)
                                 else dl_instances s)\<rparr>)\<rparr>))"

definition preview_resetDashboard :: "preview \<Rightarrow> preview" where
  "preview_resetDashboard p = p\<lparr>previewState := None\<rparr>"

text \<open>Outside the application there is no image folder: names and pictures are made up.\<close>

definition preview_importBackgroundImage :: "string \<Rightarrow> string" where
  "preview_importBackgroundImage path =
     (let alnum = filter (\<lambda>c. is_lower c \<or> is_upper c \<or> is_digit c) path
      in ''preview-bg-'' @ take_last 12 alnum @ ''.'' @ to_lower (last (split_on (CHR ''.'') path)))"

definition preview_loadBackgroundImage :: string where
  "preview_loadBackgroundImage =
     ''data:image/png;base64,iVBORw0KGgoAAAANSUhEUgAAAAEAAAABCAQAAAC1HAwCAAAAC0lEQVR42mNkYAAAAAYAAjCB0C8AAAAASUVORK5CYII=''"

section \<open>The store\<close>

datatype widget_health =
    HealthPending int
  | HealthReady int
  | HealthError string int
  | HealthTimeout int
  | HealthStalled int

record dash_store =
  dash_ready :: bool
  dash_loading :: bool
  dash_views :: "dash_view list"
  dash_instances :: "dash_instance list"
  dash_widgets :: "dash_widget list"
  agentCreatedRevealInstanceIds :: "string list"
  widgetHealth :: "string \<Rightarrow> widget_health option"
  activeViewId :: "string option"
  editMode :: bool
  lastError :: "string option"
  backgroundImages :: "string \<Rightarrow> string option"
  layoutTimer :: bool
  pendingLayout :: "(string \<times> layout_entry list) option"

definition dash_initial :: dash_store where
  "dash_initial = \<lparr>dash_ready = False, dash_loading = False, dash_views = [], dash_instances = [], dash_widgets = [],
     agentCreatedRevealInstanceIds = [], widgetHealth = Map.empty, activeViewId = None, editMode = False,
     lastError = None, backgroundImages = Map.empty, layoutTimer = False, pendingLayout = None\<rparr>"

definition failed :: "string \<Rightarrow> dash_store \<Rightarrow> dash_store" where
  "failed e s = s\<lparr>lastError := Some e\<rparr>"

definition setWidgetHealth :: "string \<Rightarrow> widget_health option \<Rightarrow> dash_store \<Rightarrow> dash_store" where
  "setWidgetHealth i h s = s\<lparr>widgetHealth := (widgetHealth s)(i := h)\<rparr>"

definition dash_load_begin :: "dash_store \<Rightarrow> dash_store" where
  "dash_load_begin s = s\<lparr>dash_loading := True\<rparr>"

text \<open>The view shown after loading: the landing view of the settings, the current one, the first one.\<close>

definition landing_view :: "string \<Rightarrow> dash_view list \<Rightarrow> string option \<Rightarrow> string option" where
  "landing_view landing vs current =
     (let preferred = (if landing \<noteq> ''lastActive'' then map_option dv_id (find (\<lambda>v. dv_id v = landing) vs) else None)
      in case preferred of Some v \<Rightarrow> Some v
         | None \<Rightarrow>
             if truthy_str current \<and> list_ex (\<lambda>v. Some (dv_id v) = current) vs then current
             else case vs of [] \<Rightarrow> None | v # _ \<Rightarrow> Some (dv_id v))"

definition reveal_ids :: "dash_store \<Rightarrow> dash_load \<Rightarrow> string list" where
  "reveal_ids previous d =
     (let known = map di_id (dash_instances previous); known_widgets = map cw_id (dash_widgets previous);
          fresh = map cw_id (filter (\<lambda>w. cw_createdBy w = CreatedByAgent \<and> cw_id w \<notin> set known_widgets) (dl_widgets d))
      in if dash_ready previous
         then map di_id (filter (\<lambda>i. di_id i \<notin> set known \<and> di_sourceId i \<in> set fresh) (dl_instances d))
         else [])"

definition dash_load_returns :: "string \<Rightarrow> string + dash_load \<Rightarrow> dash_store \<Rightarrow> dash_store" where
  "dash_load_returns landing answer s =
     (case answer of
        Inl e \<Rightarrow> s\<lparr>lastError := Some e, dash_loading := False\<rparr>
      | Inr d \<Rightarrow>
          s\<lparr>dash_views := dl_views d, dash_instances := dl_instances d, dash_widgets := dl_widgets d,
            agentCreatedRevealInstanceIds := reveal_ids s d,
            activeViewId := landing_view landing (dl_views d) (activeViewId s),
            dash_ready := True, dash_loading := False, lastError := None\<rparr>)"

definition setActiveView :: "string \<Rightarrow> dash_store \<Rightarrow> dash_store" where
  "setActiveView i s = s\<lparr>activeViewId := Some i\<rparr>"

definition toggleEditMode :: "dash_store \<Rightarrow> dash_store" where
  "toggleEditMode s = s\<lparr>editMode := \<not> editMode s\<rparr>"

definition createView_returns :: "string + dash_view \<Rightarrow> dash_store \<Rightarrow> dash_store" where
  "createView_returns answer s =
     (case answer of
        Inl e \<Rightarrow> failed e s
      | Inr v \<Rightarrow> s\<lparr>dash_views := dash_views s @ [v], activeViewId := Some (dv_id v)\<rparr>)"

text \<open>The four edits of a view differ in the patch they send.\<close>

definition updateView_returns :: "string \<Rightarrow> string + dash_view \<Rightarrow> dash_store \<Rightarrow> dash_store" where
  "updateView_returns i answer s =
     (case answer of
        Inl e \<Rightarrow> failed e s
      | Inr w \<Rightarrow> s\<lparr>dash_views := map_where (\<lambda>v. dv_id v = i) (\<lambda>_. w) (dash_views s)\<rparr>)"

definition no_view_patch :: view_patch where
  "no_view_patch = \<lparr>vp_title = None, vp_gridDensity = None, vp_sortOrder = None, vp_background = None,
     vp_tabColor = None\<rparr>"

definition rename_patch :: "string \<Rightarrow> view_patch" where
  "rename_patch t = no_view_patch\<lparr>vp_title := Some t\<rparr>"

definition density_patch :: "string \<Rightarrow> view_patch" where
  "density_patch d = no_view_patch\<lparr>vp_gridDensity := Some d\<rparr>"

definition background_patch :: "json \<Rightarrow> view_patch" where
  "background_patch b = no_view_patch\<lparr>vp_background := Some b\<rparr>"

definition tabColor_patch :: "string option \<Rightarrow> view_patch" where
  "tabColor_patch c = no_view_patch\<lparr>vp_tabColor := Some c\<rparr>"

text \<open>The ids asked for that exist, in that order, numbered by position.\<close>

definition reordered :: "string list \<Rightarrow> dash_view list \<Rightarrow> dash_view list" where
  "reordered ids vs =
     js_compact (map (\<lambda>(n, i). map_option (dv_sortOrder_update (\<lambda>_. int n)) (view_of vs i)) (enumerate 0 ids))"

definition reorderViews_returns :: "string list \<Rightarrow> string + unit \<Rightarrow> dash_store \<Rightarrow> dash_store" where
  "reorderViews_returns ids answer s =
     (case answer of Inl e \<Rightarrow> failed e s | Inr _ \<Rightarrow> s\<lparr>dash_views := reordered ids (dash_views s)\<rparr>)"

definition loadBackgroundImage_asks :: "string \<Rightarrow> dash_store \<Rightarrow> bool" where
  "loadBackgroundImage_asks file s = (file \<noteq> [] \<and> \<not> truthy_str (backgroundImages s file))"

definition loadBackgroundImage_returns :: "string \<Rightarrow> string + string \<Rightarrow> dash_store \<Rightarrow> dash_store" where
  "loadBackgroundImage_returns file answer s =
     (case answer of Inl e \<Rightarrow> failed e s | Inr url \<Rightarrow> s\<lparr>backgroundImages := (backgroundImages s)(file \<mapsto> url)\<rparr>)"

definition removeView_returns :: "string \<Rightarrow> string + unit \<Rightarrow> dash_store \<Rightarrow> dash_store" where
  "removeView_returns i answer s =
     (case answer of
        Inl e \<Rightarrow> failed e s
      | Inr _ \<Rightarrow>
          (let vs = filter (\<lambda>v. dv_id v \<noteq> i) (dash_views s)
           in s\<lparr>dash_views := vs, dash_instances := filter (\<lambda>x. di_viewId x \<noteq> i) (dash_instances s),
                activeViewId := (if activeViewId s = Some i then (case vs of [] \<Rightarrow> None | v # _ \<Rightarrow> Some (dv_id v))
                                 else activeViewId s)\<rparr>))"

definition addInstance_returns :: "string + dash_instance \<Rightarrow> dash_store \<Rightarrow> dash_store" where
  "addInstance_returns answer s =
     (case answer of Inl e \<Rightarrow> failed e s | Inr i \<Rightarrow> s\<lparr>dash_instances := dash_instances s @ [i]\<rparr>)"

definition updateInstance_returns :: "string \<Rightarrow> string + dash_instance \<Rightarrow> dash_store \<Rightarrow> dash_store" where
  "updateInstance_returns i answer s =
     (case answer of
        Inl e \<Rightarrow> failed e s
      | Inr w \<Rightarrow> s\<lparr>dash_instances := map_where (\<lambda>x. di_id x = i) (\<lambda>_. w) (dash_instances s)\<rparr>)"

definition removeInstance_returns :: "string \<Rightarrow> string + unit \<Rightarrow> dash_store \<Rightarrow> dash_store" where
  "removeInstance_returns i answer s =
     (case answer of Inl e \<Rightarrow> failed e s
      | Inr _ \<Rightarrow> s\<lparr>dash_instances := filter (\<lambda>x. di_id x \<noteq> i) (dash_instances s)\<rparr>)"

text \<open>A new layout is shown at once and written 300 ms after the last one.\<close>

definition applyLayout :: "string \<Rightarrow> layout_entry list \<Rightarrow> dash_store \<Rightarrow> dash_store" where
  "applyLayout vid l s =
     s\<lparr>dash_instances := map (\<lambda>i. case entry_of l (di_id i) of None \<Rightarrow> i | Some e \<Rightarrow> set_grid e i) (dash_instances s),
       pendingLayout := Some (vid, l), layoutTimer := True\<rparr>"

definition layout_timer_fires :: "dash_store \<Rightarrow> (string \<times> layout_entry list) option \<times> dash_store" where
  "layout_timer_fires s =
     (if layoutTimer s then (pendingLayout s, s\<lparr>layoutTimer := False, pendingLayout := None\<rparr>) else (None, s))"

definition layout_write_fails :: "string \<Rightarrow> dash_store \<Rightarrow> dash_store" where
  "layout_write_fails e s = failed e s"

definition createCustomWidget_returns :: "string + dash_widget \<Rightarrow> dash_store \<Rightarrow> dash_store" where
  "createCustomWidget_returns answer s =
     (case answer of Inl e \<Rightarrow> failed e s | Inr w \<Rightarrow> s\<lparr>dash_widgets := dash_widgets s @ [w]\<rparr>)"

definition updateCustomWidget_returns :: "string \<Rightarrow> string + dash_widget \<Rightarrow> dash_store \<Rightarrow> dash_store" where
  "updateCustomWidget_returns i answer s =
     (case answer of
        Inl e \<Rightarrow> failed e s
      | Inr w \<Rightarrow> s\<lparr>dash_widgets := map_where (\<lambda>c. cw_id c = i) (\<lambda>_. w) (dash_widgets s)\<rparr>)"

definition removeCustomWidget_returns :: "string \<Rightarrow> bool \<Rightarrow> string + unit \<Rightarrow> dash_store \<Rightarrow> dash_store" where
  "removeCustomWidget_returns i force answer s =
     (case answer of
        Inl e \<Rightarrow> failed e s
      | Inr _ \<Rightarrow>
          s\<lparr>dash_widgets := filter (\<lambda>c. cw_id c \<noteq> i) (dash_widgets s),
            dash_instances := (if force then filter (\<lambda>x. di_sourceId x \<noteq> i) (dash_instances s)
                               else dash_instances s)\<rparr>)"

definition importCustomWidgets_returns :: "dash_widget list \<Rightarrow> dash_store \<Rightarrow> dash_store" where
  "importCustomWidgets_returns ws s = s\<lparr>dash_widgets := dash_widgets s @ ws\<rparr>"

definition clearAgentCreatedReveal :: "string \<Rightarrow> dash_store \<Rightarrow> dash_store" where
  "clearAgentCreatedReveal i s =
     s\<lparr>agentCreatedRevealInstanceIds := filter (\<lambda>x. x \<noteq> i) (agentCreatedRevealInstanceIds s)\<rparr>"

text \<open>The background of a new view: a random one of the catalog, when the setting asks for it.\<close>

definition resolveNewDashboardViewBackground :: "string list \<Rightarrow> bool \<Rightarrow> rat \<Rightarrow> json option" where
  "resolveNewDashboardViewBackground catalog enabled r =
     (if \<not> enabled \<or> catalog = [] then None
      else let n = int (length catalog); k = min (n - 1) (max 0 \<lfloor>r * of_int n\<rfloor>)
           in Some (JObj [(''kind'', JStr ''dynamic''), (''dynamic'', JStr (catalog ! nat k))]))"

section \<open>The store over the preview\<close>

record dash =
  d_store :: dash_store
  d_preview :: preview

datatype dash_event =
    DLoad string
  | DSetActive string
  | DToggleEdit
  | DHealth string "widget_health option"
  | DCreateView string "json option"
  | DUpdateView string view_patch
  | DReorderViews "string list"
  | DRemoveView string
  | DAddInstance instance_input
  | DUpdateInstance string instance_patch
  | DRemoveInstance string
  | DApplyLayout string "layout_entry list"
  | DLayoutTimer
  | DCreateWidget string widget_input
  | DUpdateWidget string widget_patch
  | DRemoveWidget string bool
  | DClearReveal string
  | DReset string
  | DLoadImage string

text \<open>An action that asks the preview and takes its answer.\<close>

definition asks :: "(preview \<Rightarrow> 'a \<times> preview) \<Rightarrow> ('a \<Rightarrow> dash_store \<Rightarrow> dash_store) \<Rightarrow> dash \<Rightarrow> dash" where
  "asks ask take_answer d =
     (let (a, p) = ask (d_preview d) in \<lparr>d_store = take_answer a (d_store d), d_preview = p\<rparr>)"

definition on_store :: "(dash_store \<Rightarrow> dash_store) \<Rightarrow> dash \<Rightarrow> dash" where
  "on_store f d = d\<lparr>d_store := f (d_store d)\<rparr>"

definition dash_reload :: "string \<Rightarrow> dash \<Rightarrow> dash" where
  "dash_reload landing d =
     asks preview_loadDashboardState (\<lambda>a. dash_load_returns landing (Inr a)) (on_store dash_load_begin d)"

definition dash_createView :: "string \<Rightarrow> json option \<Rightarrow> dash \<Rightarrow> dash" where
  "dash_createView title bg d =
     asks (\<lambda>p. let (v, p1) = preview_createView title None p
                in case bg of None \<Rightarrow> (Inr v, p1) | Some b \<Rightarrow> preview_updateView (dv_id v) (background_patch b) p1)
       createView_returns d"

definition dash_layoutTimer :: "dash \<Rightarrow> dash" where
  "dash_layoutTimer d =
     (case layout_timer_fires (d_store d) of
        (None, s) \<Rightarrow> d\<lparr>d_store := s\<rparr>
      | (Some (vid, l), s) \<Rightarrow> \<lparr>d_store = s, d_preview = preview_applyLayout vid l (d_preview d)\<rparr>)"

definition answered :: "(preview \<Rightarrow> preview) \<Rightarrow> preview \<Rightarrow> (string + unit) \<times> preview" where
  "answered f p = (Inr (), f p)"

definition dash_removeCustomWidget :: "string \<Rightarrow> bool \<Rightarrow> dash \<Rightarrow> dash" where
  "dash_removeCustomWidget i force d =
     asks (\<lambda>p. let (e, p1) = preview_removeCustomWidget i force p
                in (case e of Some x \<Rightarrow> Inl x | None \<Rightarrow> Inr (), p1)) (removeCustomWidget_returns i force) d"

definition dash_reset :: "string \<Rightarrow> dash \<Rightarrow> dash" where
  "dash_reset landing d = dash_reload landing (d\<lparr>d_preview := preview_resetDashboard (d_preview d)\<rparr>)"

fun dash_step :: "(string \<Rightarrow> json option) \<Rightarrow> dash_event \<Rightarrow> dash \<Rightarrow> dash" where
  "dash_step parse (DLoad landing) d = dash_reload landing d"
| "dash_step parse (DSetActive i) d = on_store (setActiveView i) d"
| "dash_step parse DToggleEdit d = on_store toggleEditMode d"
| "dash_step parse (DHealth i h) d = on_store (setWidgetHealth i h) d"
| "dash_step parse (DCreateView title bg) d = dash_createView title bg d"
| "dash_step parse (DUpdateView i patch) d = asks (preview_updateView i patch) (updateView_returns i) d"
| "dash_step parse (DReorderViews ids) d = asks (answered (preview_reorderViews ids)) (reorderViews_returns ids) d"
| "dash_step parse (DRemoveView i) d = asks (answered (preview_removeView i)) (removeView_returns i) d"
| "dash_step parse (DAddInstance x) d =
     asks (\<lambda>p. case preview_addInstance x p of (i, p1) \<Rightarrow> (Inr i, p1)) addInstance_returns d"
| "dash_step parse (DUpdateInstance i patch) d =
     asks (preview_updateInstance parse i patch) (updateInstance_returns i) d"
| "dash_step parse (DRemoveInstance i) d = asks (answered (preview_removeInstance i)) (removeInstance_returns i) d"
| "dash_step parse (DApplyLayout vid l) d = on_store (applyLayout vid l) d"
| "dash_step parse DLayoutTimer d = dash_layoutTimer d"
| "dash_step parse (DCreateWidget now x) d =
     asks (preview_createCustomWidget parse now x) createCustomWidget_returns d"
| "dash_step parse (DUpdateWidget i patch) d =
     asks (preview_updateCustomWidget parse i patch) (updateCustomWidget_returns i) d"
| "dash_step parse (DRemoveWidget i force) d = dash_removeCustomWidget i force d"
| "dash_step parse (DClearReveal i) d = on_store (clearAgentCreatedReveal i) d"
| "dash_step parse (DReset landing) d = dash_reset landing d"
| "dash_step parse (DLoadImage file) d =
     (if loadBackgroundImage_asks file (d_store d)
      then on_store (loadBackgroundImage_returns file (Inr preview_loadBackgroundImage)) d else d)"

text \<open>What the same events do to the stored Dashboard when every layout is written at once.\<close>

fun saved_step :: "(string \<Rightarrow> json option) \<Rightarrow> dash_event \<Rightarrow> preview \<Rightarrow> preview" where
  "saved_step parse (DLoad landing) p = snd (preview_loadDashboardState p)"
| "saved_step parse (DCreateView title bg) p =
     (let (v, p1) = preview_createView title None p
      in case bg of None \<Rightarrow> p1 | Some b \<Rightarrow> snd (preview_updateView (dv_id v) (background_patch b) p1))"
| "saved_step parse (DUpdateView i patch) p = snd (preview_updateView i patch p)"
| "saved_step parse (DReorderViews ids) p = preview_reorderViews ids p"
| "saved_step parse (DRemoveView i) p = preview_removeView i p"
| "saved_step parse (DAddInstance x) p = snd (preview_addInstance x p)"
| "saved_step parse (DUpdateInstance i patch) p = snd (preview_updateInstance parse i patch p)"
| "saved_step parse (DRemoveInstance i) p = preview_removeInstance i p"
| "saved_step parse (DApplyLayout vid l) p = preview_applyLayout vid l p"
| "saved_step parse (DCreateWidget now x) p = snd (preview_createCustomWidget parse now x p)"
| "saved_step parse (DUpdateWidget i patch) p = snd (preview_updateCustomWidget parse i patch p)"
| "saved_step parse (DRemoveWidget i force) p = snd (preview_removeCustomWidget i force p)"
| "saved_step parse (DReset landing) p = snd (preview_loadDashboardState (preview_resetDashboard p))"
| "saved_step parse e p = p"

text \<open>The stored Dashboard once the layout that waits is written.\<close>

definition settled_load :: "(string \<times> layout_entry list) option \<Rightarrow> dash_load \<Rightarrow> dash_load" where
  "settled_load pending s =
     (case pending of None \<Rightarrow> s | Some (vid, l) \<Rightarrow> s\<lparr>dl_instances := place_layout vid l (dl_instances s)\<rparr>)"

definition dash_settled :: "dash \<Rightarrow> preview" where
  "dash_settled d = (d_preview d)\<lparr>previewState :=
     map_option (settled_load (pendingLayout (d_store d))) (previewState (d_preview d))\<rparr>"

definition inst_ids :: "dash_load \<Rightarrow> string list" where "inst_ids s = map di_id (dl_instances s)"
definition view_ids :: "dash_load \<Rightarrow> string list" where "view_ids s = map dv_id (dl_views s)"
definition widget_ids :: "dash_load \<Rightarrow> string list" where "widget_ids s = map cw_id (dl_widgets s)"
definition entry_ids :: "(string \<times> layout_entry list) option \<Rightarrow> string list" where
  "entry_ids pending = (case pending of None \<Rightarrow> [] | Some (_, l) \<Rightarrow> map le_id l)"

text \<open>Which events the statement is about, state by state.\<close>

fun dash_allowed :: "dash_event \<Rightarrow> dash \<Rightarrow> bool" where
  "dash_allowed (DLoad landing) d = (pendingLayout (d_store d) = None)"
| "dash_allowed (DSetActive i) d = (i \<in> set (map dv_id (dash_views (d_store d))))"
| "dash_allowed (DReorderViews ids) d = (distinct ids \<and> set ids = set (map dv_id (dash_views (d_store d))))"
| "dash_allowed (DUpdateInstance i patch) d = (i \<notin> set (entry_ids (pendingLayout (d_store d))))"
| "dash_allowed (DApplyLayout vid l) d =
     ((\<forall>e \<in> set l. \<exists>i \<in> set (dash_instances (d_store d)). di_id i = le_id e \<and> di_viewId i = vid)
      \<and> (case pendingLayout (d_store d) of None \<Rightarrow> True
         | Some (v, l0) \<Rightarrow> v = vid
             \<and> (\<forall>i \<in> set (dash_instances (d_store d)). di_id i \<in> set (map le_id l0) \<longrightarrow> di_id i \<in> set (map le_id l))))"
| "dash_allowed e d = True"

text \<open>The ids of the preview come from one counter.\<close>

definition ids_below :: "string \<Rightarrow> string list \<Rightarrow> nat \<Rightarrow> bool" where
  "ids_below kind ids n = (\<forall>i \<in> set ids. \<exists>k \<le> n. i = ''preview-'' @ kind @ ''-'' @ nat_string k)"

definition load_inv :: "nat \<Rightarrow> dash_load \<Rightarrow> bool" where
  "load_inv n s =
     (distinct (view_ids s) \<and> distinct (inst_ids s) \<and> distinct (widget_ids s)
      \<and> ids_below ''view'' (view_ids s) n \<and> ids_below ''inst'' (inst_ids s) n \<and> ids_below ''cw'' (widget_ids s) n)"

text \<open>There is an active view exactly when there is a view, and it is one of them.\<close>

definition active_ok :: "string option \<Rightarrow> string list \<Rightarrow> bool" where
  "active_ok a ids = (case a of None \<Rightarrow> ids = [] | Some v \<Rightarrow> v \<in> set ids)"

definition inv_at :: "dash_store \<Rightarrow> nat \<Rightarrow> dash_load \<Rightarrow> bool" where
  "inv_at st n s =
     (load_inv n s
       \<and> ids_below ''inst'' (entry_ids (pendingLayout st)) n
       \<and> dash_views st = dl_views s
       \<and> dash_widgets st = dl_widgets s
       \<and> dash_instances st = dl_instances (settled_load (pendingLayout st) s)
       \<and> (pendingLayout st \<noteq> None \<longrightarrow> layoutTimer st)
       \<and> active_ok (activeViewId st) (view_ids s))"

definition dash_inv :: "dash \<Rightarrow> bool" where
  "dash_inv d =
     (case previewState (d_preview d) of None \<Rightarrow> False
      | Some s \<Rightarrow> inv_at (d_store d) (previewIdCounter (d_preview d)) s)"

section \<open>Layouts and identities\<close>

lemma entry_of_None: "entry_of l i = None \<longleftrightarrow> i \<notin> set (map le_id l)"
  by (simp add: entry_of_def map_of_eq_None_iff image_image)

lemma set_grid_simps [simp]:
  "di_id (set_grid e i) = di_id i" "di_viewId (set_grid e i) = di_viewId i"
  "di_sourceId (set_grid e i) = di_sourceId i" "di_kind (set_grid e i) = di_kind i"
  "set_grid e (set_grid e' i) = set_grid e i"
  by (simp_all add: set_grid_def)

lemma place_ids [simp]: "map di_id (place_layout v l is) = map di_id is"
  by (simp add: place_layout_def split: option.splits)

lemma place_sources [simp]: "map di_sourceId (place_layout v l is) = map di_sourceId is"
  by (simp add: place_layout_def split: option.splits)

lemma place_filter:
  assumes "\<And>e i. P (set_grid e i) = P i"
  shows "filter P (place_layout v l is) = place_layout v l (filter P is)"
  using assms by (induction "is") (auto simp: place_layout_def split: option.splits)

lemma place_append_new:
  "di_id i \<notin> set (map le_id l) \<Longrightarrow> place_layout v l (is @ [i]) = place_layout v l is @ [i]"
  using entry_of_None [of l "di_id i"] by (simp add: place_layout_def)

lemma place_place:
  assumes "\<And>i. i \<in> set is \<Longrightarrow> di_id i \<in> set (map le_id l0) \<Longrightarrow> di_id i \<in> set (map le_id l)"
  shows "place_layout v l (place_layout v l0 is) = place_layout v l is"
proof -
  let ?f = "\<lambda>l i. if di_viewId i \<noteq> v then i else case entry_of l (di_id i) of None \<Rightarrow> i | Some e \<Rightarrow> set_grid e i"
  have "?f l (?f l0 i) = ?f l i" if "i \<in> set is" for i
  proof (cases "entry_of l0 (di_id i)")
    case (Some e)
    then have "entry_of l (di_id i) \<noteq> None"
      using assms [OF that] entry_of_None [of l0 "di_id i"] entry_of_None [of l "di_id i"] by simp
    then show ?thesis using Some by auto
  qed (simp cong: option.case_cong)
  then have "map (?f l \<circ> ?f l0) is = map (?f l) is" by (intro map_cong refl) (simp only: o_apply)
  then show ?thesis by (simp only: place_layout_def map_map)
qed

lemma apply_is_place:
  assumes "distinct (map di_id is)" "\<And>e. e \<in> set l \<Longrightarrow> \<exists>i \<in> set is. di_id i = le_id e \<and> di_viewId i = v"
  shows "map (\<lambda>i. case entry_of l (di_id i) of None \<Rightarrow> i | Some e \<Rightarrow> set_grid e i) is = place_layout v l is"
proof -
  have "di_viewId i = v" if i: "i \<in> set is" and e: "entry_of l (di_id i) = Some e" for i e
  proof -
    have "di_id i \<in> set (map le_id l)" using e entry_of_None [of l "di_id i"] by auto
    then obtain e' where "e' \<in> set l" "le_id e' = di_id i" by auto
    then obtain j where j: "j \<in> set is" "di_id j = di_id i" "di_viewId j = v" using assms(2) [of e'] by auto
    then have "j = i" using assms(1) i by (auto simp: distinct_map dest: inj_onD)
    then show ?thesis using j by simp
  qed
  then show ?thesis unfolding place_layout_def by (intro map_cong refl) (auto split: option.splits)
qed

lemma update_first_unique:
  "distinct (map k xs) \<Longrightarrow> update_first (\<lambda>x. k x = i) f xs = map_where (\<lambda>x. k x = i) f xs"
proof (induction xs)
  case (Cons x xs)
  have "map_where (\<lambda>x. k x = k y) f xs = xs" if "k y \<notin> k ` set xs" for y
    using that by (induction xs) (auto simp: map_where_def)
  then show ?case using Cons by (auto simp: map_where_def)
qed (simp add: map_where_def)

lemma map_where_constant:
  assumes "distinct (map k xs)" "find (\<lambda>x. k x = i) xs = Some x0"
  shows "map_where (\<lambda>x. k x = i) (\<lambda>_. f x0) xs = map_where (\<lambda>x. k x = i) f xs"
proof -
  have "x = x0" if "x \<in> set xs" "k x = i" for x
    using assms find_SomeD [OF assms(2)] that by (auto simp: distinct_map dest: inj_onD)
  then show ?thesis by (auto simp: map_where_def)
qed

lemma place_map_where:
  assumes "i \<notin> set (map le_id l)" "\<And>x. di_id (f x) = di_id x"
  shows "place_layout v l (map_where (\<lambda>x. di_id x = i) f is) = map_where (\<lambda>x. di_id x = i) f (place_layout v l is)"
  using assms entry_of_None [of l i] by (auto simp: place_layout_def map_where_def split: option.splits)

lemma find_place:
  assumes "i \<notin> set (map le_id l)"
  shows "find (\<lambda>x. di_id x = i) (place_layout v l is) = find (\<lambda>x. di_id x = i) is"
  using assms entry_of_None [of l i] by (induction "is") (auto simp: place_layout_def split: option.splits)

lemma settled_load_simps [simp]:
  "dl_views (settled_load pend s) = dl_views s" "dl_widgets (settled_load pend s) = dl_widgets s"
  "inst_ids (settled_load pend s) = inst_ids s" "view_ids (settled_load pend s) = view_ids s"
  "widget_ids (settled_load pend s) = widget_ids s"
  "map di_sourceId (dl_instances (settled_load pend s)) = map di_sourceId (dl_instances s)"
  by (simp_all add: settled_load_def inst_ids_def view_ids_def widget_ids_def split: option.splits)

lemma ids_below_mono: "ids_below kind ids n \<Longrightarrow> n \<le> m \<Longrightarrow> ids_below kind ids m"
  unfolding ids_below_def by (meson order_trans)

lemma ids_below_sub: "ids_below kind ids n \<Longrightarrow> set js \<subseteq> set ids \<Longrightarrow> ids_below kind js n"
  by (auto simp: ids_below_def)

lemma ids_below_fresh:
  assumes "ids_below kind ids n"
  shows "''preview-'' @ kind @ ''-'' @ nat_string (Suc n) \<notin> set ids"
proof
  assume "''preview-'' @ kind @ ''-'' @ nat_string (Suc n) \<in> set ids"
  then obtain k where "k \<le> n" "''preview-'' @ kind @ ''-'' @ nat_string (Suc n) = ''preview-'' @ kind @ ''-'' @ nat_string k"
    using assms unfolding ids_below_def by blast
  then show False using nat_string_inj [of "Suc n" k] by simp
qed

lemma ids_below_new:
  assumes "ids_below kind ids n"
  shows "ids_below kind (ids @ [''preview-'' @ kind @ ''-'' @ nat_string (Suc n)]) (Suc n)"
proof -
  have "ids_below kind ids (Suc n)" using assms by (rule ids_below_mono) simp
  then show ?thesis unfolding ids_below_def by (metis le_refl set_append Un_iff empty_iff insert_iff list.set)
qed

section \<open>Every event keeps store and preview together\<close>

abbreviation dash_at :: "dash_store \<Rightarrow> nat \<Rightarrow> dash_load \<Rightarrow> dash" where
  "dash_at st n s \<equiv> \<lparr>d_store = st, d_preview = \<lparr>previewIdCounter = n, previewState = Some s\<rparr>\<rparr>"

lemma dash_cases:
  assumes "dash_inv d"
  obtains st n s where "d = dash_at st n s" "inv_at st n s"
proof (cases d)
  case (fields st p)
  then show ?thesis using assms that by (cases p) (auto simp: dash_inv_def split: option.splits)
qed

lemma browser_at [simp]:
  "browserPreviewState \<lparr>previewIdCounter = n, previewState = Some s\<rparr>
     = (s, \<lparr>previewIdCounter = n, previewState = Some s\<rparr>)"
  by (simp add: browserPreviewState_def)

lemma settled_at: "dash_settled (dash_at st n s) = \<lparr>previewIdCounter = n, previewState = Some (settled_load (pendingLayout st) s)\<rparr>"
  by (simp add: dash_settled_def)

definition keeps :: "(string \<Rightarrow> json option) \<Rightarrow> dash_event \<Rightarrow> dash \<Rightarrow> bool" where
  "keeps parse e d = (dash_inv (dash_step parse e d) \<and> dash_settled (dash_step parse e d) = saved_step parse e (dash_settled d))"

lemma inv_at_store:
  assumes "inv_at st n s" "dash_views st' = dash_views st" "dash_widgets st' = dash_widgets st"
    "dash_instances st' = dash_instances st" "pendingLayout st' = pendingLayout st" "layoutTimer st' = layoutTimer st"
    "activeViewId st' = activeViewId st"
  shows "inv_at st' n s"
  using assms by (simp add: inv_at_def)

lemma keep_quiet:
  assumes "inv_at st n s"
  shows "keeps parse DToggleEdit (dash_at st n s)" "keeps parse (DHealth i h) (dash_at st n s)"
    "keeps parse (DClearReveal i) (dash_at st n s)" "keeps parse (DLoadImage f) (dash_at st n s)"
  using inv_at_store [OF assms]
  by (simp_all add: keeps_def on_store_def toggleEditMode_def setWidgetHealth_def clearAgentCreatedReveal_def
      loadBackgroundImage_returns_def dash_inv_def dash_settled_def)

lemma keep_active:
  assumes "inv_at st n s" "i \<in> set (map dv_id (dash_views st))"
  shows "keeps parse (DSetActive i) (dash_at st n s)"
  using assms by (simp add: keeps_def on_store_def setActiveView_def dash_inv_def dash_settled_def inv_at_def view_ids_def active_ok_def)

lemma landing_ok: "active_ok (landing_view landing vs cur) (map dv_id vs)"
proof -
  have "dv_id v \<in> set (map dv_id vs)" if "find p vs = Some v" for p v using find_SomeD [OF that] by simp
  then show ?thesis
    by (auto simp: landing_view_def active_ok_def Let_def list_ex_iff split: option.splits list.splits if_splits)
qed

lemma keep_load:
  assumes i: "inv_at st n s" and p: "pendingLayout st = None"
  shows "keeps parse (DLoad landing) (dash_at st n s)"
proof -
  have "inv_at (dash_load_returns landing (Inr s) (dash_load_begin st)) n s"
    using i p landing_ok [of landing "dl_views s" "activeViewId st"]
    by (simp add: inv_at_def dash_load_returns_def dash_load_begin_def settled_load_def view_ids_def)
  then show ?thesis
    using p by (simp add: keeps_def dash_reload_def asks_def on_store_def preview_loadDashboardState_def dash_inv_def
        dash_settled_def dash_load_returns_def dash_load_begin_def settled_load_def)
qed

lemma keep_timer:
  assumes i: "inv_at st n s"
  shows "keeps parse DLayoutTimer (dash_at st n s)"
proof (cases "pendingLayout st")
  case None
  then show ?thesis using i
    by (simp add: keeps_def dash_layoutTimer_def layout_timer_fires_def dash_inv_def dash_settled_def inv_at_def)
next
  case (Some q)
  obtain v l where q: "q = (v, l)" by fastforce
  have t: "layoutTimer st" using i Some by (simp add: inv_at_def)
  have f: "s\<lparr>dl_instances := place_layout v l (dl_instances s)\<rparr> = settled_load (Some (v, l)) s"
    by (simp add: settled_load_def)
  have g: "settled_load None x = x" "entry_ids None = []" "ids_below kind [] n" for x kind
    by (simp_all add: settled_load_def entry_ids_def ids_below_def)
  show ?thesis using i t Some q
    by (simp add: keeps_def dash_layoutTimer_def layout_timer_fires_def dash_inv_def dash_settled_def inv_at_def
        preview_applyLayout_def load_inv_def f g)
qed

lemma settled_load_views: "settled_load pend (s\<lparr>dl_views := vs\<rparr>) = (settled_load pend s)\<lparr>dl_views := vs\<rparr>"
  by (simp add: settled_load_def split: option.splits)

lemma settled_load_widgets: "settled_load pend (s\<lparr>dl_widgets := ws\<rparr>) = (settled_load pend s)\<lparr>dl_widgets := ws\<rparr>"
  by (simp add: settled_load_def split: option.splits)

lemma ids_simps [simp]:
  "inst_ids (s\<lparr>dl_views := vs\<rparr>) = inst_ids s" "widget_ids (s\<lparr>dl_views := vs\<rparr>) = widget_ids s"
  "view_ids (s\<lparr>dl_views := vs\<rparr>) = map dv_id vs" "inst_ids (s\<lparr>dl_widgets := ws\<rparr>) = inst_ids s"
  "view_ids (s\<lparr>dl_widgets := ws\<rparr>) = view_ids s" "widget_ids (s\<lparr>dl_widgets := ws\<rparr>) = map cw_id ws"
  "view_ids (s\<lparr>dl_instances := is\<rparr>) = view_ids s" "widget_ids (s\<lparr>dl_instances := is\<rparr>) = widget_ids s"
  "inst_ids (s\<lparr>dl_instances := is\<rparr>) = map di_id is"
  by (simp_all add: inst_ids_def view_ids_def widget_ids_def)

text \<open>The views change, in store and preview alike.\<close>

lemma inv_at_views:
  assumes i: "inv_at st n s" and v: "distinct (map dv_id vs)" "ids_below ''view'' (map dv_id vs) m" "n \<le> m"
    and a: "active_ok a (map dv_id vs)"
  shows "inv_at (st\<lparr>dash_views := vs, activeViewId := a\<rparr>) m (s\<lparr>dl_views := vs\<rparr>)"
  using i v a by (auto simp: inv_at_def load_inv_def settled_load_views elim: ids_below_mono)

lemma failed_inv: "inv_at (failed e st) n s = inv_at st n s" "pendingLayout (failed e st) = pendingLayout st"
  by (simp_all add: failed_def inv_at_def)

lemma inv_view_ids: "inv_at st n s \<Longrightarrow> distinct (map dv_id (dl_views s)) \<and> ids_below ''view'' (map dv_id (dl_views s)) n"
  by (simp add: inv_at_def load_inv_def view_ids_def)

lemma assign_view_id [simp]: "dv_id (assign_view p v) = dv_id v"
  by (simp add: assign_view_def)

lemma find_last_new: "k x \<notin> set (map k xs) \<Longrightarrow> find (\<lambda>y. k y = k x) (xs @ [x]) = Some x"
  by (induction xs) auto

lemma update_first_new: "k x \<notin> set (map k xs) \<Longrightarrow> update_first (\<lambda>y. k y = k x) f (xs @ [x]) = xs @ [f x]"
  by (induction xs) auto

lemma keep_create_view:
  assumes i: "inv_at st n s"
  shows "keeps parse (DCreateView title bg) (dash_at st n s)"
proof -
  define v where "v = \<lparr>dv_id = ''preview-'' @ ''view'' @ ''-'' @ nat_string (n + 1), dv_title = title,
    dv_sortOrder = int (length (dl_views s)), dv_gridDensity = ''default'', dv_background = JNull, dv_tabColor = None\<rparr>"
  let ?w = "case bg of None \<Rightarrow> v | Some b \<Rightarrow> assign_view (background_patch b) v"
  let ?vs = "dl_views s @ [?w]"
  have w: "dv_id ?w = dv_id v" by (simp split: option.splits)
  have f: "dv_id v \<notin> set (map dv_id (dl_views s))"
    using ids_below_fresh [of "''view''" "map dv_id (dl_views s)" n] inv_view_ids [OF i]
    by (simp add: v_def del: append.simps)
  have b: "ids_below ''view'' (map dv_id ?vs) (n + 1)"
    using ids_below_new [of "''view''" "map dv_id (dl_views s)" n] inv_view_ids [OF i] w
    by (simp add: v_def del: append.simps)
  have ask: "preview_createView title None \<lparr>previewIdCounter = n, previewState = Some t\<rparr>
      = (v, \<lparr>previewIdCounter = n + 1, previewState = Some (t\<lparr>dl_views := dl_views s @ [v]\<rparr>)\<rparr>)"
    if "dl_views t = dl_views s" for t
    using that by (simp add: preview_createView_def createPreviewId_def v_def Let_def)
  have upd: "preview_updateView (dv_id v) q \<lparr>previewIdCounter = m, previewState = Some (t\<lparr>dl_views := dl_views s @ [v]\<rparr>)\<rparr>
      = (Inr (assign_view q v),
         \<lparr>previewIdCounter = m, previewState = Some (t\<lparr>dl_views := dl_views s @ [assign_view q v]\<rparr>)\<rparr>)" for m q t
    using find_last_new [where k = dv_id, OF f] update_first_new [where k = dv_id, OF f]
    by (simp add: preview_updateView_def Let_def)
  have st: "dash_views st = dl_views s" using i by (simp add: inv_at_def)
  have "inv_at (st\<lparr>dash_views := ?vs, activeViewId := Some (dv_id v)\<rparr>) (n + 1) (s\<lparr>dl_views := ?vs\<rparr>)"
    using f b w inv_view_ids [OF i] by (intro inv_at_views [OF i]) (simp_all add: active_ok_def)
  then show ?thesis using st
    by (cases bg) (simp_all add: keeps_def dash_createView_def asks_def Let_def ask upd createView_returns_def
        dash_inv_def dash_settled_def settled_load_views)
qed

lemma map_where_same_ids: "(\<And>x. k (f x) = k x) \<Longrightarrow> map k (map_where P f xs) = map k xs"
  by (simp add: map_map_where)

lemma keep_update_view:
  assumes i: "inv_at st n s"
  shows "keeps parse (DUpdateView j patch) (dash_at st n s)"
proof (cases "find (\<lambda>v. dv_id v = j) (dl_views s)")
  case None
  then show ?thesis using i
    by (simp add: keeps_def asks_def preview_updateView_def Let_def updateView_returns_def dash_inv_def dash_settled_def
        failed_inv)
next
  case (Some v)
  let ?vs = "map_where (\<lambda>v. dv_id v = j) (assign_view patch) (dl_views s)"
  note d = inv_view_ids [OF i]
  have same: "update_first (\<lambda>v. dv_id v = j) (assign_view patch) (dl_views s) = ?vs"
    "map_where (\<lambda>v. dv_id v = j) (\<lambda>_. assign_view patch v) (dl_views s) = ?vs"
    using d update_first_unique [where k = dv_id] map_where_constant [where k = dv_id, OF _ Some] by auto
  have "map dv_id ?vs = map dv_id (dl_views s)" by (rule map_where_same_ids) simp
  then have "inv_at (st\<lparr>dash_views := ?vs, activeViewId := activeViewId st\<rparr>) n (s\<lparr>dl_views := ?vs\<rparr>)"
    using d i by (intro inv_at_views [OF i]) (simp_all add: inv_at_def view_ids_def)
  moreover have "dash_views st = dl_views s" using i by (simp add: inv_at_def)
  ultimately show ?thesis using Some same
    by (simp add: keeps_def asks_def preview_updateView_def Let_def updateView_returns_def dash_inv_def dash_settled_def
        settled_load_views)
qed

lemma view_of_Some: "i \<in> set (map dv_id vs) \<Longrightarrow> \<exists>v. view_of vs i = Some v \<and> v \<in> set vs \<and> dv_id v = i"
proof -
  assume "i \<in> set (map dv_id vs)"
  then have "map_of (rev (map (\<lambda>v. (dv_id v, v)) vs)) i \<noteq> None"
    by (simp add: map_of_eq_None_iff image_image)
  then obtain v where v: "view_of vs i = Some v" by (auto simp: view_of_def)
  then have "(i, v) \<in> set (rev (map (\<lambda>v. (dv_id v, v)) vs))" unfolding view_of_def by (rule map_of_SomeD)
  then show ?thesis using v by auto
qed

lemma renumbered_reordered:
  assumes "distinct ids"
  shows "renumbered ids vs = reordered ids vs"
proof -
  let ?ps = "map (\<lambda>(n, i). (i, n)) (enumerate 0 ids)"
  have fst: "map fst ?ps = ids" by (simp add: o_def case_prod_beta)
  have pos: "map_of (rev ?ps) i = Some n" if "(n, i) \<in> set (enumerate 0 ids)" for n i
  proof -
    have "(i, n) \<in> set (rev ?ps)" using that by force
    moreover have "distinct (map fst (rev ?ps))" using assms fst by (simp add: rev_map [symmetric])
    ultimately show ?thesis by (simp only: map_of_eq_Some_iff)
  qed
  have "map (\<lambda>i. map_option (dv_sortOrder_update (\<lambda>_. int (nullish (map_of (rev ?ps) i) 0))) (view_of vs i)) ids
      = map (\<lambda>(n, i). map_option (dv_sortOrder_update (\<lambda>_. int n)) (view_of vs i)) (enumerate 0 ids)"
  proof -
    have "map g ids = map (g \<circ> snd) (enumerate 0 ids)" for g :: "string \<Rightarrow> dash_view option"
      by (simp add: map_map [symmetric] del: map_map)
    moreover have "(\<lambda>i. map_option (dv_sortOrder_update (\<lambda>_. int (nullish (map_of (rev ?ps) i) 0))) (view_of vs i)) (snd x)
        = (\<lambda>(n, i). map_option (dv_sortOrder_update (\<lambda>_. int n)) (view_of vs i)) x"
      if "x \<in> set (enumerate 0 ids)" for x
      using pos [of "fst x" "snd x"] that by (cases x) simp
    ultimately show ?thesis by (simp del: map_map cong: map_cong)
  qed
  then show ?thesis by (simp add: renumbered_def reordered_def Let_def)
qed

lemma reordered_ids:
  assumes "set ids \<subseteq> set (map dv_id vs)"
  shows "map dv_id (reordered ids vs) = ids"
proof -
  have "map dv_id (js_compact (map (\<lambda>(n, i). map_option (dv_sortOrder_update (\<lambda>_. int n)) (view_of vs i)) (enumerate k ids)))
      = ids" for k
    using assms
  proof (induction ids arbitrary: k)
    case (Cons i ids)
    then obtain v where "view_of vs i = Some v" "dv_id v = i" using view_of_Some [of i vs] by auto
    then show ?case using Cons by simp
  qed simp
  then show ?thesis by (simp add: reordered_def)
qed

lemma keep_reorder:
  assumes i: "inv_at st n s" and a: "dash_allowed (DReorderViews ids) (dash_at st n s)"
  shows "keeps parse (DReorderViews ids) (dash_at st n s)"
proof -
  have v: "dash_views st = dl_views s" using i by (simp add: inv_at_def)
  have ids: "distinct ids" "set ids = set (map dv_id (dl_views s))" using a v by simp_all
  let ?vs = "reordered ids (dl_views s)"
  have m: "map dv_id ?vs = ids" by (rule reordered_ids) (simp add: ids(2))
  have "active_ok (activeViewId st) ids"
    using i ids(2) by (auto simp: inv_at_def active_ok_def view_ids_def split: option.splits)
  moreover have "ids_below ''view'' ids n" by (rule ids_below_sub) (use inv_view_ids [OF i] ids(2) in auto)
  ultimately have "inv_at (st\<lparr>dash_views := ?vs, activeViewId := activeViewId st\<rparr>) n (s\<lparr>dl_views := ?vs\<rparr>)"
    using ids m by (intro inv_at_views [OF i]) simp_all
  then show ?thesis using v renumbered_reordered [OF ids(1)]
    by (simp add: keeps_def asks_def answered_def preview_reorderViews_def reorderViews_returns_def dash_inv_def
        dash_settled_def settled_load_views)
qed

definition placed :: "(string \<times> layout_entry list) option \<Rightarrow> dash_instance list \<Rightarrow> dash_instance list" where
  "placed pend is = (case pend of None \<Rightarrow> is | Some (v, l) \<Rightarrow> place_layout v l is)"

lemma settled_load_placed: "settled_load pend s = s\<lparr>dl_instances := placed pend (dl_instances s)\<rparr>"
  by (simp add: settled_load_def placed_def split: option.splits)

lemma placed_ids [simp]: "map di_id (placed pend is) = map di_id is"
  by (simp add: placed_def split: option.splits)

lemma placed_sources: "map di_sourceId (placed pend is) = map di_sourceId is"
  by (simp add: placed_def split: option.splits)

lemma placed_filter: "(\<And>e i. P (set_grid e i) = P i) \<Longrightarrow> filter P (placed pend is) = placed pend (filter P is)"
  by (simp add: placed_def place_filter split: option.splits)

lemma placed_append: "di_id i \<notin> set (entry_ids pend) \<Longrightarrow> placed pend (is @ [i]) = placed pend is @ [i]"
  by (auto simp: placed_def entry_ids_def intro!: place_append_new split: option.splits)

lemma placed_map_where:
  "i \<notin> set (entry_ids pend) \<Longrightarrow> (\<And>x. di_id (f x) = di_id x)
    \<Longrightarrow> placed pend (map_where (\<lambda>x. di_id x = i) f is) = map_where (\<lambda>x. di_id x = i) f (placed pend is)"
  by (auto simp: placed_def entry_ids_def intro!: place_map_where split: option.splits)

lemma placed_find:
  "i \<notin> set (entry_ids pend) \<Longrightarrow> find (\<lambda>x. di_id x = i) (placed pend is) = find (\<lambda>x. di_id x = i) is"
  by (auto simp: placed_def entry_ids_def intro!: find_place split: option.splits)

lemma inv_inst_ids:
  "inv_at st n s \<Longrightarrow> distinct (map di_id (dl_instances s)) \<and> ids_below ''inst'' (map di_id (dl_instances s)) n
    \<and> dash_instances st = placed (pendingLayout st) (dl_instances s)"
  by (simp add: inv_at_def load_inv_def inst_ids_def settled_load_placed)

lemma distinct_map_filterI: "distinct (map k xs) \<Longrightarrow> distinct (map k (filter P xs))"
  by (simp add: distinct_map_filter)

lemma ids_below_filter: "ids_below kind (map k xs) n \<Longrightarrow> ids_below kind (map k (filter P xs)) n"
  by (erule ids_below_sub) auto

lemma inv_at_instances:
  assumes i: "inv_at st n s" and d: "distinct (map di_id is)" "ids_below ''inst'' (map di_id is) m" "n \<le> m"
    and x: "xs = placed (pendingLayout st) is"
  shows "inv_at (st\<lparr>dash_instances := xs\<rparr>) m (s\<lparr>dl_instances := is\<rparr>)"
  using assms by (auto simp: inv_at_def load_inv_def settled_load_placed elim: ids_below_mono)

lemma keep_add_instance:
  assumes i: "inv_at st n s"
  shows "keeps parse (DAddInstance x) (dash_at st n s)"
proof -
  define inst where "inst = (fst (preview_addInstance x \<lparr>previewIdCounter = n, previewState = Some s\<rparr>))"
  let ?is = "dl_instances s @ [inst]"
  have id: "di_id inst = ''preview-'' @ ''inst'' @ ''-'' @ nat_string (Suc n)"
    by (simp add: inst_def preview_addInstance_def createPreviewId_def Let_def)
  have views: "map di_viewId (placed (pendingLayout st) is) = map di_viewId is" for "is"
    by (simp add: placed_def place_layout_def split: option.splits)
  have count: "length (filter (\<lambda>y. di_viewId y = v) is) = length (filter (\<lambda>w. w = v) (map di_viewId is))" for "is" v
    by (simp add: filter_map o_def)
  have same: "length (filter (\<lambda>y. di_viewId y = v) is) = length (filter (\<lambda>y. di_viewId y = v) js)"
    if "map di_viewId is = map di_viewId js" for "is" js v
    by (simp only: count that)
  have ask: "preview_addInstance x \<lparr>previewIdCounter = n, previewState = Some (s\<lparr>dl_instances := is\<rparr>)\<rparr>
      = (inst, \<lparr>previewIdCounter = Suc n, previewState = Some (s\<lparr>dl_instances := is @ [inst]\<rparr>)\<rparr>)"
    if "map di_viewId is = map di_viewId (dl_instances s)" for "is"
    using same [OF that] by (simp add: inst_def preview_addInstance_def createPreviewId_def Let_def)
  note d = inv_inst_ids [OF i]
  have f: "di_id inst \<notin> set (map di_id (dl_instances s))" "di_id inst \<notin> set (entry_ids (pendingLayout st))"
    unfolding id by (rule ids_below_fresh, use d i in \<open>simp add: inv_at_def\<close>)+
  have b: "ids_below ''inst'' (map di_id ?is) (Suc n)"
    using ids_below_new [of "''inst''" "map di_id (dl_instances s)" n] d by (simp add: id del: append.simps)
  have "inv_at (st\<lparr>dash_instances := dash_instances st @ [inst]\<rparr>) (Suc n) (s\<lparr>dl_instances := ?is\<rparr>)"
    using d f b by (intro inv_at_instances [OF i]) (simp_all add: placed_append)
  then show ?thesis
    using ask [of "dl_instances s"] ask [OF views] placed_append [OF f(2)]
    by (simp add: keeps_def asks_def addInstance_returns_def dash_inv_def dash_settled_def settled_load_placed)
qed

lemma keep_remove_instance:
  assumes i: "inv_at st n s"
  shows "keeps parse (DRemoveInstance j) (dash_at st n s)"
proof -
  note d = inv_inst_ids [OF i]
  let ?is = "filter (\<lambda>x. di_id x \<noteq> j) (dl_instances s)"
  have p: "filter (\<lambda>x. di_id x \<noteq> j) (placed (pendingLayout st) (dl_instances s)) = placed (pendingLayout st) ?is"
    by (rule placed_filter) simp
  have "inv_at (st\<lparr>dash_instances := filter (\<lambda>x. di_id x \<noteq> j) (dash_instances st)\<rparr>) n (s\<lparr>dl_instances := ?is\<rparr>)"
    using d p by (intro inv_at_instances [OF i]) (auto intro: distinct_map_filterI ids_below_filter)
  then show ?thesis using p
    by (simp add: keeps_def asks_def answered_def preview_removeInstance_def removeInstance_returns_def dash_inv_def
        dash_settled_def settled_load_placed)
qed

lemma keep_remove_view:
  assumes i: "inv_at st n s"
  shows "keeps parse (DRemoveView j) (dash_at st n s)"
proof -
  note d = inv_inst_ids [OF i]
  let ?is = "filter (\<lambda>x. di_viewId x \<noteq> j) (dl_instances s)"
  let ?vs = "filter (\<lambda>v. dv_id v \<noteq> j) (dl_views s)"
  let ?a = "if activeViewId st = Some j then (case ?vs of [] \<Rightarrow> None | v # _ \<Rightarrow> Some (dv_id v)) else activeViewId st"
  have v: "dash_views st = dl_views s" using i by (simp add: inv_at_def)
  have p: "filter (\<lambda>x. di_viewId x \<noteq> j) (placed (pendingLayout st) (dl_instances s)) = placed (pendingLayout st) ?is"
    by (rule placed_filter) simp
  have "active_ok (activeViewId st) (map dv_id (dl_views s))" using i by (simp add: inv_at_def view_ids_def)
  then have "active_ok ?a (map dv_id ?vs)"
    by (auto simp: active_ok_def split: option.splits list.splits dest: filter_eq_ConsD)
  then have "inv_at (st\<lparr>dash_views := ?vs, activeViewId := ?a\<rparr>) n (s\<lparr>dl_views := ?vs\<rparr>)"
    using inv_view_ids [OF i] by (intro inv_at_views [OF i]) (auto intro: distinct_map_filterI ids_below_filter)
  then have "inv_at (st\<lparr>dash_views := ?vs, activeViewId := ?a, dash_instances := placed (pendingLayout st) ?is\<rparr>) n
      (s\<lparr>dl_views := ?vs, dl_instances := ?is\<rparr>)"
    using d by (intro inv_at_instances) (auto intro: distinct_map_filterI ids_below_filter)
  moreover have "st\<lparr>dash_views := ?vs, activeViewId := ?a, dash_instances := placed (pendingLayout st) ?is\<rparr>
      = st\<lparr>dash_views := ?vs, dash_instances := placed (pendingLayout st) ?is, activeViewId := ?a\<rparr>" by simp
  ultimately show ?thesis using p d v
    by (simp add: keeps_def asks_def answered_def preview_removeView_def removeView_returns_def dash_inv_def Let_def
        dash_settled_def settled_load_placed)
qed

lemma settings_error_settled: "settings_error parse patch x (settled_load pend s) = settings_error parse patch x s"
  by (simp add: settings_error_def split: option.split)

lemma keep_update_instance:
  assumes i: "inv_at st n s" and a: "dash_allowed (DUpdateInstance j patch) (dash_at st n s)"
  shows "keeps parse (DUpdateInstance j patch) (dash_at st n s)"
proof -
  let ?pend = "pendingLayout st"
  let ?g = "\<lambda>x. assign_instance patch (present_preset patch x)"
  have g: "di_id (?g x) = di_id x" for x by (simp add: assign_instance_def present_preset_def)
  have free: "j \<notin> set (entry_ids ?pend)" using a by simp
  note d = inv_inst_ids [OF i]
  have found: "find (\<lambda>x. di_id x = j) (dl_instances (settled_load ?pend s)) = find (\<lambda>x. di_id x = j) (dl_instances s)"
    by (simp add: settled_load_placed placed_find [OF free])
  show ?thesis
  proof (cases "find (\<lambda>x. di_id x = j) (dl_instances s)")
    case None
    then show ?thesis using i found
      by (simp add: keeps_def asks_def preview_updateInstance_def Let_def updateInstance_returns_def dash_inv_def
          dash_settled_def failed_inv)
  next
    case (Some x)
    show ?thesis
    proof (cases "settings_error parse patch x s")
      case err: (Some e)
      then show ?thesis using i found Some
        by (simp add: keeps_def asks_def preview_updateInstance_def Let_def updateInstance_returns_def dash_inv_def
            dash_settled_def failed_inv settings_error_settled)
    next
      case ok: None
      let ?is = "map_where (\<lambda>x. di_id x = j) ?g (dl_instances s)"
      have u: "update_first (\<lambda>x. di_id x = j) ?g is = map_where (\<lambda>x. di_id x = j) ?g is"
        if "map di_id is = map di_id (dl_instances s)" for "is"
      proof (rule update_first_unique [where k = di_id])
        show "distinct (map di_id is)" using d that by (simp only:)
      qed
      have const: "map_where (\<lambda>x. di_id x = j) (\<lambda>_. ?g x) (placed ?pend (dl_instances s))
          = map_where (\<lambda>x. di_id x = j) ?g (placed ?pend (dl_instances s))"
        using map_where_constant [where k = di_id and f = ?g and i = j and ?x0.0 = x
            and xs = "placed ?pend (dl_instances s)"] d Some
        by (simp add: placed_find [OF free])
      have mw: "placed ?pend ?is = map_where (\<lambda>x. di_id x = j) ?g (placed ?pend (dl_instances s))"
        by (rule placed_map_where [OF free]) (rule g)
      have "map di_id ?is = map di_id (dl_instances s)" by (rule map_where_same_ids) (rule g)
      then have "inv_at (st\<lparr>dash_instances := placed ?pend ?is\<rparr>) n (s\<lparr>dl_instances := ?is\<rparr>)"
        using d by (intro inv_at_instances [OF i]) simp_all
      then show ?thesis using Some ok found d const mw u [of "dl_instances s"] u [of "placed ?pend (dl_instances s)"]
        by (simp add: keeps_def asks_def preview_updateInstance_def Let_def updateInstance_returns_def dash_inv_def
            dash_settled_def settings_error_settled) (simp add: settled_load_placed)
    qed
  qed
qed

lemma keep_layout:
  assumes i: "inv_at st n s" and a: "dash_allowed (DApplyLayout v l) (dash_at st n s)"
  shows "keeps parse (DApplyLayout v l) (dash_at st n s)"
proof -
  let ?pend = "pendingLayout st"
  note d = inv_inst_ids [OF i]
  have e: "\<exists>x \<in> set (dash_instances st). di_id x = le_id y \<and> di_viewId x = v" if "y \<in> set l" for y
    using a that by (cases ?pend) auto
  have dd: "distinct (map di_id (dash_instances st))" using d by simp
  have "place_layout v l (dash_instances st) = place_layout v l (dl_instances s)"
  proof (cases ?pend)
    case None
    then show ?thesis using d by (simp add: placed_def)
  next
    case (Some q)
    obtain v0 l0 where q: "q = (v0, l0)" by fastforce
    have ids: "set (map di_id (dash_instances st)) = set (map di_id (dl_instances s))" using d by (metis placed_ids)
    have v0: "v0 = v" and cov: "\<And>x. x \<in> set (dash_instances st) \<Longrightarrow> di_id x \<in> set (map le_id l0)
        \<Longrightarrow> di_id x \<in> set (map le_id l)" using a Some q by auto
    have "place_layout v l (place_layout v l0 (dl_instances s)) = place_layout v l (dl_instances s)"
    proof (rule place_place)
      fix x
      assume "x \<in> set (dl_instances s)" "di_id x \<in> set (map le_id l0)"
      then obtain y where "y \<in> set (dash_instances st)" "di_id y = di_id x" using ids by (metis (no_types) imageE imageI set_map)
      then show "di_id x \<in> set (map le_id l)" using cov [of y] \<open>di_id x \<in> set (map le_id l0)\<close> by simp
    qed
    then show ?thesis using d Some q v0 by (simp add: placed_def)
  qed
  then have shown: "map (\<lambda>i. case entry_of l (di_id i) of None \<Rightarrow> i | Some e \<Rightarrow> set_grid e i) (dash_instances st)
      = place_layout v l (dl_instances s)"
    using apply_is_place [OF dd e] by simp
  have ids: "ids_below ''inst'' (map le_id l) n"
  proof (rule ids_below_sub)
    show "ids_below ''inst'' (map di_id (dash_instances st)) n" using d by simp
    show "set (map le_id l) \<subseteq> set (map di_id (dash_instances st))"
    proof
      fix k
      assume "k \<in> set (map le_id l)"
      then obtain y where "y \<in> set l" "k = le_id y" by auto
      then obtain x where "x \<in> set (dash_instances st)" "di_id x = k" using e by blast
      then show "k \<in> set (map di_id (dash_instances st))" by auto
    qed
  qed
  have over: "placed (Some (v, l)) (placed ?pend (dl_instances s)) = place_layout v l (dl_instances s)"
    using \<open>place_layout v l (dash_instances st) = _\<close> d by (simp add: placed_def)
  show ?thesis using i shown ids over
    by (simp add: keeps_def on_store_def applyLayout_def dash_inv_def dash_settled_def preview_applyLayout_def Let_def
        settled_load_placed inv_at_def entry_ids_def) (simp add: placed_def)
qed

lemma inv_at_widgets:
  assumes i: "inv_at st n s" and d: "distinct (map cw_id ws)" "ids_below ''cw'' (map cw_id ws) m" "n \<le> m"
  shows "inv_at (st\<lparr>dash_widgets := ws\<rparr>) m (s\<lparr>dl_widgets := ws\<rparr>)"
  using assms by (auto simp: inv_at_def load_inv_def settled_load_placed elim: ids_below_mono)

lemma inv_widget_ids:
  "inv_at st n s \<Longrightarrow> distinct (map cw_id (dl_widgets s)) \<and> ids_below ''cw'' (map cw_id (dl_widgets s)) n
    \<and> dash_widgets st = dl_widgets s"
  by (simp add: inv_at_def load_inv_def widget_ids_def)

lemma keep_create_widget:
  assumes i: "inv_at st n s"
  shows "keeps parse (DCreateWidget now x) (dash_at st n s)"
proof -
  let ?p = "\<lparr>previewIdCounter = n, previewState = Some s\<rparr>"
  note d = inv_widget_ids [OF i]
  show ?thesis
  proof (cases "fst (preview_createCustomWidget parse now x ?p)")
    case (Inl e)
    then have "preview_createCustomWidget parse now x \<lparr>previewIdCounter = n, previewState = Some t\<rparr>
        = (Inl e, \<lparr>previewIdCounter = n, previewState = Some t\<rparr>)" for t
      by (auto simp: preview_createCustomWidget_def createPreviewId_def Let_def split: sum.splits option.splits)
    then show ?thesis using i
      by (simp add: keeps_def asks_def createCustomWidget_returns_def dash_inv_def dash_settled_def failed_inv)
  next
    case (Inr w)
    have id: "cw_id w = ''preview-'' @ ''cw'' @ ''-'' @ nat_string (Suc n)"
      using Inr by (auto simp: preview_createCustomWidget_def createPreviewId_def Let_def split: sum.splits option.splits)
    have ask: "preview_createCustomWidget parse now x \<lparr>previewIdCounter = n, previewState = Some t\<rparr>
        = (Inr w, \<lparr>previewIdCounter = Suc n, previewState = Some (t\<lparr>dl_widgets := dl_widgets t @ [w]\<rparr>)\<rparr>)" for t
      using Inr by (auto simp: preview_createCustomWidget_def createPreviewId_def Let_def split: sum.splits option.splits)
    have "cw_id w \<notin> set (map cw_id (dl_widgets s))" unfolding id by (rule ids_below_fresh) (use d in simp)
    moreover have "ids_below ''cw'' (map cw_id (dl_widgets s @ [w])) (Suc n)"
      using ids_below_new [of "''cw''" "map cw_id (dl_widgets s)" n] d by (simp add: id del: append.simps)
    ultimately have "inv_at (st\<lparr>dash_widgets := dl_widgets s @ [w]\<rparr>) (Suc n) (s\<lparr>dl_widgets := dl_widgets s @ [w]\<rparr>)"
      using d by (intro inv_at_widgets [OF i]) simp_all
    then show ?thesis using d ask
      by (simp add: keeps_def asks_def createCustomWidget_returns_def dash_inv_def dash_settled_def settled_load_widgets)
  qed
qed

lemma keep_update_widget:
  assumes i: "inv_at st n s"
  shows "keeps parse (DUpdateWidget j patch) (dash_at st n s)"
proof (cases "fst (preview_updateCustomWidget parse j patch \<lparr>previewIdCounter = n, previewState = Some s\<rparr>)")
  case (Inl e)
  then have "preview_updateCustomWidget parse j patch \<lparr>previewIdCounter = n, previewState = Some t\<rparr>
      = (Inl e, \<lparr>previewIdCounter = n, previewState = Some t\<rparr>)" if "dl_widgets t = dl_widgets s" for t
    using that by (auto simp: preview_updateCustomWidget_def Let_def split: sum.splits option.splits)
  then show ?thesis using i
    by (simp add: keeps_def asks_def updateCustomWidget_returns_def dash_inv_def dash_settled_def failed_inv)
next
  case (Inr w)
  note d = inv_widget_ids [OF i]
  let ?ws = "map_where (\<lambda>w. cw_id w = j) (assign_widget patch) (dl_widgets s)"
  obtain w0 where w0: "find (\<lambda>w. cw_id w = j) (dl_widgets s) = Some w0" "w = assign_widget patch w0"
    using Inr by (auto simp: preview_updateCustomWidget_def Let_def split: sum.splits option.splits)
  have same: "update_first (\<lambda>w. cw_id w = j) (assign_widget patch) (dl_widgets s) = ?ws"
    "map_where (\<lambda>w. cw_id w = j) (\<lambda>_. w) (dl_widgets s) = ?ws"
    using d update_first_unique [where k = cw_id] map_where_constant [where k = cw_id, OF _ w0(1)] w0(2) by auto
  have ask: "preview_updateCustomWidget parse j patch \<lparr>previewIdCounter = n, previewState = Some t\<rparr>
      = (Inr w, \<lparr>previewIdCounter = n, previewState = Some (t\<lparr>dl_widgets := ?ws\<rparr>)\<rparr>)"
    if "dl_widgets t = dl_widgets s" for t
    using Inr that w0 same
    by (auto simp: preview_updateCustomWidget_def Let_def split: sum.splits option.splits)
  have "map cw_id ?ws = map cw_id (dl_widgets s)" by (rule map_where_same_ids) (simp add: assign_widget_def)
  then have "inv_at (st\<lparr>dash_widgets := ?ws\<rparr>) n (s\<lparr>dl_widgets := ?ws\<rparr>)"
    using d by (intro inv_at_widgets [OF i]) simp_all
  then show ?thesis using d ask same(2)
    by (simp add: keeps_def asks_def updateCustomWidget_returns_def dash_inv_def dash_settled_def settled_load_widgets)
qed

lemma keep_remove_widget:
  assumes i: "inv_at st n s"
  shows "keeps parse (DRemoveWidget j force) (dash_at st n s)"
proof -
  let ?pend = "pendingLayout st"
  let ?is = "if force then filter (\<lambda>x. di_sourceId x \<noteq> j) (dl_instances s) else dl_instances s"
  let ?ws = "filter (\<lambda>w. cw_id w \<noteq> j) (dl_widgets s)"
  note d = inv_inst_ids [OF i] and w = inv_widget_ids [OF i]
  have used: "list_ex (\<lambda>x. di_sourceId x = j) (placed ?pend is) = list_ex (\<lambda>x. di_sourceId x = j) is" for "is"
  proof -
    have "list_ex (\<lambda>x. di_sourceId x = j) xs = (j \<in> set (map di_sourceId xs))" for xs :: "dash_instance list"
      by (auto simp: list_ex_iff)
    then show ?thesis by (simp only: placed_sources)
  qed
  have p: "filter (\<lambda>x. di_sourceId x \<noteq> j) (placed ?pend (dl_instances s))
      = placed ?pend (filter (\<lambda>x. di_sourceId x \<noteq> j) (dl_instances s))"
    by (rule placed_filter) simp
  have "inv_at (st\<lparr>dash_widgets := ?ws\<rparr>) n (s\<lparr>dl_widgets := ?ws\<rparr>)"
    using w by (intro inv_at_widgets [OF i]) (auto intro: distinct_map_filterI ids_below_filter)
  then have inv: "inv_at (st\<lparr>dash_widgets := ?ws, dash_instances := placed ?pend ?is\<rparr>) n
      (s\<lparr>dl_widgets := ?ws, dl_instances := ?is\<rparr>)"
    using d by (intro inv_at_instances) (auto intro: distinct_map_filterI ids_below_filter)
  show ?thesis
  proof (cases "list_ex (\<lambda>x. di_sourceId x = j) (dl_instances s) \<and> \<not> force")
    case True
    then show ?thesis using i
      by (simp add: keeps_def asks_def dash_removeCustomWidget_def preview_removeCustomWidget_def Let_def
          removeCustomWidget_returns_def dash_inv_def dash_settled_def failed_inv settled_load_placed used)
  next
    case False
    then show ?thesis using inv w d p
      by (auto simp: keeps_def asks_def dash_removeCustomWidget_def preview_removeCustomWidget_def Let_def
          removeCustomWidget_returns_def dash_inv_def dash_settled_def settled_load_placed used)
  qed
qed

lemma first_load:
  assumes p: "ids_below ''inst'' (entry_ids (pendingLayout st)) n"
    and t: "pendingLayout st \<noteq> None \<longrightarrow> layoutTimer st"
  shows "dash_inv (dash_reload landing \<lparr>d_store = st, d_preview = \<lparr>previewIdCounter = n, previewState = None\<rparr>\<rparr>)
    \<and> dash_settled (dash_reload landing \<lparr>d_store = st, d_preview = \<lparr>previewIdCounter = n, previewState = None\<rparr>\<rparr>)
      = snd (browserPreviewState \<lparr>previewIdCounter = n, previewState = None\<rparr>)"
proof -
  obtain s where b: "browserPreviewState \<lparr>previewIdCounter = n, previewState = None\<rparr>
      = (s, \<lparr>previewIdCounter = Suc (Suc n), previewState = Some s\<rparr>)"
    by (simp add: browserPreviewState_def createPreviewId_def Let_def)
  have ids: "view_ids s = [''preview-'' @ ''view'' @ ''-'' @ nat_string (Suc n)]"
    "inst_ids s = [''preview-'' @ ''inst'' @ ''-'' @ nat_string (Suc (Suc n))]" "dl_widgets s = []"
    using b by (auto simp: browserPreviewState_def createPreviewId_def Let_def view_ids_def inst_ids_def)
  have one: "ids_below kind [''preview-'' @ kind @ ''-'' @ nat_string k] m" if "k \<le> m" for kind k m
    using that by (auto simp: ids_below_def)
  have old: "settled_load (pendingLayout st) s = s"
  proof (cases "pendingLayout st")
    case (Some q)
    obtain v l where q: "q = (v, l)" by fastforce
    have "inst_ids s = inst_ids s \<and> (\<forall>x \<in> set (dl_instances s). di_id x \<notin> set (map le_id l))"
    proof (intro conjI refl ballI)
      fix x
      assume "x \<in> set (dl_instances s)"
      then have "di_id x \<in> set (inst_ids s)" by (simp add: inst_ids_def)
      then have x: "di_id x = ''preview-'' @ ''inst'' @ ''-'' @ nat_string (Suc (Suc n))" using ids(2) by simp
      have "ids_below ''inst'' (map le_id l) (Suc n)"
        using p Some q by (auto simp: entry_ids_def elim: ids_below_mono)
      then show "di_id x \<notin> set (map le_id l)" unfolding x by (rule ids_below_fresh)
    qed
    then have "entry_of l (di_id x) = None" if "x \<in> set (dl_instances s)" for x
      using that unfolding entry_of_None by blast
    then have "place_layout v l (dl_instances s) = dl_instances s"
      unfolding place_layout_def by (intro map_idI) simp
    then show ?thesis using Some q by (simp add: settled_load_def)
  qed (simp add: settled_load_def)
  have "load_inv (Suc (Suc n)) s"
    using ids one by (simp add: load_inv_def widget_ids_def ids_below_def [of _ "[]"] del: append.simps)
  moreover have "ids_below ''inst'' (entry_ids (pendingLayout st)) (Suc (Suc n))" using p by (rule ids_below_mono) simp
  ultimately have "inv_at (dash_load_returns landing (Inr s) (dash_load_begin st)) (Suc (Suc n)) s"
    using t old landing_ok [where landing = landing and vs = "dl_views s" and cur = "activeViewId st"]
    by (simp add: inv_at_def dash_load_returns_def dash_load_begin_def view_ids_def)
  then show ?thesis using old
    by (simp add: dash_reload_def asks_def on_store_def preview_loadDashboardState_def b dash_inv_def dash_settled_def)
      (simp add: dash_load_returns_def dash_load_begin_def)
qed

lemma keep_reset:
  assumes i: "inv_at st n s"
  shows "keeps parse (DReset landing) (dash_at st n s)"
  using first_load [of st n landing] i
  by (simp add: keeps_def dash_reset_def preview_resetDashboard_def inv_at_def preview_loadDashboardState_def dash_settled_def)

lemma dash_step_keeps:
  assumes "dash_inv d" "dash_allowed e d"
  shows "keeps parse e d"
proof -
  obtain st n s where d: "d = dash_at st n s" and i: "inv_at st n s" using assms(1) by (rule dash_cases)
  show ?thesis using assms(2) unfolding d
    by (cases e)
      (auto intro: keep_quiet [OF i] keep_active [OF i] keep_load [OF i] keep_timer [OF i] keep_create_view [OF i]
        keep_update_view [OF i] keep_reorder [OF i] keep_remove_view [OF i] keep_add_instance [OF i]
        keep_update_instance [OF i] keep_remove_instance [OF i] keep_layout [OF i] keep_create_widget [OF i]
        keep_update_widget [OF i] keep_remove_widget [OF i] keep_reset [OF i])
qed

section \<open>Properties\<close>

interpretation dashboard: simulation "dash_step parse" "saved_step parse" "\<lambda>d p. dash_inv d \<and> dash_settled d = p" dash_allowed
  for parse
  using dash_step_keeps by unfold_locales (auto simp: keeps_def)

definition dash_started :: "string \<Rightarrow> dash" where
  "dash_started landing = dash_reload landing \<lparr>d_store = dash_initial, d_preview = preview_initial\<rparr>"

lemma settled_load_None: "settled_load None = (\<lambda>s. s)"
  by (rule ext) (simp add: settled_load_def)

lemma dash_started_inv: "dash_inv (dash_started landing)" "dash_settled (dash_started landing) = d_preview (dash_started landing)"
proof -
  have i: "ids_below ''inst'' (entry_ids (pendingLayout dash_initial)) 0" "pendingLayout dash_initial = None"
    by (simp_all add: dash_initial_def entry_ids_def ids_below_def)
  show "dash_inv (dash_started landing)"
    using first_load [of dash_initial 0 landing] i by (simp add: dash_started_def preview_initial_def)
  have "pendingLayout (d_store (dash_started landing)) = None"
    by (simp add: dash_started_def dash_reload_def asks_def on_store_def dash_load_begin_def dash_load_returns_def
        dash_initial_def case_prod_beta Let_def)
  then show "dash_settled (dash_started landing) = d_preview (dash_started landing)"
    using settled_load_None by (cases "d_preview (dash_started landing)") (simp add: dash_settled_def option.map_ident)
qed

lemma timer_settles: "dash_inv d \<Longrightarrow> d_preview (dash_layoutTimer d) = dash_settled d"
proof (erule dash_cases)
  fix st n s
  assume d: "d = dash_at st n s" and i: "inv_at st n s"
  show "d_preview (dash_layoutTimer d) = dash_settled d"
    using i by (auto simp: d dash_layoutTimer_def layout_timer_fires_def dash_settled_def settled_load_def inv_at_def
        preview_applyLayout_def Let_def split: option.splits prod.splits)
qed


definition demo_input :: instance_input where
  "demo_input = \<lparr>ii_viewId = ''preview-view-1'', ii_kind = BuiltInWidget, ii_sourceId = ''clock'', ii_preset = HeroPreset,
     ii_accentName = ''teal'', ii_iconName = ''Clock'', ii_gridX = 4, ii_gridY = 0, ii_gridW = 2, ii_gridH = 2\<rparr>"

definition demo_place :: "string \<Rightarrow> int \<Rightarrow> layout_entry" where
  "demo_place i x = \<lparr>le_id = i, le_gridX = x, le_gridY = 1, le_gridW = 3, le_gridH = 3\<rparr>"

definition demo_dash_events :: "dash_event list" where
  "demo_dash_events =
     [DAddInstance demo_input, DApplyLayout ''preview-view-1'' [demo_place ''preview-inst-2'' 5],
      DApplyLayout ''preview-view-1'' [demo_place ''preview-inst-2'' 6, demo_place ''preview-inst-3'' 0],
      DRemoveInstance ''preview-inst-2'', DCreateView ''Lab'' None]"


text \<open>
  C23. Only one layout waits to be written: when another view is rearranged before the timer fires,
  the first view keeps its stored places for good, while the screen shows the new ones until the
  next reload.
\<close>

theorem layout_of_first_view_is_lost:
  assumes "dash_inv d" "v \<noteq> w"
  shows "let d' = fold (dash_step parse) [DApplyLayout v l, DApplyLayout w m, DLayoutTimer] d
    in d_preview d' = preview_applyLayout w m (d_preview d)
      \<and> (\<forall>s s'. previewState (d_preview d) = Some s \<longrightarrow> previewState (d_preview d') = Some s'
          \<longrightarrow> filter (\<lambda>i. di_viewId i = v) (dl_instances s') = filter (\<lambda>i. di_viewId i = v) (dl_instances s))
      \<and> (\<forall>i \<in> set (dash_instances (d_store d)). \<forall>e. entry_of l (di_id i) = Some e
          \<longrightarrow> entry_of m (di_id i) = None \<longrightarrow> set_grid e i \<in> set (dash_instances (d_store d')))"
proof -
  obtain st n s where d: "d = dash_at st n s" using assms(1) by (rule dash_cases)
  have other: "filter (\<lambda>i. di_viewId i = v) (place_layout w m is) = filter (\<lambda>i. di_viewId i = v) is" for "is"
    using assms(2) by (induction "is") (auto simp: place_layout_def split: option.splits)
  have "set_grid e i \<in> set (map (\<lambda>i. case entry_of m (di_id i) of None \<Rightarrow> i | Some e \<Rightarrow> set_grid e i)
      (map (\<lambda>i. case entry_of l (di_id i) of None \<Rightarrow> i | Some e \<Rightarrow> set_grid e i) is))"
    if "i \<in> set is" "entry_of l (di_id i) = Some e" "entry_of m (di_id i) = None" for i e "is"
    unfolding set_map image_image by (rule image_eqI [of _ _ i]) (simp_all add: that)
  then show ?thesis
    by (simp add: d Let_def on_store_def applyLayout_def dash_layoutTimer_def layout_timer_fires_def
        preview_applyLayout_def other del: set_map map_map)
qed

theorem layout_of_first_view_is_lost_witness:
  "let d = dash_step (\<lambda>_. None) (DCreateView ''Lab'' None) (dash_started ''lastActive'');
       d' = fold (dash_step (\<lambda>_. None)) [DApplyLayout ''preview-view-1'' [demo_place ''preview-inst-2'' 5],
              DApplyLayout ''preview-view-3'' [], DLayoutTimer] d
    in d_preview d' = preview_applyLayout ''preview-view-3'' [] (d_preview d)
      \<and> map di_gridX (dash_instances (d_store d')) = [5]
      \<and> map_option (\<lambda>s. map di_gridX (dl_instances s)) (previewState (d_preview d')) = Some [0]"
proof -
  have i: "dash_inv (dash_step (\<lambda>_. None) (DCreateView ''Lab'' None) (dash_started ''lastActive''))"
    using dash_step_keeps [OF dash_started_inv(1)] by (simp add: keeps_def del: dash_step.simps)
  have n: "''preview-view-1'' \<noteq> ''preview-view-3''" by simp
  let ?d = "fold (dash_step (\<lambda>_. None)) [DApplyLayout ''preview-view-1'' [demo_place ''preview-inst-2'' 5],
      DApplyLayout ''preview-view-3'' [], DLayoutTimer]
    (dash_step (\<lambda>_. None) (DCreateView ''Lab'' None) (dash_started ''lastActive''))"
  have "map di_gridX (dash_instances (d_store ?d)) = [5]"
    "map_option (\<lambda>s. map di_gridX (dl_instances s)) (previewState (d_preview ?d)) = Some [0]"
    by code_simp+
  then show ?thesis
    using layout_of_first_view_is_lost [OF i n, of "\<lambda>_. None" "[demo_place ''preview-inst-2'' 5]" "[]"]
    by (simp only: Let_def simp_thms)
qed

definition grid_of :: "dash_instance \<Rightarrow> int \<times> int \<times> int \<times> int" where
  "grid_of i = (di_gridX i, di_gridY i, di_gridW i, di_gridH i)"

definition places :: "dash_instance list \<Rightarrow> string \<Rightarrow> (int \<times> int \<times> int \<times> int) list" where
  "places is j = map grid_of (filter (\<lambda>i. di_id i = j) is)"

lemma filter_unique:
  "distinct (map k xs) \<Longrightarrow> find (\<lambda>x. k x = j) xs = Some x \<Longrightarrow> filter (\<lambda>x. k x = j) xs = [x]"
proof (induction xs)
  case (Cons y ys)
  show ?case
  proof (cases "k y = j")
    case True
    then have "filter (\<lambda>x. k x = j) ys = []" using Cons.prems(1) by (auto simp: filter_empty_conv) (metis imageI)
    then show ?thesis using True Cons.prems by simp
  qed (use Cons in auto)
qed simp

lemma filter_map_where:
  "(\<And>x. k (f x) = k x) \<Longrightarrow> filter (\<lambda>x. k x = j) (map_where (\<lambda>x. k x = j) f xs) = map f (filter (\<lambda>x. k x = j) xs)"
  by (induction xs) (auto simp: map_where_def)

text \<open>
  Editing a widget before the layout that moved it is written puts it back on screen: the answer
  carries the stored place, so the screen shows the old one, and then the timer stores the new one.
\<close>

theorem edit_during_layout_shows_old_place:
  assumes "dash_inv d" "pendingLayout (d_store d) = None"
    and "previewState (d_preview d) = Some s" "find (\<lambda>i. di_id i = j) (dl_instances s) = Some x"
    and "entry_of l j = Some e" "settings_error parse patch x s = None"
    and "ip_gridX patch = None" "ip_gridY patch = None" "ip_gridW patch = None" "ip_gridH patch = None"
  shows "let d' = fold (dash_step parse) [DApplyLayout (di_viewId x) l, DUpdateInstance j patch, DLayoutTimer] d
    in places (dash_instances (d_store d')) j = [grid_of x]
      \<and> map_option (\<lambda>s'. places (dl_instances s') j) (previewState (d_preview d'))
        = Some [(le_gridX e, le_gridY e, le_gridW e, le_gridH e)]"
proof -
  obtain st n s0 where d: "d = dash_at st n s0" and i: "inv_at st n s0" using assms(1) by (rule dash_cases)
  then have s0: "s0 = s" using assms(3) by simp
  let ?g = "\<lambda>x. assign_instance patch (present_preset patch x)"
  let ?put = "\<lambda>i. case entry_of l (di_id i) of None \<Rightarrow> i | Some e \<Rightarrow> set_grid e i"
  have g: "di_id (?g y) = di_id y" "di_viewId (?g y) = di_viewId y" "grid_of (?g y) = grid_of y" for y
    using assms(7-) by (simp_all add: assign_instance_def present_preset_def grid_of_def)
  have put: "di_id (?put y) = di_id y" for y by (simp split: option.splits)
  note ids = inv_inst_ids [OF i, unfolded s0]
  have st: "dash_instances st = dl_instances s" using ids assms(2) by (simp add: d placed_def)
  have x: "di_id x = j" using find_SomeD [OF assms(4)] by simp
  have one: "filter (\<lambda>i. di_id i = j) (dl_instances s) = [x]"
    using filter_unique [where k = di_id] ids assms(4) by blast
  have u: "update_first (\<lambda>x. di_id x = j) ?g (dl_instances s) = map_where (\<lambda>x. di_id x = j) ?g (dl_instances s)"
    using update_first_unique [where k = di_id] ids by blast
  let ?d = "fold (dash_step parse) [DApplyLayout (di_viewId x) l, DUpdateInstance j patch, DLayoutTimer] d"
  have shown: "dash_instances (d_store ?d) = map_where (\<lambda>x. di_id x = j) (\<lambda>_. ?g x) (map ?put (dl_instances s))"
    and stored: "previewState (d_preview ?d)
      = Some (s\<lparr>dl_instances := place_layout (di_viewId x) l (map_where (\<lambda>x. di_id x = j) ?g (dl_instances s))\<rparr>)"
    using assms(2,4,6) st
    by (simp_all add: d s0 on_store_def applyLayout_def asks_def preview_updateInstance_def Let_def u
        updateInstance_returns_def dash_layoutTimer_def layout_timer_fires_def preview_applyLayout_def)
  have "filter (\<lambda>i. di_id i = j) (map ?put (dl_instances s)) = [?put x]"
  proof -
    have "filter (\<lambda>i. di_id i = j) (map ?put is) = map ?put (filter (\<lambda>i. di_id i = j) is)" for "is"
      by (simp add: filter_map o_def put)
    then show ?thesis by (simp add: one)
  qed
  moreover have "filter (\<lambda>x. di_id x = j) (map_where (\<lambda>x. di_id x = j) (\<lambda>_. ?g x) is)
      = map (\<lambda>_. ?g x) (filter (\<lambda>x. di_id x = j) is)" for "is"
    using x g(1) [of x] by (induction "is") (auto simp: map_where_def)
  ultimately have a: "places (dash_instances (d_store ?d)) j = [grid_of x]" unfolding places_def shown by (simp add: g)
  have "filter (\<lambda>i. di_id i = j) (place_layout v l is) = place_layout v l (filter (\<lambda>i. di_id i = j) is)" for v "is"
    by (rule place_filter) simp
  then have "places (place_layout (di_viewId x) l (map_where (\<lambda>x. di_id x = j) ?g (dl_instances s))) j
      = [grid_of (set_grid e (?g x))]"
    using filter_map_where [where k = di_id and f = ?g, OF g(1)] assms(5) x g
    by (simp add: places_def one place_layout_def)
  then show ?thesis using a stored by (simp only: Let_def) (simp add: grid_of_def set_grid_def)
qed

theorem edit_during_layout_shows_old_place_witness:
  "let d' = fold (dash_step (\<lambda>_. None)) [DApplyLayout ''preview-view-1'' [demo_place ''preview-inst-2'' 5],
         DUpdateInstance ''preview-inst-2'' \<lparr>ip_preset = None, ip_accentName = Some ''red'', ip_iconName = None,
           ip_customTitle = None, ip_glass = None, ip_hideTitle = None, ip_bodyOpacity = None,
           ip_settingsValuesJson = None, ip_gridX = None, ip_gridY = None, ip_gridW = None, ip_gridH = None\<rparr>,
         DLayoutTimer] (dash_started ''lastActive'')
    in places (dash_instances (d_store d')) ''preview-inst-2'' = [(0, 0, 4, 3)]
      \<and> map_option (\<lambda>s'. places (dl_instances s') ''preview-inst-2'') (previewState (d_preview d')) = Some [(5, 1, 3, 3)]"
proof -
  let ?p = "\<lparr>ip_preset = None, ip_accentName = Some ''red'', ip_iconName = None,
    ip_customTitle = None, ip_glass = None, ip_hideTitle = None, ip_bodyOpacity = None,
    ip_settingsValuesJson = None, ip_gridX = None, ip_gridY = None, ip_gridW = None, ip_gridH = None\<rparr>"
  obtain s where s: "previewState (d_preview (dash_started ''lastActive'')) = Some s"
    using dash_started_inv(1) [of "''lastActive''"] by (auto simp: dash_inv_def split: option.splits)
  have ev: "map_option (\<lambda>s. (map_option grid_of (find (\<lambda>i. di_id i = ''preview-inst-2'') (dl_instances s)),
      map_option di_viewId (find (\<lambda>i. di_id i = ''preview-inst-2'') (dl_instances s))))
    (previewState (d_preview (dash_started ''lastActive''))) = Some (Some (0, 0, 4, 3), Some ''preview-view-1'')"
    by code_simp
  then obtain x where x: "find (\<lambda>i. di_id i = ''preview-inst-2'') (dl_instances s) = Some x"
    "grid_of x = (0, 0, 4, 3)" "di_viewId x = ''preview-view-1''" by (auto simp: s)
  have p: "pendingLayout (d_store (dash_started ''lastActive'')) = None" by code_simp
  have e: "entry_of [demo_place ''preview-inst-2'' 5] ''preview-inst-2'' = Some (demo_place ''preview-inst-2'' 5)"
    by code_simp
  have "settings_error (\<lambda>_. None) ?p x s = None" by (simp add: settings_error_def)
  then show ?thesis
    using edit_during_layout_shows_old_place [OF dash_started_inv(1) p s x(1) e, of "\<lambda>_. None" ?p] x
    by (simp add: Let_def demo_place_def del: fold.simps dash_step.simps)
qed

end
