(* ===== verification/Git_Lanes.thy ===== *)
theory Git_Lanes
  imports Js_Prelude
begin

text \<open>
  The columns of the commit graph (\<open>src/src/modules/git/lane.ts\<close>) and the lane an edge is
  drawn in (\<open>GitGraph.tsx\<close>).  A lane is \<open>Some id\<close> while it is reserved for the commit
  \<open>id\<close> and \<open>None\<close> while it is free.
\<close>

section \<open>The model\<close>

datatype git_ref_type = RefHead | RefBranch | RefRemote | RefTag

record git_ref =
  ref_type :: git_ref_type
  ref_name :: string

record git_commit =
  commit_id :: string
  shortId :: string
  parents :: "string list"
  authorName :: string
  authorEmail :: string
  commit_subject :: string
  commit_body :: string
  isoDate :: string
  commit_when :: string
  commit_refs :: "git_ref list"

record graph_commit = git_commit +
  lane :: nat

type_synonym lanes = "string option list"

definition firstFreeLane :: "lanes \<Rightarrow> nat \<times> lanes" where
  "firstFreeLane ls =
     (case find_index (\<lambda>x. x = None) ls of
        Some idx \<Rightarrow> (idx, ls)
      | None \<Rightarrow> (length ls, ls @ [None]))"

text \<open>The lane already reserved for a commit, or else a free one.\<close>

definition lane_for :: "string \<Rightarrow> lanes \<Rightarrow> nat \<times> lanes" where
  "lane_for cid ls =
     (case find_index (\<lambda>x. x = Some cid) ls of
        Some i \<Rightarrow> (i, ls)
      | None \<Rightarrow> firstFreeLane ls)"

definition converge :: "nat \<Rightarrow> string \<Rightarrow> lanes \<Rightarrow> lanes" where
  "converge l cid ls =
     map (\<lambda>i. if i \<noteq> l \<and> ls ! i = Some cid then None else ls ! i) [0..<length ls]"

definition reserve :: "string \<Rightarrow> lanes \<Rightarrow> lanes" where
  "reserve p ls = (let (i, ls') = lane_for p ls in ls'[i := Some p])"

definition place_commit :: "git_commit \<Rightarrow> lanes \<Rightarrow> nat \<times> lanes" where
  "place_commit c ls =
     (let (l, ls1) = lane_for (commit_id c) ls;
          ls2 = converge l (commit_id c) ls1;
          ls3 = ls2[l := (case parents c of [] \<Rightarrow> None | p # ps \<Rightarrow> Some p)]
      in (l, fold reserve (tl (parents c)) ls3))"

fun assign_from :: "git_commit list \<Rightarrow> lanes \<Rightarrow> graph_commit list" where
  "assign_from [] ls = []"
| "assign_from (c # cs) ls =
     (let (l, ls') = place_commit c ls
      in git_commit.extend c (graph_commit.fields l) # assign_from cs ls')"

definition assignLanes :: "git_commit list \<Rightarrow> graph_commit list" where
  "assignLanes commits = assign_from commits []"

definition maxLane :: "graph_commit list \<Rightarrow> nat" where
  "maxLane commits = foldl (\<lambda>m c. max m (lane c)) 0 commits"

text \<open>
  The lane in which the edge from a commit to its parent number \<open>k\<close> runs straight between
  their rows: the child's for the first parent, the parent's for a merged one.
\<close>

definition edge_lane :: "graph_commit \<Rightarrow> graph_commit \<Rightarrow> nat \<Rightarrow> nat" where
  "edge_lane node parent k =
     (if lane node = lane parent then lane node else if k > 0 then lane parent else lane node)"

section \<open>Reserved lanes\<close>

definition holds :: "nat \<Rightarrow> string \<Rightarrow> lanes \<Rightarrow> bool" where
  "holds l p ls = (l < length ls \<and> ls ! l = Some p)"

lemma firstFreeLane_spec:
  assumes "firstFreeLane ls = (i, ls')"
  shows "i < length ls' \<and> ls' ! i = None \<and> (\<forall>l p. holds l p ls \<longrightarrow> holds l p ls')"
  using assms
  by (auto simp: firstFreeLane_def holds_def nth_append split: option.splits dest: find_index_SomeD)

lemma lane_for_spec:
  assumes "lane_for cid ls = (i, ls')"
  shows "i < length ls' \<and> (ls' ! i = None \<or> ls' ! i = Some cid) \<and> (\<forall>l p. holds l p ls \<longrightarrow> holds l p ls')
    \<and> (\<forall>l. holds l cid ls \<longrightarrow> i \<le> l)"
proof (cases "find_index (\<lambda>x. x = Some cid) ls")
  case None
  then have "firstFreeLane ls = (i, ls')" using assms by (simp add: lane_for_def)
  moreover have "\<not> holds l cid ls" for l using None by (auto simp: holds_def find_index_None)
  ultimately show ?thesis using firstFreeLane_spec [of ls i ls'] by auto
next
  case (Some k)
  then have k: "k = i" "ls' = ls" using assms by (simp_all add: lane_for_def)
  have "i \<le> l" if "holds l cid ls" for l
    using find_index_SomeD [OF Some] that unfolding k holds_def by (meson not_less)
  then show ?thesis using find_index_SomeD [OF Some] k by auto
qed

lemma converge_holds: "holds l p ls \<Longrightarrow> p \<noteq> cid \<Longrightarrow> holds l p (converge i cid ls)"
  by (simp add: holds_def converge_def)

lemma length_converge [simp]: "length (converge i cid ls) = length ls"
  by (simp add: converge_def)

lemma reserve_spec: "holds l p ls \<Longrightarrow> holds l p (reserve q ls)"
  using lane_for_spec [of q ls "fst (lane_for q ls)" "snd (lane_for q ls)"]
  by (auto simp: reserve_def holds_def nth_list_update split: prod.splits)

lemma reserve_holds: "\<exists>l. holds l p (reserve p ls)"
  using lane_for_spec [of p ls "fst (lane_for p ls)" "snd (lane_for p ls)"]
  by (auto simp: reserve_def holds_def split: prod.splits)

lemma fold_reserve_holds: "holds l p ls \<Longrightarrow> holds l p (fold reserve qs ls)"
  by (induction qs arbitrary: ls) (auto intro: reserve_spec)

lemma fold_reserve_covers: "q \<in> set qs \<Longrightarrow> \<exists>l. holds l q (fold reserve qs ls)"
proof (induction qs arbitrary: ls)
  case Nil
  then show ?case by simp
next
  case (Cons r qs)
  show ?case
  proof (cases "q = r")
    case True
    obtain l where "holds l r (reserve r ls)" using reserve_holds by blast
    then show ?thesis using True by (auto intro: fold_reserve_holds)
  next
    case False
    then show ?thesis using Cons by simp
  qed
qed

text \<open>A lane reserved for another commit is left alone.\<close>

lemma place_commit_keeps:
  assumes "place_commit c ls = (l, ls')" "holds k p ls" "commit_id c \<noteq> p"
  shows "l \<noteq> k \<and> holds k p ls'"
proof -
  obtain i ls1 where f: "lane_for (commit_id c) ls = (i, ls1)" by fastforce
  have "holds k p ls1" "i \<noteq> k" using lane_for_spec [OF f] assms(2,3) by (auto simp: holds_def)
  moreover have "l = i" using assms(1) f by (simp add: place_commit_def)
  moreover have "holds k p (fold reserve qs ((converge i (commit_id c) ls1)[i := x]))" for qs x
  proof (rule fold_reserve_holds)
    show "holds k p ((converge i (commit_id c) ls1)[i := x])"
      using converge_holds [OF \<open>holds k p ls1\<close>, of "commit_id c" i] assms(3) \<open>i \<noteq> k\<close>
      by (auto simp: holds_def)
  qed
  ultimately show ?thesis using assms(1) f by (auto simp: place_commit_def Let_def)
qed

text \<open>After a commit is placed, every parent has a lane, the first parent the commit's own.\<close>

lemma place_commit_reserves:
  assumes "place_commit c ls = (l, ls')" "parents c = p # ps"
  shows "holds l p ls' \<and> (\<forall>q \<in> set ps. \<exists>k. holds k q ls')"
proof -
  obtain i ls1 where f: "lane_for (commit_id c) ls = (i, ls1)" by fastforce
  have e: "l = i" "ls' = fold reserve ps ((converge i (commit_id c) ls1)[i := Some p])"
    using assms f by (auto simp: place_commit_def Let_def)
  have "holds i p ((converge i (commit_id c) ls1)[i := Some p])"
    using lane_for_spec [OF f] by (simp add: holds_def)
  then show ?thesis unfolding e by (auto intro: fold_reserve_holds fold_reserve_covers)
qed

lemma place_commit_first:
  assumes "place_commit c ls = (l, ls')" "holds k (commit_id c) ls"
  shows "l \<le> k"
  using assms lane_for_spec [of "commit_id c" ls "fst (lane_for (commit_id c) ls)" "snd (lane_for (commit_id c) ls)"]
  by (auto simp: place_commit_def Let_def split: prod.splits)

section \<open>The rows below a reservation\<close>

lemma lane_extend [simp]: "lane (git_commit.extend c (graph_commit.fields l)) = l"
  by (cases c) (simp add: git_commit.extend_def graph_commit.fields_def)

lemma length_assign_from [simp]: "length (assign_from cs ls) = length cs"
  by (induction cs arbitrary: ls) (auto simp: Let_def split: prod.splits)

lemma reserved_until:
  assumes "holds k p ls" "j < length cs" "commit_id (cs ! j) = p" "\<forall>i < j. commit_id (cs ! i) \<noteq> p"
  shows "lane (assign_from cs ls ! j) \<le> k \<and> (\<forall>i < j. lane (assign_from cs ls ! i) \<noteq> k)"
  using assms
proof (induction cs arbitrary: ls j)
  case Nil
  then show ?case by simp
next
  case (Cons c cs)
  obtain l ls' where pc: "place_commit c ls = (l, ls')" by fastforce
  show ?case
  proof (cases j)
    case 0
    then show ?thesis using pc place_commit_first [OF pc, of k] Cons.prems by simp
  next
    case (Suc m)
    have ne: "commit_id c \<noteq> p" using Cons.prems(4) Suc by (metis nth_Cons_0 zero_less_Suc)
    note keep = place_commit_keeps [OF pc Cons.prems(1) ne]
    have "lane (assign_from cs ls' ! m) \<le> k \<and> (\<forall>i < m. lane (assign_from cs ls' ! i) \<noteq> k)"
    proof (rule Cons.IH)
      show "holds k p ls'" using keep by simp
      show "m < length cs" "commit_id (cs ! m) = p" using Cons.prems Suc by simp_all
      show "\<forall>i < m. commit_id (cs ! i) \<noteq> p"
        using Cons.prems(4) Suc by (metis Suc_less_eq nth_Cons_Suc)
    qed
    then show ?thesis using pc Suc keep by (auto simp: less_Suc_eq_0_disj)
  qed
qed

lemma assign_split:
  assumes "i < length cs"
  shows "\<exists>ls l ls'. place_commit (cs ! i) ls = (l, ls') \<and> lane (assign_from cs ls0 ! i) = l
    \<and> (\<forall>j. i < j \<longrightarrow> assign_from cs ls0 ! j = assign_from (drop (Suc i) cs) ls' ! (j - Suc i))"
  using assms
proof (induction cs arbitrary: ls0 i)
  case Nil
  then show ?case by simp
next
  case (Cons c cs)
  obtain l ls' where pc: "place_commit c ls0 = (l, ls')" by fastforce
  show ?case
  proof (cases i)
    case 0
    show ?thesis by (rule exI [of _ ls0], rule exI [of _ l], rule exI [of _ ls']) (use 0 pc in simp)
  next
    case (Suc m)
    then have "m < length cs" using Cons.prems by simp
    from Cons.IH [OF this, of ls'] obtain ls2 l2 ls3 where
      h: "place_commit (cs ! m) ls2 = (l2, ls3)" "lane (assign_from cs ls' ! m) = l2"
        "\<And>j. m < j \<Longrightarrow> assign_from cs ls' ! j = assign_from (drop (Suc m) cs) ls3 ! (j - Suc m)"
      by blast
    have "assign_from (c # cs) ls0 ! j = assign_from (drop (Suc i) (c # cs)) ls3 ! (j - Suc i)" if "i < j" for j
      using that h(3) [of "j - 1"] pc Suc by (cases j) auto
    then show ?thesis
      by (intro exI [of _ ls2] exI [of _ l2] exI [of _ ls3]) (use h(1,2) pc Suc in simp)
  qed
qed


section \<open>Properties\<close>

text \<open>C25. The edge from a commit to its first parent runs in the commit's own lane, whatever
  the number of rows between them, and no commit of those rows is drawn in it; the parent is
  drawn in that lane or further left.\<close>

theorem first_parent_edge_is_clear:
  assumes "distinct (map commit_id cs)" "i < j" "j < length cs"
    and "parents (cs ! i) = commit_id (cs ! j) # ps"
  shows "let g = assignLanes cs in
    edge_lane (g ! i) (g ! j) 0 = lane (g ! i) \<and> lane (g ! j) \<le> lane (g ! i)
    \<and> (\<forall>k \<in> {i<..<j}. lane (g ! k) \<noteq> edge_lane (g ! i) (g ! j) 0)"
proof -
  let ?p = "commit_id (cs ! j)"
  obtain ls l ls' where h: "place_commit (cs ! i) ls = (l, ls')" "lane (assignLanes cs ! i) = l"
    "\<And>k. i < k \<Longrightarrow> assignLanes cs ! k = assign_from (drop (Suc i) cs) ls' ! (k - Suc i)"
    using assign_split [of i cs "[]"] assms(2,3) unfolding assignLanes_def by fastforce
  have held: "holds l ?p ls'" using place_commit_reserves [OF h(1) assms(4)] by simp
  have other: "commit_id (cs ! k) \<noteq> ?p" if "k < j" for k
    using that assms(1,3) by (simp add: distinct_conv_nth)
  have "lane (assign_from (drop (Suc i) cs) ls' ! (j - Suc i)) \<le> l
      \<and> (\<forall>k < j - Suc i. lane (assign_from (drop (Suc i) cs) ls' ! k) \<noteq> l)"
    by (rule reserved_until [OF held]) (use assms(2,3) other in auto)
  then have "lane (assignLanes cs ! j) \<le> l" "lane (assignLanes cs ! k) \<noteq> l" if "k \<in> {i<..<j}" for k
    using h(3) assms(2) that by (auto simp: diff_less_mono)
  moreover have "lane (assignLanes cs ! j) \<le> l"
    using \<open>lane _ \<le> l \<and> _\<close> h(3) assms(2) by simp
  ultimately show ?thesis using h(2) by (auto simp: Let_def edge_lane_def)
qed

definition mk_commit :: "string \<Rightarrow> string list \<Rightarrow> git_commit" where
  "mk_commit i ps = \<lparr>commit_id = i, shortId = i, parents = ps, authorName = [], authorEmail = [],
     commit_subject = [], commit_body = [], isoDate = [], commit_when = [], commit_refs = []\<rparr>"

text \<open>Two branches from \<open>b\<close>, the second of which \<open>m\<close> merges into \<open>a\<close>.\<close>

definition sample_history :: "git_commit list" where
  "sample_history = [mk_commit ''x'' [''y''], mk_commit ''m'' [''a'', ''b''], mk_commit ''y'' [''b''],
     mk_commit ''a'' [''r''], mk_commit ''b'' [''r''], mk_commit ''r'' []]"

theorem first_parent_edge_is_clear_witness:
  "let g = assignLanes sample_history in
    edge_lane (g ! 3) (g ! 5) 0 = lane (g ! 3) \<and> lane (g ! 5) \<le> lane (g ! 3)
    \<and> (\<forall>k \<in> {3<..<5}. lane (g ! k) \<noteq> edge_lane (g ! 3) (g ! 5) 0)"
  by (rule first_parent_edge_is_clear [where ps = "[]"]) (simp_all add: sample_history_def mk_commit_def)

text \<open>Every commit stands above its parents.\<close>

fun children_first :: "git_commit list \<Rightarrow> bool" where
  "children_first [] = True"
| "children_first (c # cs) =
     (list_all (\<lambda>d. commit_id c \<notin> set (parents d)) (c # cs) \<and> children_first cs)"

text \<open>The edge to a merged parent can run through another commit: it is drawn in the lane
  the parent ends up in, and that lane may be one reserved for it only later, further left.
  In this history, in which every commit stands above its parents, the edge from the merge in
  row 1 to its second parent in row 4 passes through the commit of another branch in row 2.\<close>

theorem merge_edge_crosses_a_commit:
  "\<exists>cs i j k. distinct (map commit_id cs) \<and> children_first cs
    \<and> i < k \<and> k < j \<and> j < length cs \<and> parents (cs ! i) ! 1 = commit_id (cs ! j)
    \<and> commit_id (cs ! j) \<noteq> hd (parents (cs ! i))
    \<and> lane (assignLanes cs ! k) = edge_lane (assignLanes cs ! i) (assignLanes cs ! j) 1"
proof -
  have "distinct (map commit_id sample_history) \<and> children_first sample_history" by code_simp
  moreover have "parents (sample_history ! 1) ! 1 = commit_id (sample_history ! 4)
      \<and> commit_id (sample_history ! 4) \<noteq> hd (parents (sample_history ! 1))
      \<and> lane (assignLanes sample_history ! 2)
        = edge_lane (assignLanes sample_history ! 1) (assignLanes sample_history ! 4) 1
      \<and> 4 < length sample_history"
    by code_simp
  ultimately show ?thesis by (intro exI [of _ sample_history] exI [of _ 1] exI [of _ 4] exI [of _ 2]) simp
qed

end
