(* ===== verification/Installer_Plan.thy ===== *)
theory Installer_Plan
  imports Js_Prelude
begin

text \<open>
  The dependency graph of the Install Helper (\<open>src/src/modules/installer/dag.ts\<close> and the
  types of \<open>types.ts\<close>): which recipes a requested install runs and in which order, the number of
  elevation prompts to announce, the dependents an uninstall would break, and whether a
  recipe depends on WSL.
\<close>

section \<open>Recipes and options\<close>

datatype github_release_layout = LayoutZip | LayoutExeInstaller | LayoutMsi

record download_installer =
  di_url :: string
  di_fileName :: string
  arm64Url :: "string option"
  arm64FileName :: "string option"
  githubRepo :: "string option"
  githubAssetPattern :: "string option"
  githubArm64AssetPattern :: "string option"

datatype provider =
    Winget string
  | Chocolatey string
  | Npm string
  | UvPip string
  | DownloadInstaller download_installer
  | GithubRelease string string github_release_layout "string option"
  | WindowsFeature string "bool option"
  | WslDistro string
  | Bundle "string list"

text \<open>Presentation fields of a recipe (descriptions, icon, category, links) stay out: no function reads them.\<close>

record recipe =
  recipe_id :: string
  recipe_name :: string
  needs :: "string list option"
  provider :: provider
  downloadProvider :: "provider option"
  chocolateyProvider :: "provider option"
  npmProvider :: "provider option"
  releaseNotesUrl :: "string option"

datatype install_scope = ScopeUser | ScopeMachine
datatype provider_choice = ChooseDefault | ChooseDownload | ChooseChocolatey | ChooseNpm

record install_options =
  scope :: "install_scope option"
  version :: "string option"
  location :: "string option"
  addToPath :: "bool option"
  chosen_provider :: "provider_choice option"

datatype provider_kind = KWinget | KChocolatey | KNpm | KUvPip | KDownloadInstaller | KGithubRelease
  | KWindowsFeature | KWslDistro | KBundle

datatype detected_source = OfficialScript

record detected_state =
  installed :: bool
  installedVersion :: "string option"
  partialCount :: "(int \<times> int) option"
  installLocation :: "string option"
  installScope :: "install_scope option"
  runtimeVersion :: "string option"
  installProvider :: "provider_kind option"
  installSource :: "detected_source option"
  lastCheckedAt :: "rat option"

type_synonym detection = "string \<rightharpoonup> detected_state"

definition is_installed :: "detection \<Rightarrow> string \<Rightarrow> bool" where
  "is_installed det i = (case det i of None \<Rightarrow> False | Some d \<Rightarrow> installed d)"

text \<open>\<open>new Map(catalog.recipes.map((r) => [r.id, r]))\<close>: the last recipe with an id counts.\<close>

definition byId :: "recipe list \<Rightarrow> string \<Rightarrow> recipe option" where
  "byId rs i = map_of (rev (map (\<lambda>r. (recipe_id r, r)) rs)) i"

section \<open>The provider an install uses and the needs that follow from it\<close>

text \<open>
  The code compares the chosen provider with \<open>recipe.provider\<close> by reference; the slot it was
  taken from says the same.
\<close>

datatype provider_slot = SlotDefault | SlotDownload | SlotChocolatey | SlotNpm

fun is_download :: "provider option \<Rightarrow> bool" where
  "is_download (Some (DownloadInstaller d)) = True"
| "is_download (Some (GithubRelease a b c d)) = True"
| "is_download _ = False"

fun is_chocolatey :: "provider option \<Rightarrow> bool" where
  "is_chocolatey (Some (Chocolatey a)) = True" | "is_chocolatey _ = False"

fun is_npm :: "provider option \<Rightarrow> bool" where
  "is_npm (Some (Npm a)) = True" | "is_npm _ = False"

fun is_winget :: "provider \<Rightarrow> bool" where
  "is_winget (Winget a) = True" | "is_winget _ = False"

definition selected_slot :: "recipe \<Rightarrow> install_options option \<Rightarrow> provider_slot" where
  "selected_slot r opts =
     (let choice = Option.bind opts chosen_provider
      in if choice = Some ChooseDownload \<and> is_download (downloadProvider r) then SlotDownload
         else if choice = Some ChooseChocolatey \<and> is_chocolatey (chocolateyProvider r) then SlotChocolatey
         else if choice = Some ChooseNpm \<and> is_npm (npmProvider r) then SlotNpm
         else SlotDefault)"

definition selectedProviderForOptions :: "recipe \<Rightarrow> install_options option \<Rightarrow> provider" where
  "selectedProviderForOptions r opts =
     (case selected_slot r opts of
        SlotDownload \<Rightarrow> nullish (downloadProvider r) (provider r)
      | SlotChocolatey \<Rightarrow> nullish (chocolateyProvider r) (provider r)
      | SlotNpm \<Rightarrow> nullish (npmProvider r) (provider r)
      | SlotDefault \<Rightarrow> provider r)"

definition effectiveNeedsFor :: "recipe \<Rightarrow> install_options option \<Rightarrow> string list" where
  "effectiveNeedsFor r opts =
     (let ns = nullish (needs r) [];
          chosen = selectedProviderForOptions r opts;
          others = filter (\<lambda>n. n \<noteq> ''winget'') ns
      in if is_chocolatey (Some chosen) then dedup (others @ [''chocolatey''])
         else if is_npm (Some chosen) then dedup (others @ [''node-bundle''])
         else if is_winget (provider r) \<and> selected_slot r opts \<noteq> SlotDefault then others
         else ns)"

section \<open>The walk over the needs\<close>

lemma byId_Some: "byId rs i = Some r \<Longrightarrow> r \<in> set rs \<and> recipe_id r = i"
  by (auto simp: byId_def dest: map_of_SomeD)

lemma dom_byId: "dom (byId rs) = recipe_id ` set rs"
proof -
  have "byId rs = map_of (rev (map (\<lambda>r. (recipe_id r, r)) rs))" by (rule ext) (simp add: byId_def)
  then show ?thesis by (simp add: dom_map_of_conv_image_fst image_image)
qed

lemma finite_dom_byId [simp]: "finite (dom (byId rs))"
  by (simp add: dom_byId)

text \<open>
  The recursion of \<open>visit\<close> over a list of ids, with the set \<open>seen\<close> and the list \<open>order\<close> it
  builds; \<open>d\<close> gives the needs it descends into.
\<close>

function visit_all :: "(recipe \<Rightarrow> string list) \<Rightarrow> recipe list \<Rightarrow> string list
    \<Rightarrow> string set \<times> recipe list \<Rightarrow> string set \<times> recipe list" where
  "visit_all d rs [] st = st"
| "visit_all d rs (i # is) (seen, order) =
     (if i \<in> seen then visit_all d rs is (seen, order)
      else case byId rs i of
             None \<Rightarrow> visit_all d rs is (insert i seen, order)
           | Some r \<Rightarrow>
               (let (seen', order') = visit_all d rs (d r) (insert i seen, order)
                in visit_all d rs is (seen', order' @ [r])))"
  by pat_completeness auto

lemma visit_all_grows: "visit_all_dom (d, rs, is, st) \<Longrightarrow> fst st \<subseteq> fst (visit_all d rs is st)"
proof (induction rule: visit_all.pinduct)
  case (1 d rs st)
  then show ?case by (simp add: visit_all.psimps)
next
  case (2 d rs i "is" seen order)
  note dom = 2(1)
  show ?case
  proof (cases "i \<in> seen")
    case True
    then show ?thesis using 2(2) dom by (simp add: visit_all.psimps)
  next
    case False
    show ?thesis
    proof (cases "byId rs i")
      case None
      then show ?thesis using 2(3) dom False by (simp add: visit_all.psimps)
    next
      case (Some r)
      obtain s o' where v: "visit_all d rs (d r) (insert i seen, order) = (s, o')" by fastforce
      have "insert i seen \<subseteq> s" using 2(4) [OF False Some] v by simp
      moreover have "s \<subseteq> fst (visit_all d rs is (s, o' @ [r]))"
        using 2(5) [OF False Some, of "(s, o')" s o'] v by simp
      ultimately show ?thesis using dom False Some v by (simp add: visit_all.psimps) blast
    qed
  qed
qed

definition unseen :: "recipe list \<Rightarrow> string set \<Rightarrow> nat" where
  "unseen rs seen = card (dom (byId rs) - seen)"

lemma unseen_mono: "a \<subseteq> b \<Longrightarrow> unseen rs b \<le> unseen rs a"
  unfolding unseen_def by (rule card_mono) auto

lemma unseen_insert:
  assumes "i \<notin> a" "byId rs i = Some r" "insert i a \<subseteq> b"
  shows "unseen rs b < unseen rs a"
  unfolding unseen_def by (rule psubset_card_mono) (use assms in auto)

termination visit_all
proof (relation "measures [\<lambda>(d, rs, is, st). unseen rs (fst st), \<lambda>(d, rs, is, st). length is]",
    goal_cases)
  case 1
  then show ?case by simp
next
  case (2 d rs i "is" seen order)
  then show ?case by simp
next
  case (3 d rs i "is" seen order)
  then show ?case using unseen_mono [of seen "insert i seen" rs] by (auto simp: le_less)
next
  case (4 d rs i "is" seen order r)
  then show ?case using unseen_insert [of i seen rs r "insert i seen"] by simp
next
  case (5 d rs i "is" seen order r x s o')
  have "insert i seen \<subseteq> fst (visit_all d rs (d r) (insert i seen, order))"
    using visit_all_grows [OF 5(5)] by simp
  moreover have "fst (visit_all d rs (d r) (insert i seen, order)) = s" using 5(3,4) by (metis fst_conv)
  ultimately have "insert i seen \<subseteq> s" by simp
  then show ?case using unseen_insert [of i seen rs r s] 5(1,2) by simp
qed


text \<open>The plan: \<open>order\<close> with the prerequisites marked, and the steps that will run.\<close>

record plan_step =
  step_recipe :: recipe
  isPrerequisite :: bool

record install_plan =
  steps :: "plan_step list"
  actionable :: "plan_step list"

definition options_for :: "string \<Rightarrow> install_options option \<Rightarrow> string \<Rightarrow> install_options option" where
  "options_for target opts i = (if i = target then opts else None)"

definition descended_needs :: "string \<Rightarrow> detection \<Rightarrow> install_options option \<Rightarrow> recipe \<Rightarrow> string list" where
  "descended_needs target det opts r =
     (if recipe_id r \<noteq> target \<and> is_installed det (recipe_id r) then []
      else effectiveNeedsFor r (options_for target opts (recipe_id r)))"

definition plan_order :: "string \<Rightarrow> recipe list \<Rightarrow> detection \<Rightarrow> install_options option \<Rightarrow> recipe list" where
  "plan_order target rs det opts = snd (visit_all (descended_needs target det opts) rs [target] ({}, []))"

definition resolveInstallPlan :: "string \<Rightarrow> recipe list \<Rightarrow> detection \<Rightarrow> install_options option \<Rightarrow> install_plan" where
  "resolveInstallPlan target rs det opts =
     (let sts = map (\<lambda>r. \<lparr>step_recipe = r, isPrerequisite = (recipe_id r \<noteq> target)\<rparr>)
                  (plan_order target rs det opts)
      in \<lparr>steps = sts,
          actionable = filter (\<lambda>st. recipe_id (step_recipe st) = target
            \<or> \<not> is_installed det (recipe_id (step_recipe st))) sts\<rparr>)"

section \<open>Elevation prompts\<close>

definition machine_only_ids :: "string list" where
  "machine_only_ids = [''7zip.7zip'', ''blenderfoundation.blender'', ''bruno.bruno'',
     ''chocolatey.chocolatey'', ''ditto.ditto'', ''docker.dockerdesktop'', ''github.cli'', ''jgraph.draw'',
     ''kde.krita'', ''microsoft.coreutils'', ''microsoft.powershell'', ''notepad++.notepad++'',
     ''tailscale.tailscale'', ''voidtools.everything'', ''inkscape.inkscape'', ''marha.vcxsrv'']"

definition self_elevating_ids :: "string list" where
  "self_elevating_ids = [''coreybutler.nvmforwindows'', ''docker.dockerdesktop'', ''git.git'',
     ''microsoft.coreutils'', ''oracle.virtualbox'', ''vmware.workstationpro'']"

definition isKnownMachineOnlyWingetRecipe :: "recipe \<Rightarrow> bool" where
  "isKnownMachineOnlyWingetRecipe r =
     (case provider r of Winget i \<Rightarrow> list_ex (str_includes (to_lower i)) machine_only_ids | _ \<Rightarrow> False)"

definition isKnownSelfElevatingWingetRecipe :: "recipe \<Rightarrow> bool" where
  "isKnownSelfElevatingWingetRecipe r =
     (case provider r of Winget i \<Rightarrow> list_ex (str_includes (to_lower i)) self_elevating_ids | _ \<Rightarrow> False)"

text \<open>
  A bundle is estimated step by step, recursively; \<open>fuel\<close> bounds the nesting of bundles and
  \<open>None\<close> stands for a recursion that does not come back (a bundle that contains itself).
\<close>

fun add_estimates :: "nat option list \<Rightarrow> nat option" where
  "add_estimates [] = Some 0"
| "add_estimates (x # xs) =
     (case (x, add_estimates xs) of (Some a, Some b) \<Rightarrow> Some (a + b) | _ \<Rightarrow> None)"

fun estimateUacPromptsFor :: "nat \<Rightarrow> recipe list \<Rightarrow> detection \<Rightarrow> string set \<Rightarrow> install_options option
    \<Rightarrow> recipe \<Rightarrow> nat option" where
  "estimateUacPromptsFor 0 rs det direct opts r = None"
| "estimateUacPromptsFor (Suc fuel) rs det direct opts r =
     (case selectedProviderForOptions r opts of
        Winget i \<Rightarrow>
          Some (if Option.bind opts scope = Some ScopeMachine then 1
                else if isKnownMachineOnlyWingetRecipe r then 1
                else if isKnownSelfElevatingWingetRecipe r then 1 else 0)
      | Chocolatey i \<Rightarrow> Some 1
      | WindowsFeature f b \<Rightarrow> Some 1
      | WslDistro w \<Rightarrow> Some 0
      | GithubRelease repo pat lay sub \<Rightarrow> Some (if lay = LayoutZip then 0 else 1)
      | Npm p \<Rightarrow> Some 0
      | UvPip p \<Rightarrow> Some 0
      | DownloadInstaller d \<Rightarrow> Some (if recipe_id r = ''antigravity-cli'' then 0 else 1)
      | Bundle ids \<Rightarrow>
          add_estimates (map (\<lambda>i.
            if i \<in> direct then Some 0
            else if is_installed det i then Some 0
            else (case byId rs i of
                    None \<Rightarrow> Some 0
                  | Some sr \<Rightarrow> estimateUacPromptsFor fuel rs det direct opts sr)) ids))"

definition uacPromptEstimate :: "nat \<Rightarrow> string \<Rightarrow> recipe list \<Rightarrow> detection \<Rightarrow> install_options option \<Rightarrow> nat option" where
  "uacPromptEstimate fuel target rs det opts =
     (let acts = map step_recipe (actionable (resolveInstallPlan target rs det opts));
          direct = recipe_id ` set acts
      in add_estimates (map (\<lambda>r.
           estimateUacPromptsFor fuel rs det direct (options_for target opts (recipe_id r)) r) acts))"

section \<open>Dependents and WSL\<close>

fun bundle_steps :: "provider \<Rightarrow> string list" where
  "bundle_steps (Bundle ids) = ids" | "bundle_steps _ = []"

definition findInstalledDependents :: "string \<Rightarrow> recipe list \<Rightarrow> detection \<Rightarrow> recipe list" where
  "findInstalledDependents target rs det =
     filter (\<lambda>r. recipe_id r \<noteq> target
       \<and> (target \<in> set (nullish (needs r) []) \<or> target \<in> set (bundle_steps (provider r)))
       \<and> is_installed det (recipe_id r)) rs"

definition isWslFeature :: "recipe \<Rightarrow> bool" where
  "isWslFeature r =
     (case provider r of
        WindowsFeature f b \<Rightarrow> str_includes (to_lower f) ''microsoft-windows-subsystem-linux''
      | _ \<Rightarrow> False)"

text \<open>\<open>ids.some(check)\<close> with the shared set \<open>seen\<close>.\<close>

function check_any :: "recipe list \<Rightarrow> string list \<Rightarrow> string set \<Rightarrow> bool \<times> string set" where
  "check_any rs [] seen = (False, seen)"
| "check_any rs (i # is) seen =
     (if i \<in> seen then check_any rs is seen
      else case byId rs i of
             None \<Rightarrow> check_any rs is (insert i seen)
           | Some r \<Rightarrow>
               if isWslFeature r then (True, insert i seen)
               else (let (b, seen') = check_any rs (nullish (needs r) []) (insert i seen)
                     in if b then (True, seen') else check_any rs is seen'))"
  by pat_completeness auto

lemma check_any_grows: "check_any_dom (rs, is, seen) \<Longrightarrow> seen \<subseteq> snd (check_any rs is seen)"
proof (induction rule: check_any.pinduct)
  case (1 rs seen)
  then show ?case by (simp add: check_any.psimps)
next
  case (2 rs i "is" seen)
  note dom = 2(1)
  show ?case
  proof (cases "i \<in> seen \<or> byId rs i = None")
    case True
    then show ?thesis using 2(2,3) dom by (cases "i \<in> seen") (auto simp: check_any.psimps)
  next
    case False
    then obtain r where r: "i \<notin> seen" "byId rs i = Some r" by auto
    show ?thesis
    proof (cases "isWslFeature r")
      case True
      then show ?thesis using dom r by (simp add: check_any.psimps subset_insertI)
    next
      case no: False
      obtain b s where v: "check_any rs (nullish (needs r) []) (insert i seen) = (b, s)" by fastforce
      have "insert i seen \<subseteq> s" using 2(4) [OF r no] v by simp
      moreover have "\<not> b \<Longrightarrow> s \<subseteq> snd (check_any rs is s)"
        using 2(5) [OF r no, of "(b, s)" b s] v by simp
      ultimately show ?thesis using dom r no v by (auto simp: check_any.psimps)
    qed
  qed
qed

termination check_any
proof (relation "measures [\<lambda>(rs, is, seen). unseen rs seen, \<lambda>(rs, is, seen). length is]",
    goal_cases)
  case 1
  then show ?case by simp
next
  case (2 rs i "is" seen)
  then show ?case by simp
next
  case (3 rs i "is" seen)
  then show ?case using unseen_mono [of seen "insert i seen" rs] by (auto simp: le_less)
next
  case (4 rs i "is" seen r)
  then show ?case using unseen_insert [of i seen rs r "insert i seen"] by simp
next
  case (5 rs i "is" seen r x b s)
  have "insert i seen \<subseteq> snd (check_any rs (nullish (needs r) []) (insert i seen))"
    using check_any_grows [of rs "nullish (needs r) []" "insert i seen"] 5 by simp
  moreover have "snd (check_any rs (nullish (needs r) []) (insert i seen)) = s" using 5(4,5) by (metis snd_conv)
  ultimately have "insert i seen \<subseteq> s" by simp
  then show ?case using unseen_insert [of i seen rs r s] 5(1,2) by simp
qed

definition recipeNeedsWsl :: "recipe \<Rightarrow> recipe list \<Rightarrow> bool" where
  "recipeNeedsWsl r rs = fst (check_any rs (nullish (needs r) []) {})"


section \<open>What the walk computes\<close>

text \<open>The ids a recipe depends on, directly or not, through the needs \<open>d\<close>.\<close>

inductive depends :: "(recipe \<Rightarrow> string list) \<Rightarrow> recipe list \<Rightarrow> string \<Rightarrow> string \<Rightarrow> bool" for d rs where
  depends_refl: "byId rs i = Some r \<Longrightarrow> depends d rs i i"
| depends_step: "byId rs i = Some r \<Longrightarrow> n \<in> set (d r) \<Longrightarrow> depends d rs n k \<Longrightarrow> depends d rs i k"

inductive_cases dependsE: "depends d rs i k"

definition ids_of :: "recipe list \<Rightarrow> string set" where
  "ids_of order = recipe_id ` set order"

lemma ids_of_simps [simp]: "ids_of [] = {}" "ids_of (xs @ ys) = ids_of xs \<union> ids_of ys"
  "ids_of (r # xs) = insert (recipe_id r) (ids_of xs)"
  by (auto simp: ids_of_def)

text \<open>Every recipe stands after the needs the walk descended into.\<close>

fun needs_first :: "(recipe \<Rightarrow> string list) \<Rightarrow> recipe list \<Rightarrow> recipe list \<Rightarrow> bool" where
  "needs_first d rs [] = True"
| "needs_first d rs (r # before) =
     (set (d r) \<inter> dom (byId rs) \<subseteq> ids_of before \<and> needs_first d rs before)"

text \<open>The state of the walk between two visits; the ids seen but not yet in the order are open.\<close>

definition walk_ok :: "(recipe \<Rightarrow> string list) \<Rightarrow> recipe list \<Rightarrow> string set \<times> recipe list \<Rightarrow> bool" where
  "walk_ok d rs st =
     (ids_of (snd st) \<subseteq> fst st \<and> distinct (map recipe_id (snd st)) \<and> set (snd st) \<subseteq> ran (byId rs)
      \<and> needs_first d rs (rev (snd st)))"

definition above_open :: "(string \<Rightarrow> nat) \<Rightarrow> recipe list \<Rightarrow> string set \<times> recipe list \<Rightarrow> string list \<Rightarrow> bool" where
  "above_open rank rs st is =
     (\<forall>x \<in> (fst st \<inter> dom (byId rs)) - ids_of (snd st). \<forall>i \<in> set is \<inter> dom (byId rs). rank i < rank x)"

definition ranked :: "(string \<Rightarrow> nat) \<Rightarrow> (recipe \<Rightarrow> string list) \<Rightarrow> recipe list \<Rightarrow> bool" where
  "ranked rank d rs = (\<forall>r \<in> set rs. \<forall>n \<in> set (d r). n \<in> dom (byId rs) \<longrightarrow> rank n < rank (recipe_id r))"

definition walked :: "(recipe \<Rightarrow> string list) \<Rightarrow> recipe list \<Rightarrow> string list
    \<Rightarrow> string set \<times> recipe list \<Rightarrow> string set \<times> recipe list \<Rightarrow> bool" where
  "walked d rs is st st' =
     (walk_ok d rs st' \<and> fst st \<subseteq> fst st' \<and> (\<exists>new. snd st' = snd st @ new
        \<and> ids_of new \<inter> fst st = {} \<and> (\<forall>k \<in> ids_of new. \<exists>i \<in> set is. depends d rs i k))
      \<and> set is \<inter> dom (byId rs) \<subseteq> ids_of (snd st')
      \<and> (fst st' \<inter> dom (byId rs)) - ids_of (snd st') \<subseteq> (fst st \<inter> dom (byId rs)) - ids_of (snd st))"

lemma walked_Nil: "walk_ok d rs st \<Longrightarrow> walked d rs [] st st"
  by (simp add: walked_def)

lemma walked_seen:
  assumes "walked d rs is st st'" "i \<in> ids_of (snd st) \<or> byId rs i = None"
  shows "walked d rs (i # is) st st'"
  using assms by (auto simp: walked_def)

lemma walked_unknown:
  assumes "walked d rs is (insert i seen, order) st'" "byId rs i = None"
  shows "walked d rs (i # is) (seen, order) st'"
  using assms by (fastforce simp: walked_def)

lemma walk_push:
  assumes "walk_ok d rs (seen, order)" "byId rs i = Some r" "i \<in> seen" "i \<notin> ids_of order"
    and "set (d r) \<inter> dom (byId rs) \<subseteq> ids_of order"
  shows "walk_ok d rs (seen, order @ [r])"
  using assms byId_Some [OF assms(2)]
  by (auto simp: walk_ok_def ids_of_def ran_def)

lemma walked_visit:
  assumes "walked d rs (d r) (insert i seen, order) (s, o')" "byId rs i = Some r" "i \<notin> seen"
    and "ids_of order \<subseteq> seen"
    and "walked d rs is (s, o' @ [r]) st'"
  shows "walked d rs (i # is) (seen, order) st'"
proof -
  have id: "recipe_id r = i" using byId_Some [OF assms(2)] by simp
  obtain new where n: "o' = order @ new" "ids_of new \<inter> insert i seen = {}"
    "\<forall>k \<in> ids_of new. \<exists>n \<in> set (d r). depends d rs n k"
    using assms(1) by (auto simp: walked_def)
  obtain new2 where n2: "snd st' = (o' @ [r]) @ new2" "ids_of new2 \<inter> s = {}"
    "\<forall>k \<in> ids_of new2. \<exists>j \<in> set is. depends d rs j k"
    using assms(5) by (auto simp: walked_def)
  have sub: "insert i seen \<subseteq> s" "s \<subseteq> fst st'" using assms(1,5) by (auto simp: walked_def)
  let ?new = "new @ r # new2"
  have "snd st' = order @ ?new" using n n2 by simp
  moreover have "ids_of ?new \<inter> seen = {}" using n n2 sub assms(3) id by auto
  moreover have "\<forall>k \<in> ids_of ?new. \<exists>j \<in> set (i # is). depends d rs j k"
    using n(3) n2(3) id assms(2) by (auto intro: depends_refl depends_step)
  moreover have "set (i # is) \<inter> dom (byId rs) \<subseteq> ids_of (snd st')"
    using assms(5) n2(1) id by (auto simp: walked_def)
  moreover have "(fst st' \<inter> dom (byId rs)) - ids_of (snd st') \<subseteq> (seen \<inter> dom (byId rs)) - ids_of order"
  proof
    fix x assume x: "x \<in> (fst st' \<inter> dom (byId rs)) - ids_of (snd st')"
    then have "x \<in> (s \<inter> dom (byId rs)) - ids_of (o' @ [r])"
      using assms(5) by (auto simp: walked_def)
    then have "x \<in> (s \<inter> dom (byId rs)) - ids_of o'" "x \<noteq> i" using id by auto
    then have "x \<in> (insert i seen \<inter> dom (byId rs)) - ids_of order"
      using assms(1) by (auto simp: walked_def)
    then show "x \<in> (seen \<inter> dom (byId rs)) - ids_of order" using \<open>x \<noteq> i\<close> by auto
  qed
  ultimately show ?thesis using assms(5) sub unfolding walked_def by auto
qed

lemma visit_all_walked:
  assumes "ranked rank d rs" "walk_ok d rs st" "above_open rank rs st is"
  shows "walked d rs is st (visit_all d rs is st)"
  using assms
proof (induction d rs "is" st rule: visit_all.induct)
  case (1 d rs st)
  then show ?case by (simp add: walked_Nil)
next
  case (2 d rs i "is" seen order)
  note rk = 2(5) and ok = 2(6) and ab = 2(7)
  have tail: "above_open rank rs st is" if "above_open rank rs st (i # is)" for st
    using that by (simp add: above_open_def)
  show ?case
  proof (cases "i \<in> seen")
    case True
    have "i \<in> ids_of order \<or> byId rs i = None"
      using ab True by (fastforce simp: above_open_def)
    then show ?thesis using True 2(1) [OF True rk ok tail [OF ab]] by (simp add: walked_seen)
  next
    case False
    show ?thesis
    proof (cases "byId rs i")
      case None
      have "walk_ok d rs (insert i seen, order)" using ok by (auto simp: walk_ok_def)
      moreover have "above_open rank rs (insert i seen, order) is"
        using ab None by (auto simp: above_open_def)
      ultimately have "walked d rs is (insert i seen, order) (visit_all d rs is (insert i seen, order))"
        using 2(2) [OF False None rk] by simp
      then show ?thesis using False None by (simp add: walked_unknown)
    next
      case (Some r)
      have r: "r \<in> set rs" "recipe_id r = i" using byId_Some [OF Some] by auto
      have sub: "ids_of order \<subseteq> seen" using ok by (simp add: walk_ok_def)
      obtain s o' where v: "visit_all d rs (d r) (insert i seen, order) = (s, o')" by fastforce
      have w1: "walked d rs (d r) (insert i seen, order) (s, o')"
        unfolding v [symmetric]
      proof (rule 2(3) [OF False Some rk])
        show "walk_ok d rs (insert i seen, order)" using ok by (auto simp: walk_ok_def)
        show "above_open rank rs (insert i seen, order) (d r)"
        proof (unfold above_open_def, intro ballI)
          fix x n
          assume x: "x \<in> (fst (insert i seen, order) \<inter> dom (byId rs)) - ids_of (snd (insert i seen, order))"
            and n: "n \<in> set (d r) \<inter> dom (byId rs)"
          have "rank n < rank i" using rk r n by (auto simp: ranked_def)
          moreover have "x = i \<or> rank i < rank x"
            using x ab Some by (fastforce simp: above_open_def)
          ultimately show "rank n < rank x" by auto
        qed
      qed
      have ns: "set (d r) \<inter> dom (byId rs) \<subseteq> ids_of o'" and inew: "i \<notin> ids_of o'" "i \<in> s"
        and ok': "walk_ok d rs (s, o')"
        using w1 False sub by (auto simp: walked_def)
      have w2: "walked d rs is (s, o' @ [r]) (visit_all d rs is (s, o' @ [r]))"
      proof (rule 2(4) [OF False Some, of "(s, o')"])
        show "(s, o') = visit_all d rs (d r) (insert i seen, order)" using v by simp
        show "walk_ok d rs (s, o' @ [r])" by (rule walk_push [OF ok' Some inew(2,1) ns])
        show "above_open rank rs (s, o' @ [r]) is"
          using w1 ab r(2) unfolding above_open_def walked_def by fastforce
      qed (use rk in simp_all)
      show ?thesis using walked_visit [OF w1 Some False sub w2] False Some v by simp
    qed
  qed
qed


lemma needs_first_at: "needs_first d rs (ys @ r # xs) \<Longrightarrow> set (d r) \<inter> dom (byId rs) \<subseteq> ids_of xs"
  by (induction ys) auto

lemma filter_at:
  "i < length (filter p l) \<Longrightarrow> \<exists>xs ys. l = xs @ (filter p l ! i) # ys \<and> filter p xs = take i (filter p l)"
proof (induction l arbitrary: i)
  case Nil
  then show ?case by simp
next
  case (Cons x l)
  show ?case
  proof (cases "p x")
    case True
    show ?thesis
    proof (cases i)
      case 0
      then show ?thesis using True by (intro exI [of _ "[]"] exI [of _ l]) simp
    next
      case (Suc j)
      then obtain xs ys where "l = xs @ (filter p l ! j) # ys" "filter p xs = take j (filter p l)"
        using Cons.IH [of j] Cons.prems True by auto
      then show ?thesis using Suc True by (intro exI [of _ "x # xs"] exI [of _ ys]) simp
    qed
  next
    case False
    then obtain xs ys where "l = xs @ (filter p l ! i) # ys" "filter p xs = take i (filter p l)"
      using Cons.IH [of i] Cons.prems by auto
    then show ?thesis using False by (intro exI [of _ "x # xs"] exI [of _ ys]) simp
  qed
qed

lemma plan_order_walked:
  assumes "ranked rank (descended_needs target det opts) rs"
  shows "walked (descended_needs target det opts) rs [target] ({}, [])
    (visit_all (descended_needs target det opts) rs [target] ({}, []))"
  by (rule visit_all_walked [OF assms]) (simp_all add: walk_ok_def above_open_def)

lemma depends_closed:
  assumes "depends d rs i k" "i \<in> A" "\<And>j r. j \<in> A \<Longrightarrow> byId rs j = Some r \<Longrightarrow> set (d r) \<inter> dom (byId rs) \<subseteq> A"
  shows "k \<in> A"
  using assms
proof (induction rule: depends.induct)
  case (depends_refl i r)
  then show ?case by simp
next
  case (depends_step i r n k)
  have "n \<in> dom (byId rs)" using depends_step(3) by (auto elim: dependsE)
  then show ?case using depends_step by blast
qed

lemma plan_order_ids:
  assumes "ranked rank (descended_needs target det opts) rs" "target \<in> dom (byId rs)"
  shows "ids_of (plan_order target rs det opts) = {k. depends (descended_needs target det opts) rs target k}"
proof -
  let ?d = "descended_needs target det opts" and ?o = "plan_order target rs det opts"
  note w = plan_order_walked [OF assms(1)]
  have ok: "needs_first ?d rs (rev ?o)" "set ?o \<subseteq> ran (byId rs)" and t: "target \<in> ids_of ?o"
    using w assms(2) by (auto simp: walked_def walk_ok_def plan_order_def)
  have "set (?d r) \<inter> dom (byId rs) \<subseteq> ids_of ?o" if j: "j \<in> ids_of ?o" and jr: "byId rs j = Some r" for j r
  proof -
    obtain q where q: "q \<in> set ?o" "recipe_id q = j" using j by (auto simp: ids_of_def)
    then obtain j' where "byId rs j' = Some q" using ok(2) by (auto simp: ran_def)
    then have "q = r" using jr q byId_Some [of rs j' q] by simp
    then obtain xs ys where "?o = xs @ r # ys" using q(1) by (auto dest: split_list)
    then have "rev ?o = rev ys @ r # rev xs" by simp
    then have "set (?d r) \<inter> dom (byId rs) \<subseteq> ids_of (rev xs)" using ok(1) needs_first_at by metis
    then show ?thesis using \<open>?o = _\<close> by (auto simp: ids_of_def)
  qed
  then have "k \<in> ids_of ?o" if "depends ?d rs target k" for k
    using depends_closed [OF that t] by blast
  moreover have "depends ?d rs target k" if "k \<in> ids_of ?o" for k
    using w that by (auto simp: walked_def plan_order_def)
  ultimately show ?thesis by blast
qed

definition raw_needs :: "recipe \<Rightarrow> string list" where
  "raw_needs r = nullish (needs r) []"

definition wsl_found :: "recipe list \<Rightarrow> string list \<Rightarrow> bool" where
  "wsl_found rs is = (\<exists>i \<in> set is. \<exists>k r. depends raw_needs rs i k \<and> byId rs k = Some r \<and> isWslFeature r)"

definition no_wsl_between :: "recipe list \<Rightarrow> string set \<Rightarrow> string set \<Rightarrow> bool" where
  "no_wsl_between rs old new =
     (\<forall>k \<in> new - old. \<forall>r. byId rs k = Some r \<longrightarrow> \<not> isWslFeature r \<and> set (raw_needs r) \<subseteq> new)"

lemma no_wsl_between_unknown:
  "no_wsl_between rs (insert i old) new \<Longrightarrow> byId rs i = None \<Longrightarrow> no_wsl_between rs old new"
  unfolding no_wsl_between_def by (metis DiffE DiffI insertE option.distinct(1))

lemma no_wsl_between_join:
  assumes "no_wsl_between rs (insert i old) mid" "no_wsl_between rs mid new" "mid \<subseteq> new"
    and "byId rs i = Some r" "\<not> isWslFeature r" "set (raw_needs r) \<subseteq> mid"
  shows "no_wsl_between rs old new"
  unfolding no_wsl_between_def
proof (intro ballI allI impI)
  fix k q assume k: "k \<in> new - old" "byId rs k = Some q"
  consider "k = i" | "k \<in> mid - insert i old" | "k \<in> new - mid" using k(1) by blast
  then show "\<not> isWslFeature q \<and> set (raw_needs q) \<subseteq> new"
  proof cases
    case 1
    then show ?thesis using k(2) assms(3-6) by auto
  next
    case 2
    then show ?thesis using assms(1,3) k(2) unfolding no_wsl_between_def by blast
  next
    case 3
    then show ?thesis using assms(2) k(2) unfolding no_wsl_between_def by blast
  qed
qed

lemma check_any_spec:
  "check_any rs is seen = (b, seen') \<Longrightarrow>
    (if b then wsl_found rs is else seen \<subseteq> seen' \<and> set is \<subseteq> seen' \<and> no_wsl_between rs seen seen')"
proof (induction rs "is" seen arbitrary: b seen' rule: check_any.induct)
  case (1 rs seen)
  then show ?case by (simp add: no_wsl_between_def)
next
  case (2 rs i "is" seen)
  consider "i \<in> seen" | "i \<notin> seen" "byId rs i = None"
    | r where "i \<notin> seen" "byId rs i = Some r" "isWslFeature r"
    | r where "i \<notin> seen" "byId rs i = Some r" "\<not> isWslFeature r" by (cases "byId rs i") auto
  then show ?case
  proof cases
    case 1
    then show ?thesis using 2(1) [OF 1, of b seen'] 2(5) by (auto simp: wsl_found_def split: if_splits)
  next
    case 2
    then have "if b then wsl_found rs is else insert i seen \<subseteq> seen' \<and> set is \<subseteq> seen'
        \<and> no_wsl_between rs (insert i seen) seen'"
      using "2.IH"(2) [of b seen'] "2.prems" by simp
    then show ?thesis using no_wsl_between_unknown [OF _ 2(2)] by (cases b) (auto simp: wsl_found_def)
  next
    case (3 r)
    then show ?thesis using "2.prems" by (auto simp: wsl_found_def intro!: depends_refl)
  next
    case (4 r)
    obtain b1 s where v: "check_any rs (nullish (needs r) []) (insert i seen) = (b1, s)" by fastforce
    note h1 = "2.IH"(3) [OF 4, of b1 s, OF v]
    show ?thesis
    proof (cases b1)
      case True
      then have "b" "wsl_found rs (raw_needs r)" using "2.prems" 4 v h1 by (auto simp: raw_needs_def)
      then show ?thesis using 4(2) by (auto simp: wsl_found_def intro: depends_step)
    next
      case False
      then have "check_any rs is s = (b, seen')" using "2.prems" 4 v by simp
      note h2 = "2.IH"(4) [OF 4, of "(b1, s)" b1 s, OF _ _ False this]
      have "if b then wsl_found rs is else s \<subseteq> seen' \<and> set is \<subseteq> seen' \<and> no_wsl_between rs s seen'"
        using h2 v by simp
      moreover have "insert i seen \<subseteq> s" "set (raw_needs r) \<subseteq> s" "no_wsl_between rs (insert i seen) s"
        using h1 False by (auto simp: raw_needs_def)
      ultimately show ?thesis using 4
        using no_wsl_between_join [of rs i seen s seen' r] by (cases b) (auto simp: wsl_found_def)
    qed
  qed
qed

lemma no_wsl_depends:
  assumes "no_wsl_between rs {} A" "depends raw_needs rs i k" "i \<in> A" "byId rs k = Some r"
  shows "\<not> isWslFeature r"
proof -
  have "k \<in> A" by (rule depends_closed [OF assms(2,3)]) (use assms(1) in \<open>auto simp: no_wsl_between_def\<close>)
  then show ?thesis using assms(1,4) by (auto simp: no_wsl_between_def)
qed

lemma add_estimates_total: "(\<forall>x \<in> set xs. x \<noteq> None) \<Longrightarrow> add_estimates xs \<noteq> None"
  by (induction xs) auto

lemma selected_bundle: "selectedProviderForOptions r opts = Bundle is \<Longrightarrow> provider r = Bundle is"
proof -
  assume a: "selectedProviderForOptions r opts = Bundle is"
  have "\<not> is_download (Some (Bundle is))" "\<not> is_chocolatey (Some (Bundle is))" "\<not> is_npm (Some (Bundle is))"
    by simp_all
  then show ?thesis using a
    by (auto simp: selectedProviderForOptions_def selected_slot_def Let_def nullish_def
        split: if_splits option.splits)
qed

definition bundles_ranked :: "(string \<Rightarrow> nat) \<Rightarrow> recipe list \<Rightarrow> bool" where
  "bundles_ranked rank rs =
     (\<forall>r \<in> set rs. \<forall>i \<in> set (bundle_steps (provider r)). byId rs i \<noteq> None \<longrightarrow> rank i < rank (recipe_id r))"


lemma estimate_total:
  assumes "bundles_ranked rank rs" "r \<in> set rs" "rank (recipe_id r) < fuel"
  shows "estimateUacPromptsFor fuel rs det direct opts r \<noteq> None"
  using assms(2,3)
proof (induction fuel arbitrary: r)
  case 0
  then show ?case by simp
next
  case (Suc fuel)
  show ?case
  proof (cases "\<exists>ids. selectedProviderForOptions r opts = Bundle ids")
    case False
    then show ?thesis by (cases "selectedProviderForOptions r opts") auto
  next
    case True
    then obtain ids where b: "selectedProviderForOptions r opts = Bundle ids" by blast
    have "estimateUacPromptsFor fuel rs det direct opts q \<noteq> None"
      if "i \<in> set ids" "byId rs i = Some q" for i q
    proof (rule Suc.IH)
      show "q \<in> set rs" using byId_Some [OF that(2)] by simp
      have "rank i < rank (recipe_id r)"
        using assms(1) Suc.prems(1) selected_bundle [OF b] that by (auto simp: bundles_ranked_def)
      then show "rank (recipe_id q) < fuel" using byId_Some [OF that(2)] Suc.prems(2) by simp
    qed
    then show ?thesis unfolding estimateUacPromptsFor.simps b provider.case
      by (intro add_estimates_total) (auto split: option.splits)
  qed
qed

section \<open>Properties\<close>


text \<open>C27. A recipe is said to need WSL exactly when some recipe it depends on, directly or not,
  is the WSL feature.\<close>

theorem needs_wsl_iff_reachable:
  "recipeNeedsWsl r rs \<longleftrightarrow>
    (\<exists>i \<in> set (raw_needs r). \<exists>k s. depends raw_needs rs i k \<and> byId rs k = Some s \<and> isWslFeature s)"
proof -
  obtain b seen where c: "check_any rs (raw_needs r) {} = (b, seen)" by fastforce
  note h = check_any_spec [OF c]
  have "recipeNeedsWsl r rs = b" using c by (simp add: recipeNeedsWsl_def raw_needs_def)
  moreover have "b = wsl_found rs (raw_needs r)"
  proof (cases b)
    case False
    then have "set (raw_needs r) \<subseteq> seen" "no_wsl_between rs {} seen" using h by auto
    then have "\<not> wsl_found rs (raw_needs r)"
      by (auto simp: wsl_found_def dest: no_wsl_depends)
    then show ?thesis using False by simp
  qed (use h in simp)
  ultimately show ?thesis by (simp add: wsl_found_def)
qed



section \<open>A small catalog\<close>

definition mk_recipe :: "string \<Rightarrow> string list \<Rightarrow> provider \<Rightarrow> recipe" where
  "mk_recipe i ns p = \<lparr>recipe_id = i, recipe_name = i, needs = Some ns, provider = p,
     downloadProvider = None, chocolateyProvider = None, npmProvider = None, releaseNotesUrl = None\<rparr>"

definition sample_catalog :: "recipe list" where
  "sample_catalog = [mk_recipe ''winget'' [] (Winget ''ms.winget''), mk_recipe ''git'' [''winget''] (Winget ''git.git''),
     mk_recipe ''nvm'' [''winget''] (Winget ''nvm''), mk_recipe ''node'' [] (Bundle [''nvm'']),
     mk_recipe ''cli'' [''git'', ''node''] (Npm ''cli'')]"

definition sample_rank :: "string \<Rightarrow> nat" where
  "sample_rank i = (if i = ''cli'' then 3 else if i \<in> {''git'', ''node''} then 2 else if i = ''nvm'' then 1 else 0)"

lemma sample_dom: "dom (byId sample_catalog) = {''winget'', ''git'', ''nvm'', ''node'', ''cli''}"
  by (auto simp: dom_byId sample_catalog_def mk_recipe_def)

lemma sample_ranked: "ranked sample_rank (descended_needs ''cli'' Map.empty None) sample_catalog"
  unfolding ranked_def sample_dom by code_simp

lemma sample_bundles: "bundles_ranked sample_rank sample_catalog"
  unfolding bundles_ranked_def by code_simp



end
