(* ===== verification/Installer_Version.thy ===== *)
theory Installer_Version
  imports Installer_Plan
begin

text \<open>
  When the Install Helper offers an update: the version comparison (\<open>versionCompare.ts\<close>), which
  providers can report a latest version (\<open>latestSupport.ts\<close>) and how often it checks
  (\<open>checkInterval.ts\<close>), all under \<open>src/src/modules/installer\<close>.  \<open>String.localeCompare\<close> is the
  parameter \<open>locale_compare\<close>.
\<close>

section \<open>Comparing versions\<close>

definition is_version_sep :: "char \<Rightarrow> bool" where
  "is_version_sep c = (c \<in> {CHR ''.'', CHR ''-'', CHR ''_'', CHR ''+''})"

fun split_where :: "('a \<Rightarrow> bool) \<Rightarrow> 'a list \<Rightarrow> 'a list list" where
  "split_where p [] = [[]]"
| "split_where p (x # xs) =
     (if p x then [] # split_where p xs
      else (case split_where p xs of [] \<Rightarrow> [[x]] | y # ys \<Rightarrow> (x # y) # ys))"

definition splitVersion :: "string \<Rightarrow> string list" where
  "splitVersion v = filter (\<lambda>s. s \<noteq> []) (split_where is_version_sep (trim v))"

definition parseIntegerPart :: "string \<Rightarrow> nat option" where
  "parseIntegerPart p = (if p \<noteq> [] \<and> list_all is_digit p then Some (digits_value p) else None)"

definition isZeroVersionRemainder :: "string list \<Rightarrow> bool" where
  "isZeroVersionRemainder ps = list_all (\<lambda>p. parseIntegerPart p = Some 0) ps"

definition compareVersionPart :: "(string \<Rightarrow> string \<Rightarrow> int) \<Rightarrow> string \<Rightarrow> string \<Rightarrow> int" where
  "compareVersionPart locale_compare a b =
     (case (parseIntegerPart a, parseIntegerPart b) of
        (Some m, Some n) \<Rightarrow> sgn (int m - int n)
      | _ \<Rightarrow> locale_compare (to_lower a) (to_lower b))"

fun compare_parts :: "(string \<Rightarrow> string \<Rightarrow> int) \<Rightarrow> string list \<Rightarrow> string list \<Rightarrow> int" where
  "compare_parts lc [] [] = 0"
| "compare_parts lc [] (b # bs) = (if isZeroVersionRemainder (b # bs) then 0 else -1)"
| "compare_parts lc (a # as) [] = (if isZeroVersionRemainder (a # as) then 0 else 1)"
| "compare_parts lc (a # as) (b # bs) =
     (let ordering = compareVersionPart lc a b
      in if ordering \<noteq> 0 then ordering else compare_parts lc as bs)"

definition compareInstallerVersions :: "(string \<Rightarrow> string \<Rightarrow> int) \<Rightarrow> string \<Rightarrow> string \<Rightarrow> int" where
  "compareInstallerVersions lc a b = compare_parts lc (splitVersion a) (splitVersion b)"

definition isInstallerUpdateAvailable :: "(string \<Rightarrow> string \<Rightarrow> int) \<Rightarrow> string option \<Rightarrow> string option \<Rightarrow> bool" where
  "isInstallerUpdateAvailable lc latest have_version =
     (truthy_str latest \<and> truthy_str have_version
      \<and> compareInstallerVersions lc (nullish latest []) (nullish have_version []) > 0)"

section \<open>Providers with a latest version\<close>

fun providerSupportsLatestVersion :: "provider \<Rightarrow> bool" where
  "providerSupportsLatestVersion (Winget i) = True"
| "providerSupportsLatestVersion (Chocolatey i) = True"
| "providerSupportsLatestVersion (UvPip p) = True"
| "providerSupportsLatestVersion (GithubRelease r a l s) = True"
| "providerSupportsLatestVersion (Npm p) = (\<not> starts_with p ''github:'')"
| "providerSupportsLatestVersion (Bundle ids) = (length ids = 1)"
| "providerSupportsLatestVersion (DownloadInstaller d) =
     (truthy_str (githubRepo d) \<and> truthy_str (githubAssetPattern d))"
| "providerSupportsLatestVersion (WindowsFeature f b) = False"
| "providerSupportsLatestVersion (WslDistro w) = False"

text \<open>The pattern for a GitHub releases page, matched segment by segment.\<close>

definition githubReleasesRepoFromUrl :: "string option \<Rightarrow> string option" where
  "githubReleasesRepoFromUrl url =
     (case url of
        None \<Rightarrow> None
      | Some u \<Rightarrow>
          (if starts_with u ''https://github.com/'' then
             (case split_on (CHR ''/'') (drop (length ''https://github.com/'') u) of
                user # repo # page # rest \<Rightarrow>
                  (if user \<noteq> [] \<and> repo \<noteq> [] \<and> page = ''releases'' then Some (user @ ''/'' @ repo) else None)
              | _ \<Rightarrow> None)
           else None))"

definition recipeSupportsLatestVersion :: "recipe \<Rightarrow> bool" where
  "recipeSupportsLatestVersion r =
     (case provider r of
        Npm p \<Rightarrow> (if starts_with p ''github:'' then githubReleasesRepoFromUrl (releaseNotesUrl r) \<noteq> None
                  else providerSupportsLatestVersion (provider r))
      | _ \<Rightarrow> providerSupportsLatestVersion (provider r))"

definition recipeSupportsManagedLatestVersion :: "recipe \<Rightarrow> detected_state option \<Rightarrow> bool" where
  "recipeSupportsManagedLatestVersion r d =
     (let official = (Option.bind d installSource = Some OfficialScript);
          uv = (recipe_id r = ''uv'' \<or> provider r = Bundle [''uv''])
      in (\<not> official \<or> uv) \<and> recipeSupportsLatestVersion r)"

definition latestVersionWebUrlForRecipe :: "recipe \<Rightarrow> string option" where
  "latestVersionWebUrlForRecipe r =
     (if recipeSupportsLatestVersion r then None
      else case provider r of DownloadInstaller d \<Rightarrow> Some (di_url d) | _ \<Rightarrow> None)"

section \<open>The check interval\<close>

definition INSTALLER_CHECK_INTERVAL_OPTIONS :: "int list" where
  "INSTALLER_CHECK_INTERVAL_OPTIONS = [3600, 86400, 604800, 2592000]"

definition DEFAULT_INSTALLER_CHECK_INTERVAL_SECONDS :: int where
  "DEFAULT_INSTALLER_CHECK_INTERVAL_SECONDS = 86400"

definition resolveInstallerCheckIntervalSeconds :: "int option \<Rightarrow> int" where
  "resolveInstallerCheckIntervalSeconds value =
     (case value of
        Some v \<Rightarrow> (if v \<in> set INSTALLER_CHECK_INTERVAL_OPTIONS then v
                   else DEFAULT_INSTALLER_CHECK_INTERVAL_SECONDS)
      | None \<Rightarrow> DEFAULT_INSTALLER_CHECK_INTERVAL_SECONDS)"

definition shouldRunInstallerAutomaticCheck :: "rat option \<Rightarrow> rat \<Rightarrow> rat \<Rightarrow> bool" where
  "shouldRunInstallerAutomaticCheck lastCheckAt interval now =
     (case lastCheckAt of None \<Rightarrow> True | Some t \<Rightarrow> now - t \<ge> interval)"

section \<open>Numeric versions\<close>

definition numeric :: "string list \<Rightarrow> bool" where
  "numeric ps = list_all (\<lambda>p. parseIntegerPart p \<noteq> None) ps"

text \<open>The numbers of a version without the zeros at its end.\<close>

fun strip_zeros :: "nat list \<Rightarrow> nat list" where
  "strip_zeros [] = []"
| "strip_zeros (n # ns) = (case strip_zeros ns of [] \<Rightarrow> if n = 0 then [] else [n] | m # ms \<Rightarrow> n # m # ms)"

definition version_key :: "string \<Rightarrow> nat list" where
  "version_key v = strip_zeros (map digits_value (splitVersion v))"

lemma strip_zeros_Nil: "strip_zeros ns = [] \<longleftrightarrow> list_all (\<lambda>n. n = 0) ns"
  by (induction ns) (auto split: list.splits)

lemma strip_zeros_Cons:
  "strip_zeros (n # ns) = (if n = 0 \<and> strip_zeros ns = [] then [] else n # strip_zeros ns)"
  by (auto split: list.splits)

declare strip_zeros.simps(2) [simp del]

lemma numeric_Cons [simp]: "numeric (p # ps) \<longleftrightarrow> parseIntegerPart p = Some (digits_value p) \<and> numeric ps"
  by (auto simp: numeric_def parseIntegerPart_def)

lemma zero_remainder: "numeric ps \<Longrightarrow> isZeroVersionRemainder ps \<longleftrightarrow> strip_zeros (map digits_value ps) = []"
  by (induction ps) (auto simp: isZeroVersionRemainder_def strip_zeros_Cons)

lemma compare_numeric:
  assumes "numeric as" "numeric bs"
  shows "compare_parts lc as bs =
    (let a = strip_zeros (map digits_value as); b = strip_zeros (map digits_value bs)
     in if a = b then 0 else if ord_class.lexordp a b then -1 else 1)"
  using assms
proof (induction lc as bs rule: compare_parts.induct)
  case (1 lc)
  then show ?case by simp
next
  case (2 lc b bs)
  then show ?case using zero_remainder [of "b # bs"]
    by (auto simp: Let_def neq_Nil_conv)
next
  case (3 lc a as)
  then show ?case using zero_remainder [of "a # as"]
    by (auto simp: Let_def neq_Nil_conv)
next
  case (4 lc a as b bs)
  let ?m = "digits_value a" and ?n = "digits_value b"
  let ?s = "strip_zeros (map digits_value as)" and ?t = "strip_zeros (map digits_value bs)"
  have part: "compareVersionPart lc a b = sgn (int ?m - int ?n)"
    using 4(2,3) by (simp add: compareVersionPart_def)
  consider "?m = ?n" | "?m < ?n" | "?n < ?m" by linarith
  then show ?case
  proof cases
    case 1
    then have "compare_parts lc as bs = (if ?s = ?t then 0 else if ord_class.lexordp ?s ?t then -1 else 1)"
      using 4 part by (simp add: Let_def)
    then show ?thesis using 1 part
      by (auto simp: Let_def strip_zeros_Cons neq_Nil_conv)
  next
    case 2
    then show ?thesis using part
      by (auto simp: Let_def strip_zeros_Cons neq_Nil_conv)
  next
    case 3
    then show ?thesis using part
      by (auto simp: Let_def strip_zeros_Cons neq_Nil_conv)
  qed
qed

section \<open>Properties\<close>



text \<open>A version with anything after the numbers of another counts as newer than it, unless
  what follows is only zeros: a pre-release such as 2.0-rc1 is offered as an update of the
  finished 2.0, whatever the locale's order of strings.\<close>

theorem prerelease_is_offered_as_update:
  assumes "splitVersion latest = splitVersion have_version @ rest" "\<not> isZeroVersionRemainder rest"
    and "numeric (splitVersion have_version)" "latest \<noteq> []" "have_version \<noteq> []"
  shows "isInstallerUpdateAvailable lc (Some latest) (Some have_version)"
proof -
  have "compare_parts lc (ps @ rest) ps = 1" if "numeric ps" for ps
    using that
  proof (induction ps)
    case Nil
    have "rest \<noteq> []" using assms(2) by (auto simp: isZeroVersionRemainder_def)
    then show ?case using assms(2) by (cases rest) auto
  next
    case (Cons p ps)
    then show ?case by (simp add: compareVersionPart_def Let_def)
  qed
  then show ?thesis using assms
    by (simp add: isInstallerUpdateAvailable_def compareInstallerVersions_def truthy_str_def nullish_def)
qed

theorem prerelease_is_offered_as_update_witness:
  "isInstallerUpdateAvailable (\<lambda>a b. 0) (Some ''2.0-rc1'') (Some ''2.0'')"
  by (rule prerelease_is_offered_as_update [where rest = "[''rc1'']"]; code_simp)

end
