(* ===== verification/Installer_Store.thy ===== *)
theory Installer_Store
  imports Installer_Plan Interfaces
begin

text \<open>
  The session state of the Install Helper (\<open>src/src/modules/installer/state.ts\<close>): detection and
  update checks, the log and progress of every running operation, and the staged progress
  (the stepper) each operation shows.  \<open>now\<close> is the clock reading of an operation in
  milliseconds.
\<close>

section \<open>State\<close>

datatype install_operation = OpInstall | OpUninstall

record in_flight =
  fl_operation :: install_operation
  currentStep :: "string option"
  ratio :: "rat option"
  fl_log :: "string list"

datatype step_status = StPending | StRunning | StDone | StFailed | StCancelled

record plan_row =
  row_id :: string
  labelKey :: string

record stepper_state =
  isDefaultPlan :: bool
  stepper_plan :: "plan_row list"
  step_status :: "string \<rightharpoonup> step_status"
  step_startedAt :: "string \<rightharpoonup> int"
  step_durations :: "string \<rightharpoonup> int"
  step_errors :: "string \<rightharpoonup> string"
  step_logs :: "string \<rightharpoonup> string list"
  activeStepId :: "string option"
  startedAtMs :: int

datatype dialog_mode = DialogInfo | DialogStepper | DialogLauncher
datatype last_status = LastCompleted "string option" | LastFailed string | LastCancelled

record tool_state =
  ts_toolId :: string
  pinned :: bool
  latestVersionSeen :: "string option"
  lastCheckAt :: "int option"

record installer_catalog =
  schemaVersion :: int
  generatedAt :: "string option"
  catalog_recipes :: "recipe list"

record installer_summary =
  sum_all :: int
  sum_installed :: int
  sum_updates :: int
  sum_lastCheckedAt :: "rat option"

record installer_store =
  catalog :: "installer_catalog option"
  detected :: detection
  toolState :: "string \<rightharpoonup> tool_state"
  hasInitialScanned :: bool
  scanning :: bool
  is_checking :: bool
  checkingToolIds :: "string set"
  checkError :: "string \<rightharpoonup> string option"
  inFlight :: "string \<rightharpoonup> in_flight"
  stepperState :: "string \<rightharpoonup> stepper_state"
  lastStatus :: "string \<rightharpoonup> last_status option"
  openDialog :: "(string \<times> dialog_mode) option"
  wslManagerOpen :: bool
  wslJustEnabled :: bool
  summary :: "installer_summary option"

definition installer_initial :: installer_store where
  "installer_initial = \<lparr>catalog = None, detected = Map.empty, toolState = Map.empty,
     hasInitialScanned = False, scanning = False, is_checking = False, checkingToolIds = {},
     checkError = Map.empty, inFlight = Map.empty, stepperState = Map.empty, lastStatus = Map.empty,
     openDialog = None, wslManagerOpen = False, wslJustEnabled = False, summary = None\<rparr>"

datatype progress_event =
    EvPlan string "plan_row list"
  | EvStepStarted string string
  | EvStepFinished string string bool "string option"
  | EvStep string string
  | EvStdout string "string option" string
  | EvStderr string "string option" string
  | EvProgress string "string option" rat
  | EvCompleted string "string option"
  | EvFailed string string
  | EvCancelled string
  | EvCheckStarted "string list"
  | EvCheckResult string "string option" "string option"
  | EvCheckFinished
  | EvDetectStarted "string list"
  | EvDetectResult string detected_state
  | EvDetectFinished

section \<open>The stepper\<close>

definition MAX_LOG_LINES :: nat where "MAX_LOG_LINES = 200"
definition MAX_STEP_LOG_LINES :: nat where "MAX_STEP_LOG_LINES = 500"
definition GENERAL_STEP_BUCKET :: string where "GENERAL_STEP_BUCKET = ''_general''"
definition DEFAULT_PREPARE_STEP_ID :: string where "DEFAULT_PREPARE_STEP_ID = ''prepare''"
definition DEFAULT_APPLY_STEP_ID :: string where "DEFAULT_APPLY_STEP_ID = ''apply''"
definition DEFAULT_VERIFY_STEP_ID :: string where "DEFAULT_VERIFY_STEP_ID = ''verify''"

definition emptyStepperState :: "int \<Rightarrow> stepper_state" where
  "emptyStepperState now = \<lparr>isDefaultPlan = False, stepper_plan = [], step_status = Map.empty,
     step_startedAt = Map.empty, step_durations = Map.empty, step_errors = Map.empty,
     step_logs = Map.empty, activeStepId = None, startedAtMs = now\<rparr>"

definition defaultStepperState :: "install_operation \<Rightarrow> int \<Rightarrow> stepper_state" where
  "defaultStepperState op startedAt = \<lparr>isDefaultPlan = True,
     stepper_plan =
       [\<lparr>row_id = DEFAULT_PREPARE_STEP_ID, labelKey = ''installer.steps.resolveDependencyPlan''\<rparr>,
        \<lparr>row_id = DEFAULT_APPLY_STEP_ID,
          labelKey = (if op = OpUninstall then ''installer.dialog.uninstallingTitle''
                      else ''installer.steps.installNamed'')\<rparr>,
        \<lparr>row_id = DEFAULT_VERIFY_STEP_ID, labelKey = ''installer.steps.verify''\<rparr>],
     step_status = [DEFAULT_PREPARE_STEP_ID \<mapsto> StRunning, DEFAULT_APPLY_STEP_ID \<mapsto> StPending,
       DEFAULT_VERIFY_STEP_ID \<mapsto> StPending],
     step_startedAt = [DEFAULT_PREPARE_STEP_ID \<mapsto> startedAt], step_durations = Map.empty,
     step_errors = Map.empty, step_logs = Map.empty, activeStepId = Some DEFAULT_PREPARE_STEP_ID,
     startedAtMs = startedAt\<rparr>"

definition startDefaultApplyStep :: "int \<Rightarrow> stepper_state \<Rightarrow> stepper_state" where
  "startDefaultApplyStep now st =
     (if \<not> isDefaultPlan st \<or> step_status st DEFAULT_APPLY_STEP_ID \<noteq> Some StPending then st
      else st\<lparr>step_status := (step_status st)(DEFAULT_PREPARE_STEP_ID \<mapsto> StDone, DEFAULT_APPLY_STEP_ID \<mapsto> StRunning),
              step_startedAt := (step_startedAt st)(DEFAULT_APPLY_STEP_ID \<mapsto> now),
              step_durations := (step_durations st)(DEFAULT_PREPARE_STEP_ID \<mapsto>
                now - nullish (step_startedAt st DEFAULT_PREPARE_STEP_ID) (startedAtMs st)),
              activeStepId := Some DEFAULT_APPLY_STEP_ID\<rparr>)"

text \<open>One round of the loop that marks every planned step done.\<close>

definition complete_row :: "int \<Rightarrow> plan_row \<Rightarrow> stepper_state \<Rightarrow> stepper_state" where
  "complete_row now row st =
     st\<lparr>step_status := (step_status st)(row_id row \<mapsto> StDone),
        step_durations := (case step_durations st (row_id row) of
            Some d \<Rightarrow> step_durations st
          | None \<Rightarrow> (step_durations st)(row_id row \<mapsto>
              max 0 (now - nullish (step_startedAt st (row_id row)) now)))\<rparr>"

datatype terminal_event = TCompleted "string option" | TFailed string | TCancelled

definition finishStepperForTerminalEvent :: "int \<Rightarrow> terminal_event \<Rightarrow> stepper_state \<Rightarrow> stepper_state" where
  "finishStepperForTerminalEvent now ev st =
     (if isDefaultPlan st \<and> (\<exists>v. ev = TCompleted v)
      then (fold (complete_row now) (stepper_plan st) st)\<lparr>activeStepId := None\<rparr>
      else if \<not> truthy_str (activeStepId st) then st
      else let i = nullish (activeStepId st) [];
               result = (case ev of TCompleted v \<Rightarrow> StDone | TFailed m \<Rightarrow> StFailed | TCancelled \<Rightarrow> StCancelled)
           in st\<lparr>step_status := (step_status st)(i \<mapsto> result),
                 step_durations := (step_durations st)(i \<mapsto>
                   max 0 (now - nullish (step_startedAt st i) now)),
                 step_errors := (case ev of TFailed m \<Rightarrow> (step_errors st)(i \<mapsto> m) | _ \<Rightarrow> step_errors st),
                 activeStepId := None\<rparr>)"

definition withStepLog :: "string option \<Rightarrow> string \<Rightarrow> stepper_state \<Rightarrow> stepper_state" where
  "withStepLog stepId line st =
     (let bucket = nullish (nullish_opt stepId (activeStepId st)) GENERAL_STEP_BUCKET;
          prev = nullish (step_logs st bucket) [];
          next_lines = (if length prev \<ge> MAX_STEP_LOG_LINES
                  then drop (length prev - MAX_STEP_LOG_LINES + 1) prev @ [line]
                  else prev @ [line])
      in st\<lparr>step_logs := (step_logs st)(bucket \<mapsto> next_lines)\<rparr>)"

definition trimLog :: "string list \<Rightarrow> string list" where
  "trimLog ls = (if length ls \<le> MAX_LOG_LINES then ls else drop (length ls - MAX_LOG_LINES) ls)"


section \<open>Operations\<close>

definition setCatalog :: "installer_catalog \<Rightarrow> installer_store \<Rightarrow> installer_store" where
  "setCatalog c s = s\<lparr>catalog := Some c\<rparr>"

definition setDetected :: "detection \<Rightarrow> installer_store \<Rightarrow> installer_store" where
  "setDetected d s = s\<lparr>detected := d\<rparr>"

definition setOneDetected :: "string \<Rightarrow> detected_state \<Rightarrow> installer_store \<Rightarrow> installer_store" where
  "setOneDetected i d s = s\<lparr>detected := (detected s)(i \<mapsto> d)\<rparr>"

definition setToolStates :: "tool_state list \<Rightarrow> installer_store \<Rightarrow> installer_store" where
  "setToolStates ts s = s\<lparr>toolState := map_of (rev (map (\<lambda>t. (ts_toolId t, t)) ts))\<rparr>"

definition beginInFlight :: "int \<Rightarrow> string \<Rightarrow> install_operation \<Rightarrow> installer_store \<Rightarrow> installer_store" where
  "beginInFlight now i op s =
     s\<lparr>inFlight := (inFlight s)(i \<mapsto> \<lparr>fl_operation = op, currentStep = None, ratio = None, fl_log = []\<rparr>),
       stepperState := (stepperState s)(i \<mapsto> defaultStepperState op now),
       lastStatus := (lastStatus s)(i \<mapsto> None)\<rparr>"

text \<open>The triangle and the blank before a step's message, in UTF-8.\<close>

definition STEP_MARK :: string where
  "STEP_MARK = [CHR 0xE2, CHR 0x96, CHR 0xB8, CHR 0x20]"

text \<open>The branches of \<open>applyProgress\<close> for the events of an operation on the tool \<open>i\<close>.\<close>

definition put_stepper :: "string \<Rightarrow> stepper_state option \<Rightarrow> installer_store \<Rightarrow> installer_store" where
  "put_stepper i st s =
     (case st of None \<Rightarrow> s | Some st' \<Rightarrow> s\<lparr>stepperState := (stepperState s)(i \<mapsto> st')\<rparr>)"

definition applying_stepper :: "int \<Rightarrow> string \<Rightarrow> installer_store \<Rightarrow> stepper_state option" where
  "applying_stepper now i s =
     map_option (\<lambda>st. if isDefaultPlan st then startDefaultApplyStep now st else st) (stepperState s i)"

definition on_plan :: "int \<Rightarrow> string \<Rightarrow> plan_row list \<Rightarrow> installer_store \<Rightarrow> installer_store" where
  "on_plan now i rows s =
     put_stepper i (Some \<lparr>isDefaultPlan = False, stepper_plan = rows,
       step_status = map_of (map (\<lambda>r. (row_id r, StPending)) rows),
       step_startedAt = Map.empty, step_durations = Map.empty, step_errors = Map.empty,
       step_logs = Map.empty, activeStepId = None,
       startedAtMs = nullish (map_option startedAtMs (stepperState s i)) now\<rparr>) s"

definition on_step_started :: "int \<Rightarrow> string \<Rightarrow> string \<Rightarrow> installer_store \<Rightarrow> installer_store" where
  "on_step_started now i stepId s =
     (let current = nullish (stepperState s i) (emptyStepperState now)
      in put_stepper i (Some (current\<lparr>step_status := (step_status current)(stepId \<mapsto> StRunning),
           step_startedAt := (step_startedAt current)(stepId \<mapsto> now), activeStepId := Some stepId\<rparr>)) s)"

definition on_step_finished :: "int \<Rightarrow> string \<Rightarrow> string \<Rightarrow> bool \<Rightarrow> string option \<Rightarrow> installer_store
    \<Rightarrow> installer_store" where
  "on_step_finished now i stepId ok err s =
     (let current = nullish (stepperState s i) (emptyStepperState now)
      in put_stepper i (Some (current
           \<lparr>step_status := (step_status current)(stepId \<mapsto> (if ok then StDone else StFailed)),
            step_durations := (step_durations current)(stepId \<mapsto>
              now - nullish (step_startedAt current stepId) now),
            step_errors := (if truthy_str err then (step_errors current)(stepId \<mapsto> nullish err [])
                            else step_errors current),
            activeStepId := (if activeStepId current = Some stepId then None else activeStepId current)\<rparr>)) s)"

definition on_step :: "int \<Rightarrow> string \<Rightarrow> string \<Rightarrow> installer_store \<Rightarrow> installer_store" where
  "on_step now i message s =
     (case inFlight s i of
        None \<Rightarrow> s
      | Some current \<Rightarrow>
          put_stepper i (applying_stepper now i s)
            (s\<lparr>inFlight := (inFlight s)(i \<mapsto> current\<lparr>currentStep := Some message,
                fl_log := trimLog (fl_log current @ [STEP_MARK @ message])\<rparr>)\<rparr>))"

definition on_output :: "int \<Rightarrow> string \<Rightarrow> string option \<Rightarrow> string \<Rightarrow> installer_store \<Rightarrow> installer_store" where
  "on_output now i stepId line s =
     put_stepper i (map_option (withStepLog stepId line) (applying_stepper now i s))
       (case inFlight s i of
          None \<Rightarrow> s
        | Some current \<Rightarrow>
            s\<lparr>inFlight := (inFlight s)(i \<mapsto> current\<lparr>fl_log := trimLog (fl_log current @ [line])\<rparr>)\<rparr>)"

definition on_ratio :: "int \<Rightarrow> string \<Rightarrow> rat \<Rightarrow> installer_store \<Rightarrow> installer_store" where
  "on_ratio now i r s =
     (case inFlight s i of
        None \<Rightarrow> s
      | Some current \<Rightarrow>
          put_stepper i (applying_stepper now i s)
            (s\<lparr>inFlight := (inFlight s)(i \<mapsto> current\<lparr>ratio := Some r\<rparr>)\<rparr>))"

fun status_of :: "terminal_event \<Rightarrow> last_status" where
  "status_of (TCompleted v) = LastCompleted v"
| "status_of (TFailed m) = LastFailed m"
| "status_of TCancelled = LastCancelled"

definition on_ended :: "int \<Rightarrow> string \<Rightarrow> terminal_event \<Rightarrow> installer_store \<Rightarrow> installer_store" where
  "on_ended now i ev s =
     put_stepper i (map_option (finishStepperForTerminalEvent now ev) (stepperState s i))
       (s\<lparr>inFlight := (inFlight s)(i := None),
          lastStatus := (lastStatus s)(i \<mapsto> Some (status_of ev))\<rparr>)"

definition on_check_started :: "string list \<Rightarrow> installer_store \<Rightarrow> installer_store" where
  "on_check_started ids s =
     s\<lparr>is_checking := True, checkingToolIds := set ids,
       checkError := (\<lambda>i. if i \<in> set ids then Some None else checkError s i)\<rparr>"

definition on_check_result :: "int \<Rightarrow> string \<Rightarrow> string option \<Rightarrow> string option \<Rightarrow> installer_store \<Rightarrow> installer_store" where
  "on_check_result now i latest err s =
     (let existing = toolState s i
      in s\<lparr>toolState := (toolState s)(i \<mapsto> \<lparr>ts_toolId = i,
             pinned = nullish (map_option pinned existing) False,
             latestVersionSeen = nullish_opt latest (Option.bind existing latestVersionSeen),
             lastCheckAt = Some (now div 1000)\<rparr>),
           checkingToolIds := checkingToolIds s - {i},
           checkError := (checkError s)(i \<mapsto> err)\<rparr>)"

text \<open>An operation event with an empty tool id is dropped.\<close>

definition for_tool :: "string \<Rightarrow> (installer_store \<Rightarrow> installer_store) \<Rightarrow> installer_store \<Rightarrow> installer_store" where
  "for_tool i f s = (if i = [] then s else f s)"

fun applyProgress :: "int \<Rightarrow> progress_event \<Rightarrow> installer_store \<Rightarrow> installer_store" where
  "applyProgress now (EvCheckStarted ids) s = on_check_started ids s"
| "applyProgress now (EvCheckResult i latest err) s = on_check_result now i latest err s"
| "applyProgress now EvCheckFinished s = s\<lparr>is_checking := False, checkingToolIds := {}\<rparr>"
| "applyProgress now (EvDetectStarted ids) s = s\<lparr>scanning := True\<rparr>"
| "applyProgress now (EvDetectResult i d) s = s\<lparr>detected := (detected s)(i \<mapsto> d)\<rparr>"
| "applyProgress now EvDetectFinished s = s\<lparr>scanning := False, hasInitialScanned := True\<rparr>"
| "applyProgress now (EvPlan i rows) s = for_tool i (on_plan now i rows) s"
| "applyProgress now (EvStepStarted i stepId) s = for_tool i (on_step_started now i stepId) s"
| "applyProgress now (EvStepFinished i stepId ok err) s = for_tool i (on_step_finished now i stepId ok err) s"
| "applyProgress now (EvStep i message) s = for_tool i (on_step now i message) s"
| "applyProgress now (EvStdout i stepId line) s = for_tool i (on_output now i stepId line) s"
| "applyProgress now (EvStderr i stepId line) s = for_tool i (on_output now i stepId line) s"
| "applyProgress now (EvProgress i stepId r) s = for_tool i (on_ratio now i r) s"
| "applyProgress now (EvCompleted i v) s = for_tool i (on_ended now i (TCompleted v)) s"
| "applyProgress now (EvFailed i m) s = for_tool i (on_ended now i (TFailed m)) s"
| "applyProgress now (EvCancelled i) s = for_tool i (on_ended now i TCancelled) s"

definition openDialogIn :: "dialog_mode \<Rightarrow> string \<Rightarrow> installer_store \<Rightarrow> installer_store" where
  "openDialogIn mode i s = s\<lparr>openDialog := Some (i, mode)\<rparr>"

definition closeDialog :: "installer_store \<Rightarrow> installer_store" where
  "closeDialog s = s\<lparr>openDialog := None\<rparr>"

definition setWslManagerOpen :: "bool \<Rightarrow> installer_store \<Rightarrow> installer_store" where
  "setWslManagerOpen b s = s\<lparr>wslManagerOpen := b\<rparr>"

definition setScanning :: "bool \<Rightarrow> installer_store \<Rightarrow> installer_store" where
  "setScanning b s = s\<lparr>scanning := b\<rparr>"

definition setChecking :: "bool \<Rightarrow> installer_store \<Rightarrow> installer_store" where
  "setChecking b s = s\<lparr>is_checking := b\<rparr>"

definition setSummary :: "installer_summary option \<Rightarrow> installer_store \<Rightarrow> installer_store" where
  "setSummary x s = s\<lparr>summary := x\<rparr>"

definition markInitialScanned :: "installer_store \<Rightarrow> installer_store" where
  "markInitialScanned s = s\<lparr>hasInitialScanned := True\<rparr>"

definition markWslJustEnabled :: "installer_store \<Rightarrow> installer_store" where
  "markWslJustEnabled s = s\<lparr>wslJustEnabled := True\<rparr>"

definition reset :: "installer_store \<Rightarrow> installer_store" where
  "reset s = installer_initial"


section \<open>The machine\<close>

datatype installer_event =
    BeginInFlight string install_operation
  | Progress progress_event
  | SetDetected detection
  | SetToolStates "tool_state list"
  | SetScanning bool
  | SetChecking bool
  | MarkInitialScanned
  | MarkWslJustEnabled
  | Reset

fun installer_step :: "int \<times> installer_event \<Rightarrow> installer_store \<Rightarrow> installer_store" where
  "installer_step (now, BeginInFlight i op) s = beginInFlight now i op s"
| "installer_step (now, Progress e) s = applyProgress now e s"
| "installer_step (now, SetDetected d) s = setDetected d s"
| "installer_step (now, SetToolStates ts) s = setToolStates ts s"
| "installer_step (now, SetScanning b) s = setScanning b s"
| "installer_step (now, SetChecking b) s = setChecking b s"
| "installer_step (now, MarkInitialScanned) s = markInitialScanned s"
| "installer_step (now, MarkWslJustEnabled) s = markWslJustEnabled s"
| "installer_step (now, Reset) s = reset s"

text \<open>
  A provider starts a step only in a plan of its own, and only when its previous step is over.
\<close>

fun installer_allowed :: "int \<times> installer_event \<Rightarrow> installer_store \<Rightarrow> bool" where
  "installer_allowed (now, Progress (EvStepStarted i k)) s =
     (k \<noteq> [] \<and> (case stepperState s i of
        None \<Rightarrow> True
      | Some st \<Rightarrow> \<not> isDefaultPlan st \<and> (activeStepId st = None \<or> activeStepId st = Some k)))"
| "installer_allowed e s = True"

definition stepper_ok :: "stepper_state \<Rightarrow> bool" where
  "stepper_ok st =
     ((\<forall>k. step_status st k = Some StRunning \<longrightarrow> activeStepId st = Some k) \<and> activeStepId st \<noteq> Some []
      \<and> (\<forall>b ls. step_logs st b = Some ls \<longrightarrow> length ls \<le> MAX_STEP_LOG_LINES)
      \<and> (isDefaultPlan st \<longrightarrow>
          (\<forall>k. activeStepId st = Some k \<longrightarrow> k \<in> row_id ` set (stepper_plan st))
          \<and> {DEFAULT_PREPARE_STEP_ID, DEFAULT_APPLY_STEP_ID} \<subseteq> row_id ` set (stepper_plan st)
          \<and> (step_status st DEFAULT_APPLY_STEP_ID = Some StPending
              \<longrightarrow> activeStepId st = None \<or> activeStepId st = Some DEFAULT_PREPARE_STEP_ID)))"

definition installer_inv :: "installer_store \<Rightarrow> bool" where
  "installer_inv s =
     ((\<forall>i fl. inFlight s i = Some fl \<longrightarrow> length (fl_log fl) \<le> MAX_LOG_LINES)
      \<and> (\<forall>i st. stepperState s i = Some st \<longrightarrow> stepper_ok st))"

lemmas step_ids = DEFAULT_PREPARE_STEP_ID_def DEFAULT_APPLY_STEP_ID_def DEFAULT_VERIFY_STEP_ID_def

lemma trimLog_take_last: "trimLog ls = take_last MAX_LOG_LINES ls"
  by (auto simp: trimLog_def take_last_def)

lemma stepper_ok_empty [inv_intros]: "stepper_ok (emptyStepperState now)"
  by (simp add: stepper_ok_def emptyStepperState_def)

lemma stepper_ok_default [inv_intros]: "stepper_ok (defaultStepperState op now)"
  by (auto simp: stepper_ok_def defaultStepperState_def step_ids split: if_splits)

lemma stepper_ok_start_apply [inv_intros]:
  "stepper_ok st \<Longrightarrow> stepper_ok (startDefaultApplyStep now st)"
  unfolding stepper_ok_def startDefaultApplyStep_def
  by (auto simp: step_ids split: if_splits)

lemma stepper_ok_withStepLog [inv_intros]: "stepper_ok st \<Longrightarrow> stepper_ok (withStepLog k line st)"
  by (auto simp: stepper_ok_def withStepLog_def Let_def nullish_def MAX_STEP_LOG_LINES_def split: if_splits option.splits)

lemma fold_complete_row:
  "step_status (fold (complete_row now) rows st) k
    = (if k \<in> row_id ` set rows then Some StDone else step_status st k)
   \<and> step_logs (fold (complete_row now) rows st) = step_logs st
   \<and> activeStepId (fold (complete_row now) rows st) = activeStepId st
   \<and> isDefaultPlan (fold (complete_row now) rows st) = isDefaultPlan st
   \<and> stepper_plan (fold (complete_row now) rows st) = stepper_plan st"
  by (induction rows arbitrary: st) (auto simp: complete_row_def)

lemma stepper_finish:
  assumes "stepper_ok st"
  shows "stepper_ok (finishStepperForTerminalEvent now ev st)
    \<and> (\<forall>k. step_status (finishStepperForTerminalEvent now ev st) k \<noteq> Some StRunning)
    \<and> activeStepId (finishStepperForTerminalEvent now ev st) = None"
proof -
  consider (default) v where "isDefaultPlan st" "ev = TCompleted v"
    | (idle) "\<not> (isDefaultPlan st \<and> (\<exists>v. ev = TCompleted v))" "activeStepId st = None"
    | (active) k where "\<not> (isDefaultPlan st \<and> (\<exists>v. ev = TCompleted v))" "activeStepId st = Some k"
    by (cases "activeStepId st") auto
  then show ?thesis
  proof cases
    case default
    then show ?thesis using assms
      by (auto simp: finishStepperForTerminalEvent_def stepper_ok_def fold_complete_row split: if_splits)
  next
    case idle
    then show ?thesis using assms
      by (auto simp: finishStepperForTerminalEvent_def stepper_ok_def truthy_str_def)
  next
    case active
    then have "truthy_str (activeStepId st)" using assms by (simp add: truthy_str_def stepper_ok_def)
    then show ?thesis using active assms
      by (auto simp: finishStepperForTerminalEvent_def stepper_ok_def Let_def nullish_def
          split: terminal_event.splits)
  qed
qed

lemma put_stepper_inv [inv_intros]:
  "installer_inv s \<Longrightarrow> (\<And>st'. st = Some st' \<Longrightarrow> stepper_ok st') \<Longrightarrow> installer_inv (put_stepper i st s)"
  by (auto simp: installer_inv_def put_stepper_def split: option.splits if_splits)

lemma flight_inv [inv_intros]:
  "installer_inv s \<Longrightarrow> length (fl_log fl) \<le> MAX_LOG_LINES \<Longrightarrow> installer_inv (s\<lparr>inFlight := (inFlight s)(i \<mapsto> fl)\<rparr>)"
  by (auto simp: installer_inv_def split: if_splits)

lemma applying_ok: "installer_inv s \<Longrightarrow> applying_stepper now i s = Some st \<Longrightarrow> stepper_ok st"
  by (auto simp: applying_stepper_def installer_inv_def) (blast intro: stepper_ok_start_apply)

lemma trimLog_length [simp]: "length (trimLog ls) \<le> MAX_LOG_LINES"
  by (simp add: trimLog_take_last)

lemma current_ok: "installer_inv s \<Longrightarrow> stepper_ok (nullish (stepperState s i) (emptyStepperState now))"
  by (auto simp: installer_inv_def nullish_def intro: stepper_ok_empty split: option.splits)


lemma stepper_ok_started:
  assumes "stepper_ok c" "\<not> isDefaultPlan c" "activeStepId c = None \<or> activeStepId c = Some k" "k \<noteq> []"
  shows "stepper_ok (c\<lparr>step_status := (step_status c)(k \<mapsto> StRunning), step_startedAt := t, activeStepId := Some k\<rparr>)"
  using assms by (auto simp: stepper_ok_def)

lemma stepper_ok_finished:
  assumes "stepper_ok c" "x = StDone \<or> x = StFailed"
  shows "stepper_ok (c\<lparr>step_status := (step_status c)(k \<mapsto> x), step_durations := d, step_errors := es,
    activeStepId := (if activeStepId c = Some k then None else activeStepId c)\<rparr>)"
  using assms by (cases "activeStepId c = Some k") (auto simp: stepper_ok_def)

lemma on_step_started_inv:
  assumes "installer_inv s" "installer_allowed (now, Progress (EvStepStarted i k)) s"
  shows "installer_inv (on_step_started now i k s)"
proof -
  let ?c = "nullish (stepperState s i) (emptyStepperState now)"
  have "\<not> isDefaultPlan ?c" "activeStepId ?c = None \<or> activeStepId ?c = Some k" "k \<noteq> []"
    using assms(2) by (cases "stepperState s i"; simp add: nullish_def emptyStepperState_def)+
  then show ?thesis unfolding on_step_started_def Let_def
    by (intro put_stepper_inv [OF assms(1)])
      (metis option.inject stepper_ok_started [OF current_ok [OF assms(1)]])
qed

lemma on_step_finished_inv:
  assumes "installer_inv s"
  shows "installer_inv (on_step_finished now i k ok err s)"
proof -
  have x: "(if ok then StDone else StFailed) = StDone \<or> (if ok then StDone else StFailed) = StFailed" by simp
  show ?thesis unfolding on_step_finished_def Let_def
    by (intro put_stepper_inv [OF assms]) (metis option.inject stepper_ok_finished [OF current_ok [OF assms] x])
qed

lemma map_of_constant: "map_of (map (\<lambda>r. (f r, c)) rows) k = Some x \<Longrightarrow> x = c"
  by (induction rows) (auto split: if_splits)

lemma on_plan_inv: "installer_inv s \<Longrightarrow> installer_inv (on_plan now i rows s)"
  unfolding on_plan_def
  by (rule put_stepper_inv) (auto simp: stepper_ok_def dest: map_of_constant)

lemma on_output_inv: "installer_inv s \<Longrightarrow> installer_inv (on_output now i k line s)"
  unfolding on_output_def
  by (rule put_stepper_inv)
    (auto intro!: flight_inv stepper_ok_withStepLog dest: applying_ok split: option.splits)

lemma on_ended_inv: "installer_inv s \<Longrightarrow> installer_inv (on_ended now i ev s)"
  unfolding on_ended_def
  by (rule put_stepper_inv) (auto simp: installer_inv_def stepper_finish)

lemma for_tool_inv: "installer_inv s \<Longrightarrow> installer_inv (f s) \<Longrightarrow> installer_inv (for_tool i f s)"
  by (simp add: for_tool_def)

lemma begin_inv: "installer_inv s \<Longrightarrow> installer_inv (beginInFlight now i op s)"
  using stepper_ok_default by (auto simp: installer_inv_def beginInFlight_def split: if_splits)

lemma on_step_inv: "installer_inv s \<Longrightarrow> installer_inv (on_step now i m s)"
  unfolding on_step_def by (auto intro!: put_stepper_inv flight_inv dest: applying_ok split: option.splits)

lemma on_ratio_inv:
  assumes "installer_inv s"
  shows "installer_inv (on_ratio now i r s)"
proof (cases "inFlight s i")
  case (Some fl)
  then have "length (fl_log fl) \<le> MAX_LOG_LINES" using assms by (auto simp: installer_inv_def)
  then show ?thesis using Some assms
    by (auto simp: on_ratio_def intro!: put_stepper_inv flight_inv dest: applying_ok)
qed (simp add: on_ratio_def assms)

lemma progress_inv:
  assumes "installer_inv s" "installer_allowed (now, Progress e) s"
  shows "installer_inv (applyProgress now e s)"
proof (cases e)
  case (EvStepStarted i k)
  then show ?thesis using assms on_step_started_inv by (simp add: for_tool_def del: installer_allowed.simps)
qed (use assms(1) in \<open>simp_all add: for_tool_def on_plan_inv on_step_finished_inv on_step_inv
    on_output_inv on_ratio_inv on_ended_inv, simp_all add: installer_inv_def on_check_started_def
    on_check_result_def Let_def\<close>)

lemma installer_step_inv:
  assumes "installer_inv s" "installer_allowed e s"
  shows "installer_inv (installer_step e s)"
proof -
  obtain now ev where e: "e = (now, ev)" by fastforce
  show ?thesis
  proof (cases ev)
    case (BeginInFlight i op)
    then show ?thesis using assms(1) begin_inv e by simp
  next
    case (Progress p)
    then show ?thesis using assms progress_inv e by (simp del: installer_allowed.simps)
  qed (use assms(1) e in \<open>simp_all add: installer_inv_def setDetected_def setToolStates_def
      setScanning_def setChecking_def markInitialScanned_def markWslJustEnabled_def reset_def
      installer_initial_def\<close>)
qed

text \<open>What the session remembers until it is reset: that it scanned once, and that WSL was enabled.\<close>

definition session_flags :: "installer_store \<Rightarrow> nat" where
  "session_flags s = of_bool (hasInitialScanned s) + of_bool (wslJustEnabled s)"

definition installer_running :: "int \<times> installer_event \<Rightarrow> installer_store \<Rightarrow> bool" where
  "installer_running e s = (installer_allowed e s \<and> snd e \<noteq> Reset)"

lemma put_stepper_flags [simp]:
  "hasInitialScanned (put_stepper i st s) = hasInitialScanned s"
  "wslJustEnabled (put_stepper i st s) = wslJustEnabled s"
  "inFlight (put_stepper i st s) = inFlight s" "lastStatus (put_stepper i st s) = lastStatus s"
  by (simp_all add: put_stepper_def split: option.splits)

lemmas progress_defs = for_tool_def on_plan_def on_step_started_def on_step_finished_def on_step_def
  on_output_def on_ratio_def on_ended_def on_check_started_def on_check_result_def Let_def

lemma progress_flags:
  "hasInitialScanned s \<Longrightarrow> hasInitialScanned (applyProgress now e s)"
  "wslJustEnabled (applyProgress now e s) = wslJustEnabled s"
  by (cases e; simp add: progress_defs split: option.splits)+

lemma installer_step_flags:
  assumes "installer_running e s"
  shows "session_flags s \<le> session_flags (installer_step e s)"
proof -
  obtain now ev where e: "e = (now, ev)" by fastforce
  show ?thesis using assms
    by (cases ev) (auto simp: e installer_running_def session_flags_def progress_flags beginInFlight_def
      setDetected_def setToolStates_def setScanning_def setChecking_def markInitialScanned_def
      markWslJustEnabled_def)
qed

interpretation installer: progress_machine installer_step installer_inv installer_running session_flags
  by unfold_locales (auto simp: installer_running_def intro: installer_step_inv installer_step_flags)


section \<open>Properties\<close>

text \<open>The lines an event adds to the log of the tool \<open>i\<close>, and the events that leave the operation running.\<close>

fun lines_for :: "string \<Rightarrow> int \<times> installer_event \<Rightarrow> string list" where
  "lines_for i (now, Progress (EvStep j m)) = (if j = i then [STEP_MARK @ m] else [])"
| "lines_for i (now, Progress (EvStdout j k l)) = (if j = i then [l] else [])"
| "lines_for i (now, Progress (EvStderr j k l)) = (if j = i then [l] else [])"
| "lines_for i e = []"

fun keeps_running :: "string \<Rightarrow> int \<times> installer_event \<Rightarrow> bool" where
  "keeps_running i (now, BeginInFlight j op) = (j \<noteq> i)"
| "keeps_running i (now, Progress (EvCompleted j v)) = (j \<noteq> i)"
| "keeps_running i (now, Progress (EvFailed j m)) = (j \<noteq> i)"
| "keeps_running i (now, Progress (EvCancelled j)) = (j \<noteq> i)"
| "keeps_running i (now, Reset) = False"
| "keeps_running i e = True"

lemma progress_log:
  assumes "keeps_running i (now, Progress p)" "inFlight s i = Some fl" "length (fl_log fl) \<le> MAX_LOG_LINES"
    and "i \<noteq> []"
  shows "\<exists>fl'. inFlight (applyProgress now p s) i = Some fl'
    \<and> fl_log fl' = take_last MAX_LOG_LINES (fl_log fl @ lines_for i (now, Progress p))"
  using assms
  by (cases p) (auto simp: progress_defs trimLog_take_last take_last_all split: option.splits)

lemma step_log:
  assumes "keeps_running i e" "inFlight s i = Some fl" "length (fl_log fl) \<le> MAX_LOG_LINES" "i \<noteq> []"
  shows "\<exists>fl'. inFlight (installer_step e s) i = Some fl'
    \<and> fl_log fl' = take_last MAX_LOG_LINES (fl_log fl @ lines_for i e)"
proof -
  obtain now ev where e: "e = (now, ev)" by fastforce
  show ?thesis
  proof (cases ev)
    case (Progress p)
    then show ?thesis using progress_log [of i now p s fl] assms e by simp
  qed (use assms e in \<open>simp_all add: beginInFlight_def setDetected_def setToolStates_def setScanning_def
      setChecking_def markInitialScanned_def markWslJustEnabled_def take_last_all\<close>)
qed

lemma run_log:
  assumes "list_all (keeps_running i) es" "inFlight s i = Some fl" "length (fl_log fl) \<le> MAX_LOG_LINES"
    and "i \<noteq> []"
  shows "\<exists>fl'. inFlight (fold installer_step es s) i = Some fl'
    \<and> fl_log fl' = take_last MAX_LOG_LINES (fl_log fl @ concat (map (lines_for i) es))"
  using assms(1,2,3)
proof (induction es arbitrary: s fl)
  case Nil
  then show ?case by (simp add: take_last_all)
next
  case (Cons e es)
  obtain fl1 where 1: "inFlight (installer_step e s) i = Some fl1"
    "fl_log fl1 = take_last MAX_LOG_LINES (fl_log fl @ lines_for i e)"
    using step_log [of i e s fl] Cons.prems assms(4) by auto
  obtain fl' where "inFlight (fold installer_step es (installer_step e s)) i = Some fl'"
    "fl_log fl' = take_last MAX_LOG_LINES (fl_log fl1 @ concat (map (lines_for i) es))"
    using Cons.IH [OF _ 1(1)] Cons.prems(1) 1(2) by auto
  then show ?case by (simp add: 1(2) take_last_append)
qed

text \<open>While an operation on a tool runs, its log is exactly the last 200 lines it has
  produced so far, in order, and no other operation's; whatever else happens, no log of an
  operation grows over 200 lines and no log of a step over 500.\<close>

theorem log_is_the_last_lines:
  assumes "installer_inv s" "i \<noteq> []" "list_all (keeps_running i) es"
    and "run_allowed installer_running installer_step es (beginInFlight now i op s)"
  shows "\<exists>fl. inFlight (fold installer_step es (beginInFlight now i op s)) i = Some fl
    \<and> fl_log fl = take_last 200 (concat (map (lines_for i) es))
    \<and> installer_inv (fold installer_step es (beginInFlight now i op s))"
proof -
  let ?s = "beginInFlight now i op s"
  have "installer_inv (fold installer_step es ?s)"
    by (rule installer.run_inv) (use assms(1,4) begin_inv in auto)
  moreover have "\<exists>fl'. inFlight (fold installer_step es ?s) i = Some fl'
      \<and> fl_log fl' = take_last MAX_LOG_LINES
          (fl_log \<lparr>fl_operation = op, currentStep = None, ratio = None, fl_log = []\<rparr> @ concat (map (lines_for i) es))"
    by (rule run_log [OF assms(3) _ _ assms(2)]) (simp_all add: beginInFlight_def)
  ultimately show ?thesis by (simp add: MAX_LOG_LINES_def)
qed

definition sample_run :: "(int \<times> installer_event) list" where
  "sample_run = [(1, Progress (EvPlan ''git'' [\<lparr>row_id = ''get'', labelKey = ''k''\<rparr>])),
     (2, Progress (EvStepStarted ''git'' ''get'')), (3, Progress (EvStdout ''git'' None ''line'')),
     (4, Progress (EvStdout ''jq'' None ''other'')), (5, MarkWslJustEnabled)]"

lemma installer_inv_initial [simp]: "installer_inv installer_initial"
  by (simp add: installer_inv_def installer_initial_def)

lemma sample_run_ok:
  "run_allowed installer_running installer_step sample_run (beginInFlight 0 ''git'' OpInstall installer_initial)"
  by (simp add: sample_run_def installer_running_def for_tool_def on_plan_def put_stepper_def
      on_step_started_def Let_def nullish_def beginInFlight_def)

theorem log_is_the_last_lines_witness:
  "\<exists>fl. inFlight (fold installer_step sample_run (beginInFlight 0 ''git'' OpInstall installer_initial)) ''git'' = Some fl
    \<and> fl_log fl = [''line'']"
  using log_is_the_last_lines [OF installer_inv_initial _ _ sample_run_ok]
  by (auto simp: sample_run_def take_last_def)

text \<open>The event that ends an operation.\<close>

fun ending :: "string \<Rightarrow> terminal_event \<Rightarrow> progress_event" where
  "ending i (TCompleted v) = EvCompleted i v"
| "ending i (TFailed m) = EvFailed i m"
| "ending i TCancelled = EvCancelled i"

text \<open>C31. However an operation went, the event that ends it settles it: the tool has no
  operation in flight, the result is recorded, and no step is shown as running any more.  Once
  WSL was enabled in a session, the tools that need it stay blocked along every later run.\<close>

theorem terminal_event_settles:
  assumes "installer_inv s" "run_allowed installer_running installer_step es s" "i \<noteq> []"
  shows "let s' = applyProgress now (ending i ev) (fold installer_step es s) in
    inFlight s' i = None \<and> lastStatus s' i = Some (Some (status_of ev))
    \<and> (\<forall>st k. stepperState s' i = Some st \<longrightarrow> step_status st k \<noteq> Some StRunning \<and> activeStepId st = None)
    \<and> session_flags s \<le> session_flags s'"
proof -
  let ?s = "fold installer_step es s"
  have inv: "installer_inv ?s" by (rule installer.run_inv [OF assms(1,2)])
  have e: "applyProgress now (ending i ev) ?s = on_ended now i ev ?s"
    using assms(3) by (cases ev) (auto simp: for_tool_def)
  have "step_status st k \<noteq> Some StRunning \<and> activeStepId st = None"
    if "stepperState (on_ended now i ev ?s) i = Some st" for st k
    using that inv stepper_finish
    by (auto simp: on_ended_def put_stepper_def installer_inv_def split: option.splits)
  moreover have "session_flags s \<le> session_flags ?s" by (rule installer.run_rank [OF assms(1,2)])
  moreover have "session_flags (on_ended now i ev ?s) = session_flags ?s"
    by (simp add: session_flags_def on_ended_def)
  ultimately show ?thesis unfolding e by (auto simp: Let_def on_ended_def)
qed

theorem terminal_event_settles_witness:
  "let s' = applyProgress 9 (ending ''git'' (TFailed ''no''))
      (fold installer_step sample_run (beginInFlight 0 ''git'' OpInstall installer_initial)) in
    inFlight s' ''git'' = None"
  using terminal_event_settles [OF begin_inv [OF installer_inv_initial] sample_run_ok, of "''git''" 9 "TFailed ''no''"]
  unfolding Let_def by blast

end
