(* ===== verification/Watchdog.thy ===== *)
theory Watchdog
  imports Js_Prelude Interfaces
begin

text \<open>
  The watchdog store (\<open>src/src/watchdog/store.ts\<close> and \<open>types.ts\<close>): the state kept per watchdog,
  the events of the backend and the reference-counted subscription to them.  The world around
  the store is part of the state: the calls of \<open>listen\<close> that have not come back, the handlers
  registered by those that have, and the requests the store has made.
\<close>

section \<open>Data\<close>

datatype performance_metric = CpuPercent | RamPercent | CommitPercent | DiskFreePercent | DiskUsedPercent
  | NetworkDownBytesPerSec | NetworkUpBytesPerSec | AppWorkingSetBytes | AppPrivateBytes | HandleCount
  | ProcessCount | ThreadCount

datatype watchdog_target =
    MockTarget "rat option"
  | PerformanceCounter performance_metric
  | SshSessionOutputSilence string
  | Ping string "int option"
  | TcpReachable string int
  | Schedule string
  | LogFile string string
  | OutputMatch string string

datatype predicate_op = OpGt rat | OpLt rat | OpGte rat | OpLte rat | OpEq rat | OpNe rat
  | OpContains string | OpSilenceFor rat

record watchdog_trigger =
  predicate :: predicate_op
  sustainedForMs :: "rat option"

datatype watchdog_stop = AfterDuration rat | AfterTriggerCount int | AfterFirstTrigger | UntilCanceled
  | AfterPollCount int

datatype watchdog_notification = InAppOnly | InAppPlusToast | InAppPlusSound

datatype watchdog_action = NotifyAction
  | AiIntervene string "string list" "string list" string int rat

record watchdog_config =
  wc_name :: string
  wc_target :: watchdog_target
  wc_trigger :: watchdog_trigger
  wc_pollMs :: rat
  wc_stop :: watchdog_stop
  wc_notification :: watchdog_notification
  wc_action :: watchdog_action

datatype watchdog_status =
    Armed
  | Running rat int
  | Triggered rat int rat
  | Intervening rat int
  | Suppressed rat int
  | Completed string rat
  | Canceled rat
  | Errored string rat

record watchdog_summary =
  ws_id :: string
  ws_name :: string
  ws_state :: watchdog_status
  ws_createdAt :: rat
  ws_pollMs :: rat
  ws_triggerCount :: rat
  ws_pollCount :: rat
  ws_lastValue :: "json option"

record watchdog_tick =
  tick_at :: rat
  tick_value :: "json option"
  predicateMet :: bool

record watchdog_trigger_event =
  trig_at :: rat
  valueAtTrigger :: "json option"

record intervention_record =
  interventionId :: string
  iv_at :: rat
  iv_ok :: bool
  iv_summary :: string
  iv_toolCalls :: "string list"
  completionReason :: "string option"
  iv_error :: "string option"
  iv_inFlight :: bool

record watchdog_report =
  rp_id :: string
  rp_name :: string
  rp_config :: watchdog_config
  rp_state :: watchdog_status
  rp_ticks :: "watchdog_tick list"
  rp_triggers :: "watchdog_trigger_event list"
  rp_interventions :: "intervention_record list"
  rp_createdAt :: rat
  rp_pollCount :: rat

fun isTerminalState :: "watchdog_status \<Rightarrow> bool" where
  "isTerminalState (Completed r t) = True"
| "isTerminalState (Canceled t) = True"
| "isTerminalState (Errored m t) = True"
| "isTerminalState _ = False"

text \<open>
  An event, with the fields of its payload that the store reads; \<open>pl_state\<close> and
  \<open>pl_intervention\<close> are the payload taken for a state and for an intervention request.
\<close>

datatype event_kind = EkTick | EkStateChange | EkTrigger | EkIntervene | EkComplete

record watchdog_event =
  ev_watchdogId :: string
  ev_kind :: event_kind
  ev_at :: rat
  pl_value :: "json option"
  pl_predicateMet :: "json option"
  pl_pollCount :: "json option"
  pl_triggerCount :: "json option"
  pl_state :: "watchdog_status option"
  pl_intervention :: string

record watchdog_store =
  summaries :: "string \<rightharpoonup> watchdog_summary"
  ticks :: "string \<rightharpoonup> watchdog_tick list"
  triggers :: "string \<rightharpoonup> watchdog_trigger_event list"
  interventions :: "string \<rightharpoonup> intervention_record list"
  reports :: "string \<rightharpoonup> watchdog_report"
  aiSummaries :: "string \<rightharpoonup> string \<times> rat"
  summaryInFlight :: "string \<rightharpoonup> bool"
  selectedId :: "string option"
  popoverOpen :: bool
  loaded :: bool
  subscriberCount :: nat
  unlisten :: "nat option"
  listening :: nat
  live_handlers :: "nat list"
  next_handler :: nat
  refresh_requests :: "string list"
  interventions_run :: "(string \<times> string) list"
  summary_reports :: "string list"

definition watchdog_initial :: watchdog_store where
  "watchdog_initial = \<lparr>summaries = Map.empty, ticks = Map.empty, triggers = Map.empty,
     interventions = Map.empty, reports = Map.empty, aiSummaries = Map.empty,
     summaryInFlight = Map.empty, selectedId = None, popoverOpen = False, loaded = False,
     subscriberCount = 0, unlisten = None, listening = 0, live_handlers = [], next_handler = 0,
     refresh_requests = [], interventions_run = [],
     summary_reports = []\<rparr>"

definition TICK_RING_CAP :: nat where "TICK_RING_CAP = 200"

section \<open>The subscription\<close>

definition subscribe :: "watchdog_store \<Rightarrow> watchdog_store" where
  "subscribe s =
     (let nxt = subscriberCount s + 1; s1 = s\<lparr>subscriberCount := nxt\<rparr>
      in if nxt \<noteq> 1 then s1 else s1\<lparr>listening := listening s1 + 1\<rparr>)"

text \<open>A call of \<open>listen\<close> comes back: with the function that removes its handler, or failing.\<close>

definition listen_returns :: "bool \<Rightarrow> watchdog_store \<Rightarrow> watchdog_store" where
  "listen_returns ok s =
     (let s1 = s\<lparr>listening := listening s - 1\<rparr>
      in if ok then s1\<lparr>live_handlers := live_handlers s @ [next_handler s],
                       unlisten := Some (next_handler s), next_handler := next_handler s + 1\<rparr>
         else s1)"

definition unsubscribe :: "watchdog_store \<Rightarrow> watchdog_store" where
  "unsubscribe s =
     (let nxt = subscriberCount s - 1; s1 = s\<lparr>subscriberCount := nxt\<rparr>
      in if nxt \<noteq> 0 then s1
         else (case unlisten s of
                 None \<Rightarrow> s1\<lparr>unlisten := None\<rparr>
               | Some h \<Rightarrow> s1\<lparr>live_handlers := filter (\<lambda>k. k \<noteq> h) (live_handlers s), unlisten := None\<rparr>))"

definition load_returns :: "watchdog_summary list \<Rightarrow> watchdog_store \<Rightarrow> watchdog_store" where
  "load_returns xs s = s\<lparr>summaries := map_of (rev (map (\<lambda>x. (ws_id x, x)) xs)), loaded := True\<rparr>"

section \<open>Events\<close>

definition json_number :: "json option \<Rightarrow> rat option" where
  "json_number v = (case v of Some (JNum n) \<Rightarrow> Some n | _ \<Rightarrow> None)"

text \<open>Change the summary of a watchdog, or ask for its report when there is none.\<close>

definition patch_summary :: "string \<Rightarrow> (watchdog_summary \<Rightarrow> watchdog_summary) \<Rightarrow> watchdog_store \<Rightarrow> watchdog_store" where
  "patch_summary i f s =
     (case summaries s i of
        None \<Rightarrow> s\<lparr>refresh_requests := refresh_requests s @ [i]\<rparr>
      | Some x \<Rightarrow> s\<lparr>summaries := (summaries s)(i \<mapsto> f x)\<rparr>)"

definition tick_of :: "watchdog_event \<Rightarrow> watchdog_tick" where
  "tick_of ev = \<lparr>tick_at = ev_at ev, tick_value = pl_value ev,
     predicateMet = (pl_predicateMet ev = Some (JBool True))\<rparr>"

definition on_tick :: "watchdog_event \<Rightarrow> watchdog_store \<Rightarrow> watchdog_store" where
  "on_tick ev s =
     (let i = ev_watchdogId ev;
          nextTicks = nullish (ticks s i) [] @ [tick_of ev];
          kept = (if length nextTicks > TICK_RING_CAP
                  then drop (length nextTicks - TICK_RING_CAP) nextTicks else nextTicks)
      in patch_summary i
           (\<lambda>x. x\<lparr>ws_lastValue := pl_value ev,
                  ws_pollCount := nullish (json_number (pl_pollCount ev)) (ws_pollCount x)\<rparr>)
           (s\<lparr>ticks := (ticks s)(i \<mapsto> kept)\<rparr>))"

definition on_trigger :: "watchdog_event \<Rightarrow> watchdog_store \<Rightarrow> watchdog_store" where
  "on_trigger ev s =
     (let i = ev_watchdogId ev
      in patch_summary i
           (\<lambda>x. x\<lparr>ws_triggerCount :=
              nullish (json_number (pl_triggerCount ev)) (ws_triggerCount x + 1)\<rparr>)
           (s\<lparr>triggers := (triggers s)(i \<mapsto> nullish (triggers s i) []
               @ [\<lparr>trig_at = ev_at ev, valueAtTrigger = pl_value ev\<rparr>])\<rparr>))"

definition on_state_change :: "watchdog_event \<Rightarrow> watchdog_store \<Rightarrow> watchdog_store" where
  "on_state_change ev s =
     (case pl_state ev of
        None \<Rightarrow> s
      | Some nextState \<Rightarrow> patch_summary (ev_watchdogId ev) (\<lambda>x. x\<lparr>ws_state := nextState\<rparr>) s)"

definition RUNNING_TEXT :: string where
  "RUNNING_TEXT = ''Running intervention'' @ [CHR 0xE2, CHR 0x80, CHR 0xA6]"

definition on_intervene :: "watchdog_event \<Rightarrow> watchdog_store \<Rightarrow> watchdog_store" where
  "on_intervene ev s =
     (let i = ev_watchdogId ev;
          entry = \<lparr>interventionId = pl_intervention ev, iv_at = ev_at ev, iv_ok = False,
                   iv_summary = RUNNING_TEXT, iv_toolCalls = [], completionReason = None,
                   iv_error = None, iv_inFlight = True\<rparr>
      in s\<lparr>interventions := (interventions s)(i \<mapsto> nullish (interventions s i) [] @ [entry]),
           interventions_run := interventions_run s
             @ [(i, nullish (map_option ws_name (summaries s i)) ''(unnamed)'')]\<rparr>)"

definition applyEvent :: "watchdog_event \<Rightarrow> watchdog_store \<Rightarrow> watchdog_store" where
  "applyEvent ev s =
     (case ev_kind ev of
        EkTick \<Rightarrow> on_tick ev s
      | EkTrigger \<Rightarrow> on_trigger ev s
      | EkStateChange \<Rightarrow> on_state_change ev s
      | EkComplete \<Rightarrow> on_state_change ev s
      | EkIntervene \<Rightarrow> on_intervene ev s)"

text \<open>An event of the backend reaches every registered handler, each of which applies it.\<close>

definition deliver :: "watchdog_event \<Rightarrow> watchdog_store \<Rightarrow> watchdog_store" where
  "deliver ev s = fold (\<lambda>h. applyEvent ev) (live_handlers s) s"

section \<open>Reports, selection and dismissal\<close>

definition settled :: "intervention_record list \<Rightarrow> intervention_record list" where
  "settled rs = map (\<lambda>r. r\<lparr>iv_inFlight := False\<rparr>) rs"

definition getReport :: "string \<Rightarrow> watchdog_report option \<Rightarrow> watchdog_store \<Rightarrow> watchdog_store" where
  "getReport i report s = (case report of None \<Rightarrow> s | Some r \<Rightarrow> s\<lparr>reports := (reports s)(i \<mapsto> r)\<rparr>)"

definition refreshInterventions :: "string \<Rightarrow> watchdog_report option \<Rightarrow> watchdog_store \<Rightarrow> watchdog_store" where
  "refreshInterventions i report s =
     (let s1 = getReport i report s
      in case report of
           None \<Rightarrow> s1
         | Some r \<Rightarrow> s1\<lparr>interventions := (interventions s1)(i \<mapsto> settled (rp_interventions r))\<rparr>)"

definition refreshWatchdog :: "string \<Rightarrow> watchdog_report option \<Rightarrow> watchdog_store \<Rightarrow> watchdog_store" where
  "refreshWatchdog i report s =
     (let s1 = getReport i report s
      in case report of
           None \<Rightarrow> s1
         | Some r \<Rightarrow>
             s1\<lparr>reports := (reports s1)(i \<mapsto> r),
                summaries := (summaries s1)(i \<mapsto>
                  \<lparr>ws_id = rp_id r, ws_name = rp_name r, ws_state = rp_state r,
                   ws_createdAt = rp_createdAt r, ws_pollMs = wc_pollMs (rp_config r),
                   ws_triggerCount = of_nat (length (rp_triggers r)),
                   ws_pollCount = max (nullish (map_option ws_pollCount (summaries s1 i)) 0) (rp_pollCount r),
                   ws_lastValue = (if rp_ticks r = [] then Some JNull
                     else Some (nullish (tick_value (last (rp_ticks r))) JNull))\<rparr>),
                ticks := (ticks s1)(i \<mapsto> rp_ticks r),
                triggers := (triggers s1)(i \<mapsto> rp_triggers r),
                interventions := (interventions s1)(i \<mapsto> settled (rp_interventions r))\<rparr>)"

definition setSelected :: "string option \<Rightarrow> watchdog_store \<Rightarrow> watchdog_store" where
  "setSelected i s = s\<lparr>selectedId := i\<rparr>"

definition setPopoverOpen :: "bool \<Rightarrow> watchdog_store \<Rightarrow> watchdog_store" where
  "setPopoverOpen b s = s\<lparr>popoverOpen := b\<rparr>"

definition togglePopover :: "watchdog_store \<Rightarrow> watchdog_store" where
  "togglePopover s = s\<lparr>popoverOpen := \<not> popoverOpen s\<rparr>"

definition dismiss :: "string \<Rightarrow> watchdog_store \<Rightarrow> watchdog_store" where
  "dismiss i s =
     (if \<not> (case summaries s i of None \<Rightarrow> False | Some x \<Rightarrow> isTerminalState (ws_state x)) then s
      else s\<lparr>summaries := (summaries s)(i := None), ticks := (ticks s)(i := None),
             triggers := (triggers s)(i := None), interventions := (interventions s)(i := None),
             aiSummaries := (aiSummaries s)(i := None), reports := (reports s)(i := None),
             selectedId := (if selectedId s = Some i then None else selectedId s)\<rparr>)"

text \<open>
  The three parts of \<open>generateSummary\<close>: up to the request of the report, what the report does,
  and what the answer of the model does (the text, or the text of the failure).
\<close>

definition generateSummary_begin :: "string \<Rightarrow> watchdog_store \<Rightarrow> watchdog_store" where
  "generateSummary_begin i s =
     (if summaryInFlight s i = Some True then s
      else s\<lparr>summary_reports := summary_reports s @ [i]\<rparr>)"

definition generateSummary_report :: "string \<Rightarrow> watchdog_report option \<Rightarrow> watchdog_store \<Rightarrow> watchdog_store" where
  "generateSummary_report i report s =
     (let s1 = getReport i report (s\<lparr>summary_reports := remove1 i (summary_reports s)\<rparr>)
      in case report of None \<Rightarrow> s1 | Some r \<Rightarrow> s1\<lparr>summaryInFlight := (summaryInFlight s1)(i \<mapsto> True)\<rparr>)"

definition generateSummary_end :: "string \<Rightarrow> string + string option \<Rightarrow> rat \<Rightarrow> watchdog_store \<Rightarrow> watchdog_store" where
  "generateSummary_end i answer now s =
     (let t = (case answer of Inl text \<Rightarrow> text
               | Inr (Some message) \<Rightarrow> ''Summary failed: '' @ message
               | Inr None \<Rightarrow> ''Summary failed.'')
      in s\<lparr>aiSummaries := (aiSummaries s)(i \<mapsto> (t, now)),
           summaryInFlight := (summaryInFlight s)(i := None)\<rparr>)"

section \<open>The machine\<close>

datatype watchdog_action_event =
    WSubscribe | WUnsubscribe | WListenReturns bool | WLoadReturns "watchdog_summary list"
  | WDeliver watchdog_event | WRefresh string "watchdog_report option"
  | WRefreshInterventions string "watchdog_report option" | WDismiss string | WSelect "string option"
  | WTogglePopover | WSetPopover bool
  | WSummaryBegin string | WSummaryReport string "watchdog_report option"
  | WSummaryEnd string "string + string option" rat

fun watchdog_step :: "watchdog_action_event \<Rightarrow> watchdog_store \<Rightarrow> watchdog_store" where
  "watchdog_step WSubscribe s = subscribe s"
| "watchdog_step WUnsubscribe s = unsubscribe s"
| "watchdog_step (WListenReturns ok) s = listen_returns ok s"
| "watchdog_step (WLoadReturns xs) s = load_returns xs s"
| "watchdog_step (WDeliver ev) s = deliver ev s"
| "watchdog_step (WRefresh i r) s = refreshWatchdog i r s"
| "watchdog_step (WRefreshInterventions i r) s = refreshInterventions i r s"
| "watchdog_step (WDismiss i) s = dismiss i s"
| "watchdog_step (WSelect i) s = setSelected i s"
| "watchdog_step WTogglePopover s = togglePopover s"
| "watchdog_step (WSetPopover b) s = setPopoverOpen b s"
| "watchdog_step (WSummaryBegin i) s = generateSummary_begin i s"
| "watchdog_step (WSummaryReport i r) s = generateSummary_report i r s"
| "watchdog_step (WSummaryEnd i a t) s = generateSummary_end i a t s"

text \<open>
  What the world does: \<open>listen\<close> comes back once per call, the backend's reports hold at most
  the ring's ticks; and, for the runs considered well timed, the last subscriber leaves only
  after \<open>listen\<close> came back.
\<close>

fun well_timed :: "watchdog_action_event \<Rightarrow> watchdog_store \<Rightarrow> bool" where
  "well_timed (WListenReturns ok) s = (listening s > 0)"
| "well_timed WUnsubscribe s = (subscriberCount s > 0 \<and> (subscriberCount s = 1 \<longrightarrow> listening s = 0))"
| "well_timed (WRefresh i (Some r)) s = (length (rp_ticks r) \<le> TICK_RING_CAP)"
| "well_timed e s = True"

definition watchdog_inv :: "watchdog_store \<Rightarrow> bool" where
  "watchdog_inv s =
     (live_handlers s = (case unlisten s of None \<Rightarrow> [] | Some h \<Rightarrow> [h])
      \<and> listening s \<le> 1 \<and> (listening s = 1 \<longrightarrow> unlisten s = None)
      \<and> (subscriberCount s = 0 \<longrightarrow> listening s = 0 \<and> unlisten s = None)
      \<and> (\<forall>i ts. ticks s i = Some ts \<longrightarrow> length ts \<le> TICK_RING_CAP))"

lemma patch_summary_simps [simp]:
  "ticks (patch_summary i f s) = ticks s" "live_handlers (patch_summary i f s) = live_handlers s"
  "unlisten (patch_summary i f s) = unlisten s" "listening (patch_summary i f s) = listening s"
  "subscriberCount (patch_summary i f s) = subscriberCount s"
  by (simp_all add: patch_summary_def split: option.splits)

lemmas event_defs = applyEvent_def on_trigger_def on_state_change_def on_intervene_def Let_def

lemma on_tick_ticks:
  "ticks (on_tick ev s) = (ticks s)(ev_watchdogId ev \<mapsto> take_last TICK_RING_CAP
     (nullish (ticks s (ev_watchdogId ev)) [] @ [tick_of ev]))"
  by (auto simp: on_tick_def take_last_def Let_def)

lemma applyEvent_simps [simp]:
  "live_handlers (applyEvent ev s) = live_handlers s" "unlisten (applyEvent ev s) = unlisten s"
  "listening (applyEvent ev s) = listening s" "subscriberCount (applyEvent ev s) = subscriberCount s"
  by (auto simp: event_defs on_tick_def split: event_kind.splits option.splits)

lemma applyEvent_ticks: "ev_kind ev \<noteq> EkTick \<Longrightarrow> ticks (applyEvent ev s) = ticks s"
  by (auto simp: event_defs split: event_kind.splits option.splits)

lemma applyEvent_tick: "ev_kind ev = EkTick \<Longrightarrow> applyEvent ev s = on_tick ev s"
  by (simp add: applyEvent_def)

lemma applyEvent_ring:
  assumes "\<forall>i ts. ticks s i = Some ts \<longrightarrow> length ts \<le> TICK_RING_CAP"
  shows "\<forall>i ts. ticks (applyEvent ev s) i = Some ts \<longrightarrow> length ts \<le> TICK_RING_CAP"
proof (cases "ev_kind ev = EkTick")
  case True
  then show ?thesis using assms
    by (auto simp: applyEvent_tick on_tick_ticks length_take_last)
next
  case False
  then show ?thesis using assms by (simp add: applyEvent_ticks)
qed

lemma applyEvent_inv [inv_intros]: "watchdog_inv s \<Longrightarrow> watchdog_inv (applyEvent ev s)"
  using applyEvent_ring [of s ev] by (simp add: watchdog_inv_def)

lemma deliver_inv [inv_intros]: "watchdog_inv s \<Longrightarrow> watchdog_inv (deliver ev s)"
proof -
  have "watchdog_inv t \<Longrightarrow> watchdog_inv (fold (\<lambda>h. applyEvent ev) hs t)" for hs and t
    by (induction hs arbitrary: t) (auto intro: inv_intros)
  then show "watchdog_inv s \<Longrightarrow> watchdog_inv (deliver ev s)" by (simp add: deliver_def)
qed

lemma subscribe_inv [inv_intros]: "watchdog_inv s \<Longrightarrow> watchdog_inv (subscribe s)"
  by (auto simp: watchdog_inv_def subscribe_def Let_def)

lemma listen_returns_inv [inv_intros]:
  "watchdog_inv s \<Longrightarrow> listening s > 0 \<Longrightarrow> watchdog_inv (listen_returns ok s)"
  by (auto simp: watchdog_inv_def listen_returns_def Let_def)

lemma unsubscribe_inv [inv_intros]:
  "watchdog_inv s \<Longrightarrow> subscriberCount s > 0 \<Longrightarrow> (subscriberCount s = 1 \<longrightarrow> listening s = 0)
    \<Longrightarrow> watchdog_inv (unsubscribe s)"
  by (auto simp: watchdog_inv_def unsubscribe_def Let_def split: option.splits)

lemma refreshWatchdog_inv [inv_intros]:
  "watchdog_inv s \<Longrightarrow> (\<And>x. r = Some x \<Longrightarrow> length (rp_ticks x) \<le> TICK_RING_CAP)
    \<Longrightarrow> watchdog_inv (refreshWatchdog i r s)"
  by (auto simp: watchdog_inv_def refreshWatchdog_def getReport_def Let_def split: option.splits)

lemma other_inv [inv_intros]:
  "watchdog_inv s \<Longrightarrow> watchdog_inv (load_returns xs s)"
  "watchdog_inv s \<Longrightarrow> watchdog_inv (refreshInterventions i r s)"
  "watchdog_inv s \<Longrightarrow> watchdog_inv (dismiss i s)"
  "watchdog_inv s \<Longrightarrow> watchdog_inv (setSelected j s)"
  "watchdog_inv s \<Longrightarrow> watchdog_inv (togglePopover s)"
  "watchdog_inv s \<Longrightarrow> watchdog_inv (setPopoverOpen b s)"
  "watchdog_inv s \<Longrightarrow> watchdog_inv (generateSummary_begin i s)"
  "watchdog_inv s \<Longrightarrow> watchdog_inv (generateSummary_report i r s)"
  "watchdog_inv s \<Longrightarrow> watchdog_inv (generateSummary_end i a t s)"
  by (auto simp: watchdog_inv_def load_returns_def refreshInterventions_def getReport_def dismiss_def
      setSelected_def togglePopover_def setPopoverOpen_def generateSummary_begin_def
      generateSummary_report_def generateSummary_end_def Let_def
      split: option.splits)

lemma watchdog_step_inv: "watchdog_inv s \<Longrightarrow> well_timed e s \<Longrightarrow> watchdog_inv (watchdog_step e s)"
  by (cases "(e, s)" rule: well_timed.cases) (auto intro: inv_intros)

interpretation watchdog: machine watchdog_step watchdog_inv well_timed
  by unfold_locales (rule watchdog_step_inv)

lemma watchdog_initial_inv: "watchdog_inv watchdog_initial"
  by (simp add: watchdog_inv_def watchdog_initial_def)

lemma deliver_tick:
  assumes "live_handlers s = [h]" and "ev_kind ev = EkTick"
  shows "ticks (deliver ev s) = (ticks s)(ev_watchdogId ev \<mapsto>
    take_last TICK_RING_CAP (nullish (ticks s (ev_watchdogId ev)) [] @ [tick_of ev]))"
  using assms by (simp add: deliver_def applyEvent_tick on_tick_ticks)

section \<open>Properties\<close>


definition sample_tick :: "rat \<Rightarrow> watchdog_event" where
  "sample_tick t = \<lparr>ev_watchdogId = ''w1'', ev_kind = EkTick, ev_at = t, pl_value = Some (JNum 42),
     pl_predicateMet = Some (JBool True), pl_pollCount = None, pl_triggerCount = None,
     pl_state = None, pl_intervention = []\<rparr>"


text \<open>A view that unmounts before \<open>listen\<close> came back leaves a handler behind for good:
  nobody is subscribed, yet events are still applied; and once a view subscribes again, two
  handlers are registered and every tick is recorded twice, also after that view is gone again.\<close>

theorem late_listener_records_twice:
  "let s = fold watchdog_step [WSubscribe, WUnsubscribe, WListenReturns True] watchdog_initial;
       s2 = fold watchdog_step [WSubscribe, WListenReturns True] s
   in subscriberCount s = 0 \<and> live_handlers s = [0]
      \<and> live_handlers s2 = [0, 1]
      \<and> ticks (deliver (sample_tick t) s2) ''w1'' = Some [tick_of (sample_tick t), tick_of (sample_tick t)]
      \<and> live_handlers (watchdog_step WUnsubscribe s2) = [0]"
  by (simp add: watchdog_initial_def subscribe_def unsubscribe_def listen_returns_def deliver_def
      applyEvent_tick on_tick_def patch_summary_def TICK_RING_CAP_def sample_tick_def Let_def)

end
