(* ===== verification/Ipv4.thy ===== *)
theory Ipv4
  imports Js_Prelude "HOL-Library.Word"
begin

unbundle bit_operations_syntax

text \<open>
  IPv4 arithmetic: the Subnet Calculator
  (\<open>src/src/modules/dashboard/widgets/builtin/subnet-calculator/subnetMath.ts\<close>) and the CIDR part
  of IPAM (\<open>src/src/modules/itops/ipamModel.ts\<close>).  An address is a \<open>32 word\<close>; the shifts, masks
  and complements of the code, each followed by \<open>>>> 0\<close>, are the operations of words.
  \<open>parseIpv4\<close> of IPAM computes with doubles instead, so its value is a natural number.
\<close>

type_synonym address = "32 word"

section \<open>Dotted quads\<close>

text \<open>\<open>/^\d{1,m}$/.test(s)\<close>.\<close>

definition short_number :: "nat \<Rightarrow> string \<Rightarrow> bool" where
  "short_number m s = (1 \<le> length s \<and> length s \<le> m \<and> list_all is_digit s)"

fun parse_octets :: "string list \<Rightarrow> address \<Rightarrow> address option" where
  "parse_octets [] acc = Some acc"
| "parse_octets (part # parts) acc =
     (if \<not> short_number 3 part then None
      else let octet = digits_value part
           in if octet > 255 then None
              else parse_octets parts (push_bit 8 acc OR word_of_nat octet))"

definition parseIPv4 :: "string \<Rightarrow> address option" where
  "parseIPv4 text =
     (let parts = split_on CHR ''.'' (trim text)
      in if length parts \<noteq> 4 then None else parse_octets parts 0)"

definition formatIPv4 :: "address \<Rightarrow> string" where
  "formatIPv4 acc =
     join_with ''.'' (map (\<lambda>w. nat_string (unat (w AND 0xff)))
       [drop_bit 24 acc, drop_bit 16 acc, drop_bit 8 acc, acc])"

text \<open>The two functions of IPAM.\<close>

fun parse_octets_num :: "string list \<Rightarrow> nat \<Rightarrow> nat option" where
  "parse_octets_num [] acc = Some acc"
| "parse_octets_num (part # parts) acc =
     (if \<not> short_number 3 part then None
      else let octet = digits_value part
           in if octet > 255 then None else parse_octets_num parts (acc * 256 + octet))"

definition parseIpv4 :: "string \<Rightarrow> nat option" where
  "parseIpv4 text =
     (let parts = split_on CHR ''.'' (trim text)
      in if length parts \<noteq> 4 then None else parse_octets_num parts 0)"

definition formatIpv4 :: "address \<Rightarrow> string" where
  "formatIpv4 acc =
     join_with ''.'' (map (\<lambda>shift. nat_string (unat (drop_bit shift acc AND 0xff))) [24, 16, 8, 0])"

section \<open>The Subnet Calculator\<close>

definition maskForPrefix :: "nat \<Rightarrow> address" where
  "maskForPrefix plen = (if plen = 0 then 0 else push_bit (32 - plen) 0xffffffff)"

definition prefixFromMask :: "address \<Rightarrow> nat option" where
  "prefixFromMask m = find (\<lambda>plen. maskForPrefix plen = m) [0..<33]"

datatype subnet_kind = CidrKind | RangeKind

record subnet_info =
  si_kind :: subnet_kind
  si_prefix :: nat
  si_network :: string
  si_broadcast :: string
  si_firstHost :: string
  si_lastHost :: string
  si_netmask :: string
  si_wildcard :: string
  usableHosts :: nat
  networkU32 :: address

definition buildInfo :: "subnet_kind \<Rightarrow> address \<Rightarrow> nat \<Rightarrow> subnet_info" where
  "buildInfo kind ip plen =
     (let m = maskForPrefix plen; network = ip AND m; broadcast = network OR NOT m;
          (firstHost, lastHost, usable) =
            (if plen \<ge> 32 then (network, broadcast, 1)
             else if plen = 31 then (network, broadcast, 2)
             else (network + 1, broadcast - 1, 2 ^ (32 - plen) - 2))
      in \<lparr>si_kind = kind, si_prefix = plen, si_network = formatIPv4 network,
          si_broadcast = formatIPv4 broadcast, si_firstHost = formatIPv4 firstHost,
          si_lastHost = formatIPv4 lastHost, si_netmask = formatIPv4 m,
          si_wildcard = formatIPv4 (NOT m), usableHosts = usable, networkU32 = network\<rparr>)"

fun covering_prefix :: "address \<Rightarrow> address \<Rightarrow> nat \<Rightarrow> nat" where
  "covering_prefix low high 0 = 0"
| "covering_prefix low high (Suc plen) =
     (let m = maskForPrefix (Suc plen)
      in if low AND m = high AND m then Suc plen else covering_prefix low high plen)"

definition smallestCoveringCidr :: "address \<Rightarrow> address \<Rightarrow> address \<times> nat" where
  "smallestCoveringCidr a b =
     (let low = min a b; high = max a b in (low, covering_prefix low high 32))"

text \<open>\<open>text.split(/\s+/)\<close>.\<close>

function split_spaces :: "string \<Rightarrow> string list" where
  "split_spaces s =
     (case dropWhile (\<lambda>c. \<not> is_space c) s of
        [] \<Rightarrow> [s]
      | rest \<Rightarrow> takeWhile (\<lambda>c. \<not> is_space c) s # split_spaces (dropWhile is_space rest))"
  by auto
termination
proof (relation "measure length", goal_cases)
  case 1
  then show ?case by simp
next
  case (2 s c cs)
  then have "is_space c" by (metis hd_dropWhile list.sel(1) list.distinct(1))
  then have "length (dropWhile is_space (c # cs)) \<le> length cs"
    by (simp add: length_dropWhile_le)
  moreover have "length (c # cs) \<le> length s" using 2 by (metis length_dropWhile_le)
  ultimately show ?case by simp
qed

declare split_spaces.simps [simp del]

definition parseSubnetQuery :: "string \<Rightarrow> subnet_info option" where
  "parseSubnetQuery input =
     (let text = trim input
      in if text = [] then None
         else if CHR ''-'' \<in> set text then
           (case map trim (take 2 (split_on CHR ''-'' text)) of
              [left, right] \<Rightarrow>
                (case (if left = [] then None else parseIPv4 left,
                       if right = [] then None else parseIPv4 right) of
                   (Some a, Some b) \<Rightarrow>
                     (case smallestCoveringCidr a b of (ip, plen) \<Rightarrow> Some (buildInfo RangeKind ip plen))
                 | _ \<Rightarrow> None)
            | _ \<Rightarrow> None)
         else
           (case (if CHR ''/'' \<in> set text then map trim (take 2 (split_on CHR ''/'' text))
                  else split_spaces text) of
              [ipText, suff] \<Rightarrow>
                (case parseIPv4 ipText of
                   None \<Rightarrow> None
                 | Some ip \<Rightarrow>
                     if suff = [] then None
                     else if short_number 2 suff then
                       (let plen = digits_value suff
                        in if plen > 32 then None else Some (buildInfo CidrKind ip plen))
                     else (case parseIPv4 suff of
                             None \<Rightarrow> None
                           | Some m \<Rightarrow> (case prefixFromMask m of
                                 None \<Rightarrow> None
                               | Some plen \<Rightarrow> Some (buildInfo CidrKind ip plen))))
            | _ \<Rightarrow> None))"

section \<open>CIDR blocks of IPAM\<close>

record cidr_preview =
  cp_cidr :: string
  cp_network :: string
  cp_broadcast :: string
  firstUsable :: string
  lastUsable :: string
  usable :: nat

definition previewCidr :: "string \<Rightarrow> cidr_preview option" where
  "previewCidr text =
     (case split_on CHR ''/'' (trim text) of
        [addressText, lengthText] \<Rightarrow>
          if lengthText = [] \<or> \<not> short_number 2 lengthText then None
          else let len = digits_value lengthText
               in if len > 32 then None
                  else (case parseIpv4 addressText of
                          None \<Rightarrow> None
                        | Some a \<Rightarrow>
                            let m = (if len = 0 then 0 else push_bit (32 - len) 0xffffffff);
                                network = word_of_nat a AND m;
                                broadcast = network OR NOT m;
                                size = 2 ^ (32 - len)
                            in Some \<lparr>cp_cidr = formatIpv4 network @ ''/'' @ nat_string len,
                                     cp_network = formatIpv4 network,
                                     cp_broadcast = formatIpv4 broadcast,
                                     firstUsable = formatIpv4 (if len \<ge> 31 then network else network + 1),
                                     lastUsable = formatIpv4 (if len \<ge> 31 then broadcast else broadcast - 1),
                                     usable = (if len \<ge> 31 then size else size - 2)\<rparr>)
      | _ \<Rightarrow> None)"

definition addressInCidr :: "string \<Rightarrow> string \<Rightarrow> bool" where
  "addressInCidr address cidr =
     (case (parseIpv4 address, previewCidr cidr) of
        (Some acc, Some bounds) \<Rightarrow>
          (let low = nullish (parseIpv4 (cp_network bounds)) 0;
               high = nullish (parseIpv4 (cp_broadcast bounds)) 0
           in acc \<ge> low \<and> acc \<le> high)
      | _ \<Rightarrow> False)"

section \<open>Text and numbers\<close>

lemma is_digit_not_sep [simp]:
  "is_digit c \<Longrightarrow> c \<noteq> CHR ''.''" "is_digit c \<Longrightarrow> c \<noteq> CHR ''/''" "is_digit c \<Longrightarrow> c \<noteq> CHR ''-''"
  by (auto simp: is_digit_def)

lemma is_digit_not_space: "is_digit c \<Longrightarrow> \<not> is_space c"
  by (auto simp: is_digit_def is_space_def)

lemma dropWhile_none: "(\<And>c. c \<in> set s \<Longrightarrow> \<not> p c) \<Longrightarrow> dropWhile p s = s"
  by (cases s) auto

lemma trim_none:
  assumes "\<And>c. c \<in> set s \<Longrightarrow> \<not> is_space c"
  shows "trim s = s"
proof -
  have "dropWhile is_space s = s" "dropWhile is_space (rev s) = rev s"
    using assms by (auto intro!: dropWhile_none)
  then show ?thesis by (simp add: trim_def)
qed

lemma set_join_with: "set (join_with sep xs) \<subseteq> set sep \<union> (\<Union>x \<in> set xs. set x)"
  by (induction sep xs rule: join_with.induct) auto

lemma length_nat_string_le: "n < 10 ^ Suc k \<Longrightarrow> length (nat_string n) \<le> Suc k"
proof (induction k arbitrary: n)
  case 0
  then show ?case by (subst nat_string.simps) simp
next
  case (Suc k)
  then have "n div 10 < 10 ^ Suc k" by (simp add: less_mult_imp_div_less)
  with Suc.IH [of "n div 10"] show ?case by (subst nat_string.simps) simp
qed

lemma short_number_nat_string: "n < 10 ^ m \<Longrightarrow> 0 < m \<Longrightarrow> short_number m (nat_string n)"
proof -
  assume "n < 10 ^ m" and "0 < m"
  then have "length (nat_string n) \<le> m" using length_nat_string_le [of n "m - 1"] by simp
  moreover have "1 \<le> length (nat_string n)" by (simp add: Suc_le_eq)
  ultimately show ?thesis by (auto simp: short_number_def list_all_iff dest: nat_string_digits)
qed

lemma sep_not_in_nat_string [simp]:
  "CHR ''.'' \<notin> set (nat_string n)" "CHR ''/'' \<notin> set (nat_string n)" "CHR ''-'' \<notin> set (nat_string n)"
  using nat_string_digits [of _ n] is_digit_not_sep by blast+

section \<open>Octets\<close>

lemma and_byte: "w AND 0xff = take_bit 8 (w :: address)"
  by (simp add: take_bit_eq_mask mask_eq_exp_minus_1)

lemma byte_less: "unat (w AND 0xff :: address) < 256"
proof -
  have "unat (w AND 0xff) = take_bit 8 (unat w)" by (simp only: and_byte unsigned_take_bit_eq)
  also have "\<dots> < 2 ^ 8" by (rule take_bit_nat_less_exp)
  finally show ?thesis by simp
qed

lemma bytes_compose:
  "push_bit 8 (push_bit 8 (push_bit 8 (push_bit 8 0 OR take_bit 8 (drop_bit 24 v))
     OR take_bit 8 (drop_bit 16 v)) OR take_bit 8 (drop_bit 8 v)) OR take_bit 8 v = (v :: address)"
proof (rule bit_eqI)
  fix n
  assume "possible_bit TYPE(address) n"
  then have "n < 32" by simp
  then consider "n < 8" | "8 \<le> n" "n < 16" | "16 \<le> n" "n < 24" | "24 \<le> n" "n < 32" by linarith
  then show "bit (push_bit 8 (push_bit 8 (push_bit 8 (push_bit 8 0 OR take_bit 8 (drop_bit 24 v))
     OR take_bit 8 (drop_bit 16 v)) OR take_bit 8 (drop_bit 8 v)) OR take_bit 8 v) n = bit v n"
    by cases (auto simp: bit_simps)
qed

lemma format_alt: "formatIpv4 v = formatIPv4 v"
  by (simp add: formatIpv4_def formatIPv4_def)

lemma split_format:
  "split_on CHR ''.'' (trim (formatIPv4 v)) = map (\<lambda>w. nat_string (unat (w AND 0xff)))
     [drop_bit 24 v, drop_bit 16 v, drop_bit 8 v, v]"
proof -
  have "\<not> is_space c" if "c \<in> set (formatIPv4 v)" for c
    using that set_join_with [of "''.''" "map (\<lambda>w. nat_string (unat (w AND 0xff)))
       [drop_bit 24 v, drop_bit 16 v, drop_bit 8 v, v]"] nat_string_digits [of c] is_digit_not_space
    unfolding formatIPv4_def by (auto simp: is_space_def dest: nat_string_digits is_digit_not_space)
  then have "trim (formatIPv4 v) = formatIPv4 v" by (rule trim_none)
  then show ?thesis unfolding formatIPv4_def
    by (simp only:) (rule split_on_join, auto)
qed

lemma parse_octets_step:
  "parse_octets (nat_string (unat (w AND 0xff)) # parts) acc
     = parse_octets parts (push_bit 8 acc OR take_bit 8 w)"
proof -
  have "short_number 3 (nat_string (unat (w AND 0xff)))"
    using byte_less [of w] by (intro short_number_nat_string) auto
  then show ?thesis using byte_less [of w] by (simp add: and_byte)
qed

lemma parse_format: "parseIPv4 (formatIPv4 v) = Some v"
  unfolding parseIPv4_def split_format Let_def list.map
  by (simp only: parse_octets_step parse_octets.simps(1) bytes_compose) simp

lemma octet_shift:
  fixes acc :: address
  assumes "unat acc < 2 ^ 24" and "n < 256"
  shows "unat (push_bit 8 acc OR word_of_nat n) = unat acc * 256 + n"
proof -
  have "push_bit 8 acc OR word_of_nat n = push_bit 8 acc + (word_of_nat n :: address)"
  proof (rule disjunctive_add [symmetric])
    have "\<not> bit (word_of_nat n :: address) k" if "8 \<le> k" for k
    proof -
      have "take_bit 8 (word_of_nat n :: address) = word_of_nat n"
        using assms(2) by (simp add: take_bit_eq_mod unat_of_nat word_arith_nat_mod)
      then show ?thesis using that by (metis bit_take_bit_iff leD)
    qed
    then show "\<not> bit (push_bit 8 acc) k \<or> \<not> bit (word_of_nat n :: address) k" for k
      by (auto simp: bit_simps not_le)
  qed
  also have "unat \<dots> = unat acc * 256 + n"
    using assms by (simp add: unat_word_ariths push_bit_eq_mult unat_of_nat)
  finally show ?thesis .
qed

lemma parse_octets_num:
  "unat acc < 256 ^ (4 - length parts) \<Longrightarrow> length parts \<le> 4
    \<Longrightarrow> parse_octets_num parts (unat acc) = map_option unat (parse_octets parts acc)"
proof (induction parts acc rule: parse_octets.induct)
  case (1 acc)
  then show ?case by simp
next
  case (2 part parts acc)
  show ?case
  proof (cases "short_number 3 part \<and> digits_value part \<le> 255")
    case True
    let ?v = "push_bit 8 acc OR word_of_nat (digits_value part)"
    have small: "unat acc < 256 ^ (3 - length parts)" and len: "length parts \<le> 3" using 2 by auto
    have "(256 :: nat) ^ (3 - length parts) \<le> 256 ^ 3" by (intro power_increasing) auto
    with small have "unat acc < 2 ^ 24" by simp
    then have v: "unat ?v = unat acc * 256 + digits_value part"
      using True by (intro octet_shift) auto
    have "unat acc * 256 + digits_value part < (unat acc + 1) * 256" using True by simp
    also have "\<dots> \<le> 256 ^ (3 - length parts) * 256" using small by (intro mult_right_mono) auto
    also have "\<dots> = 256 ^ Suc (3 - length parts)" by simp
    also have "Suc (3 - length parts) = 4 - length parts" using len by simp
    finally have "unat ?v < 256 ^ (4 - length parts)" by (simp add: v)
    then show ?thesis using 2 True len by (simp add: Let_def flip: v)
  next
    case False
    then show ?thesis by (auto simp: Let_def)
  qed
qed

lemma parseIpv4_unat: "parseIpv4 t = map_option unat (parseIPv4 t)"
  using parse_octets_num [of 0 "split_on CHR ''.'' (trim t)"]
  by (auto simp: parseIpv4_def parseIPv4_def Let_def)

section \<open>Blocks\<close>

text \<open>The block of \<open>a\<close> with \<open>h\<close> host bits: its first address and its last one.\<close>

definition block_first :: "address \<Rightarrow> nat \<Rightarrow> address" where
  "block_first a h = push_bit h (drop_bit h a)"

definition block_last :: "address \<Rightarrow> nat \<Rightarrow> address" where
  "block_last a h = block_first a h OR mask h"

lemma maskForPrefix_alt: "n \<le> 32 \<Longrightarrow> maskForPrefix n = NOT (mask (32 - n))"
proof -
  assume n: "n \<le> 32"
  have ones: "(0xffffffff :: address) = - 1" by simp
  show ?thesis
    by (rule bit_eqI) (use n in \<open>auto simp: maskForPrefix_def ones bit_simps\<close>)
qed

lemma network_block: "n \<le> 32 \<Longrightarrow> a AND maskForPrefix n = block_first a (32 - n)"
  by (simp add: maskForPrefix_alt block_first_def)
    (rule bit_eqI, auto simp: bit_simps)

lemma broadcast_block: "n \<le> 32 \<Longrightarrow> block_first a (32 - n) OR NOT (maskForPrefix n) = block_last a (32 - n)"
  by (simp add: maskForPrefix_alt block_last_def)

lemma unat_address_less: "unat (a :: address) < 2 ^ 32"
  using unsigned_less [of a, where 'a = nat] by simp

lemma unat_block_first: "unat (block_first a h) = unat a div 2 ^ h * 2 ^ h"
proof -
  have "unat a div 2 ^ h * 2 ^ h < 2 ^ 32"
    using unat_address_less [of a] div_times_less_eq_dividend [of "unat a" "2 ^ h"] by linarith
  then have fit: "take_bit 32 (push_bit h (drop_bit h (unat a))) = unat a div 2 ^ h * 2 ^ h"
    by (simp add: push_bit_eq_mult drop_bit_eq_div take_bit_nat_eq_self_iff)
  have "take_bit 32 (unat a) = unat a"
    using unat_address_less [of a] by (simp add: take_bit_nat_eq_self_iff)
  then have "unat (block_first a h) = take_bit 32 (push_bit h (drop_bit h (unat a)))"
    unfolding block_first_def by (simp only: unsigned_push_bit_eq unsigned_drop_bit_eq) simp
  with fit show ?thesis by simp
qed

lemma unat_block_last:
  assumes "h \<le> 32"
  shows "unat (block_last a h) = unat (block_first a h) + (2 ^ h - 1)"
proof -
  let ?q = "unat a div 2 ^ h"
  have "(2 :: nat) ^ 32 = 2 ^ (32 - h) * 2 ^ h" using assms by (simp flip: power_add)
  then have "?q < 2 ^ (32 - h)"
    using unat_address_less [of a] by (simp add: less_mult_imp_div_less)
  then have "?q * 2 ^ h + 2 ^ h \<le> 2 ^ (32 - h) * 2 ^ h"
    by (metis Suc_leI mult_Suc mult_le_mono1 add.commute)
  also have "\<dots> = 2 ^ 32" using assms by (simp flip: power_add)
  finally have fit: "?q * 2 ^ h + (2 ^ h - 1) < 2 ^ 32"
    by (metis One_nat_def Suc_diff_1 Suc_le_eq add_Suc_right pos2 zero_less_power)
  have "block_last a h = block_first a h + mask h"
    unfolding block_last_def by (rule disjunctive_add [symmetric]) (auto simp: block_first_def bit_simps)
  moreover have "unat (mask h :: address) = 2 ^ h - 1"
  proof -
    have "unat (mask h :: address) = mask h"
      by (rule bit_eqI) (use assms in \<open>auto simp: bit_simps bit_unsigned_iff\<close>)
    then show ?thesis by (simp add: mask_eq_exp_minus_1)
  qed
  ultimately show ?thesis using fit
    by (simp add: unat_word_ariths unat_block_first)
qed

lemma in_block_iff:
  assumes "h \<le> 32"
  shows "block_first a h \<le> x \<and> x \<le> block_last a h \<longleftrightarrow> unat x div 2 ^ h = unat a div 2 ^ h"
proof -
  have "q * k \<le> y \<and> y \<le> q * k + (k - 1) \<longleftrightarrow> y div k = q" if "0 < k" for y q k :: nat
  proof -
    have "y div k = q \<longleftrightarrow> q * k \<le> y \<and> y < q * k + k"
      using that by (metis add.commute div_nat_eqI dividend_less_div_times mult.commute mult_Suc
          times_div_less_eq_dividend)
    with that show ?thesis by linarith
  qed
  from this [of "2 ^ h" "unat a div 2 ^ h" "unat x"] show ?thesis
    using assms by (simp add: word_le_nat_alt unat_block_first unat_block_last)
qed

section \<open>What a CIDR text stands for\<close>

definition cidr_text :: "address \<Rightarrow> nat \<Rightarrow> string" where
  "cidr_text a n = formatIPv4 a @ ''/'' @ nat_string n"

definition first_usable :: "address \<Rightarrow> nat \<Rightarrow> address" where
  "first_usable a n = (if n \<ge> 31 then block_first a (32 - n) else block_first a (32 - n) + 1)"

definition last_usable :: "address \<Rightarrow> nat \<Rightarrow> address" where
  "last_usable a n = (if n \<ge> 31 then block_last a (32 - n) else block_last a (32 - n) - 1)"

definition preview_of :: "address \<Rightarrow> nat \<Rightarrow> cidr_preview" where
  "preview_of a n =
     \<lparr>cp_cidr = cidr_text (block_first a (32 - n)) n,
      cp_network = formatIPv4 (block_first a (32 - n)), cp_broadcast = formatIPv4 (block_last a (32 - n)),
      firstUsable = formatIPv4 (first_usable a n), lastUsable = formatIPv4 (last_usable a n),
      usable = (if n \<ge> 31 then 2 ^ (32 - n) else 2 ^ (32 - n) - 2)\<rparr>"

definition reads_cidr :: "string \<Rightarrow> string \<Rightarrow> string \<Rightarrow> address \<Rightarrow> nat \<Rightarrow> bool" where
  "reads_cidr text adr lt a n \<longleftrightarrow>
     split_on CHR ''/'' (trim text) = [adr, lt] \<and> parseIPv4 adr = Some a
     \<and> short_number 2 lt \<and> digits_value lt = n \<and> n \<le> 32"

lemma short_number_ne: "short_number m s \<Longrightarrow> s \<noteq> []"
  by (auto simp: short_number_def)

lemma previewCidr_reads:
  assumes "reads_cidr text adr lt a n"
  shows "previewCidr text = Some (preview_of a n)"
proof -
  have n: "n \<le> 32" and d: "digits_value lt = n" using assms by (auto simp: reads_cidr_def)
  have m: "(if n = 0 then 0 else push_bit (32 - n) 0xffffffff) = maskForPrefix n"
    by (simp add: maskForPrefix_def)
  have "previewCidr text = Some
     (let m = maskForPrefix n; network = a AND m; broadcast = network OR NOT m
      in \<lparr>cp_cidr = formatIpv4 network @ ''/'' @ nat_string n, cp_network = formatIpv4 network,
          cp_broadcast = formatIpv4 broadcast,
          firstUsable = formatIpv4 (if n \<ge> 31 then network else network + 1),
          lastUsable = formatIpv4 (if n \<ge> 31 then broadcast else broadcast - 1),
          usable = (if n \<ge> 31 then 2 ^ (32 - n) else 2 ^ (32 - n) - 2)\<rparr>)"
    using assms unfolding previewCidr_def reads_cidr_def m [symmetric]
    by (auto simp: parseIpv4_unat Let_def dest: short_number_ne)
  then show ?thesis using n
    by (simp add: Let_def network_block broadcast_block format_alt preview_of_def cidr_text_def
        first_usable_def last_usable_def)
qed

lemma previewCidr_SomeD:
  assumes "previewCidr text = Some p"
  obtains adr lt a n where "reads_cidr text adr lt a n" and "p = preview_of a n"
proof -
  from assms obtain adr lt where s: "split_on CHR ''/'' (trim text) = [adr, lt]"
    by (auto simp: previewCidr_def split: list.splits)
  with assms have ok: "short_number 2 lt" "digits_value lt \<le> 32" "parseIpv4 adr \<noteq> None"
    by (auto simp: previewCidr_def Let_def split: if_splits option.splits)
  then obtain a where "parseIPv4 adr = Some a" by (auto simp: parseIpv4_unat)
  with s ok have "reads_cidr text adr lt a (digits_value lt)" by (simp add: reads_cidr_def)
  with previewCidr_reads [OF this] assms that show thesis by simp
qed

lemma format_chars:
  assumes "c \<in> set (formatIPv4 v)"
  shows "is_digit c \<or> c = CHR ''.''"
  using assms set_join_with [of "''.''" "map (\<lambda>w. nat_string (unat (w AND 0xff)))
     [drop_bit 24 v, drop_bit 16 v, drop_bit 8 v, v]"]
  unfolding formatIPv4_def by (auto dest: nat_string_digits)

lemma reads_cidr_text: "n \<le> 32 \<Longrightarrow> reads_cidr (cidr_text a n) (formatIPv4 a) (nat_string n) a n"
proof -
  assume n: "n \<le> 32"
  have "\<not> is_space c" if "c \<in> set (cidr_text a n)" for c
    using that format_chars [of c a] is_digit_not_space
    by (auto simp: cidr_text_def is_space_def dest: nat_string_digits is_digit_not_space)
  then have "trim (cidr_text a n) = cidr_text a n" by (rule trim_none)
  moreover have "CHR ''/'' \<notin> set (formatIPv4 a)" using format_chars [of "CHR ''/''" a] by (auto simp: is_digit_def)
  ultimately show ?thesis using n
    by (simp add: reads_cidr_def cidr_text_def split_on_append_sep split_on_no_sep parse_format
        short_number_nat_string)
qed

lemma previewCidr_text: "n \<le> 32 \<Longrightarrow> previewCidr (cidr_text a n) = Some (preview_of a n)"
  by (rule previewCidr_reads [OF reads_cidr_text])

lemma addressInCidr_reads:
  assumes "reads_cidr text adr lt a n"
  shows "addressInCidr (formatIPv4 x) text \<longleftrightarrow> unat x div 2 ^ (32 - n) = unat a div 2 ^ (32 - n)"
  using in_block_iff [of "32 - n" a x]
  by (simp add: addressInCidr_def previewCidr_reads [OF assms] preview_of_def parseIpv4_unat
      parse_format word_le_nat_alt)

lemma block_first_idem: "block_first (block_first a h) h = block_first a h"
  by (simp add: block_first_def) (rule bit_eqI, auto simp: bit_simps)

lemma preview_of_first: "preview_of (block_first a (32 - n)) n = preview_of a n"
  by (simp add: preview_of_def block_first_idem block_last_def first_usable_def last_usable_def)

lemma usable_range:
  assumes "n \<le> 32"
  shows "unat (last_usable a n) + 1 = unat (first_usable a n) + usable (preview_of a n)"
proof (cases "n \<ge> 31")
  case True
  then show ?thesis using unat_block_last [of "32 - n" a] assms
    by (simp add: first_usable_def last_usable_def preview_of_def)
next
  case False
  let ?h = "32 - n" and ?f = "block_first a (32 - n)" and ?l = "block_last a (32 - n)"
  have "(2 :: nat) ^ 2 \<le> 2 ^ ?h" using False by (intro power_increasing) auto
  then have h: "4 \<le> (2 :: nat) ^ ?h" by simp
  have l: "unat ?l = unat ?f + (2 ^ ?h - 1)" using unat_block_last [of ?h a] by simp
  have "unat ?l < 2 ^ 32" by (rule unat_address_less)
  with l h have "unat (?f + 1) = unat ?f + 1" by (simp add: unat_word_ariths)
  moreover have "1 \<le> ?l" using l h by (simp add: word_le_nat_alt)
  then have "unat (?l - 1) = unat ?l - 1" by (simp add: unat_sub)
  ultimately have "unat (?l - 1) + 1 = unat (?f + 1) + (2 ^ ?h - 2)" using l h by linarith
  then show ?thesis using False by (simp add: first_usable_def last_usable_def preview_of_def)
qed

lemma buildInfo_preview:
  assumes "n \<le> 32"
  shows "si_network (buildInfo k a n) = cp_network (preview_of a n)"
    and "si_broadcast (buildInfo k a n) = cp_broadcast (preview_of a n)"
    and "si_firstHost (buildInfo k a n) = firstUsable (preview_of a n)"
    and "si_lastHost (buildInfo k a n) = lastUsable (preview_of a n)"
    and "usableHosts (buildInfo k a n) = usable (preview_of a n)"
    and "si_prefix (buildInfo k a n) = n" and "si_kind (buildInfo k a n) = k"
    and "networkU32 (buildInfo k a n) = block_first a (32 - n)"
proof -
  note blocks = network_block [OF assms, of a] broadcast_block [OF assms, of a]
  have "buildInfo k a n = \<lparr>si_kind = k, si_prefix = n, si_network = cp_network (preview_of a n),
      si_broadcast = cp_broadcast (preview_of a n), si_firstHost = firstUsable (preview_of a n),
      si_lastHost = lastUsable (preview_of a n), si_netmask = formatIPv4 (maskForPrefix n),
      si_wildcard = formatIPv4 (NOT (maskForPrefix n)), usableHosts = usable (preview_of a n),
      networkU32 = block_first a (32 - n)\<rparr>" (is "_ = ?r")
  proof -
    consider "n = 32" | "n = 31" | "n < 31" using assms by linarith
    then show ?thesis using blocks
      by cases (simp_all add: buildInfo_def Let_def preview_of_def first_usable_def last_usable_def)
  qed
  then show "si_network (buildInfo k a n) = cp_network (preview_of a n)"
    and "si_broadcast (buildInfo k a n) = cp_broadcast (preview_of a n)"
    and "si_firstHost (buildInfo k a n) = firstUsable (preview_of a n)"
    and "si_lastHost (buildInfo k a n) = lastUsable (preview_of a n)"
    and "usableHosts (buildInfo k a n) = usable (preview_of a n)"
    and "si_prefix (buildInfo k a n) = n" and "si_kind (buildInfo k a n) = k"
    and "networkU32 (buildInfo k a n) = block_first a (32 - n)"
    by simp_all
qed

text \<open>A text \<open>parseIPv4\<close> accepts is made of digits and dots, up to the white space around it.\<close>

lemma trim_decomp: "\<exists>u w. s = u @ trim s @ w \<and> (\<forall>c \<in> set u \<union> set w. is_space c)"
proof -
  let ?t = "dropWhile is_space s"
  have a: "s = takeWhile is_space s @ ?t" by simp
  have "rev ?t = takeWhile is_space (rev ?t) @ dropWhile is_space (rev ?t)" by simp
  then have b: "?t = trim s @ rev (takeWhile is_space (rev ?t))"
    unfolding trim_def by (metis rev_append rev_rev_ident)
  from a b have "s = takeWhile is_space s @ trim s @ rev (takeWhile is_space (rev ?t))" by simp
  then show ?thesis by (metis Un_iff set_rev set_takeWhileD)
qed

lemma parse_octets_chars:
  "parse_octets parts v = Some w \<Longrightarrow> p \<in> set parts \<Longrightarrow> c \<in> set p \<Longrightarrow> is_digit c"
  by (induction parts v rule: parse_octets.induct)
    (auto simp: Let_def short_number_def list_all_iff split: if_splits)

lemma set_split_on: "c \<in> set s \<Longrightarrow> c = d \<or> (\<exists>p \<in> set (split_on d s). c \<in> set p)"
  by (induction d s rule: split_on.induct) (auto split: list.splits if_splits)

lemma parseIPv4_chars:
  assumes "parseIPv4 t = Some v" and "c \<in> set t"
  shows "is_digit c \<or> c = CHR ''.'' \<or> is_space c"
proof -
  have "c \<in> set (trim t) \<or> is_space c" using trim_decomp [of t] assms(2)
    by (metis Un_iff set_append)
  moreover have "parse_octets (split_on CHR ''.'' (trim t)) 0 = Some v"
    using assms(1) by (auto simp: parseIPv4_def Let_def split: if_splits)
  ultimately show ?thesis using set_split_on [of c "trim t" "CHR ''.''"] parse_octets_chars by blast
qed

lemma set_of_split2: "split_on d s = [x, y] \<Longrightarrow> set s = insert d (set x \<union> set y)"
proof (induction s arbitrary: x)
  case Nil
  then show ?case by simp
next
  case (Cons c s)
  show ?case
  proof (cases "c = d")
    case True
    with Cons.prems have x: "x = []" and s: "split_on d s = [y]" by auto
    have "set s = set y"
      using s by (induction s arbitrary: y) (auto split: if_splits list.splits)
    with x True show ?thesis by simp
  next
    case False
    with Cons.prems obtain z where "split_on d s = [z, y]" and "x = c # z"
      by (auto split: list.splits)
    with Cons.IH [of z] show ?thesis by auto
  qed
qed

lemma parseIPv4_trim [simp]: "parseIPv4 (trim t) = parseIPv4 t"
  by (simp add: parseIPv4_def)

lemma short_number_trim: "short_number m s \<Longrightarrow> trim s = s"
  by (rule trim_none) (auto simp: short_number_def list_all_iff dest: is_digit_not_space)

lemma parseSubnetQuery_reads:
  assumes "reads_cidr text adr lt a n"
  shows "parseSubnetQuery text = Some (buildInfo CidrKind a n)"
proof -
  have s: "split_on CHR ''/'' (trim text) = [adr, lt]" and a: "parseIPv4 adr = Some a"
    and l: "short_number 2 lt" "digits_value lt = n" "n \<le> 32"
    using assms by (auto simp: reads_cidr_def)
  have chars: "set (trim text) = insert (CHR ''/'') (set adr \<union> set lt)" by (rule set_of_split2 [OF s])
  have "CHR ''-'' \<notin> set adr" using parseIPv4_chars [OF a, of "CHR ''-''"]
    by (auto simp: is_digit_def is_space_def)
  moreover have "CHR ''-'' \<notin> set lt" using l(1) by (auto simp: short_number_def list_all_iff is_digit_def)
  ultimately have "CHR ''-'' \<notin> set (trim text)" unfolding chars by simp
  moreover have slash: "CHR ''/'' \<in> set (trim text)" unfolding chars by simp
  moreover have "trim text \<noteq> []" using slash by force
  ultimately show ?thesis using s a l short_number_trim [OF l(1)] short_number_ne [OF l(1)]
    unfolding parseSubnetQuery_def Let_def by simp
qed

section \<open>The smallest block\<close>

lemma same_block_iff:
  "n \<le> 32 \<Longrightarrow> a AND maskForPrefix n = b AND maskForPrefix n
    \<longleftrightarrow> unat a div 2 ^ (32 - n) = unat b div 2 ^ (32 - n)"
  by (simp add: network_block word_unat_eq_iff unat_block_first)

lemma covering_prefix_spec:
  assumes "m \<le> 32"
  shows "covering_prefix a b m \<le> m
    \<and> unat a div 2 ^ (32 - covering_prefix a b m) = unat b div 2 ^ (32 - covering_prefix a b m)
    \<and> (\<forall>q \<le> m. unat a div 2 ^ (32 - q) = unat b div 2 ^ (32 - q) \<longrightarrow> q \<le> covering_prefix a b m)"
  using assms
proof (induction m)
  case 0
  then show ?case using unat_address_less [of a] unat_address_less [of b] by simp
next
  case (Suc m)
  show ?case
  proof (cases "unat a div 2 ^ (32 - Suc m) = unat b div 2 ^ (32 - Suc m)")
    case True
    then show ?thesis using Suc.prems same_block_iff [of "Suc m" a b] by (simp add: Let_def)
  next
    case False
    then have "covering_prefix a b (Suc m) = covering_prefix a b m"
      using Suc.prems same_block_iff [of "Suc m" a b] by (simp add: Let_def)
    then show ?thesis using Suc False by (auto simp: le_Suc_eq)
  qed
qed

lemma trim_pad:
  assumes "s \<noteq> []" "\<not> is_space (hd s)" "\<not> is_space (last s)"
    and "\<forall>c \<in> set u. is_space c" "\<forall>c \<in> set w. is_space c"
  shows "trim (u @ s @ w) = s"
proof -
  obtain x xs where x: "s = x # xs" using assms(1) by (cases s) auto
  have "dropWhile is_space (u @ s @ w) = s @ w"
    using assms(2,4) x by (simp add: dropWhile_append2)
  moreover obtain y ys where y: "rev s = y # ys" using assms(1) by (cases "rev s") auto
  then have "\<not> is_space y" using assms(3) by (metis hd_rev list.sel(1))
  then have "dropWhile is_space (rev w @ rev s) = rev s"
    using assms(5) y by (subst dropWhile_append2) auto
  ultimately show ?thesis by (simp add: trim_def)
qed

lemma format_ends:
  "formatIPv4 a \<noteq> []" "\<not> is_space (hd (formatIPv4 a))" "\<not> is_space (last (formatIPv4 a))"
proof -
  show ne: "formatIPv4 a \<noteq> []" by (simp add: formatIPv4_def)
  have "\<not> is_space c" if "c \<in> set (formatIPv4 a)" for c
    using format_chars [OF that] is_digit_not_space by (auto simp: is_space_def)
  then show "\<not> is_space (hd (formatIPv4 a))" "\<not> is_space (last (formatIPv4 a))" using ne by auto
qed

definition range_text :: "address \<Rightarrow> address \<Rightarrow> string" where
  "range_text a b = formatIPv4 a @ '' - '' @ formatIPv4 b"

lemma dash_not_in_format: "CHR ''-'' \<notin> set (formatIPv4 a)"
  using format_chars [of "CHR ''-''" a] by (auto simp: is_digit_def)

lemma parseSubnetQuery_range:
  "parseSubnetQuery (range_text a b) =
     Some (buildInfo RangeKind (min a b) (covering_prefix (min a b) (max a b) 32))"
proof -
  have "trim ([] @ range_text a b @ []) = range_text a b"
    by (rule trim_pad) (use format_ends [of a] format_ends [of b] in \<open>auto simp: range_text_def\<close>)
  then have t: "trim (range_text a b) = range_text a b" by simp
  have eq: "range_text a b = (formatIPv4 a @ '' '') @ CHR ''-'' # ('' '' @ formatIPv4 b)"
    by (simp add: range_text_def)
  have sp: "split_on CHR ''-'' (range_text a b) = [formatIPv4 a @ '' '', '' '' @ formatIPv4 b]"
    unfolding eq using dash_not_in_format
    by (subst split_on_append_sep) (simp_all add: split_on_no_sep)
  have "trim ([] @ formatIPv4 a @ '' '') = formatIPv4 a" "trim ('' '' @ formatIPv4 b @ []) = formatIPv4 b"
    by (rule trim_pad [OF format_ends]; simp add: is_space_def)+
  then have trims: "map trim (take 2 (split_on CHR ''-'' (range_text a b))) = [formatIPv4 a, formatIPv4 b]"
    by (simp add: sp)
  have "CHR ''-'' \<in> set (range_text a b)" "range_text a b \<noteq> []" by (simp_all add: range_text_def)
  then show ?thesis
    unfolding parseSubnetQuery_def Let_def t
    by (simp add: trims format_ends(1) parse_format smallestCoveringCidr_def Let_def)
qed

section \<open>Properties\<close>




text \<open>C35. The two modules compute the same blocks: a CIDR that IPAM previews is one the Subnet
  Calculator accepts, with the same network, broadcast and usable range and count.\<close>

theorem calculator_agrees_with_ipam:
  assumes "previewCidr text = Some p"
  shows "\<exists>i. parseSubnetQuery text = Some i \<and> si_kind i = CidrKind
    \<and> si_network i = cp_network p \<and> si_broadcast i = cp_broadcast p
    \<and> si_firstHost i = firstUsable p \<and> si_lastHost i = lastUsable p \<and> usableHosts i = usable p
    \<and> cp_cidr p = cidr_text (networkU32 i) (si_prefix i)"
proof -
  from assms obtain adr lt a n where r: "reads_cidr text adr lt a n" and p: "p = preview_of a n"
    by (rule previewCidr_SomeD)
  then have "n \<le> 32" by (simp add: reads_cidr_def)
  with parseSubnetQuery_reads [OF r] p buildInfo_preview [of n CidrKind a] show ?thesis
    by (simp add: preview_of_def)
qed

lemma calculator_agrees_with_ipam_witness:
  "\<exists>i. parseSubnetQuery (cidr_text 167838211 31) = Some i \<and> usableHosts i = 2"
proof -
  have "previewCidr (cidr_text 167838211 31) = Some (preview_of 167838211 31)"
    by (rule previewCidr_text) simp
  from calculator_agrees_with_ipam [OF this] show ?thesis by (auto simp: preview_of_def)
qed

text \<open>C36. A range query answers with the smallest CIDR block that contains both ends: it contains
  every address between them, and every block that contains both ends has a prefix at most as
  long.\<close>

theorem range_query_is_smallest_block:
  "\<exists>i. parseSubnetQuery (range_text a b) = Some i \<and> si_kind i = RangeKind \<and> si_prefix i \<le> 32
     \<and> (\<forall>x. min a b \<le> x \<and> x \<le> max a b
          \<longrightarrow> addressInCidr (formatIPv4 x) (cidr_text (networkU32 i) (si_prefix i)))
     \<and> (\<forall>c m. m \<le> 32 \<and> addressInCidr (formatIPv4 a) (cidr_text c m)
          \<and> addressInCidr (formatIPv4 b) (cidr_text c m) \<longrightarrow> m \<le> si_prefix i)"
proof -
  let ?l = "min a b" and ?h = "max a b" and ?n = "covering_prefix (min a b) (max a b) 32"
  have spec: "?n \<le> 32" "unat ?l div 2 ^ (32 - ?n) = unat ?h div 2 ^ (32 - ?n)"
    "\<And>q. q \<le> 32 \<Longrightarrow> unat ?l div 2 ^ (32 - q) = unat ?h div 2 ^ (32 - q) \<Longrightarrow> q \<le> ?n"
    using covering_prefix_spec [of 32 ?l ?h] by auto
  have inb: "addressInCidr (formatIPv4 x) (cidr_text c m)
      \<longleftrightarrow> unat x div 2 ^ (32 - m) = unat c div 2 ^ (32 - m)" if "m \<le> 32" for x c m
    by (rule addressInCidr_reads [OF reads_cidr_text [OF that]])
  have "m \<le> ?n" if "m \<le> 32" and "addressInCidr (formatIPv4 a) (cidr_text c m)"
    and "addressInCidr (formatIPv4 b) (cidr_text c m)" for c m
    using that inb [of m] spec(3) [of m] by (auto simp: min_def max_def)
  moreover have "addressInCidr (formatIPv4 x) (cidr_text (block_first ?l (32 - ?n)) ?n)"
    if "?l \<le> x \<and> x \<le> ?h" for x
  proof -
    have "unat ?l div 2 ^ (32 - ?n) \<le> unat x div 2 ^ (32 - ?n)"
      "unat x div 2 ^ (32 - ?n) \<le> unat ?h div 2 ^ (32 - ?n)"
      using that by (auto intro!: div_le_mono simp only: word_le_nat_alt)
    then show ?thesis using spec(2) inb [OF spec(1)] by (simp add: unat_block_first)
  qed
  ultimately show ?thesis
    using spec(1) unfolding parseSubnetQuery_range
    by (intro exI [of _ "buildInfo RangeKind ?l ?n"]) (simp add: buildInfo_preview [OF spec(1)], blast)
qed

lemma range_query_is_smallest_block_witness:
  "\<exists>i. parseSubnetQuery (range_text 167772165 167772360) = Some i
     \<and> addressInCidr (formatIPv4 167772300) (cidr_text (networkU32 i) (si_prefix i))"
proof -
  have "min 167772165 167772360 \<le> (167772300 :: address)" "(167772300 :: address) \<le> max 167772165 167772360"
    by (simp_all add: min_def max_def)
  with range_query_is_smallest_block [of 167772165 167772360] show ?thesis by blast
qed

text \<open>
  The comment above \<open>parseIpv4\<close> says that an octet such as \<open>01\<close> is rejected; it is read as the
  number it denotes.
\<close>

lemma leading_zeros_are_accepted: "parseIpv4 ''10.0.0.010'' = Some 167772170"
  by (simp add: parseIpv4_def trim_def is_space_def short_number_def is_digit_def digits_value_def
      digit_val_def)

end
