(* ===== verification/Site_Hosts.thy ===== *)
theory Site_Hosts
  imports Js_Prelude
begin

text \<open>
  The Hosts of a Site (\<open>src/src/modules/itops/hostTree.ts\<close>): the import list, the rows of the
  Hosts tree and the choice of a parent.  A Host record holds the fields these functions read;
  the parent id is \<open>None\<close> for both \<open>undefined\<close> and \<open>null\<close>, which the code does not tell apart.
\<close>

section \<open>Hosts\<close>

record site_host =
  sh_id :: string
  sh_siteId :: string
  sh_parentHostId :: "string option"
  hostname :: string
  sh_label :: string
  sh_connectionIds :: "string list"

text \<open>\<open>trimmed.split(/[\n,]/)\<close> and the entries kept of it.\<close>

fun split_lines :: "string \<Rightarrow> string list" where
  "split_lines [] = [[]]"
| "split_lines (x # xs) =
     (if x = CHR 0x0A \<or> x = CHR '','' then [] # split_lines xs
      else (case split_lines xs of [] \<Rightarrow> [[x]] | y # ys \<Rightarrow> (x # y) # ys))"

definition parseHostnameList :: "string \<Rightarrow> string list" where
  "parseHostnameList text =
     (let trimmed = trim text
      in if trimmed = [] then []
         else filter (\<lambda>v. \<not> starts_with v ''#'') (map trim (split_lines trimmed)))"

definition hostDisplayName :: "site_host \<Rightarrow> string" where
  "hostDisplayName h = (if trim (sh_label h) \<noteq> [] then trim (sh_label h) else hostname h)"

definition childHostsOf :: "site_host list \<Rightarrow> string \<Rightarrow> site_host list" where
  "childHostsOf hosts i = filter (\<lambda>h. sh_parentHostId h = Some i) hosts"

section \<open>The rows of the tree\<close>

type_synonym host_row = "site_host \<times> nat"

definition known_parent :: "site_host list \<Rightarrow> site_host \<Rightarrow> string option" where
  "known_parent hosts h =
     (case sh_parentHostId h of
        None \<Rightarrow> None
      | Some i \<Rightarrow> if i \<noteq> [] \<and> i \<in> set (map sh_id hosts) then Some i else None)"

definition roots_of :: "site_host list \<Rightarrow> site_host list" where
  "roots_of hosts = filter (\<lambda>h. known_parent hosts h = None) hosts"

definition childrenOf :: "site_host list \<Rightarrow> string \<Rightarrow> site_host list" where
  "childrenOf hosts i = filter (\<lambda>h. known_parent hosts h = Some i) hosts"

text \<open>\<open>walk\<close> for each Host of a list in turn: the ids visited and the rows added.\<close>

function walk_hosts :: "site_host list \<Rightarrow> site_host list \<Rightarrow> nat \<Rightarrow> string set \<Rightarrow> string set \<times> host_row list"
where
  "walk_hosts hosts [] depth visited = (visited, [])"
| "walk_hosts hosts (h # hs) depth visited =
     (if sh_id h \<in> visited then walk_hosts hosts hs depth visited
      else let (visited1, rows1) =
                 walk_hosts hosts (childrenOf hosts (sh_id h)) (depth + 1) (insert (sh_id h) visited);
               (visited2, rows2) = walk_hosts hosts hs depth visited1
           in (visited2, (h, depth) # rows1 @ rows2))"
  by pat_completeness auto

lemma walk_hosts_grows:
  "walk_hosts_dom (hosts, hs, d, v) \<Longrightarrow> v \<subseteq> fst (walk_hosts hosts hs d v)"
proof (induction rule: walk_hosts.pinduct)
  case (1 hosts d v)
  then show ?case by (simp add: walk_hosts.psimps)
next
  case (2 hosts h hs d v)
  show ?case
  proof (cases "sh_id h \<in> v")
    case True
    then show ?thesis using 2(1,2) by (simp add: walk_hosts.psimps)
  next
    case False
    obtain v1 r1 where w1: "walk_hosts hosts (childrenOf hosts (sh_id h)) (d + 1) (insert (sh_id h) v) = (v1, r1)"
      by fastforce
    have "insert (sh_id h) v \<subseteq> v1" using 2(3) [OF False] w1 by simp
    moreover have "v1 \<subseteq> fst (walk_hosts hosts hs d v1)" using 2(4) [OF False] w1 by simp
    ultimately show ?thesis using 2(1) False w1
      by (auto simp: walk_hosts.psimps split: prod.splits)
  qed
qed

definition unvisited :: "site_host list \<Rightarrow> site_host list \<Rightarrow> string set \<Rightarrow> nat" where
  "unvisited hosts hs v = card (sh_id ` (set hosts \<union> set hs) - v)"

lemma unvisited_less:
  assumes "sh_id h \<notin> v" and "insert (sh_id h) v \<subseteq> w" and "set ks \<subseteq> set hosts \<union> set hs"
  shows "unvisited hosts ks w < unvisited hosts (h # hs) v"
  unfolding unvisited_def by (rule psubset_card_mono) (use assms in auto)

lemma unvisited_tail: "unvisited hosts hs v \<le> unvisited hosts (h # hs) v"
  unfolding unvisited_def by (rule card_mono) auto

termination walk_hosts
proof (relation "measures [\<lambda>(hosts, hs, d, v). unvisited hosts hs v, \<lambda>(hosts, hs, d, v). length hs]",
    goal_cases)
  case 1
  then show ?case by simp
next
  case (2 hosts h hs d v)
  then show ?case using unvisited_tail [of hosts hs v h] by (auto simp: le_less)
next
  case (3 hosts h hs d v)
  then show ?case
    using unvisited_less [of h v "insert (sh_id h) v" "childrenOf hosts (sh_id h)" hosts hs]
    by (auto simp: childrenOf_def)
next
  case (4 hosts h hs d v x v1 r1)
  have "insert (sh_id h) v
      \<subseteq> fst (walk_hosts hosts (childrenOf hosts (sh_id h)) (d + 1) (insert (sh_id h) v))"
    by (rule walk_hosts_grows) (use 4 in simp)
  then have "insert (sh_id h) v \<subseteq> v1" using 4(2,3) by (metis fst_conv)
  then show ?case using unvisited_less [of h v v1 hs hosts hs] 4(1) by simp
qed

definition buildHostTreeRows :: "site_host list \<Rightarrow> host_row list" where
  "buildHostTreeRows hosts =
     (let (visited1, rows1) = walk_hosts hosts (roots_of hosts) 0 {};
          (visited2, rows2) = walk_hosts hosts hosts 0 visited1
      in rows1 @ rows2)"

section \<open>Parents\<close>

text \<open>One Host of a pass, a pass, and the loop until a pass adds nothing.\<close>

definition block_one :: "site_host \<Rightarrow> string set \<Rightarrow> string set" where
  "block_one h blocked =
     (case sh_parentHostId h of
        None \<Rightarrow> blocked
      | Some i \<Rightarrow> if i \<noteq> [] \<and> i \<in> blocked \<and> sh_id h \<notin> blocked then insert (sh_id h) blocked else blocked)"

definition block_pass :: "site_host list \<Rightarrow> string set \<Rightarrow> string set" where
  "block_pass hosts blocked = fold block_one hosts blocked"

lemma block_one_grows: "b \<subseteq> block_one h b \<and> block_one h b \<subseteq> insert (sh_id h) b"
  by (auto simp: block_one_def split: option.splits)

lemma block_pass_grows: "b \<subseteq> block_pass hosts b \<and> block_pass hosts b \<subseteq> b \<union> sh_id ` set hosts"
  unfolding block_pass_def
proof (induction hosts arbitrary: b)
  case Nil
  then show ?case by simp
next
  case (Cons h hosts)
  from Cons.IH [of "block_one h b"] block_one_grows [of b h] show ?case by auto
qed

function grow_blocked :: "site_host list \<Rightarrow> string set \<Rightarrow> string set" where
  "grow_blocked hosts blocked =
     (let grown = block_pass hosts blocked
      in if grown = blocked then blocked else grow_blocked hosts grown)"
  by pat_completeness auto
termination
proof (relation "measure (\<lambda>(hosts, b). card (sh_id ` set hosts - b))", goal_cases)
  case 1
  then show ?case by simp
next
  case (2 hosts b g)
  then show ?case using block_pass_grows [of b hosts]
    by (auto intro!: psubset_card_mono)
qed

declare grow_blocked.simps [simp del]

definition eligibleParentHosts :: "site_host list \<Rightarrow> string \<Rightarrow> site_host list" where
  "eligibleParentHosts hosts i =
     (if i = [] then hosts else filter (\<lambda>h. sh_id h \<notin> grow_blocked hosts {i}) hosts)"

section \<open>What a walk lists\<close>

lemma known_parent_SomeD: "known_parent hosts h = Some i \<Longrightarrow> i \<in> sh_id ` set hosts \<and> sh_parentHostId h = Some i"
  by (auto simp: known_parent_def split: option.splits if_splits)

lemma walk_visits:
  "walk_hosts hosts hs d v = (v', rows)
    \<Longrightarrow> v' = v \<union> (sh_id \<circ> fst) ` set rows \<and> sh_id ` set hs \<subseteq> v'
      \<and> distinct (map (sh_id \<circ> fst) rows) \<and> v \<inter> (sh_id \<circ> fst) ` set rows = {}
      \<and> fst ` set rows \<subseteq> set hosts \<union> set hs"
proof (induction hosts hs d v arbitrary: v' rows rule: walk_hosts.induct)
  case (1 hosts d v)
  then show ?case by simp
next
  case (2 hosts h hs d v)
  show ?case
  proof (cases "sh_id h \<in> v")
    case True
    then show ?thesis using 2(1) [OF True, of v' rows] 2(4) by auto
  next
    case False
    obtain v1 r1 where w1: "walk_hosts hosts (childrenOf hosts (sh_id h)) (d + 1) (insert (sh_id h) v) = (v1, r1)"
      by fastforce
    obtain v2 r2 where w2: "walk_hosts hosts hs d v1 = (v2, r2)" by fastforce
    have out: "v' = v2" "rows = (h, d) # r1 @ r2" using 2(4) False w1 w2 by simp_all
    have "set (childrenOf hosts (sh_id h)) \<subseteq> set hosts" by (auto simp: childrenOf_def)
    then show ?thesis
      using False 2(2) [OF False w1] 2(3) [OF False w1 [symmetric] refl w2] unfolding out by auto
  qed
qed

text \<open>Rows are listed as the tree is drawn: under its row a Host's children, one level deeper.\<close>

inductive drawn_under :: "string option \<Rightarrow> nat \<Rightarrow> host_row list \<Rightarrow> bool" where
  no_rows: "drawn_under p d []"
| row: "drawn_under p d ((h, d) # below @ rows)"
    if "p = None \<or> sh_parentHostId h = p" and "drawn_under (Some (sh_id h)) (d + 1) below"
      and "drawn_under p d rows"

lemma drawn_append: "drawn_under p d a \<Longrightarrow> drawn_under p d b \<Longrightarrow> drawn_under p d (a @ b)"
  by (induction rule: drawn_under.induct) (auto intro: drawn_under.intros)

lemma walk_drawn:
  "walk_hosts hosts hs d v = (v', rows) \<Longrightarrow> p = None \<or> (\<forall>h \<in> set hs. sh_parentHostId h = p)
    \<Longrightarrow> drawn_under p d rows"
proof (induction hosts hs d v arbitrary: p v' rows rule: walk_hosts.induct)
  case (1 hosts d v)
  then show ?case by (auto intro: drawn_under.intros)
next
  case (2 hosts h hs d v)
  show ?case
  proof (cases "sh_id h \<in> v")
    case True
    then show ?thesis using 2(1) [OF True, of v' rows p] 2(4,5) by auto
  next
    case False
    obtain v1 r1 where w1: "walk_hosts hosts (childrenOf hosts (sh_id h)) (d + 1) (insert (sh_id h) v) = (v1, r1)"
      by fastforce
    obtain v2 r2 where w2: "walk_hosts hosts hs d v1 = (v2, r2)" by fastforce
    have "rows = (h, d) # r1 @ r2" using 2(4) False w1 w2 by simp
    moreover have "\<forall>g \<in> set (childrenOf hosts (sh_id h)). sh_parentHostId g = Some (sh_id h)"
      by (auto simp: childrenOf_def dest: known_parent_SomeD)
    ultimately show ?thesis
      using 2(2) [OF False w1] 2(3) [OF False w1 [symmetric] refl w2] 2(5)
      by (auto intro!: drawn_under.intros)
  qed
qed

lemma walk_depth:
  "walk_hosts hosts hs d v = (v', rows) \<Longrightarrow> (h, e) \<in> set rows \<Longrightarrow> d \<le> e \<and> (e = d \<longrightarrow> h \<in> set hs)
      \<and> (e > d \<longrightarrow> known_parent hosts h \<noteq> None)"
proof (induction hosts hs d v arbitrary: v' rows h e rule: walk_hosts.induct)
  case (1 hosts d v)
  then show ?case by simp
next
  case (2 hosts g hs d v)
  show ?case
  proof (cases "sh_id g \<in> v")
    case True
    then show ?thesis using 2(1) [OF True, of v' rows h e] 2(4,5) by auto
  next
    case False
    obtain v1 r1 where w1: "walk_hosts hosts (childrenOf hosts (sh_id g)) (d + 1) (insert (sh_id g) v) = (v1, r1)"
      by fastforce
    obtain v2 r2 where w2: "walk_hosts hosts hs d v1 = (v2, r2)" by fastforce
    have "rows = (g, d) # r1 @ r2" using 2(4) False w1 w2 by simp
    then show ?thesis
      using 2(2) [OF False w1, of h e] 2(3) [OF False w1 [symmetric] refl w2, of h e] 2(5)
      by (cases "e = d + 1") (auto simp: childrenOf_def)
  qed
qed

lemma walk_closed:
  "walk_hosts hosts hs d v = (v', rows) \<Longrightarrow> (h, e) \<in> set rows
    \<Longrightarrow> sh_id ` set (childrenOf hosts (sh_id h)) \<subseteq> v'"
proof (induction hosts hs d v arbitrary: v' rows h e rule: walk_hosts.induct)
  case (1 hosts d v)
  then show ?case by simp
next
  case (2 hosts g hs d v)
  show ?case
  proof (cases "sh_id g \<in> v")
    case True
    then show ?thesis using 2(1) [OF True, of v' rows h e] 2(4,5) by auto
  next
    case False
    obtain v1 r1 where w1: "walk_hosts hosts (childrenOf hosts (sh_id g)) (d + 1) (insert (sh_id g) v) = (v1, r1)"
      by fastforce
    obtain v2 r2 where w2: "walk_hosts hosts hs d v1 = (v2, r2)" by fastforce
    have out: "v' = v2" "rows = (g, d) # r1 @ r2" using 2(4) False w1 w2 by simp_all
    have "v1 \<subseteq> v2" "sh_id ` set (childrenOf hosts (sh_id g)) \<subseteq> v1"
      using walk_visits [OF w1] walk_visits [OF w2] by auto
    then show ?thesis
      using 2(2) [OF False w1, of h e] 2(3) [OF False w1 [symmetric] refl w2, of h e] 2(5) unfolding out
      by auto
  qed
qed

text \<open>A Host below a root: its chain of parents ends at a Host without a (known) parent.\<close>

inductive rooted :: "site_host list \<Rightarrow> site_host \<Rightarrow> bool" for hosts where
  root: "rooted hosts h" if "h \<in> set hosts" and "known_parent hosts h = None"
| child: "rooted hosts h" if "rooted hosts g" and "h \<in> set hosts" and "known_parent hosts h = Some (sh_id g)"

lemma rooted_visited:
  assumes "walk_hosts hosts (roots_of hosts) 0 {} = (v, rows)" and "distinct (map sh_id hosts)"
    and "rooted hosts h"
  shows "h \<in> fst ` set rows"
proof -
  have v: "v = (sh_id \<circ> fst) ` set rows" "sh_id ` set (roots_of hosts) \<subseteq> v" "fst ` set rows \<subseteq> set hosts"
    using walk_visits [OF assms(1)] by (auto simp: roots_of_def)
  have listed: "g \<in> fst ` set rows" if "sh_id g \<in> v" and "g \<in> set hosts" for g
    using that v assms(2) by (auto simp: distinct_map dest: inj_onD) (metis fst_conv image_eqI inj_onD subsetD)
  show ?thesis using assms(3)
  proof (induction rule: rooted.induct)
    case (root h)
    then have "sh_id h \<in> v" using v(2) by (auto simp: roots_of_def)
    then show ?case using listed root by simp
  next
    case (child g h)
    then obtain e where "(g, e) \<in> set rows" by auto
    then have "sh_id ` set (childrenOf hosts (sh_id g)) \<subseteq> v" by (rule walk_closed [OF assms(1)])
    then have "sh_id h \<in> v" using child by (auto simp: childrenOf_def)
    then show ?case using listed child by simp
  qed
qed

lemma build_rows:
  obtains v1 r1 v2 r2 where "walk_hosts hosts (roots_of hosts) 0 {} = (v1, r1)"
    and "walk_hosts hosts hosts 0 v1 = (v2, r2)" and "buildHostTreeRows hosts = r1 @ r2"
  by (cases "walk_hosts hosts (roots_of hosts) 0 {}", cases "walk_hosts hosts hosts 0
      (fst (walk_hosts hosts (roots_of hosts) 0 {}))") (auto simp: buildHostTreeRows_def)

section \<open>What the choice of a parent excludes\<close>

text \<open>The ids of a Host and of those whose chain of parents leads to it.\<close>

inductive below :: "site_host list \<Rightarrow> string \<Rightarrow> string \<Rightarrow> bool" for hosts i where
  self: "below hosts i i"
| child: "below hosts i (sh_id h)"
    if "below hosts i k" and "k \<noteq> []" and "h \<in> set hosts" and "sh_parentHostId h = Some k"

lemma block_pass_sound:
  "set hs \<subseteq> set hosts \<Longrightarrow> (\<And>j. j \<in> b \<Longrightarrow> below hosts i j) \<Longrightarrow> j \<in> block_pass hs b \<Longrightarrow> below hosts i j"
  unfolding block_pass_def
proof (induction hs arbitrary: b)
  case Nil
  then show ?case by simp
next
  case (Cons h hs)
  have "below hosts i j" if "j \<in> block_one h b" for j
    using that Cons.prems(1,2) by (auto simp: block_one_def split: option.splits if_splits intro: below.child)
  then show ?case using Cons.IH [of "block_one h b"] Cons.prems(1,3) by simp
qed

lemma block_pass_fixed:
  assumes "block_pass hosts b = b" and "h \<in> set hosts" and "sh_parentHostId h = Some k" and "k \<in> b" and "k \<noteq> []"
  shows "sh_id h \<in> b"
proof -
  obtain us ws where hosts: "hosts = us @ h # ws" using assms(2) by (auto simp: in_set_conv_decomp)
  have "b \<subseteq> block_pass us b" using block_pass_grows by blast
  then have "sh_id h \<in> block_one h (block_pass us b)" using assms(3-5) by (auto simp: block_one_def)
  also have "\<dots> \<subseteq> block_pass ws (block_one h (block_pass us b))" using block_pass_grows by blast
  finally show ?thesis using assms(1) by (simp add: hosts block_pass_def)
qed

lemma grow_blocked_closed:
  "(\<And>j. j \<in> b \<Longrightarrow> below hosts i j) \<Longrightarrow> b \<subseteq> grow_blocked hosts b
    \<and> (\<forall>j \<in> grow_blocked hosts b. below hosts i j)
    \<and> block_pass hosts (grow_blocked hosts b) = grow_blocked hosts b"
proof (induction hosts b rule: grow_blocked.induct)
  case (1 hosts b)
  show ?case
  proof (cases "block_pass hosts b = b")
    case True
    then show ?thesis using 1(2) by (subst (1 2 3 4) grow_blocked.simps) (simp add: Let_def)
  next
    case False
    have "below hosts i j" if "j \<in> block_pass hosts b" for j
      using block_pass_sound [of hosts hosts b i j] 1(2) that by blast
    with 1(1) [OF refl False] have "block_pass hosts b \<subseteq> grow_blocked hosts (block_pass hosts b)
        \<and> (\<forall>j \<in> grow_blocked hosts (block_pass hosts b). below hosts i j)
        \<and> block_pass hosts (grow_blocked hosts (block_pass hosts b)) = grow_blocked hosts (block_pass hosts b)"
      by blast
    moreover have "grow_blocked hosts b = grow_blocked hosts (block_pass hosts b)"
      using False by (subst grow_blocked.simps) (simp add: Let_def)
    ultimately show ?thesis using block_pass_grows [of b hosts] by auto
  qed
qed

lemma grow_blocked_below: "j \<in> grow_blocked hosts {i} \<longleftrightarrow> below hosts i j"
proof
  have closed: "{i} \<subseteq> grow_blocked hosts {i} \<and> (\<forall>j \<in> grow_blocked hosts {i}. below hosts i j)
      \<and> block_pass hosts (grow_blocked hosts {i}) = grow_blocked hosts {i}"
    by (rule grow_blocked_closed) (auto intro: below.self)
  then show "j \<in> grow_blocked hosts {i} \<Longrightarrow> below hosts i j" by blast
  show "below hosts i j \<Longrightarrow> j \<in> grow_blocked hosts {i}"
  proof (induction rule: below.induct)
    case self
    then show ?case using closed by blast
  next
    case (child k h)
    then show ?case using closed block_pass_fixed [of hosts "grow_blocked hosts {i}" h k] by blast
  qed
qed

lemma eligible_iff: "i \<noteq> [] \<Longrightarrow> set (eligibleParentHosts hosts i) = {h \<in> set hosts. \<not> below hosts i (sh_id h)}"
  by (simp add: eligibleParentHosts_def grow_blocked_below)

text \<open>The Hosts once the parent of the Host \<open>i\<close> is \<open>p\<close>.\<close>

definition with_parent :: "string \<Rightarrow> string \<Rightarrow> site_host list \<Rightarrow> site_host list" where
  "with_parent i p hosts = map_where (\<lambda>h. sh_id h = i) (\<lambda>h. h\<lparr>sh_parentHostId := Some p\<rparr>) hosts"

lemma with_parent_ids [simp]: "map sh_id (with_parent i p hosts) = map sh_id hosts"
  by (simp add: with_parent_def map_map_where)

lemma with_parent_mem:
  "h \<in> set (with_parent i p hosts) \<longleftrightarrow>
     (h \<in> set hosts \<and> sh_id h \<noteq> i) \<or> (\<exists>g \<in> set hosts. sh_id g = i \<and> h = g\<lparr>sh_parentHostId := Some p\<rparr>)"
  by (auto simp: with_parent_def map_where_def)

lemma with_parent_parent:
  assumes "f \<in> set (with_parent i p hosts)" and "sh_id f = i"
  shows "sh_parentHostId f = Some p"
proof -
  from assms obtain g where "f = g\<lparr>sh_parentHostId := Some p\<rparr>" unfolding with_parent_mem by blast
  then show ?thesis by simp
qed

lemma with_parent_set_ids [simp]: "sh_id ` set (with_parent i p hosts) = sh_id ` set hosts"
  by (metis list.set_map with_parent_ids)

lemma known_with_parent [simp]: "known_parent (with_parent i p hosts) h = known_parent hosts h"
  by (simp add: known_parent_def split: option.splits)

lemma rooted_after_eligible:
  assumes d: "distinct (map sh_id hosts)" and ne: "[] \<notin> sh_id ` set hosts"
    and r: "\<And>h. h \<in> set hosts \<Longrightarrow> rooted hosts h"
    and p: "p \<in> set hosts" "\<not> below hosts i (sh_id p)" and h: "h \<in> set (with_parent i (sh_id p) hosts)"
  shows "rooted (with_parent i (sh_id p) hosts) h"
proof -
  let ?hs = "with_parent i (sh_id p) hosts"
  have up: "rooted ?hs g" if "rooted hosts g" and "\<not> below hosts i (sh_id g)" for g
    using that
  proof (induction rule: rooted.induct)
    case (root g)
    then have "sh_id g \<noteq> i" by (auto intro: below.self)
    with root show ?case by (intro rooted.root) (auto simp: with_parent_mem)
  next
    case (child g f)
    have "sh_parentHostId f = Some (sh_id g)" "sh_id g \<noteq> []"
      using child.hyps(2,3) by (auto simp: known_parent_def split: option.splits if_splits)
    then have "\<not> below hosts i (sh_id g)" using child.prems child.hyps(2) by (metis below.child)
    moreover have "sh_id f \<noteq> i" using child.prems by (auto intro: below.self)
    ultimately have "rooted ?hs g" "f \<in> set ?hs" using child.IH child.hyps(2) by (simp_all add: with_parent_mem)
    then show ?case by (rule rooted.child) (simp add: child.hyps(3))
  qed
  have pne: "sh_id p \<noteq> []" using p(1) ne by force
  have new: "rooted ?hs f" if "f \<in> set ?hs" and "sh_id f = i" for f
  proof -
    have "sh_parentHostId f = Some (sh_id p)" by (rule with_parent_parent [OF that])
    then have "known_parent ?hs f = Some (sh_id p)" using p(1) pne by (simp add: known_parent_def)
    then show ?thesis by (rule rooted.child [OF up [OF r [OF p(1)] p(2)] that(1)])
  qed
  have old: "rooted ?hs f" if "rooted hosts f" and "sh_id f \<noteq> i" for f
    using that
  proof (induction rule: rooted.induct)
    case (root f)
    then show ?case by (intro rooted.root) (auto simp: with_parent_mem)
  next
    case (child g f)
    have mem: "f \<in> set ?hs" using child.hyps(2) child.prems by (simp add: with_parent_mem)
    show ?case
    proof (cases "sh_id g = i")
      case True
      have "sh_id g \<in> sh_id ` set ?hs" using known_parent_SomeD [OF child.hyps(3)] by simp
      then obtain g' where g': "g' \<in> set ?hs" "sh_id g = sh_id g'" by (rule imageE)
      then have "rooted ?hs g'" using new True by simp
      then show ?thesis by (rule rooted.child [OF _ mem]) (simp add: child.hyps(3) g'(2))
    next
      case False
      show ?thesis by (rule rooted.child [OF child.IH [OF False] mem]) (simp add: child.hyps(3))
    qed
  qed
  show ?thesis
  proof (cases "sh_id h = i")
    case True
    then show ?thesis using new h by simp
  next
    case False
    then show ?thesis using old [of h] r h by (auto simp: with_parent_mem)
  qed
qed

lemma not_rooted_after_blocked:
  assumes d: "distinct (map sh_id hosts)" and ne: "[] \<notin> sh_id ` set hosts" and i: "i \<in> sh_id ` set hosts"
    and p: "p \<in> set hosts" "below hosts i (sh_id p)"
    and h: "rooted (with_parent i (sh_id p) hosts) h"
  shows "\<not> below hosts i (sh_id h)"
proof -
  let ?hs = "with_parent i (sh_id p) hosts"
  have mem: "below hosts i j \<Longrightarrow> j \<in> sh_id ` set hosts" for j
    by (induction rule: below.induct) (use i in auto)
  have step: "\<exists>k. known_parent hosts f = Some k \<and> below hosts i k"
    if "f \<in> set ?hs" and "below hosts i (sh_id f)" for f
  proof (cases "sh_id f = i")
    case True
    then have "sh_parentHostId f = Some (sh_id p)" by (rule with_parent_parent [OF that(1)])
    moreover have "sh_id p \<noteq> []" using p(1) ne by force
    ultimately have "known_parent hosts f = Some (sh_id p)" using p(1) by (simp add: known_parent_def)
    then show ?thesis using p(2) by blast
  next
    case False
    from that(2) False obtain g k where g: "below hosts i k" "k \<noteq> []" "g \<in> set hosts"
        "sh_parentHostId g = Some k" "sh_id g = sh_id f"
      by (auto elim: below.cases)
    have "f \<in> set hosts" using that(1) False by (auto simp: with_parent_mem)
    with g d have "g = f" by (metis distinct_map inj_onD)
    then show ?thesis using g mem [of k] by (auto simp: known_parent_def)
  qed
  show ?thesis using h
  proof (induction rule: rooted.induct)
    case (root f)
    then show ?case using step [of f] by auto
  next
    case (child g f)
    then show ?case using step [of f] by auto
  qed
qed

section \<open>Properties\<close>



text \<open>C38. The parents offered for a Host are exactly those that keep the Hosts a forest: in a Site
  whose Hosts all hang below a top-level Host, a Host is offered as the new parent of \<open>i\<close> if and
  only if all Hosts still do once it is chosen.\<close>

theorem eligible_parents_keep_a_forest:
  assumes "distinct (map sh_id hosts)" and "[] \<notin> sh_id ` set hosts" and "i \<in> sh_id ` set hosts"
    and "\<forall>h \<in> set hosts. rooted hosts h" and "p \<in> set hosts"
  shows "p \<in> set (eligibleParentHosts hosts i)
    \<longleftrightarrow> (\<forall>h \<in> set (with_parent i (sh_id p) hosts). rooted (with_parent i (sh_id p) hosts) h)"
proof
  have ne: "i \<noteq> []" using assms(2,3) by metis
  show "\<forall>h \<in> set (with_parent i (sh_id p) hosts). rooted (with_parent i (sh_id p) hosts) h"
    if "p \<in> set (eligibleParentHosts hosts i)"
  proof -
    have "\<not> below hosts i (sh_id p)" using that eligible_iff [OF ne] by simp
    then show ?thesis using rooted_after_eligible [OF assms(1,2) _ assms(5)] assms(4) by blast
  qed
  show "p \<in> set (eligibleParentHosts hosts i)"
    if rooted: "\<forall>h \<in> set (with_parent i (sh_id p) hosts). rooted (with_parent i (sh_id p) hosts) h"
  proof (rule ccontr)
    assume "p \<notin> set (eligibleParentHosts hosts i)"
    then have b: "below hosts i (sh_id p)" using eligible_iff [OF ne] assms(5) by simp
    have "i \<in> sh_id ` set (with_parent i (sh_id p) hosts)" using assms(3) by simp
    then obtain h where "h \<in> set (with_parent i (sh_id p) hosts)" "sh_id h = i" by force
    with rooted not_rooted_after_blocked [OF assms(1-3,5) b, of h] show False by (auto intro: below.self)
  qed
qed

definition sample_host :: "string \<Rightarrow> string option \<Rightarrow> site_host" where
  "sample_host i parent = \<lparr>sh_id = i, sh_siteId = ''s'', sh_parentHostId = parent, hostname = i,
     sh_label = [], sh_connectionIds = []\<rparr>"

lemma eligible_parents_keep_a_forest_witness:
  "let hosts = [sample_host ''a'' None, sample_host ''b'' (Some ''a'')]
   in sample_host ''b'' (Some ''a'') \<notin> set (eligibleParentHosts hosts ''a'')
      \<and> \<not> (\<forall>h \<in> set (with_parent ''a'' ''b'' hosts). rooted (with_parent ''a'' ''b'' hosts) h)"
proof -
  let ?a = "sample_host ''a'' None" and ?b = "sample_host ''b'' (Some ''a'')"
  let ?hs = "[?a, ?b]"
  have a: "rooted ?hs ?a" by (rule rooted.root) (simp_all add: known_parent_def sample_host_def)
  have b: "rooted ?hs ?b"
    by (rule rooted.child [OF a]) (simp_all add: known_parent_def sample_host_def)
  have iff: "?b \<in> set (eligibleParentHosts ?hs ''a'')
      \<longleftrightarrow> (\<forall>h \<in> set (with_parent ''a'' (sh_id ?b) ?hs). rooted (with_parent ''a'' (sh_id ?b) ?hs) h)"
    by (rule eligible_parents_keep_a_forest) (use a b in \<open>simp_all add: sample_host_def\<close>)
  have "below ?hs ''a'' (sh_id ?b)"
    by (rule below.child [OF below.self]) (simp_all add: sample_host_def)
  then have "?b \<notin> set (eligibleParentHosts ?hs ''a'')" by (simp add: eligible_iff)
  with iff show ?thesis by (simp add: sample_host_def)
qed

end
