(* ===== verification/Ipam.thy ===== *)
theory Ipam
  imports Ipv4 Site_Hosts Workspace_Types
begin

text \<open>
  The IPAM view (\<open>src/src/modules/itops/ipamModel.ts\<close>, from the utilization bands on): the
  addresses KKTerm knows and IPAM does not, the prefixes suggested for them, and the filtered and
  grouped tree of prefixes.  The records hold the fields these functions read.
\<close>

datatype tone = ToneFree | ToneLow | ToneHigh | ToneFull

definition utilizationTone :: "rat \<Rightarrow> tone" where
  "utilizationTone u =
     (if u \<ge> 1 then ToneFull else if u \<ge> 4 / 5 then ToneHigh else if u > 0 then ToneLow else ToneFree)"

datatype claim_origin = FromConnection | FromHost

record claim_candidate =
  cc_address :: string
  cc_label :: string
  cc_origin :: claim_origin
  cc_connectionId :: "string option"
  cc_siteId :: "string option"
  cc_hostId :: "string option"

record ip_record =
  ir_address :: string
  ir_vrf :: string

record prefix_node =
  px_id :: string
  px_cidr :: string
  px_vrf :: string
  px_role :: string
  px_description :: string
  px_siteId :: "string option"
  px_parentId :: "string option"

record prefix_suggestion =
  sg_id :: string
  sg_cidr :: string
  sg_addresses :: "string list"

section \<open>Addresses without a prefix\<close>

definition addressCoveredByPrefixes :: "string \<Rightarrow> prefix_node list \<Rightarrow> string \<Rightarrow> bool" where
  "addressCoveredByPrefixes address pxs vrf =
     list_ex (\<lambda>p. px_vrf p = vrf \<and> addressInCidr address (px_cidr p)) pxs"

text \<open>Append to the entry of a key, or add an entry at the end: a \<open>Map\<close> of arrays.\<close>

fun put_group :: "'k \<Rightarrow> 'v \<Rightarrow> ('k \<times> 'v list) list \<Rightarrow> ('k \<times> 'v list) list" where
  "put_group k v [] = [(k, [v])]"
| "put_group k v ((j, vs) # gs) = (if j = k then (j, vs @ [v]) # gs else (j, vs) # put_group k v gs)"

definition suggested_cidr :: "nat \<Rightarrow> string" where
  "suggested_cidr n = formatIpv4 (word_of_nat n AND 0xffffff00) @ ''/24''"

definition add_candidate :: "prefix_node list \<Rightarrow> claim_candidate \<Rightarrow> (string \<times> string list) list
    \<Rightarrow> (string \<times> string list) list" where
  "add_candidate pxs c groups =
     (if addressCoveredByPrefixes (cc_address c) pxs [] then groups
      else case parseIpv4 (cc_address c) of
             None \<Rightarrow> groups
           | Some n \<Rightarrow> put_group (suggested_cidr n) (cc_address c) groups)"

definition cidr_order :: "string \<Rightarrow> nat" where
  "cidr_order cidr = nullish (parseIpv4 (hd (split_on CHR ''/'' cidr))) 0"

definition suggestMissingPrefixes :: "claim_candidate list \<Rightarrow> prefix_node list \<Rightarrow> prefix_suggestion list" where
  "suggestMissingPrefixes candidates pxs =
     map (\<lambda>(cidr, addresses). \<lparr>sg_id = cidr, sg_cidr = cidr, sg_addresses = addresses\<rparr>)
       (sort_key (\<lambda>(cidr, addresses). cidr_order cidr)
         (fold (add_candidate pxs) candidates []))"

definition uncontainedAddresses :: "ip_record list \<Rightarrow> prefix_node list \<Rightarrow> ip_record list" where
  "uncontainedAddresses addresses pxs =
     filter (\<lambda>r. \<not> addressCoveredByPrefixes (ir_address r) pxs (ir_vrf r)) addresses"

definition addressesInPrefix :: "ip_record list \<Rightarrow> prefix_node \<Rightarrow> ip_record list" where
  "addressesInPrefix addresses p =
     sort_key (\<lambda>r. nullish (parseIpv4 (ir_address r)) 0)
       (filter (\<lambda>r. ir_vrf r = px_vrf p \<and> addressInCidr (ir_address r) (px_cidr p)) addresses)"

section \<open>Candidates\<close>

text \<open>\<open>offer\<close>: the candidates so far are also the addresses seen.\<close>

definition offer :: "string set \<Rightarrow> string \<times> claim_candidate \<Rightarrow> claim_candidate list \<Rightarrow> claim_candidate list" where
  "offer taken rc cs =
     (let address = trim (fst rc)
      in if parseIpv4 address = None \<or> address \<in> taken \<or> address \<in> set (map cc_address cs) then cs
         else cs @ [(snd rc)\<lparr>cc_address := address\<rparr>])"

definition connection_candidate :: "connection \<Rightarrow> string \<times> claim_candidate" where
  "connection_candidate c =
     (host c, \<lparr>cc_address = [], cc_label = conn_name c, cc_origin = FromConnection,
               cc_connectionId = Some (conn_id c), cc_siteId = None, cc_hostId = None\<rparr>)"

definition host_candidate :: "site_host \<Rightarrow> string \<times> claim_candidate" where
  "host_candidate h =
     (hostname h, \<lparr>cc_address = [], cc_label = hostDisplayName h, cc_origin = FromHost,
                   cc_connectionId = js_nth (sh_connectionIds h) 0, cc_siteId = Some (sh_siteId h),
                   cc_hostId = Some (sh_id h)\<rparr>)"

definition collectClaimCandidates :: "connection list \<Rightarrow> site_host list \<Rightarrow> ip_record list
    \<Rightarrow> claim_candidate list" where
  "collectClaimCandidates connections hosts existing =
     (let taken = set (map ir_address (filter (\<lambda>r. trim (ir_vrf r) = []) existing));
          offered = fold (offer taken) (map connection_candidate connections @ map host_candidate hosts) []
      in sort_key (\<lambda>c. nullish (parseIpv4 (cc_address c)) 0) offered)"

section \<open>The tree of prefixes\<close>

definition prefix_of_id :: "prefix_node list \<Rightarrow> string \<Rightarrow> prefix_node option" where
  "prefix_of_id pxs i = map_of (rev (map (\<lambda>p. (px_id p, p)) pxs)) i"

lemma prefix_of_id_mem: "prefix_of_id pxs i = Some p \<Longrightarrow> p \<in> set pxs \<and> px_id p = i"
  by (auto simp: prefix_of_id_def dest!: map_of_SomeD)

text \<open>The walk up from a match: the ids it keeps.  It stops at an id it has seen.\<close>

function walk_up :: "prefix_node list \<Rightarrow> string set \<Rightarrow> string option \<Rightarrow> string list" where
  "walk_up pxs seen None = []"
| "walk_up pxs seen (Some i) =
     (if i = [] \<or> i \<in> seen then []
      else i # walk_up pxs (insert i seen) (Option.bind (prefix_of_id pxs i) px_parentId))"
  by pat_completeness auto
termination
proof (relation "measures [\<lambda>(ps, seen, i). card (px_id ` set ps - seen),
    \<lambda>(ps, seen, i). if i = None then 0 else 1]", goal_cases)
  case 1
  then show ?case by simp
next
  case (2 ps seen i)
  show ?case
  proof (cases "prefix_of_id ps i")
    case None
    have "card (px_id ` set ps - insert i seen) \<le> card (px_id ` set ps - seen)"
      by (rule card_mono) auto
    with None show ?thesis by (auto simp: le_less)
  next
    case (Some p)
    then have "i \<in> px_id ` set ps" using prefix_of_id_mem by force
    then have "card (px_id ` set ps - insert i seen) < card (px_id ` set ps - seen)"
      using 2 by (intro psubset_card_mono) auto
    then show ?thesis by simp
  qed
qed

definition prefix_matches :: "string \<Rightarrow> prefix_node \<Rightarrow> bool" where
  "prefix_matches needle p =
     str_includes (to_lower (px_cidr p @ '' '' @ px_role p @ '' '' @ px_description p @ '' '' @ px_vrf p))
       needle"

definition kept_ids :: "string \<Rightarrow> prefix_node list \<Rightarrow> string list" where
  "kept_ids needle pxs =
     concat (map (\<lambda>p. px_id p # walk_up pxs {px_id p} (px_parentId p))
       (filter (prefix_matches needle) pxs))"

definition filterPrefixTree :: "prefix_node list \<Rightarrow> string \<Rightarrow> prefix_node list" where
  "filterPrefixTree pxs query =
     (let needle = to_lower (trim query)
      in if needle = [] then pxs
         else filter (\<lambda>p. px_id p \<in> set (kept_ids needle pxs)) pxs)"

record prefix_group =
  pg_siteId :: "string option"
  pg_prefixes :: "prefix_node list"

definition group_site :: "string list \<Rightarrow> prefix_node \<Rightarrow> string option" where
  "group_site known p =
     (case px_siteId p of None \<Rightarrow> None | Some i \<Rightarrow> if i \<noteq> [] \<and> i \<in> set known then Some i else None)"

definition by_site :: "string list \<Rightarrow> prefix_node list \<Rightarrow> (string option \<times> prefix_node list) list" where
  "by_site known pxs = fold (\<lambda>p. put_group (group_site known p) p) pxs []"

definition groupPrefixesBySite :: "prefix_node list \<Rightarrow> string list \<Rightarrow> prefix_group list" where
  "groupPrefixesBySite pxs site_ids =
     (let groups = by_site site_ids pxs
      in js_compact (map (\<lambda>i. map_option (\<lambda>g. \<lparr>pg_siteId = Some i, pg_prefixes = g\<rparr>) (map_of groups (Some i)))
           site_ids)
         @ (case map_of groups None of
              None \<Rightarrow> []
            | Some g \<Rightarrow> [\<lparr>pg_siteId = None, pg_prefixes = g\<rparr>]))"

section \<open>Groups\<close>

definition ungroup :: "('k \<times> 'v list) list \<Rightarrow> 'v list" where
  "ungroup gs = concat (map snd gs)"

lemma put_group_keys: "set (map fst (put_group k v gs)) = insert k (set (map fst gs))"
  by (induction k v gs rule: put_group.induct) auto

lemma put_group_distinct: "distinct (map fst gs) \<Longrightarrow> distinct (map fst (put_group k v gs))"
proof (induction k v gs rule: put_group.induct)
  case (1 k v)
  then show ?case by simp
next
  case (2 k v j vs gs)
  then show ?case using put_group_keys [of k v gs] by (auto simp del: set_map)
qed

lemma put_group_mset: "mset (ungroup (put_group k v gs)) = add_mset v (mset (ungroup gs))"
  by (induction k v gs rule: put_group.induct) (auto simp: ungroup_def)

lemma put_group_mem:
  "(j, vs) \<in> set (put_group k v gs) \<Longrightarrow> (j, vs) \<in> set gs \<or> j = k \<and> (\<exists>us. vs = us @ [v] \<and> (us = [] \<or> (k, us) \<in> set gs))"
  by (induction k v gs rule: put_group.induct) (auto split: if_splits)

section \<open>Suggestions\<close>

lemma addressInCidr_text:
  "parseIPv4 t = Some x \<Longrightarrow> addressInCidr t cidr = addressInCidr (formatIPv4 x) cidr"
  by (simp add: addressInCidr_def parseIpv4_unat parse_format)

lemma suggested_cidr_text: "suggested_cidr (unat w) = cidr_text (block_first w 8) 24"
proof -
  have "maskForPrefix 24 = 0xffffff00" by (simp add: maskForPrefix_def)
  then have "(w :: address) AND 0xffffff00 = block_first w 8" using network_block [of 24 w] by simp
  moreover have "nat_string 24 = ''24''"
    by code_simp
  ultimately show ?thesis by (simp add: suggested_cidr_def cidr_text_def format_alt)
qed

lemma in_suggested_cidr:
  assumes "parseIpv4 t = Some n"
  shows "addressInCidr t (suggested_cidr n)"
proof -
  from assms obtain w where w: "parseIPv4 t = Some w" "n = unat w" by (auto simp: parseIpv4_unat)
  have "addressInCidr (formatIPv4 w) (cidr_text (block_first w 8) 24)"
    using addressInCidr_reads [OF reads_cidr_text, of 24 w "block_first w 8"]
    by (simp add: unat_block_first)
  then show ?thesis by (simp add: addressInCidr_text [OF w(1)] w(2) suggested_cidr_text)
qed

definition uncovered :: "prefix_node list \<Rightarrow> claim_candidate \<Rightarrow> bool" where
  "uncovered pxs c \<longleftrightarrow> parseIpv4 (cc_address c) \<noteq> None \<and> \<not> addressCoveredByPrefixes (cc_address c) pxs []"

definition groups_ok :: "(string \<times> string list) list \<Rightarrow> bool" where
  "groups_ok gs \<longleftrightarrow> distinct (map fst gs)
     \<and> (\<forall>(cidr, addresses) \<in> set gs. addresses \<noteq> [] \<and> (\<forall>a \<in> set addresses. addressInCidr a cidr))"

lemma add_candidate_skip: "\<not> uncovered pxs c \<Longrightarrow> add_candidate pxs c gs = gs"
  by (auto simp: uncovered_def add_candidate_def)

lemma add_candidate_put:
  assumes "uncovered pxs c"
  obtains n where "parseIpv4 (cc_address c) = Some n"
    and "add_candidate pxs c gs = put_group (suggested_cidr n) (cc_address c) gs"
  using assms by (auto simp: uncovered_def add_candidate_def)

lemma add_candidate_ok:
  assumes "groups_ok gs"
  shows "groups_ok (add_candidate pxs c gs)"
proof (cases "uncovered pxs c")
  case True
  then obtain n where n: "parseIpv4 (cc_address c) = Some n"
    and eq: "add_candidate pxs c gs = put_group (suggested_cidr n) (cc_address c) gs"
    by (rule add_candidate_put)
  show ?thesis
    unfolding eq groups_ok_def
  proof (intro conjI ballI)
    show "distinct (map fst (put_group (suggested_cidr n) (cc_address c) gs))"
      using assms by (simp add: groups_ok_def put_group_distinct)
    show "case g of (cidr, addresses) \<Rightarrow> addresses \<noteq> [] \<and> (\<forall>a \<in> set addresses. addressInCidr a cidr)"
      if "g \<in> set (put_group (suggested_cidr n) (cc_address c) gs)" for g
      using that assms in_suggested_cidr [OF n] put_group_mem [of "fst g" "snd g"]
      by (fastforce simp: groups_ok_def)
  qed
next
  case False
  then show ?thesis using assms by (simp add: add_candidate_skip)
qed

lemma fold_candidates:
  "groups_ok gs \<Longrightarrow> groups_ok (fold (add_candidate pxs) cs gs)
    \<and> mset (ungroup (fold (add_candidate pxs) cs gs))
        = mset (ungroup gs) + mset (map cc_address (filter (uncovered pxs) cs))"
proof (induction cs arbitrary: gs)
  case Nil
  then show ?case by simp
next
  case (Cons c cs)
  have "mset (ungroup (add_candidate pxs c gs))
      = mset (ungroup gs) + mset (map cc_address (filter (uncovered pxs) [c]))"
  proof (cases "uncovered pxs c")
    case True
    then show ?thesis by (rule add_candidate_put [of pxs c gs]) (simp add: put_group_mset True)
  next
    case False
    then show ?thesis by (simp add: add_candidate_skip)
  qed
  with Cons.IH [OF add_candidate_ok [OF Cons.prems, of pxs c]] show ?case by (simp add: add.assoc)
qed

text \<open>The suggested prefixes account for every known address outside IPAM: each address with
  an IPv4 text that no default-table prefix covers appears in the suggestions as often as it was
  offered, and nothing else does; suggestions have different CIDRs, are in numeric order, are
  never empty, and each contains all the addresses listed under it.\<close>

theorem suggestions_cover_known_addresses:
  fixes candidates pxs
  defines "s \<equiv> suggestMissingPrefixes candidates pxs"
  shows "mset (concat (map sg_addresses s)) = mset (map cc_address (filter (uncovered pxs) candidates))
    \<and> distinct (map sg_cidr s) \<and> sorted (map (cidr_order \<circ> sg_cidr) s)
    \<and> (\<forall>g \<in> set s. sg_addresses g \<noteq> [] \<and> list_all (\<lambda>a. addressInCidr a (sg_cidr g)) (sg_addresses g))"
proof -
  let ?gs = "fold (add_candidate pxs) candidates []"
  let ?sorted = "sort_key (\<lambda>(cidr, addresses). cidr_order cidr) ?gs"
  have ok: "groups_ok ?gs" and m: "mset (ungroup ?gs) = mset (map cc_address (filter (uncovered pxs) candidates))"
    using fold_candidates [of "[]" pxs candidates] by (simp_all add: groups_ok_def ungroup_def)
  have addr: "map sg_addresses s = map snd ?sorted" and cidr: "map sg_cidr s = map fst ?sorted"
    by (simp_all add: s_def suggestMissingPrefixes_def comp_def case_prod_beta)
  have "mset (concat (map snd ?sorted)) = mset (ungroup ?gs)"
  proof -
    have "mset (concat (map snd xs)) = \<Sum>\<^sub># (image_mset (mset \<circ> snd) (mset xs))" for xs :: "(string \<times> string list) list"
      by (induction xs) auto
    then show ?thesis by (simp add: ungroup_def)
  qed
  moreover have "distinct (map fst ?sorted)"
    using ok by (simp add: groups_ok_def distinct_map flip: set_map)
  moreover have "sorted (map (cidr_order \<circ> fst) ?sorted)"
  proof -
    have "(\<lambda>(cidr, addresses :: string list). cidr_order cidr) = cidr_order \<circ> fst" by auto
    then show ?thesis using sorted_sort_key [of "cidr_order \<circ> fst" ?gs] by simp
  qed
  then have "sorted (map (cidr_order \<circ> sg_cidr) s)" by (metis cidr map_map)
  moreover have "sg_addresses g \<noteq> [] \<and> list_all (\<lambda>a. addressInCidr a (sg_cidr g)) (sg_addresses g)"
    if "g \<in> set s" for g
    using that ok by (auto simp: s_def suggestMissingPrefixes_def groups_ok_def list_all_iff)
  ultimately show ?thesis using m addr cidr by simp
qed

lemma suggestions_cover_known_addresses_witness:
  "let c = (\<lambda>a. \<lparr>cc_address = a, cc_label = [], cc_origin = FromHost, cc_connectionId = None,
                 cc_siteId = None, cc_hostId = None\<rparr>);
       s = suggestMissingPrefixes [c ''10.0.0.5'', c ''host.local''] []
   in mset (concat (map sg_addresses s)) = {#''10.0.0.5''#}"
proof -
  have "parseIpv4 ''10.0.0.5'' \<noteq> None" "parseIpv4 ''host.local'' = None"
    by (simp_all add: parseIpv4_def trim_def is_space_def short_number_def is_digit_def digits_value_def
        digit_val_def)
  then show ?thesis
    unfolding Let_def by (subst suggestions_cover_known_addresses [THEN conjunct1])
      (auto simp: uncovered_def addressCoveredByPrefixes_def)
qed

section \<open>Filtering the tree\<close>

text \<open>The ids a node's chain of parents goes through.\<close>

inductive ancestor :: "prefix_node list \<Rightarrow> prefix_node \<Rightarrow> string \<Rightarrow> bool" for pxs q where
  parent: "ancestor pxs q i" if "px_parentId q = Some i" and "i \<noteq> []"
| further: "ancestor pxs q j"
    if "ancestor pxs q i" and "prefix_of_id pxs i = Some p" and "px_parentId p = Some j" and "j \<noteq> []"

definition next_up :: "prefix_node list \<Rightarrow> string \<Rightarrow> string option" where
  "next_up pxs i = Option.bind (prefix_of_id pxs i) px_parentId"

lemma walk_up_sound:
  "(\<And>i. start = Some i \<Longrightarrow> i \<noteq> [] \<Longrightarrow> ancestor pxs q i) \<Longrightarrow> j \<in> set (walk_up pxs seen start) \<Longrightarrow> ancestor pxs q j"
proof (induction pxs seen start rule: walk_up.induct)
  case (1 pxs seen)
  then show ?case by simp
next
  case (2 pxs seen i)
  have i: "i \<noteq> []" "i \<notin> seen" using 2(3) by (auto split: if_splits)
  then have anc: "ancestor pxs q i" using 2(2) by simp
  have "ancestor pxs q k" if "Option.bind (prefix_of_id pxs i) px_parentId = Some k" "k \<noteq> []" for k
    using that anc by (auto simp: bind_eq_Some_conv intro: ancestor.further)
  with 2(1) i have "j \<in> set (walk_up pxs (insert i seen) (Option.bind (prefix_of_id pxs i) px_parentId))
      \<Longrightarrow> ancestor pxs q j" by auto
  then show ?case using 2(3) i anc by auto
qed

lemma walk_up_closed:
  "(\<And>i k. i \<in> seen \<Longrightarrow> next_up pxs i = Some k \<Longrightarrow> k \<noteq> [] \<Longrightarrow> k \<in> seen \<or> start = Some k)
    \<Longrightarrow> (\<forall>i. start = Some i \<longrightarrow> i \<noteq> [] \<longrightarrow> i \<in> seen \<union> set (walk_up pxs seen start))
       \<and> (\<forall>i k. i \<in> seen \<union> set (walk_up pxs seen start) \<longrightarrow> next_up pxs i = Some k \<longrightarrow> k \<noteq> []
            \<longrightarrow> k \<in> seen \<union> set (walk_up pxs seen start))"
proof (induction pxs seen start rule: walk_up.induct)
  case (1 pxs seen)
  then show ?case by auto
next
  case (2 pxs seen i)
  show ?case
  proof (cases "i = [] \<or> i \<in> seen")
    case True
    then show ?thesis using 2(2) by auto
  next
    case False
    then have i: "i \<noteq> []" "i \<notin> seen" by auto
    let ?rest = "walk_up pxs (insert i seen) (next_up pxs i)"
    have eq: "walk_up pxs seen (Some i) = i # ?rest" using i by (simp add: next_up_def)
    note IH = 2(1) [OF False, folded next_up_def]
    have "(\<forall>j. next_up pxs i = Some j \<longrightarrow> j \<noteq> [] \<longrightarrow> j \<in> insert i seen \<union> set ?rest)
        \<and> (\<forall>j k. j \<in> insert i seen \<union> set ?rest \<longrightarrow> next_up pxs j = Some k \<longrightarrow> k \<noteq> []
        \<longrightarrow> k \<in> insert i seen \<union> set ?rest)"
      by (rule IH) (use 2(2) in auto)
    then have "\<forall>j k. j \<in> insert i seen \<union> set ?rest \<longrightarrow> next_up pxs j = Some k \<longrightarrow> k \<noteq> []
        \<longrightarrow> k \<in> insert i seen \<union> set ?rest" by blast
    then show ?thesis unfolding eq by simp
  qed
qed

lemma prefix_of_id_distinct:
  "distinct (map px_id pxs) \<Longrightarrow> q \<in> set pxs \<Longrightarrow> prefix_of_id pxs (px_id q) = Some q"
  unfolding prefix_of_id_def by (rule map_of_is_SomeI) (auto simp: comp_def simp flip: rev_map)

lemma walk_up_ancestors:
  assumes "distinct (map px_id pxs)" and "q \<in> set pxs"
  shows "j \<in> insert (px_id q) (set (walk_up pxs {px_id q} (px_parentId q)))
    \<longleftrightarrow> j = px_id q \<or> ancestor pxs q j"
proof
  let ?w = "insert (px_id q) (set (walk_up pxs {px_id q} (px_parentId q)))"
  have "next_up pxs (px_id q) = px_parentId q"
    by (simp add: next_up_def prefix_of_id_distinct [OF assms])
  then have closed: "(\<forall>i. px_parentId q = Some i \<longrightarrow> i \<noteq> [] \<longrightarrow> i \<in> ?w)
      \<and> (\<forall>i k. i \<in> ?w \<longrightarrow> next_up pxs i = Some k \<longrightarrow> k \<noteq> [] \<longrightarrow> k \<in> ?w)"
    using walk_up_closed [of "{px_id q}" pxs "px_parentId q"] by auto
  show "j = px_id q \<or> ancestor pxs q j" if "j \<in> ?w"
    using that walk_up_sound [of "px_parentId q" pxs q j "{px_id q}"] by (auto intro: ancestor.parent)
  have "j \<in> ?w" if "ancestor pxs q j"
    using that
  proof (induction rule: ancestor.induct)
    case (parent i)
    then show ?case using closed by blast
  next
    case (further i p j)
    then have "next_up pxs i = Some j" by (simp add: next_up_def)
    then show ?case using closed further by blast
  qed
  then show "j = px_id q \<or> ancestor pxs q j \<Longrightarrow> j \<in> ?w" by auto
qed

text \<open>Searching the prefix tree keeps, in their order, exactly the rows that match and all
  rows above a match, and it does so whatever parents are stored: the walk up from a match also
  ends, with the same rows, when parents form a cycle or are missing.\<close>

theorem prefix_search_keeps_ancestors:
  assumes "distinct (map px_id pxs)"
  shows "filterPrefixTree pxs query =
    (if trim query = [] then pxs
     else filter (\<lambda>p. \<exists>q \<in> set pxs. prefix_matches (to_lower (trim query)) q
            \<and> (p = q \<or> ancestor pxs q (px_id p))) pxs)"
proof (cases "trim query = []")
  case True
  then show ?thesis by (simp add: filterPrefixTree_def to_lower_def)
next
  case False
  let ?n = "to_lower (trim query)"
  have kept: "px_id p \<in> set (kept_ids ?n pxs) \<longleftrightarrow> (\<exists>q \<in> set pxs. prefix_matches ?n q
      \<and> (p = q \<or> ancestor pxs q (px_id p)))" if "p \<in> set pxs" for p
  proof -
    have "px_id p \<in> set (kept_ids ?n pxs) \<longleftrightarrow> (\<exists>q \<in> set pxs. prefix_matches ?n q
        \<and> px_id p \<in> insert (px_id q) (set (walk_up pxs {px_id q} (px_parentId q))))"
      by (auto simp: kept_ids_def)
    moreover have "px_id p = px_id q \<longleftrightarrow> p = q" if "q \<in> set pxs" for q
      using assms that \<open>p \<in> set pxs\<close> by (auto simp: distinct_map dest: inj_onD)
    ultimately show ?thesis using walk_up_ancestors [OF assms] by metis
  qed
  have "filterPrefixTree pxs query = filter (\<lambda>p. px_id p \<in> set (kept_ids ?n pxs)) pxs"
    using False by (simp add: filterPrefixTree_def Let_def to_lower_def)
  also have "\<dots> = filter (\<lambda>p. \<exists>q \<in> set pxs. prefix_matches ?n q \<and> (p = q \<or> ancestor pxs q (px_id p))) pxs"
    by (rule filter_cong [OF refl]) (rule kept)
  finally show ?thesis using False by simp
qed

lemma prefix_search_keeps_ancestors_witness:
  "let row = (\<lambda>i r parent. \<lparr>px_id = i, px_cidr = [], px_vrf = [], px_role = r, px_description = [],
                 px_siteId = None, px_parentId = parent\<rparr>)
   in filterPrefixTree [row ''a'' [] (Some ''b''), row ''b'' [] (Some ''a''), row ''c'' ''dmz'' (Some ''a'')] ''''
      = [row ''a'' [] (Some ''b''), row ''b'' [] (Some ''a''), row ''c'' ''dmz'' (Some ''a'')]"
  unfolding Let_def
  by (subst prefix_search_keeps_ancestors) (simp_all add: trim_def)

end
