(* ===== verification/Durable_State.thy ===== *)
theory Durable_State
  imports Js_Prelude Interfaces "HOL-Library.AList"
begin

text \<open>
  Durable frontend state (\<open>src/src/lib/durableUiState.ts\<close>): a synchronous cache
  (\<open>localStorage\<close>), writes to the database that wait for a timer, and the reconciliation of the
  two at startup.  The state holds the cache, the waiting writes, the commands sent to the backend
  and not yet executed, and the table the backend keeps; \<open>localStorage\<close> exists (\<open>window\<close> is
  defined).  The backend executes a command as its name says: it sets or deletes rows.
\<close>

definition DURABLE_UI_STATE_PREFIXES :: "string list" where
  "DURABLE_UI_STATE_PREFIXES =
     [''kkterm.quickCommandBar.'', ''kkterm.quickCommands.'', ''kkterm.quickCommandBundles.v1'',
      ''kkterm.quickCommandBundleSelection.'', ''kkterm.workspace.childConnections.v1'',
      ''kkterm.dashboard.notes.'', ''kkterm.dashboard.networkProfiles.v1'',
      ''kkterm.fileBrowserFavorites.v1'', ''kkterm.cliAccountLabels.v1'',
      ''kkterm.installerLauncherRecentPaths.v1'', ''kkterm.installerLauncherOptions.v1'',
      ''kkterm.installerGuiLauncherPaths.v1'', ''kkterm.itopsFreePlacement'', ''kkterm.itopsRackFacing'',
      ''kkterm.itopsRoomObjects'']"

definition isDurableKey :: "string \<Rightarrow> bool" where
  "isDurableKey k = list_ex (\<lambda>p. starts_with k p) DURABLE_UI_STATE_PREFIXES"

datatype db_command = SetRow string string | DeleteRow string | DeletePrefix string

type_synonym table = "string \<rightharpoonup> string"

fun exec_command :: "db_command \<Rightarrow> table \<Rightarrow> table" where
  "exec_command (SetRow k v) t = t(k \<mapsto> v)"
| "exec_command (DeleteRow k) t = t(k := None)"
| "exec_command (DeletePrefix p) t = (\<lambda>k. if starts_with k p then None else t k)"

record durable_state =
  tauri :: bool
  cache :: "(string \<times> string) list"
  pendingFlushes :: "(string \<times> string) list"
  in_flight :: "db_command list"
  database :: table

definition send :: "db_command list \<Rightarrow> durable_state \<Rightarrow> durable_state" where
  "send cmds s = s\<lparr>in_flight := in_flight s @ cmds\<rparr>"

section \<open>Reading, writing and removing\<close>

definition readDurableUiState :: "string \<Rightarrow> durable_state \<Rightarrow> string option" where
  "readDurableUiState k s = map_of (cache s) k"

definition flushToDatabase :: "string \<Rightarrow> string \<Rightarrow> durable_state \<Rightarrow> durable_state" where
  "flushToDatabase k v s =
     (if \<not> tauri s then s else s\<lparr>pendingFlushes := AList.update k v (pendingFlushes s)\<rparr>)"

text \<open>The timer of a waiting write runs out.\<close>

definition timer_fires :: "string \<Rightarrow> durable_state \<Rightarrow> durable_state" where
  "timer_fires k s =
     (case map_of (pendingFlushes s) k of
        None \<Rightarrow> s
      | Some v \<Rightarrow> send [SetRow k v] (s\<lparr>pendingFlushes := AList.delete k (pendingFlushes s)\<rparr>))"

text \<open>The argument \<open>stored\<close> says whether \<open>localStorage\<close> took the value (it throws when full).\<close>

definition writeDurableUiState :: "bool \<Rightarrow> string \<Rightarrow> string \<Rightarrow> durable_state \<Rightarrow> durable_state" where
  "writeDurableUiState stored k v s =
     flushToDatabase k v (if stored then s\<lparr>cache := AList.update k v (cache s)\<rparr> else s)"

definition removeDurableUiState :: "string \<Rightarrow> durable_state \<Rightarrow> durable_state" where
  "removeDurableUiState k s =
     (let s1 = s\<lparr>pendingFlushes := AList.delete k (pendingFlushes s), cache := AList.delete k (cache s)\<rparr>
      in if tauri s1 then send [DeleteRow k] s1 else s1)"

definition without_prefix :: "string \<Rightarrow> (string \<times> string) list \<Rightarrow> (string \<times> string) list" where
  "without_prefix p kvs = filter (\<lambda>(k, v). \<not> starts_with k p) kvs"

definition clearDurableUiStateByPrefix :: "string \<Rightarrow> durable_state \<Rightarrow> durable_state" where
  "clearDurableUiStateByPrefix p s =
     (let s1 = s\<lparr>pendingFlushes := without_prefix p (pendingFlushes s),
                 cache := without_prefix p (cache s)\<rparr>
      in if tauri s1 then send [DeletePrefix p] s1 else s1)"

definition resetDurableUiState :: "durable_state \<Rightarrow> durable_state" where
  "resetDurableUiState s = fold clearDurableUiStateByPrefix DURABLE_UI_STATE_PREFIXES s"

section \<open>Flushing, reloading and startup\<close>

definition flushDurableUiState :: "durable_state \<Rightarrow> durable_state" where
  "flushDurableUiState s =
     (if \<not> tauri s \<or> pendingFlushes s = [] then s
      else send (map (\<lambda>(k, v). SetRow k v) (pendingFlushes s)) (s\<lparr>pendingFlushes := []\<rparr>))"

text \<open>The two halves of a reload: up to the request of the rows, and what the rows do.\<close>

definition reload_begin :: "string \<Rightarrow> durable_state \<Rightarrow> durable_state" where
  "reload_begin p s =
     (if \<not> tauri s then s
      else s\<lparr>pendingFlushes := without_prefix p (pendingFlushes s),
             cache := without_prefix p (cache s)\<rparr>)"

definition reload_returns :: "string \<Rightarrow> (string \<times> string) list \<Rightarrow> durable_state \<Rightarrow> durable_state" where
  "reload_returns p records s =
     s\<lparr>cache := fold (\<lambda>(k, v) c. if starts_with k p then AList.update k v c else c) records (cache s)\<rparr>"

definition pull_row :: "string \<times> string \<Rightarrow> (string \<times> string) list \<Rightarrow> (string \<times> string) list" where
  "pull_row r c =
     (if isDurableKey (fst r) \<and> map_of c (fst r) = None then AList.update (fst r) (snd r) c else c)"

definition rows_to_push :: "(string \<times> string) list \<Rightarrow> (string \<times> string) list \<Rightarrow> db_command list" where
  "rows_to_push records c =
     map (\<lambda>(k, v). SetRow k v)
       (filter (\<lambda>(k, v). isDurableKey k \<and> map_of records k \<noteq> Some v) c)"

text \<open>Startup, with the rows the database lists (\<open>None\<close> when the request fails).\<close>

definition hydrateDurableUiState :: "(string \<times> string) list option \<Rightarrow> durable_state \<Rightarrow> durable_state" where
  "hydrateDurableUiState answer s =
     (if \<not> tauri s then s
      else case answer of
             None \<Rightarrow> s
           | Some records \<Rightarrow>
               (let c = fold pull_row records (cache s)
                in send (rows_to_push records c) (s\<lparr>cache := c\<rparr>)))"

text \<open>The backend executes the command sent first.\<close>

definition db_executes :: "durable_state \<Rightarrow> durable_state" where
  "db_executes s =
     (case in_flight s of
        [] \<Rightarrow> s
      | c # cs \<Rightarrow> s\<lparr>in_flight := cs, database := exec_command c (database s)\<rparr>)"

section \<open>What is promised: one table\<close>

datatype durable_event =
    DWrite bool string string | DRemove string | DClear string | DReset
  | DTimer string | DFlush | DExecute

fun durable_step :: "durable_event \<Rightarrow> durable_state \<Rightarrow> durable_state" where
  "durable_step (DWrite stored k v) s = writeDurableUiState stored k v s"
| "durable_step (DRemove k) s = removeDurableUiState k s"
| "durable_step (DClear p) s = clearDurableUiStateByPrefix p s"
| "durable_step DReset s = resetDurableUiState s"
| "durable_step (DTimer k) s = timer_fires k s"
| "durable_step DFlush s = flushDurableUiState s"
| "durable_step DExecute s = db_executes s"

definition drop_prefix :: "string \<Rightarrow> table \<Rightarrow> table" where
  "drop_prefix p t = (\<lambda>k. if starts_with k p then None else t k)"

fun table_step :: "durable_event \<Rightarrow> table \<Rightarrow> table" where
  "table_step (DWrite stored k v) t = t(k \<mapsto> v)"
| "table_step (DRemove k) t = t(k := None)"
| "table_step (DClear p) t = drop_prefix p t"
| "table_step DReset t = fold drop_prefix DURABLE_UI_STATE_PREFIXES t"
| "table_step _ t = t"

fun cache_takes_it :: "durable_event \<Rightarrow> durable_state \<Rightarrow> bool" where
  "cache_takes_it (DWrite stored k v) s = stored"
| "cache_takes_it e s = True"

text \<open>What the table holds once every waiting write is sent and every command executed.\<close>

definition eventual :: "durable_state \<Rightarrow> table" where
  "eventual s = fold exec_command (in_flight s) (database s) ++ map_of (pendingFlushes s)"

definition holds_table :: "durable_state \<Rightarrow> table \<Rightarrow> bool" where
  "holds_table s t \<longleftrightarrow>
     tauri s \<and> distinct (map fst (cache s)) \<and> distinct (map fst (pendingFlushes s))
     \<and> map_of (cache s) = t \<and> (\<forall>k. isDurableKey k \<longrightarrow> eventual s k = t k)"

lemma map_of_without_prefix: "map_of (without_prefix p kvs) = drop_prefix p (map_of kvs)"
  by (induction kvs) (auto simp: without_prefix_def drop_prefix_def)

lemma distinct_without_prefix: "distinct (map fst kvs) \<Longrightarrow> distinct (map fst (without_prefix p kvs))"
  by (simp add: without_prefix_def distinct_map_filter)

lemma exec_pending:
  "distinct (map fst kvs) \<Longrightarrow> fold exec_command (map (\<lambda>(k, v). SetRow k v) kvs) t = t ++ map_of kvs"
proof (induction kvs arbitrary: t)
  case Nil
  then show ?case by simp
next
  case (Cons kv kvs)
  obtain k v where kv: "kv = (k, v)" by (cases kv)
  with Cons.prems have "k \<notin> dom (map_of kvs)" by (simp add: dom_map_of_conv_image_fst)
  then have left: "t(k \<mapsto> v) ++ map_of kvs = (t ++ map_of kvs)(k \<mapsto> v)" by (rule map_add_upd_left)
  have "fold exec_command (map (\<lambda>(k, v). SetRow k v) (kv # kvs)) t
      = fold exec_command (map (\<lambda>(k, v). SetRow k v) kvs) (t(k \<mapsto> v))" by (simp add: kv)
  also have "\<dots> = t(k \<mapsto> v) ++ map_of kvs" by (rule Cons.IH) (use Cons.prems in simp)
  also have "\<dots> = (t ++ map_of kvs)(k \<mapsto> v)" by (rule left)
  also have "\<dots> = t ++ map_of (kv # kvs)" by (simp only: kv map_of.simps fst_conv snd_conv map_add_upd)
  finally show ?case .
qed

lemma map_add_remove: "f(k := None) ++ g(k := None) = (f ++ g)(k := None)"
  by (rule ext) (simp add: map_add_def split: option.splits)

lemma map_add_drop_prefix: "drop_prefix p f ++ drop_prefix p g = drop_prefix p (f ++ g)"
  by (auto simp: map_add_def drop_prefix_def)

lemma map_add_move: "g k = Some v \<Longrightarrow> f(k \<mapsto> v) ++ g(k := None) = f ++ g"
  by (auto simp: map_add_def split: option.splits)

lemma exec_drop_prefix: "exec_command (DeletePrefix p) t = drop_prefix p t"
  by (simp add: drop_prefix_def)

lemma send_simps [simp]:
  "tauri (send cs s) = tauri s" "cache (send cs s) = cache s"
  "pendingFlushes (send cs s) = pendingFlushes s" "database (send cs s) = database s"
  "in_flight (send cs s) = in_flight s @ cs"
  by (simp_all add: send_def)

lemma eventual_steps:
  "tauri s \<Longrightarrow> eventual (writeDurableUiState st k v s) = (eventual s)(k \<mapsto> v)"
  "tauri s \<Longrightarrow> eventual (removeDurableUiState k s) = (eventual s)(k := None)"
  "tauri s \<Longrightarrow> eventual (clearDurableUiStateByPrefix p s) = drop_prefix p (eventual s)"
  "eventual (timer_fires k s) = eventual s"
  "distinct (map fst (pendingFlushes s)) \<Longrightarrow> eventual (flushDurableUiState s) = eventual s"
  "eventual (db_executes s) = eventual s"
       apply (simp add: eventual_def writeDurableUiState_def flushToDatabase_def update_conv')
      apply (simp add: eventual_def removeDurableUiState_def delete_conv' map_add_remove)
     apply (simp add: eventual_def clearDurableUiStateByPrefix_def map_of_without_prefix
      map_add_drop_prefix exec_drop_prefix del: exec_command.simps)
    apply (simp add: eventual_def timer_fires_def delete_conv' map_add_move split: option.splits)
   apply (simp add: eventual_def flushDurableUiState_def exec_pending)
  apply (simp add: eventual_def db_executes_def split: list.splits)
  done

lemma write_holds: "holds_table s t \<Longrightarrow> holds_table (writeDurableUiState True k v s) (t(k \<mapsto> v))"
  by (simp add: holds_table_def eventual_steps)
    (simp add: writeDurableUiState_def flushToDatabase_def update_conv' distinct_update)

lemma remove_holds: "holds_table s t \<Longrightarrow> holds_table (removeDurableUiState k s) (t(k := None))"
  by (simp add: holds_table_def eventual_steps)
    (simp add: removeDurableUiState_def delete_conv' distinct_delete)

lemma clear_holds: "holds_table s t \<Longrightarrow> holds_table (clearDurableUiStateByPrefix p s) (drop_prefix p t)"
  by (simp add: holds_table_def eventual_steps)
    (auto simp: clearDurableUiStateByPrefix_def map_of_without_prefix distinct_without_prefix drop_prefix_def)

lemma clear_all_holds:
  "holds_table s t \<Longrightarrow> holds_table (fold clearDurableUiStateByPrefix ps s) (fold drop_prefix ps t)"
  by (induction ps arbitrary: s t) (auto intro: clear_holds)

lemma timer_holds: "holds_table s t \<Longrightarrow> holds_table (timer_fires k s) t"
  by (simp add: holds_table_def eventual_steps)
    (simp add: timer_fires_def distinct_delete split: option.splits)

lemma flush_holds: "holds_table s t \<Longrightarrow> holds_table (flushDurableUiState s) t"
  by (simp add: holds_table_def eventual_steps) (simp add: flushDurableUiState_def)

lemma execute_holds: "holds_table s t \<Longrightarrow> holds_table (db_executes s) t"
  by (simp add: holds_table_def eventual_steps) (simp add: db_executes_def split: list.splits)

lemma durable_step_holds:
  "holds_table s t \<Longrightarrow> cache_takes_it e s \<Longrightarrow> holds_table (durable_step e s) (table_step e t)"
  by (cases "(e, t)" rule: table_step.cases)
    (auto simp: resetDurableUiState_def intro: write_holds remove_holds clear_holds clear_all_holds
      timer_holds flush_holds execute_holds)

interpretation durable: simulation durable_step table_step holds_table cache_takes_it
  by unfold_locales (rule durable_step_holds)

text \<open>Reading a key back, \<open>None\<close> standing for a removed entry.\<close>

definition set_entry :: "string \<Rightarrow> string option \<Rightarrow> durable_state \<Rightarrow> durable_state" where
  "set_entry k v s = (case v of None \<Rightarrow> removeDurableUiState k s | Some w \<Rightarrow> writeDurableUiState True k w s)"

interpretation durable_entries: keyed_store readDurableUiState set_entry "\<lambda>v. True" "\<lambda>s. True"
  by unfold_locales
    (auto simp: readDurableUiState_def set_entry_def writeDurableUiState_def flushToDatabase_def
      removeDurableUiState_def Let_def update_conv' delete_conv' split: option.splits)

section \<open>Startup\<close>

lemma pull_rows:
  "map_of (fold pull_row rows c) k
     = (case map_of c k of Some v \<Rightarrow> Some v | None \<Rightarrow> if isDurableKey k then map_of rows k else None)"
proof (induction rows arbitrary: c)
  case Nil
  then show ?case by (simp split: option.splits)
next
  case (Cons r rows)
  show ?case
    unfolding fold_simps Cons.IH
    by (cases r) (auto simp: pull_row_def update_conv' split: option.splits)
qed

lemma distinct_pull_rows: "distinct (map fst c) \<Longrightarrow> distinct (map fst (fold pull_row rows c))"
  by (induction rows arbitrary: c) (auto simp: pull_row_def distinct_update)

lemma exec_push:
  assumes "distinct (map fst c)"
  shows "fold exec_command (rows_to_push records c) t k
    = (case map_of c k of Some v \<Rightarrow> if isDurableKey k \<and> map_of records k \<noteq> Some v then Some v else t k
         | None \<Rightarrow> t k)"
proof -
  let ?P = "\<lambda>k v. isDurableKey k \<and> map_of records k \<noteq> Some v"
  let ?f = "filter (\<lambda>(k, v). ?P k v) c"
  have "distinct (map fst ?f)" using assms by (rule distinct_map_filter)
  moreover have "map_of ?f k = (case map_of c k of Some v \<Rightarrow> if ?P k v then Some v else None | None \<Rightarrow> None)"
    using assms
  proof (induction c)
    case Nil
    then show ?case by simp
  next
    case (Cons kv c)
    have "map_of c k = None" if "k = fst kv" using that Cons.prems by (simp add: map_of_eq_None_iff)
    then show ?case using Cons by (cases kv) auto
  qed
  ultimately show ?thesis by (simp add: rows_to_push_def exec_pending map_add_def split: option.splits)
qed

text \<open>A start: nothing waits, nothing is under way, and the rows listed are those of the table.\<close>

definition starts_with_rows :: "(string \<times> string) list \<Rightarrow> durable_state \<Rightarrow> bool" where
  "starts_with_rows rows s \<longleftrightarrow>
     tauri s \<and> distinct (map fst (cache s)) \<and> pendingFlushes s = [] \<and> in_flight s = []
     \<and> database s = map_of rows"

lemma hydrate_holds:
  assumes "starts_with_rows rows s"
  shows "holds_table (hydrateDurableUiState (Some rows) s)
    (\<lambda>k. case map_of (cache s) k of Some v \<Rightarrow> Some v | None \<Rightarrow> if isDurableKey k then map_of rows k else None)"
proof -
  have d: "distinct (map fst (fold pull_row rows (cache s)))"
    using assms by (intro distinct_pull_rows) (simp add: starts_with_rows_def)
  show ?thesis
    using assms d
    by (auto simp: starts_with_rows_def holds_table_def hydrateDurableUiState_def eventual_def Let_def
        pull_rows exec_push [OF d] split: option.splits)
qed

text \<open>Every waiting write is sent and every command executed.\<close>

definition settle :: "durable_state \<Rightarrow> durable_state" where
  "settle s = (let s1 = flushDurableUiState s in fold durable_step (replicate (length (in_flight s1)) DExecute) s1)"

lemma execute_all:
  "length (in_flight s) = n \<Longrightarrow> fold durable_step (replicate n DExecute) s
     = s\<lparr>in_flight := [], database := fold exec_command (in_flight s) (database s)\<rparr>"
proof (induction n arbitrary: s)
  case 0
  then show ?case by simp
next
  case (Suc n)
  then obtain c cs where "in_flight s = c # cs" by (cases "in_flight s") auto
  with Suc show ?case by (simp add: db_executes_def)
qed

lemma settle_facts:
  assumes "holds_table s t"
  shows "holds_table (settle s) t \<and> pendingFlushes (settle s) = [] \<and> in_flight (settle s) = []"
proof -
  let ?s1 = "flushDurableUiState s"
  have h: "holds_table ?s1 t" using assms by (rule flush_holds)
  have p: "pendingFlushes ?s1 = []" using assms by (simp add: holds_table_def flushDurableUiState_def)
  have e: "settle s = ?s1\<lparr>in_flight := [], database := fold exec_command (in_flight ?s1) (database ?s1)\<rparr>"
    unfolding settle_def Let_def by (rule execute_all) (rule refl)
  show ?thesis using h p unfolding e by (simp add: holds_table_def eventual_def)
qed

lemma settled_database:
  assumes "holds_table s t" and "isDurableKey k"
  shows "database (settle s) k = t k"
proof -
  have "eventual (settle s) k = t k"
    using settle_facts [OF assms(1)] assms(2) unfolding holds_table_def by blast
  then show ?thesis using settle_facts [OF assms(1)] by (simp add: eventual_def)
qed

section \<open>Properties\<close>

definition fresh_profile :: "table \<Rightarrow> durable_state" where
  "fresh_profile t = \<lparr>tauri = True, cache = [], pendingFlushes = [], in_flight = [], database = t\<rparr>"


definition bundles_key :: string where "bundles_key = ''kkterm.quickCommandBundles.v1''"

lemma bundles_key_durable: "isDurableKey bundles_key"
  by (simp add: isDurableKey_def bundles_key_def DURABLE_UI_STATE_PREFIXES_def starts_with_def)


text \<open>C40. A write the cache does not take (a full \<open>localStorage\<close>) over an entry it holds reaches
  the database and is lost at the next start: the old entry of the cache wins and is pushed back
  over the newer row.\<close>

theorem failed_cache_write_is_lost:
  "let s0 = \<lparr>tauri = True, cache = [(bundles_key, old)], pendingFlushes = [], in_flight = [],
             database = map_of [(bundles_key, old)]\<rparr>;
       s1 = settle (writeDurableUiState False bundles_key new s0);
       s2 = settle (hydrateDurableUiState (Some [(bundles_key, new)]) s1)
   in old \<noteq> new \<longrightarrow>
      database s1 = map_of [(bundles_key, new)]
      \<and> readDurableUiState bundles_key s2 = Some old \<and> database s2 bundles_key = Some old"
proof -
  let ?s0 = "\<lparr>tauri = True, cache = [(bundles_key, old)], pendingFlushes = [], in_flight = [],
             database = map_of [(bundles_key, old)]\<rparr>"
  let ?s1 = "settle (writeDurableUiState False bundles_key new ?s0)"
  have s1: "?s1 = ?s0\<lparr>database := map_of [(bundles_key, new)]\<rparr>"
    by (simp add: settle_def flushDurableUiState_def writeDurableUiState_def flushToDatabase_def
        db_executes_def send_def)
  have "settle (hydrateDurableUiState (Some [(bundles_key, new)]) ?s1) = ?s0" if "old \<noteq> new"
    using that bundles_key_durable unfolding s1
    by (simp add: settle_def flushDurableUiState_def hydrateDurableUiState_def pull_row_def
        rows_to_push_def db_executes_def send_def)
  with s1 show ?thesis by (simp add: Let_def readDurableUiState_def)
qed

lemma failed_cache_write_is_lost_witness:
  "let s0 = \<lparr>tauri = True, cache = [(bundles_key, ''a'')], pendingFlushes = [], in_flight = [],
             database = map_of [(bundles_key, ''a'')]\<rparr>;
       s1 = settle (writeDurableUiState False bundles_key ''b'' s0)
   in database s1 = map_of [(bundles_key, ''b'')]"
proof -
  have "''a'' \<noteq> ''b''" by simp
  with failed_cache_write_is_lost [of "''a''" "''b''"] show ?thesis unfolding Let_def by blast
qed

end
